(* ===== verification/Go_Prelude.thy ===== *)
theory Go_Prelude
  imports Main "HOL-Library.Word" "HOL-Library.Char_ord" "HOL-Library.List_Lexorder"
begin

text \<open>
  The shared prelude: the types that stand for Go's, the parts of Go's standard library the
  sources use (strings, path cleaning, hexadecimal, decimal printing, JSON encoding, sorted
  string search) and the generic lemmas about them, and the reachability notion the state
  machines share.

  A Go \<open>string\<close> and a \<open>[]byte\<close> are both byte sequences: here both are \<^typ>\<open>string\<close>, whose
  characters are the 256 byte values.  Comparison of strings is bytewise lexicographic
  (\<open>HOL-Library.List_Lexorder\<close>), as in Go.  Unsigned machine integers are words; \<open>time.Duration\<close>
  and \<open>time.Time\<close> are nanosecond counts of type \<^typ>\<open>int\<close>.
\<close>

section \<open>Types\<close>

type_synonym bytes = string
type_synonym u8 = "8 word"
type_synonym u16 = "16 word"
type_synonym u32 = "32 word"
type_synonym u64 = "64 word"

text \<open>Durations and instants in nanoseconds; the constants of package \<open>time\<close>.\<close>

type_synonym duration = int
type_synonym instant = int

abbreviation (input) time_millisecond :: duration where "time_millisecond \<equiv> 1000000"
abbreviation (input) time_second :: duration where "time_second \<equiv> 1000000000"
abbreviation (input) time_minute :: duration where "time_minute \<equiv> 60000000000"
abbreviation (input) time_hour :: duration where "time_hour \<equiv> 3600000000000"

text \<open>The range of a Go \<open>int64\<close>, in which every duration lies.\<close>

definition in_int64 :: "int \<Rightarrow> bool" where
  "in_int64 d \<longleftrightarrow> - 9223372036854775808 \<le> d \<and> d < 9223372036854775808"

text \<open>\<open>int64(w)\<close> of a \<open>uint64\<close>, and the division of a duration, which rounds towards zero.\<close>

definition int64_of :: "u64 \<Rightarrow> int" where
  "int64_of w = (if uint w < 9223372036854775808 then uint w else uint w - 18446744073709551616)"

definition duration_div :: "duration \<Rightarrow> int \<Rightarrow> int" where
  "duration_div d unit = (if d < 0 then - ((- d) div unit) else d div unit)"

text \<open>\<open>t.Unix()\<close> rounds down to whole seconds; \<open>uint64(\<dots>)\<close> reduces modulo \<open>2^64\<close>.\<close>

definition unix_seconds :: "instant \<Rightarrow> int" where
  "unix_seconds t = t div 1000000000"

definition unix_u64 :: "instant \<Rightarrow> u64" where
  "unix_u64 t = word_of_int (unix_seconds t)"

text \<open>
  Errors.  The sources build almost every error with \<open>errors.New\<close>; such an error is its message.
  \<open>ErrNotExist\<close> and \<open>ErrExist\<close> are the values \<open>errors.Is\<close> is asked about, \<open>ErrContext\<close> is the
  error of a cancelled or expired context, \<open>ErrOs\<close> an error of the operating system that the
  code passes on, \<open>ErrForeign\<close> an error returned by code outside the repository.
\<close>

datatype go_error =
    ErrMsg string
  | ErrNotExist
  | ErrExist
  | ErrContext
  | ErrOs
  | ErrForeign string

type_synonym 'a result = "go_error + 'a"

text \<open>\<open>fmt.Errorf(prefix + "%w", err)\<close>, for an error that is its message.\<close>

definition wrap_error :: "string \<Rightarrow> go_error \<Rightarrow> go_error" where
  "wrap_error prefix e = (case e of ErrMsg m \<Rightarrow> ErrMsg (prefix @ m) | _ \<Rightarrow> e)"

named_theorems go_simps \<open>unfolding rules for the models of Go's standard library\<close>

section \<open>Strings\<close>

definition has_prefix :: "string \<Rightarrow> string \<Rightarrow> bool" where
  "has_prefix s p \<longleftrightarrow> take (length p) s = p"

definition has_suffix :: "string \<Rightarrow> string \<Rightarrow> bool" where
  "has_suffix s p \<longleftrightarrow> length p \<le> length s \<and> drop (length s - length p) s = p"

definition trim_prefix :: "string \<Rightarrow> string \<Rightarrow> string" where
  "trim_prefix s p = (if has_prefix s p then drop (length p) s else s)"

definition trim_suffix :: "string \<Rightarrow> string \<Rightarrow> string" where
  "trim_suffix s p = (if has_suffix s p then take (length s - length p) s else s)"

fun contains_sub :: "string \<Rightarrow> string \<Rightarrow> bool" where
  "contains_sub [] p \<longleftrightarrow> p = []"
| "contains_sub (c # s) p \<longleftrightarrow> has_prefix (c # s) p \<or> contains_sub s p"

definition contains_any :: "string \<Rightarrow> string \<Rightarrow> bool" where
  "contains_any s cs \<longleftrightarrow> list_ex (\<lambda>c. c \<in> set cs) s"

text \<open>\<open>strings.Split(s, c)\<close> for a one-byte separator: always at least one part.\<close>

fun split_on :: "char \<Rightarrow> string \<Rightarrow> string list" where
  "split_on c [] = [[]]"
| "split_on c (x # xs) =
     (if x = c then [] # split_on c xs
      else (case split_on c xs of [] \<Rightarrow> [[x]] | w # ws \<Rightarrow> (x # w) # ws))"

fun join_with :: "string \<Rightarrow> string list \<Rightarrow> string" where
  "join_with sep [] = []"
| "join_with sep [w] = w"
| "join_with sep (w # ws) = w @ sep @ join_with sep ws"

lemma split_on_nonempty [simp]: "split_on c s \<noteq> []"
  by (cases s) (auto split: list.splits)

lemma split_on_no_sep: "w \<in> set (split_on c s) \<Longrightarrow> c \<notin> set w"
proof (induction s arbitrary: w)
  case (Cons x xs)
  then show ?case
    by (cases "split_on c xs") (auto split: if_splits)
qed simp

lemma join_split: "join_with [c] (split_on c s) = s"
proof (induction s)
  case (Cons x xs)
  obtain w ws where w: "split_on c xs = w # ws"
    by (cases "split_on c xs") auto
  with Cons.IH show ?case by (cases ws) auto
qed simp

lemma split_on_no_occ: "c \<notin> set s \<Longrightarrow> split_on c s = [s]"
  by (induction s) auto

lemma split_on_append_sep: "c \<notin> set w \<Longrightarrow> split_on c (w @ c # s) = w # split_on c s"
  by (induction w) auto

lemma split_join:
  "ws \<noteq> [] \<Longrightarrow> (\<forall>w \<in> set ws. c \<notin> set w) \<Longrightarrow> split_on c (join_with [c] ws) = ws"
  by (induction "[c]" ws rule: join_with.induct)
    (auto simp: split_on_no_occ split_on_append_sep)

lemma has_prefix_append [simp]: "has_prefix (p @ s) p"
  by (simp add: has_prefix_def)

lemma has_prefix_iff: "has_prefix s p \<longleftrightarrow> (\<exists>t. s = p @ t)"
proof
  assume "has_prefix s p"
  then have "s = p @ drop (length p) s"
    by (metis append_take_drop_id has_prefix_def)
  then show "\<exists>t. s = p @ t" by blast
qed auto

lemma has_suffix_iff: "has_suffix s p \<longleftrightarrow> (\<exists>t. s = t @ p)"
proof
  assume h: "has_suffix s p"
  then have "s = take (length s - length p) s @ p"
    by (metis append_take_drop_id has_suffix_def)
  then show "\<exists>t. s = t @ p" by blast
qed (auto simp: has_suffix_def)

lemma trim_prefix_append [simp]: "trim_prefix (p @ s) p = s"
  by (simp add: trim_prefix_def)

section \<open>Hexadecimal\<close>

definition is_lower_hex :: "char \<Rightarrow> bool" where
  "is_lower_hex c \<longleftrightarrow> (CHR ''0'' \<le> c \<and> c \<le> CHR ''9'') \<or> (CHR ''a'' \<le> c \<and> c \<le> CHR ''f'')"

definition is_upper_hex :: "char \<Rightarrow> bool" where
  "is_upper_hex c \<longleftrightarrow> CHR ''A'' \<le> c \<and> c \<le> CHR ''F''"

definition is_digit :: "char \<Rightarrow> bool" where
  "is_digit c \<longleftrightarrow> CHR ''0'' \<le> c \<and> c \<le> CHR ''9''"

definition is_lower :: "char \<Rightarrow> bool" where
  "is_lower c \<longleftrightarrow> CHR ''a'' \<le> c \<and> c \<le> CHR ''z''"

definition is_upper :: "char \<Rightarrow> bool" where
  "is_upper c \<longleftrightarrow> CHR ''A'' \<le> c \<and> c \<le> CHR ''Z''"

text \<open>\<open>hex.DecodeString(s)\<close> returns no error: even length, digits of either case.\<close>

definition hex_decodable :: "string \<Rightarrow> bool" where
  "hex_decodable s \<longleftrightarrow> even (length s) \<and> list_all (\<lambda>c. is_lower_hex c \<or> is_upper_hex c) s"

definition hex_digit :: "nat \<Rightarrow> char" where
  "hex_digit n = ''0123456789abcdef'' ! n"

definition hex_byte :: "char \<Rightarrow> string" where
  "hex_byte c = [hex_digit (of_char c div 16), hex_digit (of_char c mod 16)]"

definition hex_encode :: "bytes \<Rightarrow> string" where
  "hex_encode bs = concat (map hex_byte bs)"

lemma is_lower_hex_hex_digit: "n < 16 \<Longrightarrow> is_lower_hex (hex_digit n)"
proof -
  have all: "list_all (\<lambda>n. is_lower_hex (hex_digit n)) [0..<16]" by code_simp
  assume "n < 16"
  then have "n \<in> set [0..<16]" by simp
  with all show ?thesis by (simp only: list_all_iff)
qed

lemma of_char_lt_256: "(of_char c :: nat) < 256"
  by (cases c) (simp add: of_char_Char)

lemma hex_byte_lower: "c \<in> set (hex_byte b) \<Longrightarrow> is_lower_hex c"
  using of_char_lt_256[of b]
  by (auto simp: hex_byte_def less_mult_imp_div_less intro!: is_lower_hex_hex_digit)

lemma length_hex_encode [simp]: "length (hex_encode bs) = 2 * length bs"
  by (induction bs) (simp_all add: hex_encode_def hex_byte_def)

lemma hex_encode_lower: "list_all is_lower_hex (hex_encode bs)"
  by (auto simp: hex_encode_def list_all_iff dest: hex_byte_lower)

lemma hex_digit_inject: "m < 16 \<Longrightarrow> n < 16 \<Longrightarrow> hex_digit m = hex_digit n \<longleftrightarrow> m = n"
proof -
  have d: "distinct ''0123456789abcdef''" by simp
  assume "m < 16" "n < 16"
  then show ?thesis
    unfolding hex_digit_def by (subst nth_eq_iff_index_eq [OF d]) auto
qed

lemma hex_byte_inject: "hex_byte a = hex_byte b \<longleftrightarrow> a = b"
proof
  assume h: "hex_byte a = hex_byte b"
  let ?a = "of_char a :: nat" and ?b = "of_char b :: nat"
  have "?a div 16 = ?b div 16" "?a mod 16 = ?b mod 16"
    using h of_char_lt_256[of a] of_char_lt_256[of b]
    by (auto simp: hex_byte_def hex_digit_inject)
  then have "?a = ?b" by (metis div_mult_mod_eq)
  then show "a = b" by simp
qed simp

lemma hex_encode_inject: "hex_encode xs = hex_encode ys \<longleftrightarrow> xs = ys"
proof
  show "hex_encode xs = hex_encode ys \<Longrightarrow> xs = ys"
  proof (induction xs arbitrary: ys)
    case Nil
    then show ?case by (cases ys) (auto simp: hex_encode_def hex_byte_def)
  next
    case (Cons x xs)
    then obtain y ys' where ys: "ys = y # ys'"
      by (cases ys) (auto simp: hex_encode_def hex_byte_def)
    with Cons.prems have "hex_byte x = hex_byte y" "hex_encode xs = hex_encode ys'"
      by (auto simp: hex_encode_def hex_byte_def)
    with Cons.IH ys show ?case by (simp add: hex_byte_inject)
  qed
qed simp

text \<open>
  The pattern \<open>^sha256:[0-9a-f]{64}$\<close>, which seven packages compile, and its variants with
  other prefixes.
\<close>

definition hex64_after :: "string \<Rightarrow> string \<Rightarrow> bool" where
  "hex64_after p s \<longleftrightarrow> has_prefix s p \<and> length s = length p + 64 \<and> list_all is_lower_hex (drop (length p) s)"

abbreviation (input) sha256_pattern :: "string \<Rightarrow> bool" where
  "sha256_pattern \<equiv> hex64_after ''sha256:''"

lemma hex64_afterI:
  "length h = 64 \<Longrightarrow> list_all is_lower_hex h \<Longrightarrow> hex64_after p (p @ h)"
  by (simp add: hex64_after_def)

lemma hex64_after_decompose:
  "hex64_after p s \<longleftrightarrow> (\<exists>h. s = p @ h \<and> length h = 64 \<and> list_all is_lower_hex h)"
  by (auto simp: hex64_after_def has_prefix_iff)

text \<open>ASCII lower case, as \<open>strings.ToLower\<close> acts on ASCII.\<close>

definition to_lower_char :: "char \<Rightarrow> char" where
  "to_lower_char c = (if is_upper c then char_of ((of_char c :: nat) + 32) else c)"

definition to_lower :: "string \<Rightarrow> string" where
  "to_lower s = map to_lower_char s"

definition to_upper_char :: "char \<Rightarrow> char" where
  "to_upper_char c = (if is_lower c then char_of ((of_char c :: nat) - 32) else c)"

definition to_upper :: "string \<Rightarrow> string" where
  "to_upper s = map to_upper_char s"

section \<open>Slash-separated paths\<close>

text \<open>
  \<open>path.Clean\<close>, which on Unix is also \<open>filepath.Clean\<close>: the elements are processed from the left
  with a stack of the elements kept (top first).
\<close>

definition clean_step :: "bool \<Rightarrow> string list \<Rightarrow> string \<Rightarrow> string list" where
  "clean_step rooted st w =
     (if w = [] \<or> w = ''.'' then st
      else if w = ''..'' then
        (case st of
           [] \<Rightarrow> if rooted then [] else [''..'']
         | t # rest \<Rightarrow> if t = ''..'' then ''..'' # st else rest)
      else w # st)"

definition path_clean :: "string \<Rightarrow> string" where
  "path_clean p =
     (if p = [] then ''.''
      else let rooted = (hd p = CHR ''/'');
               body = join_with ''/'' (rev (foldl (clean_step rooted) [] (split_on (CHR ''/'') p)))
           in if rooted then CHR ''/'' # body else if body = [] then ''.'' else body)"

definition is_abs :: "string \<Rightarrow> bool" where
  "is_abs p \<longleftrightarrow> has_prefix p ''/''"

definition path_join2 :: "string \<Rightarrow> string \<Rightarrow> string" where
  "path_join2 a b =
     (if a = [] then (if b = [] then [] else path_clean b)
      else if b = [] then path_clean a else path_clean (a @ ''/'' @ b))"

text \<open>\<open>path.Base\<close>: trailing slashes removed, then what follows the last slash.\<close>

definition path_base :: "string \<Rightarrow> string" where
  "path_base p =
     (if p = [] then ''.''
      else let q = rev (dropWhile (\<lambda>c. c = CHR ''/'') (rev p))
           in if q = [] then ''/'' else last (split_on (CHR ''/'') q))"

text \<open>\<open>filepath.Dir\<close>: everything up to the last slash, cleaned.\<close>

definition path_dir :: "string \<Rightarrow> string" where
  "path_dir p = path_clean (rev (dropWhile (\<lambda>c. c \<noteq> CHR ''/'') (rev p)))"

section \<open>Decimal numbers and JSON\<close>

fun show_nat :: "nat \<Rightarrow> string" where
  "show_nat n = (if n < 10 then [char_of (48 + n)] else show_nat (n div 10) @ [char_of (48 + n mod 10)])"

declare show_nat.simps [simp del]

definition show_int :: "int \<Rightarrow> string" where
  "show_int i = (if i < 0 then CHR ''-'' # show_nat (nat (- i)) else show_nat (nat i))"

lemma show_nat_nonempty [simp]: "show_nat n \<noteq> []"
  by (subst show_nat.simps) simp

lemma is_digit_char_of: "d < 10 \<Longrightarrow> is_digit (char_of (48 + d :: nat))"
proof -
  have all: "list_all (\<lambda>d. is_digit (char_of (48 + d :: nat))) [0..<10]" by code_simp
  assume "d < 10"
  then have "d \<in> set [0..<10]" by simp
  with all show ?thesis by (simp only: list_all_iff)
qed

lemma show_nat_digits: "list_all is_digit (show_nat n)"
proof (induction n rule: show_nat.induct)
  case (1 n)
  show ?case
  proof (cases "n < 10")
    case True
    then show ?thesis by (subst show_nat.simps) (simp add: is_digit_char_of)
  next
    case False
    with 1 have "list_all is_digit (show_nat (n div 10))" by simp
    with False show ?thesis by (subst show_nat.simps) (simp add: is_digit_char_of)
  qed
qed

text \<open>
  \<open>json.Marshal\<close> of the structs the sources write, as far as its output is observable: its bytes
  are hashed and its length is compared with limits.  A string is quoted, with the escapes Go's
  encoder uses for ASCII (HTML escaping on); bytes from 128 on are copied, which is what the
  encoder does for valid UTF-8.
\<close>

definition json_escape :: "char \<Rightarrow> string" where
  "json_escape c =
     (if c = CHR 0x22 then [CHR 0x5C, CHR 0x22]
      else if c = CHR 0x5C then [CHR 0x5C, CHR 0x5C]
      else if c = CHR 0x08 then [CHR 0x5C, CHR ''b'']
      else if c = CHR 0x0C then [CHR 0x5C, CHR ''f'']
      else if c = CHR 0x0A then [CHR 0x5C, CHR ''n'']
      else if c = CHR 0x0D then [CHR 0x5C, CHR ''r'']
      else if c = CHR 0x09 then [CHR 0x5C, CHR ''t'']
      else if of_char c < (0x20 :: nat) \<or> c = CHR ''<'' \<or> c = CHR ''>'' \<or> c = CHR ''&''
        then [CHR 0x5C, CHR ''u'', CHR ''0'', CHR ''0''] @ hex_byte c
      else [c])"

definition json_string :: "string \<Rightarrow> string" where
  "json_string s = CHR 0x22 # concat (map json_escape s) @ [CHR 0x22]"

definition json_bool :: "bool \<Rightarrow> string" where
  "json_bool b = (if b then ''true'' else ''false'')"

definition json_field :: "string \<times> string \<Rightarrow> string" where
  "json_field kv = json_string (fst kv) @ '':'' @ snd kv"

definition json_object :: "(string \<times> string) list \<Rightarrow> string" where
  "json_object kvs = ''{'' @ join_with '','' (map json_field kvs) @ ''}''"

definition json_array :: "string list \<Rightarrow> string" where
  "json_array vs = ''['' @ join_with '','' vs @ '']''"

text \<open>A field tagged \<open>omitempty\<close> is present only when its value is not the zero value.\<close>

definition omit_if :: "bool \<Rightarrow> string \<Rightarrow> string \<Rightarrow> (string \<times> string) list" where
  "omit_if zero k v = (if zero then [] else [(k, v)])"

text \<open>Characters the encoder copies unchanged; the strings of digests are made of them.\<close>

definition json_plain :: "char \<Rightarrow> bool" where
  "json_plain c \<longleftrightarrow> json_escape c = [c] \<and> c \<noteq> CHR 0x22"

lemma concat_json_escape_plain: "list_all json_plain s \<Longrightarrow> concat (map json_escape s) = s"
  by (induction s) (auto simp: json_plain_def)

lemma json_string_plain:
  "list_all json_plain s \<Longrightarrow> json_string s = CHR 0x22 # s @ [CHR 0x22]"
  by (simp add: json_string_def concat_json_escape_plain)

lemma length_json_escape: "1 \<le> length (json_escape c)"
  by (simp add: json_escape_def)

lemma length_json_string: "length s + 2 \<le> length (json_string s)"
proof (induction s)
  case (Cons c s)
  then show ?case using length_json_escape[of c] by (simp add: json_string_def)
qed (simp add: json_string_def)

lemma length_join_with_member: "w \<in> set ws \<Longrightarrow> length w \<le> length (join_with sep ws)"
  by (induction sep ws rule: join_with.induct) auto

lemma length_json_object_member: "(k, v) \<in> set kvs \<Longrightarrow> length v \<le> length (json_object kvs)"
proof -
  assume "(k, v) \<in> set kvs"
  then have "json_field (k, v) \<in> set (map json_field kvs)" by (metis image_eqI list.set_map)
  from length_join_with_member [OF this, of "'',''"]
  show ?thesis by (simp add: json_object_def json_field_def)
qed

lemma length_json_array_member: "v \<in> set vs \<Longrightarrow> length v \<le> length (json_array vs)"
  using length_join_with_member [of v vs "'',''"] by (simp add: json_array_def)

lemma is_lower_hex_json_plain:
  assumes "is_lower_hex c" shows "json_plain c"
proof -
  have ne: "c \<noteq> CHR 0x22" "c \<noteq> CHR 0x5C" "c \<noteq> CHR 0x08" "c \<noteq> CHR 0x0C" "c \<noteq> CHR 0x0A"
    "c \<noteq> CHR 0x0D" "c \<noteq> CHR 0x09" "c \<noteq> CHR ''<''" "c \<noteq> CHR ''>''" "c \<noteq> CHR ''&''"
    using assms by (auto simp: is_lower_hex_def)
  have "(48 :: nat) \<le> of_char c"
    using assms by (auto simp: is_lower_hex_def less_eq_char_def)
  with ne show ?thesis by (simp add: json_plain_def json_escape_def)
qed

section \<open>Sorted string slices\<close>

text \<open>
  \<open>sort.SearchStrings(a, x)\<close>: the binary search of package \<open>sort\<close>, returning the smallest index
  whose element is at least \<open>x\<close> when the slice is sorted.
\<close>

function search_strings :: "string list \<Rightarrow> string \<Rightarrow> nat \<Rightarrow> nat \<Rightarrow> nat" where
  "search_strings a x i j =
     (if i < j then
        let h = (i + j) div 2
        in if a ! h < x then search_strings a x (h + 1) j else search_strings a x i h
      else i)"
  by pat_completeness auto
termination
  by (relation "measure (\<lambda>(a, x, i, j). j - i)") auto

declare search_strings.simps [simp del]

lemma search_strings_spec:
  assumes "sorted a" and "i \<le> j" and "j \<le> length a"
    and "\<forall>k < i. a ! k < x" and "\<forall>k. j \<le> k \<and> k < length a \<longrightarrow> x \<le> a ! k"
  shows "search_strings a x i j \<le> length a
       \<and> (\<forall>k < search_strings a x i j. a ! k < x)
       \<and> (\<forall>k. search_strings a x i j \<le> k \<and> k < length a \<longrightarrow> x \<le> a ! k)"
  using assms
proof (induction a x i j rule: search_strings.induct)
  case (1 a x i j)
  define h where "h = (i + j) div 2"
  show ?case
  proof (cases "i < j")
    case False
    then have "search_strings a x i j = i" by (subst search_strings.simps) simp
    moreover have "i = j" using False "1.prems" by simp
    ultimately show ?thesis using "1.prems" by simp
  next
    case True
    then have h: "i \<le> h" "h < j" "h < length a" using "1.prems" by (auto simp: h_def)
    show ?thesis
    proof (cases "a ! h < x")
      case lt: True
      have "\<forall>k < h + 1. a ! k < x"
      proof (intro allI impI)
        fix k assume "k < h + 1"
        then have "a ! k \<le> a ! h" using h "1.prems"(1) by (simp add: sorted_nth_mono)
        then show "a ! k < x" using lt by (rule le_less_trans)
      qed
      then have "search_strings a x (h + 1) j \<le> length a
        \<and> (\<forall>k < search_strings a x (h + 1) j. a ! k < x)
        \<and> (\<forall>k. search_strings a x (h + 1) j \<le> k \<and> k < length a \<longrightarrow> x \<le> a ! k)"
        using h by (intro "1.IH"(1)[OF True h_def lt "1.prems"(1) _ "1.prems"(3) _ "1.prems"(5)]) auto
      moreover have "search_strings a x i j = search_strings a x (h + 1) j"
        using True lt by (subst search_strings.simps) (simp add: h_def)
      ultimately show ?thesis by simp
    next
      case ge: False
      have "\<forall>k. h \<le> k \<and> k < length a \<longrightarrow> x \<le> a ! k"
      proof (intro allI impI)
        fix k assume "h \<le> k \<and> k < length a"
        then have "a ! h \<le> a ! k" using h "1.prems"(1) by (simp add: sorted_nth_mono)
        then show "x \<le> a ! k" using ge by (meson linorder_not_less order_trans)
      qed
      then have "search_strings a x i h \<le> length a
        \<and> (\<forall>k < search_strings a x i h. a ! k < x)
        \<and> (\<forall>k. search_strings a x i h \<le> k \<and> k < length a \<longrightarrow> x \<le> a ! k)"
        using h by (intro "1.IH"(2)[OF True h_def ge "1.prems"(1) h(1) _ "1.prems"(4)]) auto
      moreover have "search_strings a x i j = search_strings a x i h"
        using True ge by (subst search_strings.simps) (simp add: h_def)
      ultimately show ?thesis by simp
    qed
  qed
qed

lemma search_strings_member:
  assumes "sorted a"
  shows "(search_strings a x 0 (length a) < length a \<and> a ! search_strings a x 0 (length a) = x)
         \<longleftrightarrow> x \<in> set a"
proof -
  let ?r = "search_strings a x 0 (length a)"
  have r: "?r \<le> length a" "\<forall>k < ?r. a ! k < x" "\<forall>k. ?r \<le> k \<and> k < length a \<longrightarrow> x \<le> a ! k"
  proof -
    have "\<forall>k. length a \<le> k \<and> k < length a \<longrightarrow> x \<le> a ! k" by (meson not_less)
    from search_strings_spec [OF assms le0 order_refl _ this]
    show "?r \<le> length a" "\<forall>k < ?r. a ! k < x" "\<forall>k. ?r \<le> k \<and> k < length a \<longrightarrow> x \<le> a ! k"
      by simp_all
  qed
  show ?thesis
  proof
    assume "x \<in> set a"
    then obtain k where k: "k < length a" "a ! k = x" by (auto simp: in_set_conv_nth)
    with r(2) have "?r \<le> k" by (meson leI less_irrefl)
    with k have lt: "?r < length a" by simp
    with r(3) have "x \<le> a ! ?r" by simp
    moreover have "a ! ?r \<le> a ! k" using assms \<open>?r \<le> k\<close> k(1) by (rule sorted_nth_mono)
    ultimately show "?r < length a \<and> a ! ?r = x" using lt k(2) by simp
  qed (metis nth_mem)
qed

text \<open>A slice in strictly increasing order has no duplicates.\<close>

fun strictly_sorted :: "string list \<Rightarrow> bool" where
  "strictly_sorted [] = True"
| "strictly_sorted [x] = True"
| "strictly_sorted (x # y # zs) = (x < y \<and> strictly_sorted (y # zs))"

lemma strictly_sorted_Cons: "strictly_sorted (x # xs) \<longleftrightarrow> (\<forall>y \<in> set xs. x < y) \<and> strictly_sorted xs"
proof (induction xs arbitrary: x)
  case (Cons y ys)
  have "x < y \<Longrightarrow> \<forall>z \<in> set ys. y < z \<Longrightarrow> \<forall>z \<in> set ys. x < z"
    by (meson less_trans)
  then show ?case using Cons.IH [of y] by (simp only: strictly_sorted.simps) auto
qed simp

lemma strictly_sorted_iff: "strictly_sorted xs \<longleftrightarrow> sorted xs \<and> distinct xs"
proof (induction xs)
  case (Cons x xs)
  then show ?case
    by (auto simp: strictly_sorted_Cons less_le)
qed simp

lemma sorted_nodup_strict:
  "sorted xs \<Longrightarrow> strictly_sorted xs \<longleftrightarrow> (\<forall>i. Suc i < length xs \<longrightarrow> xs ! i \<noteq> xs ! Suc i)"
proof (induction xs rule: strictly_sorted.induct)
  case (3 x y zs)
  have "(\<forall>i. Suc i < length (x # y # zs) \<longrightarrow> (x # y # zs) ! i \<noteq> (x # y # zs) ! Suc i)
    \<longleftrightarrow> x \<noteq> y \<and> (\<forall>i. Suc i < length (y # zs) \<longrightarrow> (y # zs) ! i \<noteq> (y # zs) ! Suc i)"
    by (auto simp: less_Suc_eq_0_disj nth_Cons split: nat.splits)
  moreover from "3.prems" have le: "x \<le> y" and "sorted (y # zs)" by simp_all
  then have "strictly_sorted (y # zs) \<longleftrightarrow> (\<forall>i. Suc i < length (y # zs) \<longrightarrow> (y # zs) ! i \<noteq> (y # zs) ! Suc i)"
    by (intro "3.IH")
  moreover from le have "x < y \<longleftrightarrow> x \<noteq> y" by (metis less_le)
  ultimately show ?case by (simp only: strictly_sorted.simps)
qed simp_all

section \<open>Reachable states and invariants\<close>

text \<open>
  The states a component can be in: those it may start in, and those a step leads to.  The
  locale gives the one induction every state-machine component needs; each component interprets
  it on its own step relation.
\<close>

inductive reach :: "('s \<Rightarrow> bool) \<Rightarrow> ('s \<Rightarrow> 's \<Rightarrow> bool) \<Rightarrow> 's \<Rightarrow> bool"
  for init :: "'s \<Rightarrow> bool" and step :: "'s \<Rightarrow> 's \<Rightarrow> bool" where
  reach_init: "init s \<Longrightarrow> reach init step s"
| reach_step: "reach init step s \<Longrightarrow> step s t \<Longrightarrow> reach init step t"

locale invariant_system =
  fixes init :: "'s \<Rightarrow> bool"
    and step :: "'s \<Rightarrow> 's \<Rightarrow> bool"
    and inv :: "'s \<Rightarrow> bool"
  assumes inv_init: "init s \<Longrightarrow> inv s"
    and inv_step: "inv s \<Longrightarrow> step s t \<Longrightarrow> inv t"
begin

lemma reach_inv: "reach init step s \<Longrightarrow> inv s"
  by (induction rule: reach.induct) (blast intro: inv_init inv_step)+

lemma steps_inv: "step\<^sup>*\<^sup>* s t \<Longrightarrow> inv s \<Longrightarrow> inv t"
  by (induction rule: rtranclp_induct) (blast intro: inv_step)+

end

end
