(* ===== verification/Go_Sha256.thy ===== *)
theory Go_Sha256
  imports Go_Prelude
begin

text \<open>
  Package \<open>crypto/sha256\<close> as the sources use it: \<open>sha256.Sum256\<close> of a byte sequence (FIPS 180-4),
  written on 32-bit words, and the textual digest \<open>"sha256:" + hex\<close> that the packages
  derive from it.  What the development needs of it is its shape: 32 bytes, hence a digest that the
  digest patterns accept.  Nothing here or later assumes that it has no collisions.
\<close>

unbundle bit_operations_syntax

definition sha_k :: "u32 list" where
  "sha_k =
    [1116352408, 1899447441, 3049323471, 3921009573, 961987163, 1508970993, 2453635748, 2870763221,
     3624381080, 310598401, 607225278, 1426881987, 1925078388, 2162078206, 2614888103, 3248222580,
     3835390401, 4022224774, 264347078, 604807628, 770255983, 1249150122, 1555081692, 1996064986,
     2554220882, 2821834349, 2952996808, 3210313671, 3336571891, 3584528711, 113926993, 338241895,
     666307205, 773529912, 1294757372, 1396182291, 1695183700, 1986661051, 2177026350, 2456956037,
     2730485921, 2820302411, 3259730800, 3345764771, 3516065817, 3600352804, 4094571909, 275423344,
     430227734, 506948616, 659060556, 883997877, 958139571, 1322822218, 1537002063, 1747873779,
     1955562222, 2024104815, 2227730452, 2361852424, 2428436474, 2756734187, 3204031479, 3329325298]"

type_synonym sha_state = "u32 \<times> u32 \<times> u32 \<times> u32 \<times> u32 \<times> u32 \<times> u32 \<times> u32"

definition sha_init :: sha_state where
  "sha_init = (1779033703, 3144134277, 1013904242, 2773480762, 1359893119, 2600822924, 528734635, 1541459225)"

definition sha_ch :: "u32 \<Rightarrow> u32 \<Rightarrow> u32 \<Rightarrow> u32" where
  "sha_ch x y z = (x AND y) XOR (NOT x AND z)"

definition sha_maj :: "u32 \<Rightarrow> u32 \<Rightarrow> u32 \<Rightarrow> u32" where
  "sha_maj x y z = (x AND y) XOR (x AND z) XOR (y AND z)"

definition sha_S0 :: "u32 \<Rightarrow> u32" where
  "sha_S0 x = word_rotr 2 x XOR word_rotr 13 x XOR word_rotr 22 x"

definition sha_S1 :: "u32 \<Rightarrow> u32" where
  "sha_S1 x = word_rotr 6 x XOR word_rotr 11 x XOR word_rotr 25 x"

definition sha_s0 :: "u32 \<Rightarrow> u32" where
  "sha_s0 x = word_rotr 7 x XOR word_rotr 18 x XOR drop_bit 3 x"

definition sha_s1 :: "u32 \<Rightarrow> u32" where
  "sha_s1 x = word_rotr 17 x XOR word_rotr 19 x XOR drop_bit 10 x"

text \<open>The message schedule, extended one word at a time; the list is kept latest word first.\<close>

definition sha_extend :: "u32 list \<Rightarrow> u32 list" where
  "sha_extend ws = (sha_s1 (ws ! 1) + ws ! 6 + sha_s0 (ws ! 14) + ws ! 15) # ws"

definition sha_schedule :: "u32 list \<Rightarrow> u32 list" where
  "sha_schedule block = rev ((sha_extend ^^ 48) (rev block))"

definition sha_round :: "sha_state \<Rightarrow> u32 \<times> u32 \<Rightarrow> sha_state" where
  "sha_round st kw =
     (case st of (a, b, c, d, e, f, g, h) \<Rightarrow>
        let t1 = h + sha_S1 e + sha_ch e f g + fst kw + snd kw;
            t2 = sha_S0 a + sha_maj a b c
        in (t1 + t2, a, b, c, d + t1, e, f, g))"

definition sha_add :: "sha_state \<Rightarrow> sha_state \<Rightarrow> sha_state" where
  "sha_add s t =
     (case (s, t) of ((a, b, c, d, e, f, g, h), (a', b', c', d', e', f', g', h')) \<Rightarrow>
        (a + a', b + b', c + c', d + d', e + e', f + f', g + g', h + h'))"

definition sha_compress :: "sha_state \<Rightarrow> u32 list \<Rightarrow> sha_state" where
  "sha_compress st block = sha_add st (foldl sha_round st (zip sha_k (sha_schedule block)))"

text \<open>Padding to a multiple of 64 bytes: \<open>0x80\<close>, zeros, the bit length in 8 big-endian bytes.\<close>

definition be_bytes :: "nat \<Rightarrow> nat \<Rightarrow> bytes" where
  "be_bytes n v = map (\<lambda>i. char_of ((v div 256 ^ (n - 1 - i)) mod 256)) [0..<n]"

definition sha_pad :: "bytes \<Rightarrow> bytes" where
  "sha_pad m = m @ [CHR 0x80] @ replicate ((119 - length m mod 64) mod 64) (CHR 0x00)
                 @ be_bytes 8 (8 * length m)"

fun be_words :: "bytes \<Rightarrow> u32 list" where
  "be_words (a # b # c # d # rest) =
     word_of_nat (of_char a * 16777216 + of_char b * 65536 + of_char c * 256 + of_char d) # be_words rest"
| "be_words _ = []"

function sha_blocks :: "sha_state \<Rightarrow> u32 list \<Rightarrow> sha_state" where
  "sha_blocks st ws =
     (if length ws < 16 then st else sha_blocks (sha_compress st (take 16 ws)) (drop 16 ws))"
  by pat_completeness auto
termination
  by (relation "measure (\<lambda>(st, ws). length ws)") auto

declare sha_blocks.simps [simp del]

definition sha_out :: "sha_state \<Rightarrow> bytes" where
  "sha_out st =
     (case st of (a, b, c, d, e, f, g, h) \<Rightarrow>
        concat (map (\<lambda>w. be_bytes 4 (unat w)) [a, b, c, d, e, f, g, h]))"

definition sha256 :: "bytes \<Rightarrow> bytes" where
  "sha256 m = sha_out (sha_blocks sha_init (be_words (sha_pad m)))"

definition sha256_digest :: "bytes \<Rightarrow> string" where
  "sha256_digest m = ''sha256:'' @ hex_encode (sha256 m)"

lemma length_be_bytes [simp]: "length (be_bytes n v) = n"
  by (simp add: be_bytes_def)

lemma length_sha256 [simp]: "length (sha256 m) = 32"
  by (simp add: sha256_def sha_out_def split: prod.split)

lemma sha256_digest_pattern [simp]: "hex64_after ''sha256:'' (sha256_digest m)"
  unfolding sha256_digest_def by (rule hex64_afterI) (simp_all add: hex_encode_lower)

lemma length_sha256_digest [simp]: "length (sha256_digest m) = 71"
  by (simp add: sha256_digest_def)

lemma sha256_digest_nonempty [simp]: "sha256_digest m \<noteq> []"
  by (simp add: sha256_digest_def)

lemma sha256_digest_eq: "sha256_digest a = sha256_digest b \<longleftrightarrow> sha256 a = sha256 b"
  by (simp add: sha256_digest_def hex_encode_inject)

text \<open>Big-endian fields of fixed width determine the value they encode.\<close>

lemma be_bytes_inject:
  assumes "v < 256 ^ n" and "w < 256 ^ n" and "be_bytes n v = be_bytes n w"
  shows "v = w"
  using assms
proof (induction n arbitrary: v w)
  case (Suc n)
  have snoc: "be_bytes (Suc n) x = be_bytes n (x div 256) @ [char_of (x mod 256)]" for x
  proof -
    have "map (\<lambda>i. char_of ((x div 256 ^ (n - i)) mod 256)) [0..<n] = be_bytes n (x div 256)"
      unfolding be_bytes_def
    proof (rule map_cong [OF refl])
      fix i assume "i \<in> set [0..<n]"
      then have "n - i = Suc (n - 1 - i)" by auto
      then have "x div 256 ^ (n - i) = x div 256 div 256 ^ (n - 1 - i)"
        by (simp add: div_mult2_eq)
      then show "char_of ((x div 256 ^ (n - i)) mod 256) = (char_of ((x div 256 div 256 ^ (n - 1 - i)) mod 256) :: char)"
        by simp
    qed
    then show ?thesis by (simp add: be_bytes_def)
  qed
  from Suc.prems(3) have "be_bytes n (v div 256) = be_bytes n (w div 256)"
    and c: "(char_of (v mod 256) :: char) = char_of (w mod 256)"
    by (simp_all add: snoc)
  moreover from Suc.prems(1,2) have "v div 256 < 256 ^ n" "w div 256 < 256 ^ n"
    by (simp_all add: less_mult_imp_div_less mult.commute)
  ultimately have "v div 256 = w div 256" using Suc.IH by blast
  moreover from c have "(of_char (char_of (v mod 256) :: char) :: nat) = of_char (char_of (w mod 256) :: char)"
    by simp
  then have "v mod 256 = w mod 256" by (simp only: of_char_of mod_mod_trivial)
  ultimately show ?case by (metis div_mult_mod_eq)
qed simp

end
