(* ===== verification/Contracts.thy ===== *)
theory Contracts
  imports Go_Sha256
begin

text \<open>
  The contracts that components promise each other, as locales.  Each is interpreted, in the theory
  of the component that keeps the promise, on that component's own operations.
\<close>

section \<open>Sizes as words\<close>

lemma unat_of_nat_bounded:
  assumes "n \<le> unat (m :: 'a::len word)"
  shows "unat (word_of_nat n :: 'a word) = n"
proof -
  have "n < 2 ^ LENGTH('a)"
    using assms unsigned_less [of m] by (rule le_less_trans)
  then show ?thesis
    by (simp add: unat_of_nat)
qed

section \<open>At most once\<close>

text \<open>
  A run of a system whose transitions either grant a key (an execution identity, an outcome, an
  effect) or do something else.  The list holds the keys granted, oldest first.
\<close>

inductive grant_run :: "('s \<Rightarrow> 'k \<Rightarrow> 's \<Rightarrow> bool) \<Rightarrow> ('s \<Rightarrow> 's \<Rightarrow> bool) \<Rightarrow> 's \<Rightarrow> 'k list \<Rightarrow> 's \<Rightarrow> bool"
  for grants :: "'s \<Rightarrow> 'k \<Rightarrow> 's \<Rightarrow> bool" and other :: "'s \<Rightarrow> 's \<Rightarrow> bool" where
  run_nil: "grant_run grants other s [] s"
| run_grant: "grant_run grants other s ks t \<Longrightarrow> grants t k u \<Longrightarrow> grant_run grants other s (ks @ [k]) u"
| run_other: "grant_run grants other s ks t \<Longrightarrow> other t u \<Longrightarrow> grant_run grants other s ks u"

lemma run_single:
  assumes "grants s k t"
  shows "grant_run grants other s [k] t"
proof -
  have "grant_run grants other s ([] @ [k]) t"
    by (rule run_grant) (rule run_nil, rule assms)
  then show ?thesis by simp
qed

locale at_most_once =
  fixes grants :: "'s \<Rightarrow> 'k \<Rightarrow> 's \<Rightarrow> bool"
    and other :: "'s \<Rightarrow> 's \<Rightarrow> bool"
    and spent :: "'s \<Rightarrow> 'k \<Rightarrow> bool"
  assumes grant_fresh: "grants s k t \<Longrightarrow> \<not> spent s k"
    and grant_spends: "grants s k t \<Longrightarrow> spent t k"
    and grant_keeps: "grants s k t \<Longrightarrow> spent s k' \<Longrightarrow> spent t k'"
    and other_keeps: "other s t \<Longrightarrow> spent s k \<Longrightarrow> spent t k"
begin

lemma run_keeps: "grant_run grants other s ks t \<Longrightarrow> spent s k \<Longrightarrow> spent t k"
  by (induction rule: grant_run.induct) (auto intro: grant_keeps other_keeps)

lemma run_spends: "grant_run grants other s ks t \<Longrightarrow> k \<in> set ks \<Longrightarrow> spent t k"
  by (induction rule: grant_run.induct) (auto intro: grant_keeps grant_spends other_keeps)

lemma run_fresh: "grant_run grants other s ks t \<Longrightarrow> k \<in> set ks \<Longrightarrow> \<not> spent s k"
  by (induction rule: grant_run.induct) (auto dest: grant_fresh run_keeps)

lemma run_distinct: "grant_run grants other s ks t \<Longrightarrow> distinct ks"
  by (induction rule: grant_run.induct) (auto dest: grant_fresh run_spends)

end

section \<open>Content addressing\<close>

text \<open>
  A store of byte strings under their digests.  \<open>get s d = Some v\<close> means that reading \<open>d\<close> can
  return \<open>v\<close>; \<open>safe s d\<close> that the object has been made durable.
\<close>

locale content_store =
  fixes get :: "'s \<Rightarrow> string \<Rightarrow> bytes option"
    and step :: "'s \<Rightarrow> 's \<Rightarrow> bool"
    and safe :: "'s \<Rightarrow> string \<Rightarrow> bool"
  assumes get_digest: "get s d = Some v \<Longrightarrow> sha256_digest v = d"
    and step_get: "step s t \<Longrightarrow> safe s d \<Longrightarrow> get t d = get s d"
    and step_safe: "step s t \<Longrightarrow> safe s d \<Longrightarrow> safe t d"
begin

lemma steps_get: "step\<^sup>*\<^sup>* s t \<Longrightarrow> safe s d \<Longrightarrow> safe t d \<and> get t d = get s d"
  by (induction rule: rtranclp_induct) (auto simp: step_get step_safe)

end

end
