(* ===== verification/Os_Files.thy ===== *)
theory Os_Files
  imports Go_Prelude
begin

text \<open>
  The files of a private state directory, as the durable components see them.

  A file is what the code can observe of it: its type, permission bits, size, owner, link count
  and content.  The content is kept decoded: \<open>Some c\<close> when the strict decoder of the component
  reads the file as exactly the value \<open>c\<close>, \<open>None\<close> when the decoder rejects it (an empty,
  torn or foreign file).  A file written by the component holds the value it encoded, since Go's
  JSON encoder and decoder are inverse on the structs written here.

  Two images of the directory are kept.  \<open>fs_live\<close> is what running processes see; \<open>fs_disk\<close>
  holds the directory entries a past directory sync has made durable.  A crash keeps for each name
  either the durable or the live entry, and the content of a file that was not synced may be lost.
  Which of these happens is not determined: it is a parameter of \<open>fs_crash\<close>, and statements about
  crashes quantify over it.
\<close>

datatype ftype = RegularFile | DirectoryFile | SymlinkFile | OtherFile

record 'c node =
  node_type :: ftype
  node_perm :: nat
  node_size :: nat
  node_owned :: bool
  node_nlink :: nat
  node_data :: "'c option"
  node_synced :: bool

text \<open>The permission constants of the sources, written there in octal.\<close>

abbreviation (input) mode_0400 :: nat where "mode_0400 \<equiv> 256"
abbreviation (input) mode_0500 :: nat where "mode_0500 \<equiv> 320"
abbreviation (input) mode_0600 :: nat where "mode_0600 \<equiv> 384"
abbreviation (input) mode_0700 :: nat where "mode_0700 \<equiv> 448"

record 'c fs =
  fs_live :: "string \<Rightarrow> 'c node option"
  fs_disk :: "string \<Rightarrow> 'c node option"

definition fs_empty :: "'c fs" where
  "fs_empty = \<lparr>fs_live = (\<lambda>_. None), fs_disk = (\<lambda>_. None)\<rparr>"

text \<open>
  The outcome of the system calls an operation makes, one flag per kind of call; \<open>False\<close> means
  the call reports an error.  An operation takes such a record as an argument, so that every error
  branch of the code is a branch of the model.
\<close>

record io =
  io_open :: bool
  io_write :: bool
  io_chmod :: bool
  io_sync :: bool
  io_close :: bool
  io_rename :: bool
  io_remove :: bool
  io_diropen :: bool
  io_dirsync :: bool
  io_read :: bool

definition io_ok :: io where
  "io_ok = \<lparr>io_open = True, io_write = True, io_chmod = True, io_sync = True, io_close = True,
            io_rename = True, io_remove = True, io_diropen = True,
            io_dirsync = True, io_read = True\<rparr>"

section \<open>System calls\<close>

text \<open>An empty file, as \<open>os.OpenFile(\<dots>, O_CREATE|O_EXCL, mode)\<close> or \<open>os.CreateTemp\<close> makes it.\<close>

definition new_node :: "nat \<Rightarrow> 'c node" where
  "new_node mode = \<lparr>node_type = RegularFile, node_perm = mode, node_size = 0, node_owned = True,
                    node_nlink = 1, node_data = None, node_synced = False\<rparr>"

definition node_write :: "'c \<Rightarrow> nat \<Rightarrow> 'c node \<Rightarrow> 'c node" where
  "node_write c len n = n\<lparr>node_data := Some c, node_size := len, node_synced := False\<rparr>"

definition node_sync :: "'c node \<Rightarrow> 'c node" where
  "node_sync n = n\<lparr>node_synced := True\<rparr>"

definition fs_put :: "string \<Rightarrow> 'c node \<Rightarrow> 'c fs \<Rightarrow> 'c fs" where
  "fs_put p n f = f\<lparr>fs_live := (fs_live f)(p := Some n)\<rparr>"

definition fs_remove :: "string \<Rightarrow> 'c fs \<Rightarrow> 'c fs" where
  "fs_remove p f = f\<lparr>fs_live := (fs_live f)(p := None)\<rparr>"

definition fs_dirsync :: "'c fs \<Rightarrow> 'c fs" where
  "fs_dirsync f = f\<lparr>fs_disk := fs_live f\<rparr>"

text \<open>
  A crash.  For each name, \<open>fst (ch p)\<close> tells whether the live entry reached the disk and
  \<open>snd (ch p)\<close> whether unsynced content did.
\<close>

definition crash_node :: "bool \<Rightarrow> 'c node \<Rightarrow> 'c node" where
  "crash_node keep n = (if node_synced n \<or> keep then n\<lparr>node_synced := True\<rparr>
                        else n\<lparr>node_data := None, node_synced := True\<rparr>)"

definition crash_map :: "(string \<Rightarrow> bool \<times> bool) \<Rightarrow> 'c fs \<Rightarrow> string \<Rightarrow> 'c node option" where
  "crash_map ch f p = map_option (crash_node (snd (ch p))) (if fst (ch p) then fs_live f p else fs_disk f p)"

definition fs_crash :: "(string \<Rightarrow> bool \<times> bool) \<Rightarrow> 'c fs \<Rightarrow> 'c fs" where
  "fs_crash ch f = \<lparr>fs_live = crash_map ch f, fs_disk = crash_map ch f\<rparr>"

section \<open>Replacing a file through a temporary file\<close>

text \<open>
  The sequence by which every component replaces a file: create a temporary file, restrict its
  mode, write, sync, close, rename it over the target, open and sync the directory.  The result names the
  call that failed, or \<open>None\<close>.  The temporary file has a fresh name that no operation reads, and
  is removed or ignored afterwards, so it is not an entry of the model's directory.
\<close>

datatype replace_step = AtCreate | AtChmod | AtWrite | AtSync | AtClose | AtRename | AtDiropen | AtDirsync

definition replace_file :: "io \<Rightarrow> string \<Rightarrow> 'c \<Rightarrow> nat \<Rightarrow> 'c fs \<Rightarrow> replace_step option \<times> 'c fs" where
  "replace_file w p c len f =
     (if \<not> io_open w then (Some AtCreate, f)
      else if \<not> io_chmod w then (Some AtChmod, f)
      else if \<not> io_write w then (Some AtWrite, f)
      else if \<not> io_sync w then (Some AtSync, f)
      else if \<not> io_close w then (Some AtClose, f)
      else if \<not> io_rename w then (Some AtRename, f)
      else let f' = fs_put p (node_sync (node_write c len (new_node mode_0600))) f
           in if \<not> io_diropen w then (Some AtDiropen, f')
              else if \<not> io_dirsync w then (Some AtDirsync, f') else (None, fs_dirsync f'))"

section \<open>Lemmas\<close>

lemma fs_live_put [simp]: "fs_live (fs_put p n f) = (fs_live f)(p := Some n)"
  and fs_disk_put [simp]: "fs_disk (fs_put p n f) = fs_disk f"
  and fs_live_remove [simp]: "fs_live (fs_remove p f) = (fs_live f)(p := None)"
  and fs_disk_remove [simp]: "fs_disk (fs_remove p f) = fs_disk f"
  and fs_live_dirsync [simp]: "fs_live (fs_dirsync f) = fs_live f"
  and fs_disk_dirsync [simp]: "fs_disk (fs_dirsync f) = fs_live f"
  and fs_live_crash [simp]: "fs_live (fs_crash ch f) = crash_map ch f"
  and fs_disk_crash [simp]: "fs_disk (fs_crash ch f) = crash_map ch f"
  by (simp_all add: fs_put_def fs_remove_def fs_dirsync_def fs_crash_def)

lemma fs_empty_simps [simp]: "fs_live fs_empty = (\<lambda>_. None)" "fs_disk fs_empty = (\<lambda>_. None)"
  by (simp_all add: fs_empty_def)

lemma node_data_simps [simp]:
  "node_data (node_sync n) = node_data n"
  "node_data (node_write c len n) = Some c"
  "node_data (new_node m) = None"
  "node_type (node_sync n) = node_type n"
  "node_type (node_write c len n) = node_type n"
  "node_type (new_node m) = RegularFile"
  "node_perm (node_sync n) = node_perm n"
  "node_perm (node_write c len n) = node_perm n"
  "node_perm (new_node m) = m"
  "node_size (node_sync n) = node_size n"
  "node_size (node_write c len n) = len"
  "node_size (new_node m) = 0"
  "node_owned (node_sync n) = node_owned n"
  "node_owned (node_write c len n) = node_owned n"
  "node_owned (new_node m)"
  "node_nlink (node_sync n) = node_nlink n"
  "node_nlink (node_write c len n) = node_nlink n"
  "node_nlink (new_node m) = 1"
  "node_synced (node_sync n)"
  "\<not> node_synced (node_write c len n)"
  "\<not> node_synced (new_node m)"
  by (simp_all add: node_sync_def node_write_def new_node_def)

lemma io_ok_simps [simp]:
  "io_open io_ok" "io_write io_ok" "io_chmod io_ok" "io_sync io_ok" "io_close io_ok"
  "io_rename io_ok" "io_remove io_ok" "io_diropen io_ok" "io_dirsync io_ok" "io_read io_ok"
  by (simp_all add: io_ok_def)

lemma crash_node_simps [simp]:
  "node_type (crash_node k n) = node_type n"
  "node_perm (crash_node k n) = node_perm n"
  "node_size (crash_node k n) = node_size n"
  "node_owned (crash_node k n) = node_owned n"
  "node_nlink (crash_node k n) = node_nlink n"
  "node_synced (crash_node k n)"
  by (simp_all add: crash_node_def)

lemma crash_node_data: "node_data (crash_node k n) = (if node_synced n \<or> k then node_data n else None)"
  by (simp add: crash_node_def)

lemma crash_node_synced: "node_synced n \<Longrightarrow> crash_node k n = n"
  by (simp add: crash_node_def)

text \<open>A synced file whose entry is durable survives every crash unchanged.\<close>

definition durable :: "'c fs \<Rightarrow> string \<Rightarrow> 'c node \<Rightarrow> bool" where
  "durable f p n \<longleftrightarrow> fs_live f p = Some n \<and> fs_disk f p = Some n \<and> node_synced n"

lemma durable_crash: "durable f p n \<Longrightarrow> durable (fs_crash ch f) p n"
  by (simp add: durable_def crash_map_def crash_node_synced)

lemma durable_live: "durable f p n \<Longrightarrow> fs_live f p = Some n"
  by (simp add: durable_def)

text \<open>A name that is present both live and on disk is present after a crash, and one absent from
  both is absent.\<close>

lemma crash_map_present:
  "fs_live f p \<noteq> None \<Longrightarrow> fs_disk f p \<noteq> None \<Longrightarrow> crash_map ch f p \<noteq> None"
  by (auto simp: crash_map_def)

lemma crash_map_absent: "fs_live f p = None \<Longrightarrow> fs_disk f p = None \<Longrightarrow> crash_map ch f p = None"
  by (auto simp: crash_map_def)

lemma crash_map_cases:
  assumes "crash_map ch f p = Some n"
  obtains m where "fs_live f p = Some m \<or> fs_disk f p = Some m" and "n = crash_node (snd (ch p)) m"
  using assms by (auto simp: crash_map_def split: if_splits)

lemma replace_file_other: "q \<noteq> p \<Longrightarrow> fs_live (snd (replace_file w p c len f)) q = fs_live f q"
  by (simp add: replace_file_def Let_def)

text \<open>Replacing leaves either the old entry or the new file, whole, never anything else.\<close>

lemma replace_file_atomic:
  "fs_live (snd (replace_file w p c len f)) p = fs_live f p \<or>
   fs_live (snd (replace_file w p c len f)) p = Some (node_sync (node_write c len (new_node mode_0600)))"
  by (simp add: replace_file_def Let_def)

lemma replace_file_success:
  assumes "replace_file w p c len f = (None, f')"
  shows "durable f' p (node_sync (node_write c len (new_node mode_0600)))"
    and "fs_live f' = (fs_live f)(p := Some (node_sync (node_write c len (new_node mode_0600))))"
    and "fs_disk f' = fs_live f'"
  using assms by (auto simp: replace_file_def Let_def durable_def split: if_splits)

lemma replace_file_ok:
  "replace_file io_ok p c len f =
     (None, fs_dirsync (fs_put p (node_sync (node_write c len (new_node mode_0600))) f))"
  by (simp add: replace_file_def Let_def)

lemma replace_file_live_disk:
  assumes "replace_file w p c len f = (r, f')"
  shows "(f' = f) \<or> (f' = fs_put p (node_sync (node_write c len (new_node mode_0600))) f)
       \<or> (f' = fs_dirsync (fs_put p (node_sync (node_write c len (new_node mode_0600))) f))"
  using assms by (auto simp: replace_file_def Let_def split: if_splits)

end
