(* ===== verification/Artifact_Store.thy ===== *)
theory Artifact_Store
  imports Contracts Os_Files
begin

text \<open>
  Package \<open>pkg/artifactstore\<close>: a bounded, immutable, content-addressed store in a private directory.

  The model's directory is the store's \<open>objects\<close> directory; a file is named by its name in it, which
  is the digest without its prefix.  A file's content is its bytes.  \<open>Put\<close> syncs an object's content
  before it links the object, so an entry without content (\<open>node_data = None\<close>) is not the work of
  this code; \<open>Get\<close> refuses it, as it refuses every content with another digest.
\<close>

abbreviation (input) MaxObjectBytesHard :: u64 where "MaxObjectBytesHard \<equiv> 67108864"

section \<open>Data and operations\<close>

definition is_media_char :: "char \<Rightarrow> bool" where
  "is_media_char c \<longleftrightarrow> is_lower c \<or> is_digit c \<or> c \<in> set ''!#$&^_.+-''"

definition media_part :: "string \<Rightarrow> bool" where
  "media_part s = (case s of [] \<Rightarrow> False
     | c # cs \<Rightarrow> (is_lower c \<or> is_digit c) \<and> length cs \<le> 126 \<and> list_all is_media_char cs)"

definition mediaTypePattern :: "string \<Rightarrow> bool" where
  "mediaTypePattern s = (case split_on (CHR ''/'') s of [a, b] \<Rightarrow> media_part a \<and> media_part b | _ \<Rightarrow> False)"

record Descriptor =
  dsc_Digest :: string
  dsc_MediaType :: string
  dsc_SizeBytes :: u64

record Store =
  sto_objects :: string
  sto_maximum :: u64

definition requirePrivateDirectory :: "'c node option \<Rightarrow> unit result" where
  "requirePrivateDirectory info =
     (case info of None \<Rightarrow> Inl (ErrMsg ''artifact store directory must be private'')
      | Some n \<Rightarrow> if node_type n \<noteq> DirectoryFile \<or> node_perm n \<noteq> mode_0700
                 then Inl (ErrMsg ''artifact store directory must be private'') else Inr ())"

text \<open>
  What \<open>Open\<close> meets: whether \<open>MkdirAll\<close> works, what \<open>EvalSymlinks\<close> gives, the two directories as
  \<open>Lstat\<close> shows them, and whether \<open>Mkdir\<close> of the object directory works or finds it there.
\<close>

record open_env =
  oe_mkdir_root :: bool
  oe_resolved :: "string option"
  oe_root :: "unit node option"
  oe_mkdir_objects :: bool
  oe_objects_exists :: bool
  oe_objects :: "unit node option"

definition OpenStore :: "string \<Rightarrow> u64 \<Rightarrow> open_env \<Rightarrow> Store result" where
  "OpenStore root maximum env =
     (if \<not> is_abs root \<or> maximum = 0 \<or> maximum > MaxObjectBytesHard
      then Inl (ErrMsg ''invalid artifact store configuration'')
      else if path_clean root \<noteq> root then Inl (ErrMsg ''artifact store root is not canonical'')
      else if \<not> oe_mkdir_root env then Inl (ErrMsg ''create artifact store root'')
      else if oe_resolved env \<noteq> Some (path_clean root)
      then Inl (ErrMsg ''artifact store root contains a symlink'')
      else case requirePrivateDirectory (oe_root env) of Inl e \<Rightarrow> Inl e | Inr _ \<Rightarrow>
        (if \<not> oe_mkdir_objects env \<and> \<not> oe_objects_exists env
         then Inl (ErrMsg ''create artifact object directory'')
         else case requirePrivateDirectory (oe_objects env) of Inl e \<Rightarrow> Inl e | Inr _ \<Rightarrow>
           Inr \<lparr>sto_objects = path_join2 (path_clean root) ''objects'', sto_maximum = maximum\<rparr>))"

definition object_path :: "string \<Rightarrow> string" where
  "object_path digest = trim_prefix digest ''sha256:''"

text \<open>A reader delivers some bytes and then either ends or fails (also by a cancelled context).\<close>

record reader =
  rd_data :: bytes
  rd_fail :: bool

definition copyBounded :: "bool \<Rightarrow> reader \<Rightarrow> u64 \<Rightarrow> bytes result" where
  "copyBounded write_ok source maximum =
     (let limit = unat maximum + 1; copied = take limit (rd_data source) in
      if \<not> write_ok \<or> (rd_fail source \<and> length (rd_data source) < limit)
      then Inl (ErrMsg ''write artifact object'')
      else if length copied > unat maximum then Inl (ErrMsg ''artifact object exceeds size limit'')
      else Inr copied)"

definition store_syncDirectory :: "io \<Rightarrow> unit result" where
  "store_syncDirectory w =
     (if \<not> io_diropen w then Inl (ErrMsg ''open artifact object directory'')
      else if \<not> io_dirsync w then Inl (ErrMsg ''sync artifact object directory'') else Inr ())"

text \<open>\<open>same\<close> is \<open>os.SameFile\<close> of the file as it was listed and as it was opened.\<close>

definition Get :: "io \<Rightarrow> bool \<Rightarrow> Store \<Rightarrow> bool \<Rightarrow> bool \<Rightarrow> string \<Rightarrow> bytes fs \<Rightarrow> bytes result" where
  "Get w same s ctx_nil ctx_err digest f =
     (if sto_objects s = [] \<or> ctx_nil \<or> \<not> hex64_after ''sha256:'' digest
      then Inl (ErrMsg ''invalid artifact get request'')
      else if ctx_err then Inl ErrContext
      else case fs_live f (object_path digest) of
        None \<Rightarrow> Inl (ErrMsg ''invalid artifact object'')
      | Some n \<Rightarrow>
          if node_type n \<noteq> RegularFile \<or> node_perm n \<noteq> mode_0400 \<or> node_size n > unat (sto_maximum s)
          then Inl (ErrMsg ''invalid artifact object'')
          else if \<not> io_open w then Inl (ErrMsg ''open artifact object'')
          else if \<not> same then Inl (ErrMsg ''artifact object changed while opening'')
          else (case node_data n of
              None \<Rightarrow> Inl (ErrMsg ''artifact object digest mismatch'')
            | Some content \<Rightarrow>
                let v = take (unat (sto_maximum s) + 1) content in
                if \<not> io_read w \<or> length v > unat (sto_maximum s) \<or> length v \<noteq> node_size n
                then Inl (ErrMsg ''read artifact object'')
                else if sha256_digest v \<noteq> digest then Inl (ErrMsg ''artifact object digest mismatch'')
                else Inr v))"

definition object_node :: "bytes \<Rightarrow> bytes node" where
  "object_node v = (node_sync (node_write v (length v) (new_node mode_0600)))\<lparr>node_perm := mode_0400\<rparr>"

text \<open>
  \<open>io_rename\<close> is the outcome of \<open>os.Link\<close> when the target does not exist.  The descriptor of the
  error path is the zero value, so an error carries none.
\<close>

definition Put :: "io \<Rightarrow> bool \<Rightarrow> Store \<Rightarrow> bool \<Rightarrow> bool \<Rightarrow> string \<Rightarrow> reader option \<Rightarrow> bytes fs
    \<Rightarrow> Descriptor result \<times> bytes fs" where
  "Put w same s ctx_nil ctx_err mediaType rd f =
     (case rd of None \<Rightarrow> (Inl (ErrMsg ''invalid artifact put request''), f) | Some source \<Rightarrow>
      if sto_objects s = [] \<or> ctx_nil \<or> \<not> mediaTypePattern mediaType
      then (Inl (ErrMsg ''invalid artifact put request''), f)
      else if ctx_err then (Inl ErrContext, f)
      else if \<not> io_open w then (Inl (ErrMsg ''create artifact temporary object''), f)
      else case copyBounded (io_write w) source (sto_maximum s) of
        Inl e \<Rightarrow> (Inl e, f)
      | Inr v \<Rightarrow>
          if \<not> io_sync w \<or> \<not> io_close w then (Inl ErrOs, f)
          else if \<not> io_chmod w then (Inl (ErrMsg ''protect artifact temporary object''), f)
          else
            let digest = sha256_digest v; target = object_path digest;
                descriptor = \<lparr>dsc_Digest = digest, dsc_MediaType = mediaType,
                              dsc_SizeBytes = word_of_nat (length v)\<rparr>
            in if fs_live f target \<noteq> None then
                 (case Get w same s ctx_nil ctx_err digest f of
                    Inl e \<Rightarrow> (Inl (ErrMsg ''existing artifact object failed verification''), f)
                  | Inr stored \<Rightarrow>
                      if length stored \<noteq> length v
                      then (Inl (ErrMsg ''existing artifact object failed verification''), f)
                      else (Inr descriptor, f))
               else if \<not> io_rename w then (Inl (ErrMsg ''commit artifact object''), f)
               else let f' = fs_put target (object_node v) f in
                 (case store_syncDirectory w of
                    Inl e \<Rightarrow> (Inl e, f')
                  | Inr _ \<Rightarrow> (Inr descriptor, fs_dirsync f')))"

text \<open>One step of a store: a \<open>Put\<close> with any outcome of its system calls, or a crash.\<close>

inductive store_step :: "Store \<Rightarrow> bytes fs \<Rightarrow> bytes fs \<Rightarrow> bool" for s :: Store where
  store_put: "store_step s f (snd (Put w same s ctx_nil ctx_err mediaType rd f))"
| store_crash: "store_step s f (fs_crash ch f)"

text \<open>What \<open>Get\<close> returns when its system calls work.\<close>

definition store_get :: "Store \<Rightarrow> bytes fs \<Rightarrow> string \<Rightarrow> bytes option" where
  "store_get s f d = (case Get io_ok True s False False d f of Inl _ \<Rightarrow> None | Inr v \<Rightarrow> Some v)"

definition store_safe :: "bytes fs \<Rightarrow> string \<Rightarrow> bool" where
  "store_safe f d \<longleftrightarrow> (\<exists>n. durable f (object_path d) n)"

section \<open>Lemmas\<close>

lemma object_node_simps [simp]:
  "node_type (object_node v) = RegularFile" "node_perm (object_node v) = mode_0400"
  "node_size (object_node v) = length v" "node_data (object_node v) = Some v" "node_synced (object_node v)"
  by (simp_all add: object_node_def node_sync_def node_write_def new_node_def)

lemma copyBounded_Inr:
  "copyBounded ok rd m = Inr v \<longleftrightarrow> ok \<and> \<not> rd_fail rd \<and> v = rd_data rd \<and> length v \<le> unat m"
  by (auto simp: copyBounded_def Let_def split: if_splits)

lemma Get_Inr_digest: "Get w same s cn ce d f = Inr v \<Longrightarrow> sha256_digest v = d"
  by (auto simp: Get_def Let_def split: if_splits option.splits)

lemma Get_live_cong: "fs_live f (object_path d) = fs_live f' (object_path d) \<Longrightarrow>
    Get w same s cn ce d f = Get w same s cn ce d f'"
  by (simp add: Get_def)

lemma Get_Inr_io_ok: "Get w same s cn ce d f = Inr v \<Longrightarrow> Get io_ok True s False False d f = Inr v"
  by (auto simp: Get_def Let_def split: if_splits option.splits)

lemma Get_object_node:
  assumes "fs_live f (object_path (sha256_digest v)) = Some (object_node v)"
    and "length v \<le> unat (sto_maximum s)" and "sto_objects s \<noteq> []"
  shows "Get io_ok True s False False (sha256_digest v) f = Inr v"
  using assms by (simp add: Get_def Let_def)

text \<open>\<open>Put\<close> leaves the directory as it was, or links one new object, whose entry it may sync.\<close>

lemma Put_fs:
  assumes "Put w same s cn ce mt rd f = (r, f')"
  shows "f' = f \<or> (\<exists>v. fs_live f (object_path (sha256_digest v)) = None \<and>
           (f' = fs_put (object_path (sha256_digest v)) (object_node v) f
            \<or> f' = fs_dirsync (fs_put (object_path (sha256_digest v)) (object_node v) f)))"
  using assms unfolding Put_def Let_def
  by (auto split: if_splits option.splits sum.splits)

lemma durable_put_new: "fs_live f q = None \<Longrightarrow> durable f p n \<Longrightarrow> durable (fs_put q m f) p n"
  by (auto simp: durable_def)

lemma durable_dirsync: "durable f p n \<Longrightarrow> durable (fs_dirsync f) p n"
  by (auto simp: durable_def)

lemma store_step_durable: "store_step s f f' \<Longrightarrow> durable f p n \<Longrightarrow> durable f' p n"
proof (induction rule: store_step.induct)
  case (store_put f w same cn ce mt rd)
  then show ?case
    using Put_fs [of w same s cn ce mt rd f] prod.collapse
    by (metis durable_put_new durable_dirsync)
qed (rule durable_crash)

lemma store_get_durable: "durable f (object_path d) n \<Longrightarrow> durable f' (object_path d) n \<Longrightarrow>
    store_get s f' d = store_get s f d"
  unfolding store_get_def using Get_live_cong [of f' d f] by (simp add: durable_def)

interpretation artifact: content_store "store_get s" "store_step s" store_safe
proof
  show "store_get s f d = Some v \<Longrightarrow> sha256_digest v = d" for f d v
    by (auto simp: store_get_def dest: Get_Inr_digest split: sum.splits)
  show "store_step s f f' \<Longrightarrow> store_safe f d \<Longrightarrow> store_get s f' d = store_get s f d" for f f' d
    unfolding store_safe_def using store_step_durable store_get_durable by blast
  show "store_step s f f' \<Longrightarrow> store_safe f d \<Longrightarrow> store_safe f' d" for f f' d
    unfolding store_safe_def using store_step_durable by blast
qed

section \<open>Properties\<close>

lemma Put_Inr:
  assumes "Put w same s cn ce mt rd f = (Inr desc, f')"
  obtains source v where "rd = Some source" and "v = rd_data source" and "length v \<le> unat (sto_maximum s)"
    and "sto_objects s \<noteq> []" and "dsc_Digest desc = sha256_digest v" and "dsc_MediaType desc = mt"
    and "mediaTypePattern mt" and "unat (dsc_SizeBytes desc) = length v"
    and "(\<exists>u. fs_live f (object_path (sha256_digest v)) \<noteq> None \<and> f' = f \<and> length u = length v \<and>
            Get w same s cn ce (sha256_digest v) f = Inr u)
      \<or> (fs_live f (object_path (sha256_digest v)) = None \<and>
         f' = fs_dirsync (fs_put (object_path (sha256_digest v)) (object_node v) f))"
proof -
  from assms obtain source where rd: "rd = Some source"
    by (auto simp: Put_def split: option.splits)
  from assms rd obtain v where v: "copyBounded (io_write w) source (sto_maximum s) = Inr v"
    by (auto simp: Put_def split: if_splits sum.splits)
  have len: "length v \<le> unat (sto_maximum s)" "v = rd_data source"
    using v by (auto simp: copyBounded_Inr)
  then have "unat (word_of_nat (length v) :: u64) = length v"
    using unat_of_nat_bounded by blast
  with assms rd v len show ?thesis
    by (intro that [of source v])
      (auto simp: Put_def Let_def split: if_splits sum.splits)
qed

lemma Put_report:
  "Put w same s cn ce mt (Some rd) f = (Inr desc, f') \<Longrightarrow>
     dsc_Digest desc = sha256_digest (rd_data rd) \<and> unat (dsc_SizeBytes desc) = length (rd_data rd)
     \<and> length (rd_data rd) \<le> unat (sto_maximum s)"
  by (erule Put_Inr) auto

lemma Put_readable:
  assumes "Put w same s cn ce mt (Some rd) f = (Inr desc, f')"
  shows "\<exists>v. Get io_ok True s False False (dsc_Digest desc) f' = Inr v
            \<and> sha256_digest v = dsc_Digest desc \<and> length v = length (rd_data rd)
            \<and> (fs_live f (object_path (dsc_Digest desc)) = None \<longrightarrow> v = rd_data rd)"
proof -
  obtain v where v: "v = rd_data rd" "length v \<le> unat (sto_maximum s)" "sto_objects s \<noteq> []"
      "dsc_Digest desc = sha256_digest v" "unat (dsc_SizeBytes desc) = length v"
    and f': "(\<exists>u. fs_live f (object_path (sha256_digest v)) \<noteq> None \<and> f' = f \<and> length u = length v \<and>
            Get w same s cn ce (sha256_digest v) f = Inr u)
      \<or> (fs_live f (object_path (sha256_digest v)) = None \<and>
         f' = fs_dirsync (fs_put (object_path (sha256_digest v)) (object_node v) f))"
    using assms by (rule Put_Inr) blast
  from f' show ?thesis
  proof
    assume "\<exists>u. fs_live f (object_path (sha256_digest v)) \<noteq> None \<and> f' = f \<and> length u = length v \<and>
            Get w same s cn ce (sha256_digest v) f = Inr u"
    then obtain u where "fs_live f (object_path (sha256_digest v)) \<noteq> None" "f' = f" "length u = length v"
        "Get w same s cn ce (sha256_digest v) f = Inr u" by blast
    then show ?thesis
      using v Get_Inr_io_ok Get_Inr_digest by (intro conjI exI [of _ u]) auto
  next
    assume new: "fs_live f (object_path (sha256_digest v)) = None \<and>
         f' = fs_dirsync (fs_put (object_path (sha256_digest v)) (object_node v) f)"
    then have "Get io_ok True s False False (sha256_digest v) f' = Inr v"
      using v by (intro Get_object_node) auto
    then show ?thesis
      using v by auto
  qed
qed

text \<open>
  What \<open>Put\<close> reports can be read back: after a successful \<open>Put\<close>, \<open>Get\<close> of the reported digest
  returns bytes with that digest and the reported size; the digest is the digest of the bytes put; and
  when the object was new the bytes read are the bytes put.
\<close>

theorem Put_then_Get:
  assumes "Put w same s cn ce mt (Some rd) f = (Inr desc, f')"
  shows "dsc_Digest desc = sha256_digest (rd_data rd) \<and> unat (dsc_SizeBytes desc) = length (rd_data rd)
     \<and> length (rd_data rd) \<le> unat (sto_maximum s)
     \<and> (\<exists>v. Get io_ok True s False False (dsc_Digest desc) f' = Inr v
            \<and> sha256_digest v = dsc_Digest desc \<and> length v = length (rd_data rd)
            \<and> (fs_live f (object_path (dsc_Digest desc)) = None \<longrightarrow> v = rd_data rd))"
  using Put_report [OF assms] Put_readable [OF assms] by blast


text \<open>
  When the object exists already, \<open>Put\<close> reports success after reading it back, and does not sync the
  directory.  After an earlier \<open>Put\<close> whose directory sync failed, a second \<open>Put\<close> of the same bytes
  therefore succeeds although a crash can still lose the object.
\<close>

definition demo_store :: Store where
  "demo_store = \<lparr>sto_objects = ''/var/lib/tos/objects'', sto_maximum = 1024\<rparr>"

definition demo_reader :: reader where
  "demo_reader = \<lparr>rd_data = ''report'', rd_fail = False\<rparr>"

definition demo_descriptor :: Descriptor where
  "demo_descriptor = \<lparr>dsc_Digest = sha256_digest ''report'', dsc_MediaType = ''text/plain'', dsc_SizeBytes = 6\<rparr>"

definition demo_object_fs :: "bytes fs" where
  "demo_object_fs = fs_put (object_path (sha256_digest ''report'')) (object_node ''report'') fs_empty"

lemma demo_media_type: "mediaTypePattern ''text/plain''"
  by (simp add: mediaTypePattern_def media_part_def is_media_char_def is_lower_def is_digit_def)

lemmas demo_put_defs = Put_def Let_def copyBounded_def demo_store_def demo_reader_def demo_descriptor_def
  demo_media_type store_syncDirectory_def

lemma demo_Put:
  "Put io_ok True demo_store False False ''text/plain'' (Some demo_reader) fs_empty =
     (Inr demo_descriptor, fs_dirsync demo_object_fs)"
  by (simp add: demo_put_defs demo_object_fs_def)

theorem Put_then_Get_witness:
  "\<exists>v. Get io_ok True demo_store False False (sha256_digest ''report'') (fs_dirsync demo_object_fs) = Inr v
     \<and> v = ''report''"
  using Put_then_Get [OF demo_Put] by (simp add: demo_descriptor_def demo_reader_def)


lemma Put_existing_not_durable:
  "\<exists>w f. fst (Put w True demo_store False False ''text/plain'' (Some demo_reader) fs_empty) \<noteq> Inr demo_descriptor
     \<and> f = snd (Put w True demo_store False False ''text/plain'' (Some demo_reader) fs_empty)
     \<and> Put io_ok True demo_store False False ''text/plain'' (Some demo_reader) f = (Inr demo_descriptor, f)
     \<and> (\<exists>ch e. Get io_ok True demo_store False False (dsc_Digest demo_descriptor) (fs_crash ch f) = Inl e)"
proof (intro exI conjI)
  let ?w = "io_ok\<lparr>io_dirsync := False\<rparr>"
  have first: "Put ?w True demo_store False False ''text/plain'' (Some demo_reader) fs_empty =
      (Inl (ErrMsg ''sync artifact object directory''), demo_object_fs)"
    by (simp add: demo_put_defs demo_object_fs_def)
  then show "fst (Put ?w True demo_store False False ''text/plain'' (Some demo_reader) fs_empty)
      \<noteq> Inr demo_descriptor"
    by simp
  show "demo_object_fs = snd (Put ?w True demo_store False False ''text/plain'' (Some demo_reader) fs_empty)"
    using first by simp
  have get: "Get io_ok True demo_store False False (sha256_digest ''report'') demo_object_fs = Inr ''report''"
    by (rule Get_object_node) (simp_all add: demo_object_fs_def demo_store_def)
  have "fs_live demo_object_fs (object_path (sha256_digest ''report'')) \<noteq> None"
    by (simp add: demo_object_fs_def)
  then show "Put io_ok True demo_store False False ''text/plain'' (Some demo_reader) demo_object_fs =
      (Inr demo_descriptor, demo_object_fs)"
    using get by (simp add: demo_put_defs)
  show "Get io_ok True demo_store False False (dsc_Digest demo_descriptor)
      (fs_crash (\<lambda>_. (False, False)) demo_object_fs) = Inl (ErrMsg ''invalid artifact object'')"
    by (simp add: Get_def demo_descriptor_def demo_object_fs_def crash_map_def demo_store_def)
qed

end
