(* ===== verification/Dir_Lock.thy ===== *)
theory Dir_Lock
  imports Os_Files
begin

text \<open>
  Package \<open>internal/dirlock\<close>: exclusive ownership of a private state directory by a process, through
  an advisory lock on a file in it (\<open>lock.go\<close>, \<open>lock_linux.go\<close>), and the ownership test of
  \<open>internal/osguard\<close>.

  A lock file is an inode with a path that leads to it.  The kernel keeps, for each inode, the open
  file that holds its lock; an open file is a number that is never reused.
\<close>

section \<open>Data\<close>

abbreviation (input) MaxNameBytes :: nat where "MaxNameBytes \<equiv> 128"

definition err_held :: go_error where
  "err_held = ErrMsg ''private directory is already managed''"

definition CurrentUserOwns :: "'c node option \<Rightarrow> bool" where
  "CurrentUserOwns info = (case info of None \<Rightarrow> False | Some n \<Rightarrow> node_owned n)"

definition CurrentUserOwnsSingleLink :: "'c node option \<Rightarrow> bool" where
  "CurrentUserOwnsSingleLink info = (case info of None \<Rightarrow> False | Some n \<Rightarrow> node_owned n \<and> node_nlink n = 1)"

text \<open>The kernel: the file at each inode and the holder of its lock.\<close>

record kernel =
  krn_file :: "nat \<Rightarrow> unit node"
  krn_holder :: "nat \<Rightarrow> nat option"

text \<open>
  What a call meets besides the kernel's state: the private directory, whether the open and the
  wrapping of the descriptor work, whether flock reports an error of its own, and the inodes the two
  \<open>Lstat\<close> calls find at the path (they may differ from the opened one when someone replaces the file).
\<close>

record lock_obs =
  lo_directory :: "unit node option"
  lo_open :: bool
  lo_newfile :: bool
  lo_stat :: bool
  lo_before :: "nat option"
  lo_flock :: bool
  lo_after :: "nat option"

record Lock =
  lk_file :: "(nat \<times> nat) option"   \<comment> \<open>inode and open file\<close>
  lk_closed :: bool

section \<open>Operations\<close>

text \<open>The checks of \<open>openAndLock\<close> up to the lock call; \<open>i\<close> is the inode that was opened.\<close>

definition openAndLock :: "lock_obs \<Rightarrow> nat \<Rightarrow> nat \<Rightarrow> kernel \<Rightarrow> (nat \<times> nat) result \<times> kernel" where
  "openAndLock obs i fd k =
     (case lo_directory obs of
        None \<Rightarrow> (Inl (ErrMsg ''invalid private ownership directory''), k)
      | Some d \<Rightarrow>
          if node_type d \<noteq> DirectoryFile \<or> node_perm d \<noteq> mode_0700 \<or> \<not> node_owned d
          then (Inl (ErrMsg ''invalid private ownership directory''), k)
          else if \<not> lo_open obs \<or> \<not> lo_newfile obs
          then (Inl (ErrMsg ''open private directory ownership lock''), k)
          else
            let n = krn_file k i in
            if \<not> lo_stat obs \<or> node_type n \<noteq> RegularFile \<or> node_perm n \<noteq> mode_0600
               \<or> \<not> node_owned n \<or> node_nlink n \<noteq> 1
            then (Inl (ErrMsg ''invalid private directory ownership lock''), k)
            else if lo_before obs \<noteq> Some i
            then (Inl (ErrMsg ''substituted private directory ownership lock''), k)
            else if krn_holder k i \<noteq> None then (Inl err_held, k)
            else if \<not> lo_flock obs then (Inl (ErrMsg ''acquire private directory ownership lock''), k)
            else if lo_after obs \<noteq> Some i
            then (Inl (ErrMsg ''substituted private directory ownership lock''), k)
            else (Inr (i, fd), k\<lparr>krn_holder := (krn_holder k)(i := Some fd)\<rparr>))"

definition valid_lock_name :: "string \<Rightarrow> bool" where
  "valid_lock_name name \<longleftrightarrow>
     name \<noteq> [] \<and> length name \<le> MaxNameBytes \<and> path_base name = name \<and> name \<noteq> ''.'' \<and> name \<noteq> ''..''
     \<and> CHR ''/'' \<notin> set name"

definition Acquire :: "string \<Rightarrow> string \<Rightarrow> lock_obs \<Rightarrow> nat \<Rightarrow> nat \<Rightarrow> kernel \<Rightarrow> Lock result \<times> kernel" where
  "Acquire directory name obs i fd k =
     (if directory = [] \<or> \<not> is_abs directory \<or> \<not> valid_lock_name name
      then (Inl (ErrMsg ''invalid directory lock configuration''), k)
      else case openAndLock obs i fd k of
        (Inl e, k') \<Rightarrow> (Inl e, k')
      | (Inr h, k') \<Rightarrow> (Inr \<lparr>lk_file = Some h, lk_closed = False\<rparr>, k'))"

text \<open>Closing the descriptor releases the lock, whether or not the explicit unlock reported an error.\<close>

definition unlockAndClose :: "bool \<Rightarrow> bool \<Rightarrow> nat \<times> nat \<Rightarrow> kernel \<Rightarrow> unit result \<times> kernel" where
  "unlockAndClose unlock_ok close_ok h k =
     (if unlock_ok \<and> close_ok then Inr () else Inl (ErrMsg ''release private directory ownership lock''),
      if krn_holder k (fst h) = Some (snd h)
      then k\<lparr>krn_holder := (krn_holder k)(fst h := None)\<rparr> else k)"

definition Lock_Close :: "bool \<Rightarrow> bool \<Rightarrow> Lock \<Rightarrow> kernel \<Rightarrow> unit result \<times> Lock \<times> kernel" where
  "Lock_Close unlock_ok close_ok l k =
     (if lk_closed l then (Inr (), l, k)
      else
        let l' = l\<lparr>lk_closed := True, lk_file := None\<rparr> in
        (case lk_file l of
           None \<Rightarrow> (Inl (ErrMsg ''invalid directory ownership lock''), l', k)
         | Some h \<Rightarrow> (case unlockAndClose unlock_ok close_ok h k of (r, k') \<Rightarrow> (r, l', k'))))"

section \<open>Exclusive ownership\<close>

text \<open>The locks of all processes together with the kernel's state.\<close>

record lock_system =
  ls_kernel :: kernel
  ls_locks :: "nat \<Rightarrow> Lock option"   \<comment> \<open>by open file number\<close>

inductive lock_step :: "lock_system \<Rightarrow> lock_system \<Rightarrow> bool" where
  lock_acquired: "ls_locks s fd = None \<Longrightarrow> Acquire directory name obs i fd (ls_kernel s) = (Inr l, k') \<Longrightarrow>
    lock_step s (s\<lparr>ls_kernel := k', ls_locks := (ls_locks s)(fd := Some l)\<rparr>)"
| lock_refused: "Acquire directory name obs i fd (ls_kernel s) = (Inl e, k') \<Longrightarrow>
    lock_step s (s\<lparr>ls_kernel := k'\<rparr>)"
| lock_closed: "ls_locks s fd = Some l \<Longrightarrow> Lock_Close u c l (ls_kernel s) = (r, l', k') \<Longrightarrow>
    lock_step s (s\<lparr>ls_kernel := k', ls_locks := (ls_locks s)(fd := Some l')\<rparr>)"

definition lock_init :: "lock_system \<Rightarrow> bool" where
  "lock_init s \<longleftrightarrow> ls_locks s = (\<lambda>_. None) \<and> krn_holder (ls_kernel s) = (\<lambda>_. None)"

text \<open>Every open lock is recorded in the kernel as the holder of its inode.\<close>

definition lock_inv :: "lock_system \<Rightarrow> bool" where
  "lock_inv s \<longleftrightarrow>
     (\<forall>fd l i fd'. ls_locks s fd = Some l \<longrightarrow> lk_file l = Some (i, fd') \<longrightarrow>
        fd' = fd \<and> krn_holder (ls_kernel s) i = Some fd)"

lemma openAndLock_cases:
  assumes "openAndLock obs i fd k = (r, k')"
  shows "(\<exists>e. r = Inl e) \<and> k' = k
       \<or> r = Inr (i, fd) \<and> krn_holder k i = None \<and> k' = k\<lparr>krn_holder := (krn_holder k)(i := Some fd)\<rparr>
         \<and> lo_after obs = Some i"
  using assms by (auto simp: openAndLock_def Let_def split: option.splits if_splits)

lemma Acquire_Inr:
  assumes "Acquire d name obs i fd k = (Inr l, k')"
  shows "l = \<lparr>lk_file = Some (i, fd), lk_closed = False\<rparr>" and "krn_holder k i = None"
    and "k' = k\<lparr>krn_holder := (krn_holder k)(i := Some fd)\<rparr>"
  using assms openAndLock_cases [of obs i fd k]
  by (auto simp: Acquire_def split: if_splits prod.splits sum.splits)

lemma Acquire_Inl: "Acquire d name obs i fd k = (Inl e, k') \<Longrightarrow> k' = k"
  using openAndLock_cases [of obs i fd k]
  by (auto simp: Acquire_def split: if_splits prod.splits sum.splits)

lemma Lock_Close_cases:
  assumes "Lock_Close u c l k = (r, l', k')"
  shows "k' = k \<and> (l' = l \<or> lk_file l' = None) \<or>
    (\<exists>h. lk_file l = Some h \<and> lk_file l' = None \<and> krn_holder k (fst h) = Some (snd h) \<and>
       k' = k\<lparr>krn_holder := (krn_holder k)(fst h := None)\<rparr>)"
  using assms
  by (auto simp: Lock_Close_def Let_def unlockAndClose_def split: if_splits option.splits)

lemma lock_inv_step: "lock_step s t \<Longrightarrow> lock_inv s \<Longrightarrow> lock_inv t"
proof (induction rule: lock_step.induct)
  case (lock_acquired s fd d name obs i l k')
  note acq = Acquire_Inr [OF lock_acquired(2)]
  show ?case
    using lock_acquired(1,3) acq unfolding lock_inv_def by (auto split: if_splits)
next
  case (lock_refused d name obs i fd s e k')
  then show ?case
    using Acquire_Inl by (fastforce simp: lock_inv_def)
next
  case (lock_closed s fd l u c r l' k')
  from Lock_Close_cases [OF lock_closed(2)] show ?case
  proof
    assume "k' = ls_kernel s \<and> (l' = l \<or> lk_file l' = None)"
    then show ?thesis
      using lock_closed(1,3) by (auto simp: lock_inv_def)
  next
    assume "\<exists>h. lk_file l = Some h \<and> lk_file l' = None \<and> krn_holder (ls_kernel s) (fst h) = Some (snd h) \<and>
       k' = ls_kernel s\<lparr>krn_holder := (krn_holder (ls_kernel s))(fst h := None)\<rparr>"
    then obtain i where i: "lk_file l = Some (i, fd)" "lk_file l' = None"
        "k' = ls_kernel s\<lparr>krn_holder := (krn_holder (ls_kernel s))(i := None)\<rparr>"
        "krn_holder (ls_kernel s) i = Some fd"
      using lock_closed(1,3) unfolding lock_inv_def by auto
    show ?thesis
      unfolding lock_inv_def
    proof (intro allI impI)
      fix fd2 l2 j fd3
      assume a: "ls_locks (s\<lparr>ls_kernel := k', ls_locks := (ls_locks s)(fd \<mapsto> l')\<rparr>) fd2 = Some l2"
        "lk_file l2 = Some (j, fd3)"
      then have "fd2 \<noteq> fd" "ls_locks s fd2 = Some l2"
        using i(2) by (auto split: if_splits)
      then have "fd3 = fd2" "krn_holder (ls_kernel s) j = Some fd2"
        using a(2) lock_closed(3) unfolding lock_inv_def by blast+
      then show "fd3 = fd2 \<and> krn_holder (ls_kernel (s\<lparr>ls_kernel := k', ls_locks := (ls_locks s)(fd \<mapsto> l')\<rparr>)) j = Some fd2"
        using i(3,4) \<open>fd2 \<noteq> fd\<close> by auto
    qed
  qed
qed

interpretation dlock: invariant_system lock_init lock_step lock_inv
proof
  show "lock_init s \<Longrightarrow> lock_inv s" for s
    by (simp add: lock_init_def lock_inv_def)
  show "lock_inv s \<Longrightarrow> lock_step s t \<Longrightarrow> lock_inv t" for s t
    using lock_inv_step by blast
qed

text \<open>
  Ownership is exclusive: in every interleaving of acquisitions, refused or not, and releases by
  any number of processes, no two open locks hold the same lock file.
\<close>

theorem lock_exclusive:
  assumes "reach lock_init lock_step s"
    and "ls_locks s fd1 = Some l1" and "lk_file l1 = Some (i, h1)"
    and "ls_locks s fd2 = Some l2" and "lk_file l2 = Some (i, h2)"
  shows "fd1 = fd2"
proof -
  have "lock_inv s"
    using dlock.reach_inv [OF assms(1)] .
  then have "krn_holder (ls_kernel s) i = Some fd1" "krn_holder (ls_kernel s) i = Some fd2"
    using assms(2-5) unfolding lock_inv_def by blast+
  then show ?thesis by simp
qed

definition demo_directory :: "unit node" where
  "demo_directory = (new_node mode_0700)\<lparr>node_type := DirectoryFile\<rparr>"

definition demo_obs :: lock_obs where
  "demo_obs = \<lparr>lo_directory = Some demo_directory, lo_open = True, lo_newfile = True, lo_stat = True,
     lo_before = Some 7, lo_flock = True, lo_after = Some 7\<rparr>"

definition demo_kernel :: kernel where
  "demo_kernel = \<lparr>krn_file = (\<lambda>_. new_node mode_0600), krn_holder = (\<lambda>_. None)\<rparr>"

definition demo_held :: lock_system where
  "demo_held = \<lparr>ls_kernel = demo_kernel\<lparr>krn_holder := [7 \<mapsto> 3]\<rparr>,
     ls_locks = [3 \<mapsto> \<lparr>lk_file = Some (7, 3), lk_closed = False\<rparr>]\<rparr>"

lemma demo_held_reach: "reach lock_init lock_step demo_held"
proof (rule reach_step)
  let ?s = "\<lparr>ls_kernel = demo_kernel, ls_locks = (\<lambda>_. None)\<rparr>"
  show "reach lock_init lock_step ?s"
    by (rule reach_init) (simp add: lock_init_def demo_kernel_def)
  have "Acquire ''/var'' ''.lock'' demo_obs 7 3 (ls_kernel ?s) =
      (Inr \<lparr>lk_file = Some (7, 3), lk_closed = False\<rparr>, demo_kernel\<lparr>krn_holder := [7 \<mapsto> 3]\<rparr>)"
    by (simp add: Acquire_def openAndLock_def valid_lock_name_def is_abs_def has_prefix_def path_base_def
        demo_obs_def demo_kernel_def demo_directory_def Let_def)
  from lock_acquired [OF _ this] show "lock_step ?s demo_held"
    by (simp add: demo_held_def)
qed

theorem lock_exclusive_witness:
  "\<exists>fd l h. ls_locks demo_held fd = Some l \<and> lk_file l = Some (7, h) \<and> fd = 3"
proof -
  have l: "ls_locks demo_held 3 = Some \<lparr>lk_file = Some (7, 3), lk_closed = False\<rparr>"
    by (simp add: demo_held_def)
  have "(3 :: nat) = 3"
    by (rule lock_exclusive [OF demo_held_reach l _ l]) simp_all
  then show ?thesis
    using l by auto
qed

end
