(* ===== verification/Go_Json.thy ===== *)
theory Go_Json
  imports Go_Prelude
begin

text \<open>
  More on the JSON encoding: numbers, upper bounds on the size of an encoded value, which decide
  whether a component can read back a file it wrote, and when two encodings are equal.
\<close>

definition json_u64 :: "u64 \<Rightarrow> string" where
  "json_u64 v = show_nat (unat v)"

lemma length_json_escape_le: "length (json_escape c) \<le> 6"
  by (simp add: json_escape_def hex_byte_def)

lemma length_json_string_le: "length (json_string s) \<le> 6 * length s + 2"
proof (induction s)
  case (Cons c s)
  then show ?case
    using length_json_escape_le [of c] by (simp add: json_string_def)
qed (simp add: json_string_def)

lemma length_join_comma:
  "length (join_with '','' ws) \<le> sum_list (map (\<lambda>w. length w + 1) ws)"
  by (induction "'',''" ws rule: join_with.induct) auto

lemma length_json_object_le:
  "length (json_object kvs) \<le> 2 + sum_list (map (\<lambda>kv. 6 * length (fst kv) + length (snd kv) + 4) kvs)"
proof -
  have "sum_list (map (\<lambda>w. length w + 1) (map json_field kvs)) \<le>
        sum_list (map (\<lambda>kv. 6 * length (fst kv) + length (snd kv) + 4) kvs)"
    unfolding map_map using length_json_string_le
    by (intro sum_list_mono) (auto simp: json_field_def)
  then show ?thesis
    using length_join_comma [of "map json_field kvs"] by (simp add: json_object_def)
qed

lemma length_json_object_uniform:
  assumes "list_all (\<lambda>(k, v). length k \<le> a \<and> length v \<le> b) kvs"
  shows "length (json_object kvs) \<le> 2 + length kvs * (6 * a + b + 4)"
proof -
  have "sum_list (map (\<lambda>kv. 6 * length (fst kv) + length (snd kv) + 4) kvs) \<le> sum_list (map (\<lambda>_. 6 * a + b + 4) kvs)"
    using assms by (intro sum_list_mono) (fastforce simp: list_all_iff intro: add_mono)
  then show ?thesis
    using length_json_object_le [of kvs] by (simp add: sum_list_triv)
qed

lemma length_show_nat_le: "n < 10 ^ k \<Longrightarrow> 0 < k \<Longrightarrow> length (show_nat n) \<le> k"
proof (induction n arbitrary: k rule: show_nat.induct)
  case (1 n)
  show ?case
  proof (cases "n < 10")
    case True
    then show ?thesis
      using 1 by (subst show_nat.simps) simp
  next
    case False
    then obtain i where i: "k = Suc i" "0 < i"
      using 1(2,3) by (cases k; cases "k - 1") auto
    then have "n div 10 < 10 ^ i"
      using 1(2) by (simp add: less_mult_imp_div_less mult.commute)
    then have "length (show_nat (n div 10)) \<le> i"
      using 1(1) False i by blast
    then show ?thesis
      using False i by (subst show_nat.simps) simp
  qed
qed

lemma length_json_u64: "length (json_u64 v) \<le> 20"
proof -
  have "unat v < 2 ^ 64"
    using unsigned_less [of v] by simp
  then have "unat v < 10 ^ 20"
    by simp
  then show ?thesis
    unfolding json_u64_def by (rule length_show_nat_le) simp
qed

lemma hex64_length: "hex64_after p s \<Longrightarrow> length s = length p + 64"
  by (auto simp: hex64_after_decompose)

lemma hex64_plain:
  assumes "hex64_after p s" and "list_all json_plain p"
  shows "list_all json_plain s"
  using assms is_lower_hex_json_plain by (auto simp: hex64_after_decompose list_all_iff)

text \<open>Objects with the same keys and values of the same lengths are equal only when the values are.\<close>

lemma json_object_inject:
  assumes "list_all2 (\<lambda>a b. fst a = fst b \<and> length (snd a) = length (snd b)) xs ys"
    and "json_object xs = json_object ys"
  shows "xs = ys"
proof -
  have "join_with '','' (map json_field xs) = join_with '','' (map json_field ys) \<Longrightarrow> xs = ys"
    using assms(1)
  proof (induction xs ys rule: list_all2_induct)
    case (Cons x xs y ys)
    then have "length (json_field x) = length (json_field y)"
      by (simp add: json_field_def)
    moreover have "json_field x = json_field y \<Longrightarrow> x = y"
      using Cons.hyps(1) by (simp add: json_field_def prod_eq_iff)
    moreover have "xs = [] \<longleftrightarrow> ys = []"
      using Cons.hyps(2) by auto
    ultimately show ?case
      using Cons.IH Cons.prems by (cases xs; cases ys) auto
  qed simp
  then show ?thesis
    using assms(2) by (simp add: json_object_def)
qed

lemma json_string_plain_inject:
  "list_all json_plain s \<Longrightarrow> list_all json_plain t \<Longrightarrow> json_string s = json_string t \<longleftrightarrow> s = t"
  by (simp add: json_string_plain)

lemma digest_prefix_plain:
  "list_all json_plain ''sha256:''" "list_all json_plain ''tvm-cell-sha256:''"
  by (simp_all add: json_plain_def json_escape_def)

end
