(* ===== verification/Software_Journal.thy ===== *)
theory Software_Journal
  imports Artifact_Store Dir_Lock Go_Json
begin

text \<open>
  Package \<open>pkg/softwarework\<close>, file \<open>journal.go\<close>: the write-ahead journal that makes the execution of
  a software-work request happen at most once.

  The model's directory is the journal's root, owned exclusively through its lock file while the
  journal is open; a file is named by its name in it.  The content of a file is the record its JSON
  decodes to, and its size is the length of that JSON and a newline.  Operations run under the
  journal's mutex, so each is one step.
\<close>

section \<open>Data\<close>

record Outcome =
  out_QuoteCommitment :: string
  out_ExecutionID :: string
  out_InputDigest :: string
  out_ResultDigest :: string
  out_Artifact :: Descriptor
  out_Report :: Descriptor
  out_SourceDigest :: string
  out_ToolchainDigest :: string
  out_SandboxDigest :: string
  out_ExitCode :: int
  out_CompletedAtUnix :: u64

definition zero_Descriptor :: Descriptor where
  "zero_Descriptor = \<lparr>dsc_Digest = [], dsc_MediaType = [], dsc_SizeBytes = 0\<rparr>"

definition zero_Outcome :: Outcome where
  "zero_Outcome = \<lparr>out_QuoteCommitment = [], out_ExecutionID = [], out_InputDigest = [],
     out_ResultDigest = [], out_Artifact = zero_Descriptor, out_Report = zero_Descriptor,
     out_SourceDigest = [], out_ToolchainDigest = [], out_SandboxDigest = [], out_ExitCode = 0,
     out_CompletedAtUnix = 0\<rparr>"

record journalRecord =
  jr_Schema :: string
  jr_Fingerprint :: string
  jr_State :: string
  jr_Outcome :: Outcome

abbreviation (input) journal_schema :: string where
  "journal_schema \<equiv> ''tos.service.software-work-journal.v1''"

section \<open>JSON size of a record\<close>

definition json_Descriptor :: "Descriptor \<Rightarrow> string" where
  "json_Descriptor d = json_object
     [(''Digest'', json_string (dsc_Digest d)), (''MediaType'', json_string (dsc_MediaType d)),
      (''SizeBytes'', json_u64 (dsc_SizeBytes d))]"

definition json_Outcome :: "Outcome \<Rightarrow> string" where
  "json_Outcome v = json_object
     [(''quote_commitment'', json_string (out_QuoteCommitment v)),
      (''execution_id'', json_string (out_ExecutionID v)),
      (''input_digest'', json_string (out_InputDigest v)),
      (''result_digest'', json_string (out_ResultDigest v)),
      (''artifact'', json_Descriptor (out_Artifact v)),
      (''report'', json_Descriptor (out_Report v)),
      (''source_digest'', json_string (out_SourceDigest v)),
      (''toolchain_digest'', json_string (out_ToolchainDigest v)),
      (''sandbox_digest'', json_string (out_SandboxDigest v)),
      (''exit_code'', show_int (out_ExitCode v)),
      (''completed_at_unix'', json_u64 (out_CompletedAtUnix v))]"

text \<open>\<open>omitempty\<close> has no effect on a field of struct type: the outcome is always encoded.\<close>

definition json_journalRecord :: "journalRecord \<Rightarrow> string" where
  "json_journalRecord r = json_object
     [(''schema'', json_string (jr_Schema r)), (''fingerprint'', json_string (jr_Fingerprint r)),
      (''state'', json_string (jr_State r)), (''outcome'', json_Outcome (jr_Outcome r))]"

definition record_size :: "journalRecord \<Rightarrow> nat" where
  "record_size r = length (json_journalRecord r @ [CHR 0x0A])"

section \<open>Operations\<close>

record Journal =
  jn_root :: string
  jn_lock :: "Lock option"

definition OpenJournal :: "string \<Rightarrow> bool \<Rightarrow> unit node option \<Rightarrow> lock_obs \<Rightarrow> nat \<Rightarrow> nat \<Rightarrow> kernel
    \<Rightarrow> Journal result \<times> kernel" where
  "OpenJournal root mkdir_ok info obs i fd k =
     (if \<not> is_abs root \<or> path_clean root \<noteq> root
      then (Inl (ErrMsg ''invalid software-work journal root''), k)
      else if \<not> mkdir_ok then (Inl (ErrMsg ''create software-work journal root''), k)
      else case info of
        None \<Rightarrow> (Inl (ErrMsg ''software-work journal root must be private''), k)
      | Some n \<Rightarrow>
          if node_type n \<noteq> DirectoryFile \<or> node_perm n \<noteq> mode_0700
          then (Inl (ErrMsg ''software-work journal root must be private''), k)
          else (case Acquire root ''.software-work-journal.lock'' obs i fd k of
              (Inl e, k') \<Rightarrow> (Inl (ErrMsg ''software-work journal is already owned''), k')
            | (Inr l, k') \<Rightarrow> (Inr \<lparr>jn_root = root, jn_lock = Some l\<rparr>, k')))"

text \<open>\<open>executionID[len("sha256:"):] + ".json"\<close>, which panics on a shorter string; every caller has
  validated the identity.\<close>

definition journal_path :: "string \<Rightarrow> string" where
  "journal_path executionID = drop 7 executionID @ ''.json''"

definition journal_syncDirectory :: "io \<Rightarrow> unit result" where
  "journal_syncDirectory w =
     (if \<not> io_diropen w then Inl (ErrMsg ''open software-work journal directory'')
      else if \<not> io_dirsync w then Inl (ErrMsg ''sync software-work journal directory'') else Inr ())"

definition readJournalRecord :: "io \<Rightarrow> string \<Rightarrow> journalRecord fs \<Rightarrow> journalRecord result" where
  "readJournalRecord w p f =
     (case fs_live f p of
        None \<Rightarrow> Inl (ErrMsg ''invalid software-work journal record'')
      | Some n \<Rightarrow>
          if node_type n \<noteq> RegularFile \<or> node_perm n \<noteq> mode_0600 \<or> node_size n = 0 \<or> node_size n > 32768
          then Inl (ErrMsg ''invalid software-work journal record'')
          else if \<not> io_read w then Inl (ErrMsg ''read software-work journal record'')
          else (case node_data n of
              None \<Rightarrow> Inl (ErrMsg ''invalid software-work journal record'')
            | Some r \<Rightarrow>
                if jr_Schema r \<noteq> journal_schema \<or> \<not> hex64_after ''sha256:'' (jr_Fingerprint r)
                   \<or> (jr_State r \<noteq> ''running'' \<and> jr_State r \<noteq> ''complete'')
                then Inl (ErrMsg ''invalid software-work journal record'')
                else Inr r))"

definition running_record :: "string \<Rightarrow> journalRecord" where
  "running_record fingerprint = \<lparr>jr_Schema = journal_schema, jr_Fingerprint = fingerprint,
     jr_State = ''running'', jr_Outcome = zero_Outcome\<rparr>"

text \<open>
  On an error after the exclusive create the code removes the file and ignores whether that worked:
  \<open>unclaim\<close> removes it when \<open>io_remove\<close> allows, and otherwise leaves it behind in the given state.
  \<open>io_open\<close> is the outcome of the exclusive create when the file does not exist.
\<close>

definition unclaim :: "io \<Rightarrow> string \<Rightarrow> journalRecord node \<Rightarrow> journalRecord fs \<Rightarrow> journalRecord fs" where
  "unclaim w p n f = (if io_remove w then f else fs_put p n f)"

definition Claim :: "io \<Rightarrow> Journal \<Rightarrow> string \<Rightarrow> string \<Rightarrow> journalRecord fs
    \<Rightarrow> (bool \<times> journalRecord) result \<times> journalRecord fs" where
  "Claim w j executionID fingerprint f =
     (if jn_lock j = None \<or> \<not> hex64_after ''sha256:'' executionID \<or> \<not> hex64_after ''sha256:'' fingerprint
      then (Inl (ErrMsg ''invalid software-work journal claim''), f)
      else
        let p = journal_path executionID; r = running_record fingerprint;
            empty_file = new_node mode_0600; written = node_write r (record_size r) empty_file
        in if fs_live f p = None then
             (if \<not> io_open w then (Inl (ErrMsg ''create software-work claim''), f)
              else if \<not> io_write w then (Inl (ErrMsg ''write software-work claim''), unclaim w p empty_file f)
              else if \<not> io_sync w then (Inl (ErrMsg ''sync software-work claim''), unclaim w p written f)
              else if \<not> io_close w
              then (Inl (ErrMsg ''close software-work claim''), unclaim w p (node_sync written) f)
              else case journal_syncDirectory w of
                Inl e \<Rightarrow> (Inl e, unclaim w p (node_sync written) f)
              | Inr _ \<Rightarrow> (Inr (True, r), fs_dirsync (fs_put p (node_sync written) f)))
           else (case readJournalRecord w p f of
               Inl e \<Rightarrow> (Inl e, f)
             | Inr existing \<Rightarrow>
                 if jr_Fingerprint existing \<noteq> fingerprint
                 then (Inl (ErrMsg ''execution identity conflicts with another request''), f)
                 else (Inr (False, existing), f)))"

text \<open>\<open>Complete\<close> replaces the record through a temporary file.\<close>

definition complete_error :: "replace_step \<Rightarrow> go_error" where
  "complete_error e = (case e of
       AtCreate \<Rightarrow> ErrMsg ''create software-work completion''
     | AtChmod \<Rightarrow> ErrMsg ''protect software-work completion''
     | AtWrite \<Rightarrow> ErrMsg ''write software-work completion''
     | AtSync \<Rightarrow> ErrMsg ''sync software-work completion''
     | AtClose \<Rightarrow> ErrMsg ''close software-work completion''
     | AtRename \<Rightarrow> ErrMsg ''commit software-work completion''
     | AtDiropen \<Rightarrow> ErrMsg ''open software-work journal directory''
     | AtDirsync \<Rightarrow> ErrMsg ''sync software-work journal directory'')"

definition Complete :: "io \<Rightarrow> Journal \<Rightarrow> string \<Rightarrow> string \<Rightarrow> Outcome \<Rightarrow> journalRecord fs
    \<Rightarrow> unit result \<times> journalRecord fs" where
  "Complete w j executionID fingerprint outcome f =
     (if jn_lock j = None then (Inl (ErrMsg ''invalid software-work journal completion''), f)
      else
        let p = journal_path executionID in
        case readJournalRecord w p f of
          Inl e \<Rightarrow> (Inl (ErrMsg ''software-work claim cannot be completed''), f)
        | Inr existing \<Rightarrow>
            if jr_Fingerprint existing \<noteq> fingerprint \<or> jr_State existing \<noteq> ''running''
            then (Inl (ErrMsg ''software-work claim cannot be completed''), f)
            else
              let r = existing\<lparr>jr_Fingerprint := fingerprint, jr_State := ''complete'', jr_Outcome := outcome\<rparr>
              in (case replace_file w p r (record_size r) f of
                    (None, f') \<Rightarrow> (Inr (), f')
                  | (Some e, f') \<Rightarrow> (Inl (complete_error e), f')))"

text \<open>\<open>Close\<close> releases the lock; the journal value keeps its pointer to the closed lock.\<close>

definition journal_Close :: "bool \<Rightarrow> bool \<Rightarrow> Journal \<Rightarrow> kernel \<Rightarrow> unit result \<times> Journal \<times> kernel" where
  "journal_Close u c j k =
     (case jn_lock j of
        None \<Rightarrow> (Inr (), j, k)
      | Some l \<Rightarrow> (case Lock_Close u c l k of (r, l', k') \<Rightarrow> (r, j\<lparr>jn_lock := Some l'\<rparr>, k')))"

section \<open>At most one claim\<close>

text \<open>
  The transitions of a journal over its whole life, restarts included: a claim that grants the right
  to execute; and every other thing that happens to the directory, which is a claim that does not
  grant, a completion, whatever its arguments and however its system calls end, and a crash.
\<close>

definition journal_grants :: "journalRecord fs \<Rightarrow> string \<Rightarrow> journalRecord fs \<Rightarrow> bool" where
  "journal_grants f executionID f' \<longleftrightarrow>
     (\<exists>w j fingerprint r. Claim w j executionID fingerprint f = (Inr (True, r), f'))"

inductive journal_other :: "journalRecord fs \<Rightarrow> journalRecord fs \<Rightarrow> bool" where
  journal_claim_refused: "Claim w j executionID fingerprint f = (r, f') \<Longrightarrow>
     (\<And>rec. r \<noteq> Inr (True, rec)) \<Longrightarrow> journal_other f f'"
| journal_complete: "Complete w j executionID fingerprint outcome f = (r, f') \<Longrightarrow> journal_other f f'"
| journal_crash: "journal_other f (fs_crash ch f)"

text \<open>An identity is spent when its claim file exists for running processes and on the disk.\<close>

definition journal_spent :: "journalRecord fs \<Rightarrow> string \<Rightarrow> bool" where
  "journal_spent f executionID \<longleftrightarrow>
     fs_live f (journal_path executionID) \<noteq> None \<and> fs_disk f (journal_path executionID) \<noteq> None"

lemma Claim_granted:
  assumes "Claim w j e fp f = (Inr (True, r), f')"
  shows "fs_live f (journal_path e) = None" and "r = running_record fp"
    and "f' = fs_dirsync (fs_put (journal_path e)
           (node_sync (node_write r (record_size r) (new_node mode_0600))) f)"
    and "hex64_after ''sha256:'' e" and "hex64_after ''sha256:'' fp"
  using assms
  by (auto simp: Claim_def Let_def journal_syncDirectory_def split: if_splits sum.splits)

lemma Claim_not_granted:
  assumes "Claim w j e fp f = (r, f')" and "\<And>rec. r \<noteq> Inr (True, rec)"
  shows "f' = f \<or> (\<exists>n. fs_live f (journal_path e) = None \<and> f' = fs_put (journal_path e) n f)"
  using assms
  by (auto simp: Claim_def Let_def unclaim_def split: if_splits sum.splits)

lemma Complete_fs:
  assumes "Complete w j e fp out f = (r, f')"
  shows "f' = f \<or> fs_live f (journal_path e) \<noteq> None \<and>
    (\<exists>n. f' = fs_put (journal_path e) n f \<or> f' = fs_dirsync (fs_put (journal_path e) n f))"
proof (cases "f' = f")
  case False
  then obtain existing where ex: "readJournalRecord w (journal_path e) f = Inr existing"
    using assms by (auto simp: Complete_def Let_def split: if_splits sum.splits)
  then have "fs_live f (journal_path e) \<noteq> None"
    by (auto simp: readJournalRecord_def split: option.splits)
  moreover obtain c len s where "replace_file w (journal_path e) c len f = (s, f')"
    using assms ex False
    by (auto simp: Complete_def Let_def split: if_splits prod.splits option.splits)
  ultimately show ?thesis
    using False replace_file_live_disk by metis
qed simp

lemma spent_put: "journal_spent f e \<Longrightarrow> journal_spent (fs_put p n f) e"
  and spent_dirsync: "journal_spent f e \<Longrightarrow> journal_spent (fs_dirsync f) e"
  and spent_crash: "journal_spent f e \<Longrightarrow> journal_spent (fs_crash ch f) e"
  by (auto simp: journal_spent_def crash_map_def)

lemma spent_complete: "Complete w j e fp out f = (r, f') \<Longrightarrow> journal_spent f e' \<Longrightarrow> journal_spent f' e'"
  using Complete_fs [of w j e fp out f r f'] spent_put spent_dirsync by blast

lemma spent_claim:
  assumes "Claim w j e fp f = (r, f')" and "journal_spent f e'"
  shows "journal_spent f' e'"
proof (cases "\<exists>rec. r = Inr (True, rec)")
  case True
  then show ?thesis
    using Claim_granted(3) assms spent_put spent_dirsync by blast
next
  case False
  then show ?thesis
    using Claim_not_granted [OF assms(1)] assms(2) spent_put by blast
qed

interpretation journal: at_most_once journal_grants journal_other journal_spent
proof
  show "journal_grants f e f' \<Longrightarrow> \<not> journal_spent f e" for f e f'
    by (auto simp: journal_grants_def journal_spent_def dest: Claim_granted(1))
  show "journal_grants f e f' \<Longrightarrow> journal_spent f' e" for f e f'
    by (auto simp: journal_grants_def journal_spent_def dest: Claim_granted(3))
  show "journal_grants f e f' \<Longrightarrow> journal_spent f e' \<Longrightarrow> journal_spent f' e'" for f e f' e'
    unfolding journal_grants_def using spent_claim by blast
  show "journal_other f f' \<Longrightarrow> journal_spent f e \<Longrightarrow> journal_spent f' e" for f f' e
    by (induction rule: journal_other.induct) (auto intro: spent_claim spent_complete spent_crash)
qed

section \<open>Completed records\<close>

text \<open>A durable completed record is final: no operation and no crash changes it.\<close>

definition completed_at :: "journalRecord fs \<Rightarrow> string \<Rightarrow> journalRecord node \<Rightarrow> bool" where
  "completed_at f p n \<longleftrightarrow> durable f p n \<and> (\<exists>r. node_data n = Some r \<and> jr_State r = ''complete'')"

lemma completed_put_other: "completed_at f p n \<Longrightarrow> q \<noteq> p \<Longrightarrow> completed_at (fs_put q m f) p n"
  and completed_dirsync: "completed_at f p n \<Longrightarrow> completed_at (fs_dirsync f) p n"
  and completed_live: "completed_at f p n \<Longrightarrow> fs_live f p \<noteq> None"
  and completed_crash: "completed_at f p n \<Longrightarrow> completed_at (fs_crash ch f) p n"
  by (auto simp: completed_at_def durable_def crash_map_def crash_node_synced)

lemma Claim_keeps_completed:
  assumes "Claim w j e fp f = (r, f')" and "completed_at f p n"
  shows "completed_at f' p n"
proof (cases "fs_live f (journal_path e) = None")
  case True
  then have "journal_path e \<noteq> p"
    using completed_live assms(2) by blast
  then show ?thesis
    using Claim_granted(3) Claim_not_granted assms completed_put_other completed_dirsync by metis
next
  case False
  then have "f' = f"
    using assms(1) by (auto simp: Claim_def Let_def split: if_splits sum.splits)
  then show ?thesis using assms(2) by simp
qed

lemma readJournalRecord_Inr:
  "readJournalRecord w p f = Inr r \<Longrightarrow> \<exists>n. fs_live f p = Some n \<and> node_data n = Some r"
  by (auto simp: readJournalRecord_def split: option.splits if_splits)

lemma Complete_keeps_completed:
  assumes "Complete w j e fp out f = (r, f')" and "completed_at f p n"
  shows "completed_at f' p n"
proof (cases "journal_path e = p")
  case True
  obtain c where c: "fs_live f p = Some n" "node_data n = Some c" "jr_State c = ''complete''"
    using assms(2) by (auto simp: completed_at_def durable_def)
  have "existing = c" if "readJournalRecord w p f = Inr existing" for existing
    using readJournalRecord_Inr [OF that] c by simp
  then have "f' = f"
    using assms(1) True c(3) by (auto simp: Complete_def Let_def split: if_splits sum.splits)
  then show ?thesis using assms(2) by simp
next
  case False
  then show ?thesis
    using Complete_fs [OF assms(1)] assms(2) completed_put_other completed_dirsync by blast
qed

lemma grants_keeps_completed: "journal_grants f e f' \<Longrightarrow> completed_at f p n \<Longrightarrow> completed_at f' p n"
  unfolding journal_grants_def using Claim_keeps_completed by blast

lemma other_keeps_completed: "journal_other f f' \<Longrightarrow> completed_at f p n \<Longrightarrow> completed_at f' p n"
  by (induction rule: journal_other.induct)
    (blast intro: Claim_keeps_completed Complete_keeps_completed completed_crash)+

lemma run_keeps_completed:
  "grant_run journal_grants journal_other f ks f' \<Longrightarrow> completed_at f p n \<Longrightarrow> completed_at f' p n"
  by (induction rule: grant_run.induct) (auto intro: grants_keeps_completed other_keeps_completed)

lemma Complete_ok:
  assumes "Complete w j e fp out f = (Inr u, f')"
  shows "\<exists>r. completed_at f' (journal_path e) (node_sync (node_write r (record_size r) (new_node mode_0600)))
     \<and> jr_Schema r = journal_schema \<and> jr_Fingerprint r = fp \<and> hex64_after ''sha256:'' fp
     \<and> jr_State r = ''complete'' \<and> jr_Outcome r = out"
proof -
  obtain existing where ex: "readJournalRecord w (journal_path e) f = Inr existing" "jr_Fingerprint existing = fp"
    using assms by (auto simp: Complete_def Let_def split: if_splits sum.splits)
  let ?r = "existing\<lparr>jr_Fingerprint := fp, jr_State := ''complete'', jr_Outcome := out\<rparr>"
  have "replace_file w (journal_path e) ?r (record_size ?r) f = (None, f')"
    using assms ex by (auto simp: Complete_def Let_def split: if_splits prod.splits option.splits)
  moreover have "jr_Schema existing = journal_schema" "hex64_after ''sha256:'' fp"
    using ex by (auto simp: readJournalRecord_def split: option.splits if_splits)
  ultimately show ?thesis
    using replace_file_success(1) by (intro exI [of _ ?r]) (auto simp: completed_at_def)
qed

text \<open>A completed record of bounded size is what every later claim of the same request returns.\<close>

lemma Claim_completed:
  assumes "completed_at f (journal_path e) (node_sync (node_write r (record_size r) (new_node mode_0600)))"
    and "jr_Schema r = journal_schema" and "jr_Fingerprint r = fp" and "jr_State r = ''complete''"
    and "record_size r \<le> 32768"
    and "hex64_after ''sha256:'' e" and "hex64_after ''sha256:'' fp"
    and "io_read w" and "jn_lock j \<noteq> None"
  shows "Claim w j e fp f = (Inr (False, r), f)"
proof -
  have "fs_live f (journal_path e) = Some (node_sync (node_write r (record_size r) (new_node mode_0600)))"
    using assms(1) by (simp add: completed_at_def durable_def)
  moreover have "0 < record_size r"
    by (simp add: record_size_def)
  ultimately have "readJournalRecord w (journal_path e) f = Inr r"
    using assms by (simp add: readJournalRecord_def)
  then show ?thesis
    using assms \<open>fs_live f (journal_path e) = Some _\<close> by (simp add: Claim_def Let_def)
qed

section \<open>Bounds on the JSON size\<close>

lemma length_json_Descriptor:
  assumes "length (dsc_Digest d) \<le> 71" and "length (dsc_MediaType d) \<le> 64"
  shows "length (json_Descriptor d) \<le> 1100"
  unfolding json_Descriptor_def
  using length_json_object_le [of "[(''Digest'', json_string (dsc_Digest d)),
      (''MediaType'', json_string (dsc_MediaType d)), (''SizeBytes'', json_u64 (dsc_SizeBytes d))]"]
    length_json_string_le [of "dsc_Digest d"] length_json_string_le [of "dsc_MediaType d"]
    length_json_u64 [of "dsc_SizeBytes d"] assms
  by simp

end
