(* ===== verification/Go_Net.thy ===== *)
theory Go_Net
  imports Go_Prelude
begin

text \<open>
  The parts of packages \<open>net\<close> and \<open>strconv\<close> the sources use: unsigned decimal parsing,
  \<open>net.ParseIP\<close> (the parser of \<open>net/netip\<close>, rejecting zones) with the address classes
  asked of its result, and \<open>net.SplitHostPort\<close>.  An address is its 16 bytes, an IPv4 address being
  the mapped one, as \<open>net.IP\<close> holds it.
\<close>

section \<open>Decimal numbers\<close>

definition digit_val :: "char \<Rightarrow> nat" where
  "digit_val c = of_char c - 48"

definition dec_val :: "string \<Rightarrow> nat" where
  "dec_val s = foldl (\<lambda>v c. v * 10 + digit_val c) 0 s"

text \<open>\<open>strconv.ParseUint(s, 10, bits)\<close>: digits only, at least one, value below \<open>2^bits\<close>.\<close>

definition parse_uint :: "nat \<Rightarrow> string \<Rightarrow> nat option" where
  "parse_uint bits s =
     (if s = [] \<or> \<not> list_all is_digit s then None
      else if dec_val s < 2 ^ bits then Some (dec_val s) else None)"

text \<open>\<open>strconv.ParseInt(s, 10, bits)\<close>: an optional sign, then digits.\<close>

definition parse_int :: "nat \<Rightarrow> string \<Rightarrow> int option" where
  "parse_int bits s =
     (let neg = has_prefix s ''-'';
          body = (if neg \<or> has_prefix s ''+'' then tl s else s)
      in if body = [] \<or> \<not> list_all is_digit body then None
         else if neg then (if dec_val body \<le> 2 ^ (bits - 1) then Some (- int (dec_val body)) else None)
         else (if dec_val body < 2 ^ (bits - 1) then Some (int (dec_val body)) else None))"

lemma parse_uint_bound: "parse_uint bits s = Some v \<Longrightarrow> v < 2 ^ bits"
  by (auto simp: parse_uint_def split: if_splits)

lemma parse_int_bounds:
  assumes "parse_int bits s = Some v"
  shows "- (2 ^ (bits - 1)) \<le> v" and "v < 2 ^ (bits - 1)"
proof -
  define m :: nat where "m = 2 ^ (bits - 1)"
  have m: "int m = 2 ^ (bits - 1)" "0 < m" by (simp_all add: m_def)
  from assms have "(\<exists>n. v = - int n \<and> n \<le> m) \<or> (\<exists>n. v = int n \<and> n < m)"
    unfolding parse_int_def Let_def m_def by (simp split: if_splits) blast+
  then have "- int m \<le> v \<and> v < int m" using m(2) by auto
  then show "- (2 ^ (bits - 1)) \<le> v" and "v < 2 ^ (bits - 1)" by (simp_all only: m(1))
qed

section \<open>IP addresses\<close>

definition v4_field :: "string \<Rightarrow> nat option" where
  "v4_field s =
     (if s = [] \<or> \<not> list_all is_digit s \<or> (length s > 1 \<and> hd s = CHR ''0'') then None
      else if dec_val s \<le> 255 then Some (dec_val s) else None)"

definition parse_v4 :: "string \<Rightarrow> nat list option" where
  "parse_v4 s =
     (case map v4_field (split_on (CHR ''.'') s) of
        [Some a, Some b, Some c, Some d] \<Rightarrow> Some [a, b, c, d]
      | _ \<Rightarrow> None)"

definition is_hex :: "char \<Rightarrow> bool" where
  "is_hex c \<longleftrightarrow> is_lower_hex c \<or> is_upper_hex c"

definition hex_val :: "char \<Rightarrow> nat" where
  "hex_val c = (if is_digit c then of_char c - 48
                else if is_lower_hex c then of_char c - 87 else of_char c - 55)"

text \<open>
  The loop of \<open>parseIPv6\<close>: \<open>bs\<close> are the bytes read so far, \<open>el\<close> the position of the \<open>::\<close>.
  It stops after 16 bytes or at the end of the input; what is left of the input is returned.
\<close>

function v6_loop :: "string \<Rightarrow> nat list \<Rightarrow> nat option \<Rightarrow> (string \<times> nat list \<times> nat option) option" where
  "v6_loop s bs el =
     (if 16 \<le> length bs then Some (s, bs, el)
      else
        let ds = takeWhile is_hex s; rest = dropWhile is_hex s in
        if 4 < length ds \<or> ds = [] then None
        else if has_prefix rest ''.'' then
          (if el = None \<and> length bs \<noteq> 12 then None
           else if 16 < length bs + 4 then None
           else (case parse_v4 s of None \<Rightarrow> None | Some q \<Rightarrow> Some ([], bs @ q, el)))
        else
          let v = foldl (\<lambda>a c. a * 16 + hex_val c) 0 ds; bs' = bs @ [v div 256, v mod 256] in
          if rest = [] then Some ([], bs', el)
          else if hd rest \<noteq> CHR '':'' \<or> length rest = 1 then None
          else let s' = tl rest in
            if hd s' = CHR '':'' then
              (if el \<noteq> None then None
               else if tl s' = [] then Some ([], bs', Some (length bs'))
               else v6_loop (tl s') bs' (Some (length bs')))
            else v6_loop s' bs' el)"
  by pat_completeness auto
termination
  by (relation "measure (\<lambda>(s, bs, el). 16 - length bs)") auto

declare v6_loop.simps [simp del]

definition parse_v6 :: "string \<Rightarrow> nat list option" where
  "parse_v6 s =
     (if CHR ''%'' \<in> set s then None
      else if s = ''::'' then Some (replicate 16 0)
      else
        (case (if has_prefix s ''::'' then v6_loop (drop 2 s) [] (Some 0) else v6_loop s [] None) of
           None \<Rightarrow> None
         | Some (rest, bs, el) \<Rightarrow>
             if rest \<noteq> [] then None
             else if length bs < 16 then
               (case el of None \<Rightarrow> None
                | Some k \<Rightarrow> Some (take k bs @ replicate (16 - length bs) 0 @ drop k bs))
             else (if el = None then Some bs else None)))"

text \<open>\<open>net.ParseIP\<close>: the first of the characters \<open>.\<close>, \<open>:\<close> and \<open>%\<close> decides the format.\<close>

definition parse_ip :: "string \<Rightarrow> nat list option" where
  "parse_ip s =
     (case find (\<lambda>c. c = CHR ''.'' \<or> c = CHR '':'' \<or> c = CHR ''%'') s of
        None \<Rightarrow> None
      | Some c \<Rightarrow>
          if c = CHR ''.'' then map_option (\<lambda>q. replicate 10 0 @ [255, 255] @ q) (parse_v4 s)
          else if c = CHR '':'' then parse_v6 s
          else None)"

text \<open>The classes of package \<open>net\<close>; \<open>ip.To4()\<close> selects the IPv4 cases.\<close>

definition ip_to4 :: "nat list \<Rightarrow> nat list option" where
  "ip_to4 ip = (if take 12 ip = replicate 10 0 @ [255, 255] then Some (drop 12 ip) else None)"

definition ip_is_loopback :: "nat list \<Rightarrow> bool" where
  "ip_is_loopback ip = (case ip_to4 ip of Some q \<Rightarrow> q ! 0 = 127 | None \<Rightarrow> ip = replicate 15 0 @ [1])"

definition ip_is_private :: "nat list \<Rightarrow> bool" where
  "ip_is_private ip =
     (case ip_to4 ip of
        Some q \<Rightarrow> q ! 0 = 10 \<or> (q ! 0 = 172 \<and> 16 \<le> q ! 1 \<and> q ! 1 \<le> 31) \<or> (q ! 0 = 192 \<and> q ! 1 = 168)
      | None \<Rightarrow> 252 \<le> ip ! 0 \<and> ip ! 0 \<le> 253)"

definition ip_is_multicast :: "nat list \<Rightarrow> bool" where
  "ip_is_multicast ip =
     (case ip_to4 ip of Some q \<Rightarrow> 224 \<le> q ! 0 \<and> q ! 0 \<le> 239 | None \<Rightarrow> ip ! 0 = 255)"

definition ip_is_link_local_unicast :: "nat list \<Rightarrow> bool" where
  "ip_is_link_local_unicast ip =
     (case ip_to4 ip of
        Some q \<Rightarrow> q ! 0 = 169 \<and> q ! 1 = 254
      | None \<Rightarrow> ip ! 0 = 254 \<and> 128 \<le> ip ! 1 \<and> ip ! 1 \<le> 191)"

definition ip_is_link_local_multicast :: "nat list \<Rightarrow> bool" where
  "ip_is_link_local_multicast ip =
     (case ip_to4 ip of
        Some q \<Rightarrow> q ! 0 = 224 \<and> q ! 1 = 0 \<and> q ! 2 = 0
      | None \<Rightarrow> ip ! 0 = 255 \<and> ip ! 1 mod 16 = 2)"

definition ip_is_global_unicast :: "nat list \<Rightarrow> bool" where
  "ip_is_global_unicast ip \<longleftrightarrow>
     ip_to4 ip \<noteq> Some [255, 255, 255, 255] \<and> ip \<noteq> replicate 16 0 \<and> ip_to4 ip \<noteq> Some [0, 0, 0, 0]
     \<and> \<not> ip_is_loopback ip \<and> \<not> ip_is_multicast ip \<and> \<not> ip_is_link_local_unicast ip"

section \<open>Host and port\<close>

definition last_index :: "char \<Rightarrow> string \<Rightarrow> nat option" where
  "last_index c s =
     (if c \<in> set s then Some (length s - 1 - length (takeWhile (\<lambda>x. x \<noteq> c) (rev s))) else None)"

definition first_index :: "char \<Rightarrow> string \<Rightarrow> nat option" where
  "first_index c s = (if c \<in> set s then Some (length (takeWhile (\<lambda>x. x \<noteq> c) s)) else None)"

definition split_host_port :: "string \<Rightarrow> (string \<times> string) option" where
  "split_host_port s =
     (case last_index (CHR '':'') s of
        None \<Rightarrow> None
      | Some i \<Rightarrow>
          (case (if has_prefix s ''['' then
                   (case first_index (CHR '']'') s of
                      None \<Rightarrow> None
                    | Some e \<Rightarrow> if e + 1 = length s \<or> e + 1 \<noteq> i then None
                                else Some (take (e - 1) (tl s), 1, e + 1))
                 else if CHR '':'' \<in> set (take i s) then None
                 else Some (take i s, 0, 0)) of
             None \<Rightarrow> None
           | Some (host, j, k) \<Rightarrow>
               if CHR ''['' \<in> set (drop j s) \<or> CHR '']'' \<in> set (drop k s) then None
               else Some (host, drop (i + 1) s)))"

end
