(* ===== verification/Executor_Policy.thy ===== *)
theory Executor_Policy
  imports Go_Sha256 Go_Net
begin

text \<open>
  Package \<open>pkg/executor\<close>, file \<open>executor.go\<close>: the operator's execution policy, the validation of a
  requested workload against it, and \<open>PolicyExecutor\<close>, which is the boundary in front of a container
  runtime client.

  Records carry a prefix for the Go struct they model.  A Go map is the list of its entries.  The
  client is a parameter; it may also panic, which is \<open>None\<close>.  A call of \<open>Execute\<close> returns, besides
  its result, the request it passed to the client, if it called it.
\<close>

section \<open>Data\<close>

datatype NetworkMode = NetworkNone | NetworkAllowlist | NetworkOther string

record Limits =
  lim_CPUMillis :: u64
  lim_MemoryBytes :: u64
  lim_DiskBytes :: u64
  lim_PIDs :: u32
  lim_ExecutionTime :: duration
  lim_OutputBytes :: u64
  lim_GPUDeviceCount :: u32

record Mount =
  mnt_Source :: string
  mnt_Target :: string

record Spec =
  spec_ImageDigest :: string
  spec_Entrypoint :: "string list"
  spec_WorkingDirectory :: string
  spec_Environment :: "(string \<times> string) list"
  spec_WorkspaceArchive :: bool
  spec_ReadOnlyRoot :: bool
  spec_Network :: NetworkMode
  spec_AllowedHosts :: "string list"
  spec_AllowGPU :: bool
  spec_UserID :: u32
  spec_GroupID :: u32
  spec_Privileged :: bool
  spec_NoNewPrivileges :: bool
  spec_HostMounts :: "Mount list"
  spec_ExposeRuntimeSocket :: bool
  spec_Limits :: Limits

record Usage =
  use_CPUMillis :: u64
  use_PeakMemory :: u64
  use_DiskWritten :: u64
  use_Duration :: duration

record Result =
  res_ExitCode :: int
  res_Output :: bytes
  res_Usage :: Usage

record ContainerRequest =
  req_ExecutionDigest :: string
  req_ImageDigest :: string
  req_Entrypoint :: "string list"
  req_WorkingDirectory :: string
  req_Environment :: "(string \<times> string) list"
  req_WorkspaceArchive :: bool
  req_UserID :: u32
  req_GroupID :: u32
  req_ReadOnlyRoot :: bool
  req_NoNewPrivileges :: bool
  req_Network :: NetworkMode
  req_AllowedHosts :: "string list"
  req_AllowGPU :: bool
  req_Limits :: Limits

record Policy =
  pol_AllowedImages :: "string list"
  pol_AllowedNetworkHosts :: "string list"
  pol_MaxAllowedImages :: int
  pol_MaxEnvironment :: int
  pol_MaxArguments :: int
  pol_MaxAllowedHosts :: int
  pol_MaxStringBytes :: int
  pol_MaxInputBytes :: u64
  pol_Ceiling :: Limits
  pol_PermitGPU :: bool
  pol_PermitNetwork :: bool
  pol_RequireReadOnlyRoot :: bool

abbreviation (input) MaxAllowedImagesHard :: int where "MaxAllowedImagesHard \<equiv> 1024"
abbreviation (input) MaxAllowedNetworkHostsHard :: int where "MaxAllowedNetworkHostsHard \<equiv> 1024"
abbreviation (input) MaxExecutionIDBytes :: nat where "MaxExecutionIDBytes \<equiv> 128"

section \<open>Validation\<close>

definition invalidContainerString :: "string \<Rightarrow> int \<Rightarrow> bool \<Rightarrow> bool" where
  "invalidContainerString v maximum allowEmpty \<longleftrightarrow>
     (\<not> allowEmpty \<and> length v = 0) \<or> int (length v) > maximum \<or> CHR 0x00 \<in> set v"

definition invalidNetworkPort :: "string \<Rightarrow> bool" where
  "invalidNetworkPort port = (case parse_uint 16 port of None \<Rightarrow> True | Some p \<Rightarrow> p = 0)"

definition invalid_label :: "string \<Rightarrow> bool" where
  "invalid_label label \<longleftrightarrow>
     length label = 0 \<or> length label > 63 \<or> hd label = CHR ''-'' \<or> last label = CHR ''-''
     \<or> \<not> list_all (\<lambda>c. is_lower c \<or> is_upper c \<or> is_digit c \<or> c = CHR ''-'') label"

definition invalidDNSHostname :: "string \<Rightarrow> bool" where
  "invalidDNSHostname hostname \<longleftrightarrow>
     length hostname = 0 \<or> length hostname > 253 \<or> list_ex invalid_label (split_on (CHR ''.'') hostname)"

definition invalidNetworkHost :: "string \<Rightarrow> int \<Rightarrow> bool" where
  "invalidNetworkHost host maximum =
     (if invalidContainerString host maximum False then True
      else if parse_ip host \<noteq> None then False
      else if has_prefix host ''['' \<and> has_suffix host '']'' then
        parse_ip (take (length host - 2) (drop 1 host)) = None
      else if CHR '':'' \<in> set host then
        (case split_host_port host of
           None \<Rightarrow> True
         | Some (hostname, port) \<Rightarrow>
             if invalidNetworkPort port then True
             else if parse_ip hostname \<noteq> None then False
             else invalidDNSHostname hostname)
      else invalidDNSHostname host)"

fun validate_hosts_from :: "string list \<Rightarrow> string list \<Rightarrow> int \<Rightarrow> unit result" where
  "validate_hosts_from seen [] maximum = Inr ()"
| "validate_hosts_from seen (host # hosts) maximum =
     (if invalidNetworkHost host maximum then
        Inl (ErrMsg ''host is empty, malformed, or exceeds the string bound'')
      else if host \<in> set seen then Inl (ErrMsg ''duplicate host'')
      else validate_hosts_from (host # seen) hosts maximum)"

definition validateNetworkHosts :: "string list \<Rightarrow> int \<Rightarrow> unit result" where
  "validateNetworkHosts hosts maximum = validate_hosts_from [] hosts maximum"

definition validWorkspaceDirectory :: "string \<Rightarrow> bool" where
  "validWorkspaceDirectory v =
     (if v \<noteq> ''/workspace/source'' \<and> \<not> has_prefix v ''/workspace/source/'' then False
      else path_clean v = v \<and> length v \<le> 4096)"

definition containsExactString :: "string list \<Rightarrow> string \<Rightarrow> bool" where
  "containsExactString vs target = list_ex (\<lambda>v. v = target) vs"

definition validatePolicyCeiling :: "Limits \<Rightarrow> bool \<Rightarrow> unit result" where
  "validatePolicyCeiling ceiling permitGPU =
     (if lim_CPUMillis ceiling = 0 \<or> lim_MemoryBytes ceiling = 0 \<or> lim_DiskBytes ceiling = 0
         \<or> lim_PIDs ceiling = 0 \<or> lim_ExecutionTime ceiling \<le> 0 \<or> lim_OutputBytes ceiling = 0
      then Inl (ErrMsg ''executor policy contains a zero or invalid resource ceiling'')
      else if permitGPU \<and> lim_GPUDeviceCount ceiling = 0
      then Inl (ErrMsg ''GPU policy requires a positive device ceiling'')
      else Inr ())"

text \<open>\<open>uint64(d)\<close> of a duration, and \<open>uint64(p)\<close> of a \<open>uint32\<close>.\<close>

definition dur_u64 :: "duration \<Rightarrow> u64" where
  "dur_u64 d = word_of_int d"

definition within_check :: "string \<times> u64 \<times> u64 \<Rightarrow> unit result" where
  "within_check c =
     (case c of (name, requested, maximum) \<Rightarrow>
        if requested = 0 \<or> maximum = 0 \<or> requested > maximum
        then Inl (ErrMsg (name @ '' limit is zero or exceeds policy'')) else Inr ())"

fun first_error :: "unit result list \<Rightarrow> unit result" where
  "first_error [] = Inr ()"
| "first_error (Inl e # rs) = Inl e"
| "first_error (Inr u # rs) = first_error rs"

definition withinCeiling :: "Limits \<Rightarrow> Limits \<Rightarrow> unit result" where
  "withinCeiling request ceiling =
     (if lim_ExecutionTime request \<le> 0 \<or> lim_ExecutionTime ceiling \<le> 0
      then Inl (ErrMsg ''execution time limit is zero or exceeds policy'')
      else first_error (map within_check
        [(''cpu'', lim_CPUMillis request, lim_CPUMillis ceiling),
         (''memory'', lim_MemoryBytes request, lim_MemoryBytes ceiling),
         (''disk'', lim_DiskBytes request, lim_DiskBytes ceiling),
         (''output'', lim_OutputBytes request, lim_OutputBytes ceiling),
         (''execution time'', dur_u64 (lim_ExecutionTime request), dur_u64 (lim_ExecutionTime ceiling)),
         (''pids'', ucast (lim_PIDs request), ucast (lim_PIDs ceiling))]))"

definition policy_validate :: "Policy \<Rightarrow> unit result" where
  "policy_validate p =
     (if pol_MaxAllowedImages p \<le> 0 \<or> pol_MaxAllowedImages p > MaxAllowedImagesHard
         \<or> int (length (pol_AllowedImages p)) > pol_MaxAllowedImages p
         \<or> int (length (pol_AllowedNetworkHosts p)) > MaxAllowedNetworkHostsHard
         \<or> pol_MaxEnvironment p < 0 \<or> pol_MaxArguments p \<le> 0 \<or> pol_MaxAllowedHosts p < 0
         \<or> pol_MaxAllowedHosts p > MaxAllowedNetworkHostsHard
         \<or> pol_MaxStringBytes p \<le> 0 \<or> pol_MaxInputBytes p = 0
      then Inl (ErrMsg ''invalid executor policy'')
      else case validatePolicyCeiling (pol_Ceiling p) (pol_PermitGPU p) of
        Inl e \<Rightarrow> Inl e
      | Inr _ \<Rightarrow>
          if pol_PermitNetwork p \<and> (pol_MaxAllowedHosts p = 0 \<or> length (pol_AllowedNetworkHosts p) = 0)
          then Inl (ErrMsg ''network policy requires an operator host allowlist'')
          else if \<not> pol_PermitNetwork p \<and> length (pol_AllowedNetworkHosts p) \<noteq> 0
          then Inl (ErrMsg ''network host allowlist requires network permission'')
          else (case validateNetworkHosts (pol_AllowedNetworkHosts p) (pol_MaxStringBytes p) of
              Inl e \<Rightarrow> Inl (wrap_error ''invalid executor network policy: '' e)
            | Inr _ \<Rightarrow>
                if \<not> list_all (hex64_after ''sha256:'') (pol_AllowedImages p)
                then Inl (ErrMsg ''executor policy contains an unpinned image'')
                else Inr ()))"

text \<open>
  \<open>Policy.Validate\<close>.  Its checks are in the source's order; the network and GPU part, which
  the source writes as a \<open>switch\<close> and two \<open>if\<close>s, is a definition of its own.
\<close>

definition validate_network_gpu :: "Policy \<Rightarrow> Spec \<Rightarrow> unit result" where
  "validate_network_gpu p spec =
     (case (case spec_Network spec of
              NetworkNone \<Rightarrow>
                if length (spec_AllowedHosts spec) \<noteq> 0
                then Inl (ErrMsg ''allowed hosts require allowlist network mode'') else Inr ()
            | NetworkAllowlist \<Rightarrow>
                if \<not> pol_PermitNetwork p \<or> length (spec_AllowedHosts spec) = 0
                then Inl (ErrMsg ''network access is not authorized'')
                else if \<not> list_all (containsExactString (pol_AllowedNetworkHosts p)) (spec_AllowedHosts spec)
                then Inl (ErrMsg ''network host is not authorized'') else Inr ()
            | NetworkOther _ \<Rightarrow> Inl (ErrMsg ''invalid network mode'')) of
        Inl e \<Rightarrow> Inl e
      | Inr _ \<Rightarrow>
          if spec_AllowGPU spec \<and> \<not> pol_PermitGPU p
          then Inl (ErrMsg ''GPU device access is not authorized'')
          else if spec_AllowGPU spec \<and>
                  (lim_GPUDeviceCount (spec_Limits spec) = 0
                   \<or> lim_GPUDeviceCount (spec_Limits spec) > lim_GPUDeviceCount (pol_Ceiling p))
          then Inl (ErrMsg ''GPU device limit is zero or exceeds policy'')
          else if \<not> spec_AllowGPU spec \<and> lim_GPUDeviceCount (spec_Limits spec) \<noteq> 0
          then Inl (ErrMsg ''GPU device count requires GPU authorization'')
          else withinCeiling (spec_Limits spec) (pol_Ceiling p))"

definition Validate :: "Policy \<Rightarrow> Spec \<Rightarrow> unit result" where
  "Validate p spec =
     (case policy_validate p of Inl e \<Rightarrow> Inl e | Inr _ \<Rightarrow>
      if \<not> hex64_after ''sha256:'' (spec_ImageDigest spec)
      then Inl (ErrMsg ''container image must be pinned by sha256 digest'')
      else if spec_ImageDigest spec \<notin> set (pol_AllowedImages p)
      then Inl (ErrMsg ''container image is not allowlisted'')
      else if length (spec_Entrypoint spec) = 0 \<or> int (length (spec_Entrypoint spec)) > pol_MaxArguments p
         \<or> int (length (spec_Environment spec)) > pol_MaxEnvironment p
         \<or> int (length (spec_AllowedHosts spec)) > pol_MaxAllowedHosts p
         \<or> length (spec_HostMounts spec) \<noteq> 0
      then Inl (ErrMsg ''executor argument or environment bounds exceeded'')
      else if list_ex (\<lambda>a. invalidContainerString a (pol_MaxStringBytes p) False) (spec_Entrypoint spec)
      then Inl (ErrMsg ''executor argument is invalid'')
      else if spec_WorkspaceArchive spec \<and> \<not> validWorkspaceDirectory (spec_WorkingDirectory spec)
      then Inl (ErrMsg ''workspace execution requires a bounded working directory'')
      else if \<not> spec_WorkspaceArchive spec \<and> spec_WorkingDirectory spec \<noteq> [] \<and> spec_WorkingDirectory spec \<noteq> ''/''
      then Inl (ErrMsg ''working directory requires a workspace archive'')
      else if list_ex (\<lambda>kv. invalidContainerString (fst kv) (pol_MaxStringBytes p) False
                          \<or> CHR ''='' \<in> set (fst kv)
                          \<or> invalidContainerString (snd kv) (pol_MaxStringBytes p) True) (spec_Environment spec)
      then Inl (ErrMsg ''executor environment is invalid'')
      else (case validateNetworkHosts (spec_AllowedHosts spec) (pol_MaxStringBytes p) of
          Inl e \<Rightarrow> Inl (wrap_error ''executor allowed host is invalid: '' e)
        | Inr _ \<Rightarrow>
            if spec_Privileged spec then Inl (ErrMsg ''privileged execution is forbidden'')
            else if spec_UserID spec = 0 \<or> spec_GroupID spec = 0
            then Inl (ErrMsg ''container must run as a non-root user and group'')
            else if \<not> spec_NoNewPrivileges spec then Inl (ErrMsg ''no-new-privileges is required'')
            else if spec_ExposeRuntimeSocket spec
            then Inl (ErrMsg ''container runtime socket exposure is forbidden'')
            else if pol_RequireReadOnlyRoot p \<and> \<not> spec_ReadOnlyRoot spec
            then Inl (ErrMsg ''read-only root filesystem is required'')
            else validate_network_gpu p spec))"

definition ValidateInput :: "Policy \<Rightarrow> bytes \<Rightarrow> unit result" where
  "ValidateInput p input =
     (if length input > unat (pol_MaxInputBytes p) then Inl (ErrMsg ''executor input exceeds policy'')
      else Inr ())"

section \<open>The policy executor\<close>

definition ExecutionDigest :: "string \<Rightarrow> string result" where
  "ExecutionDigest executionID =
     (if executionID = [] \<or> length executionID > MaxExecutionIDBytes
      then Inl (ErrMsg ''invalid isolated execution identity'')
      else Inr (sha256_digest (''TOS-AI-EXECUTION-ID-V1'' @ [CHR 0x00] @ executionID)))"

definition ValidateExecutionDigest :: "string \<Rightarrow> unit result" where
  "ValidateExecutionDigest v =
     (if \<not> hex64_after ''sha256:'' v then Inl (ErrMsg ''invalid isolated execution digest'') else Inr ())"

definition validateResult :: "Limits \<Rightarrow> Result \<Rightarrow> unit result" where
  "validateResult limits r =
     (if res_ExitCode r < 0 \<or> res_ExitCode r > 255
         \<or> length (res_Output r) > unat (lim_OutputBytes limits)
         \<or> use_CPUMillis (res_Usage r) > lim_CPUMillis limits
         \<or> use_PeakMemory (res_Usage r) > lim_MemoryBytes limits
         \<or> use_DiskWritten (res_Usage r) > lim_DiskBytes limits
         \<or> use_Duration (res_Usage r) < 0
         \<or> use_Duration (res_Usage r) > lim_ExecutionTime limits
      then Inl (ErrMsg ''isolated execution result exceeds requested limits'') else Inr ())"

text \<open>
  What a call observes of its environment: whether the executor, its client and the context are
  present, the context's error before and after the client call, and the times and parent deadline
  that fix the deadline of \<open>context.WithTimeout\<close>.
\<close>

record exec_env =
  env_executor_ok :: bool
  env_ctx_nil :: bool
  env_cancelled_before :: bool
  env_started :: instant
  env_parent_deadline :: "instant option"
  env_cancelled_after :: bool
  env_returned :: instant

definition execution_deadline :: "exec_env \<Rightarrow> duration \<Rightarrow> instant" where
  "execution_deadline env timeout =
     (case env_parent_deadline env of
        None \<Rightarrow> env_started env + timeout
      | Some d \<Rightarrow> min d (env_started env + timeout))"

definition executionContextError :: "exec_env \<Rightarrow> duration \<Rightarrow> bool" where
  "executionContextError env timeout \<longleftrightarrow>
     env_cancelled_after env \<or> \<not> (env_returned env < execution_deadline env timeout)"

type_synonym client = "ContainerRequest \<Rightarrow> bytes \<Rightarrow> Result result option"

definition callContainerdClient :: "client \<Rightarrow> ContainerRequest \<Rightarrow> bytes \<Rightarrow> Result result" where
  "callContainerdClient client req input =
     (case client req input of
        None \<Rightarrow> Inl (ErrMsg ''container runtime client panicked'')
      | Some r \<Rightarrow> r)"

definition container_request :: "string \<Rightarrow> Spec \<Rightarrow> ContainerRequest" where
  "container_request digest spec =
     \<lparr>req_ExecutionDigest = digest,
      req_ImageDigest = spec_ImageDigest spec,
      req_Entrypoint = spec_Entrypoint spec,
      req_WorkingDirectory = spec_WorkingDirectory spec,
      req_Environment = spec_Environment spec,
      req_WorkspaceArchive = spec_WorkspaceArchive spec,
      req_UserID = spec_UserID spec,
      req_GroupID = spec_GroupID spec,
      req_ReadOnlyRoot = spec_ReadOnlyRoot spec,
      req_NoNewPrivileges = spec_NoNewPrivileges spec,
      req_Network = spec_Network spec,
      req_AllowedHosts = spec_AllowedHosts spec,
      req_AllowGPU = spec_AllowGPU spec,
      req_Limits = spec_Limits spec\<rparr>"

definition NewPolicyExecutor :: "Policy \<Rightarrow> client option \<Rightarrow> (Policy \<times> client) result" where
  "NewPolicyExecutor policy client =
     (case policy_validate policy of
        Inl e \<Rightarrow> Inl e
      | Inr _ \<Rightarrow>
          (case client of
             None \<Rightarrow> Inl (ErrMsg ''nil container runtime client'')
           | Some c \<Rightarrow> Inr (policy, c)))"

definition Execute :: "Policy \<Rightarrow> client \<Rightarrow> exec_env \<Rightarrow> string \<Rightarrow> Spec \<Rightarrow> bytes
    \<Rightarrow> (ContainerRequest \<times> bytes) option \<times> Result result" where
  "Execute policy client env executionID spec input =
     (if \<not> env_executor_ok env then (None, Inl (ErrMsg ''invalid policy executor''))
      else if env_ctx_nil env then (None, Inl (ErrMsg ''nil execution context''))
      else if env_cancelled_before env then (None, Inl ErrContext)
      else case ExecutionDigest executionID of Inl e \<Rightarrow> (None, Inl e) | Inr executionDigest \<Rightarrow>
      case Validate policy spec of Inl e \<Rightarrow> (None, Inl e) | Inr _ \<Rightarrow>
      case ValidateInput policy input of Inl e \<Rightarrow> (None, Inl e) | Inr _ \<Rightarrow>
      let request = container_request executionDigest spec;
          result = callContainerdClient client request input
      in (Some (request, input),
          if executionContextError env (lim_ExecutionTime (spec_Limits spec)) then Inl ErrContext
          else case result of
            Inl e \<Rightarrow> Inl (ErrMsg ''isolated execution backend failed'')
          | Inr r \<Rightarrow>
              (case validateResult (spec_Limits spec) r of Inl e \<Rightarrow> Inl e | Inr _ \<Rightarrow> Inr r)))"

text \<open>The bootstrap executor, which runs nothing.\<close>

definition DenyAll_Execute :: "string \<Rightarrow> Spec \<Rightarrow> bytes \<Rightarrow> Result result" where
  "DenyAll_Execute executionID spec input = Inl (ErrMsg ''arbitrary workload execution is disabled'')"

section \<open>Correctness of the validation\<close>

lemma validate_hosts_from_ok:
  "validate_hosts_from seen hs m = Inr () \<longleftrightarrow>
     list_all (\<lambda>h. \<not> invalidNetworkHost h m) hs \<and> distinct hs \<and> set hs \<inter> set seen = {}"
  by (induction seen hs m rule: validate_hosts_from.induct) auto

lemma validateNetworkHosts_ok:
  "validateNetworkHosts hs m = Inr () \<longleftrightarrow> list_all (\<lambda>h. \<not> invalidNetworkHost h m) hs \<and> distinct hs"
  by (simp add: validateNetworkHosts_def validate_hosts_from_ok)

lemma first_error_ok: "first_error rs = Inr () \<longleftrightarrow> list_all (\<lambda>r. r = Inr ()) rs"
  by (induction rs rule: first_error.induct) auto

lemma within_check_ok [simp]: "within_check (n, r, m) = Inr () \<longleftrightarrow> 0 < r \<and> r \<le> m"
  by (auto simp: within_check_def word_neq_0_conv not_less)

lemma sum_unit_cases: "(r :: unit result) = Inr () \<or> (\<exists>e. r = Inl e)"
  by (cases r) auto

lemma case_unit_result_ok [simp]:
  "(case r of Inl e \<Rightarrow> Inl (f e) | Inr u \<Rightarrow> g) = Inr v \<longleftrightarrow> r = Inr () \<and> g = Inr v"
  for r :: "unit result"
  by (cases r) auto

lemma dur_u64_le:
  assumes "0 < d" and "in_int64 d" and "0 < e" and "in_int64 e"
  shows "dur_u64 d \<le> dur_u64 e \<longleftrightarrow> d \<le> e"
proof -
  have "d mod 18446744073709551616 = d" "e mod 18446744073709551616 = e"
    using assms by (simp_all add: in_int64_def)
  then have "uint (dur_u64 d) = d" "uint (dur_u64 e) = e"
    by (simp_all add: dur_u64_def uint_word_of_int take_bit_eq_mod)
  then show ?thesis by (simp add: word_le_def)
qed

text \<open>
  Every requested limit is positive and at most the policy's.  On the word level the pid count
  and the duration are compared after widening, which changes nothing.
\<close>

definition limits_within :: "Limits \<Rightarrow> Limits \<Rightarrow> bool" where
  "limits_within r c \<longleftrightarrow>
     0 < lim_CPUMillis r \<and> lim_CPUMillis r \<le> lim_CPUMillis c
     \<and> 0 < lim_MemoryBytes r \<and> lim_MemoryBytes r \<le> lim_MemoryBytes c
     \<and> 0 < lim_DiskBytes r \<and> lim_DiskBytes r \<le> lim_DiskBytes c
     \<and> 0 < lim_OutputBytes r \<and> lim_OutputBytes r \<le> lim_OutputBytes c
     \<and> 0 < lim_ExecutionTime r \<and> lim_ExecutionTime r \<le> lim_ExecutionTime c
     \<and> 0 < lim_PIDs r \<and> lim_PIDs r \<le> lim_PIDs c"

lemma ucast_u32_le: "(ucast (a :: u32) :: u64) \<le> ucast b \<longleftrightarrow> a \<le> b"
  by (simp add: word_le_def uint_up_ucast is_up)

lemma ucast_u32_pos: "0 < (ucast (a :: u32) :: u64) \<longleftrightarrow> 0 < a"
  by (simp add: word_less_def uint_up_ucast is_up)

lemma withinCeiling_ok:
  assumes "in_int64 (lim_ExecutionTime r)" and "in_int64 (lim_ExecutionTime c)"
  shows "withinCeiling r c = Inr () \<longleftrightarrow> limits_within r c \<and> 0 < lim_ExecutionTime c"
proof (cases "lim_ExecutionTime r \<le> 0 \<or> lim_ExecutionTime c \<le> 0")
  case True
  then show ?thesis by (auto simp: withinCeiling_def limits_within_def)
next
  case False
  then have pos: "0 < lim_ExecutionTime r" "0 < lim_ExecutionTime c" by auto
  have nz: "0 < dur_u64 (lim_ExecutionTime r)"
    using pos(1) assms(1)
    by (simp add: dur_u64_def word_less_def uint_word_of_int in_int64_def take_bit_eq_mod)
  show ?thesis
    using pos nz dur_u64_le [OF pos(1) assms(1) pos(2) assms(2)]
    by (simp add: withinCeiling_def limits_within_def first_error_ok ucast_u32_le ucast_u32_pos)
qed

text \<open>What the policy promises about a workload it admits, stated without reference to the code.\<close>

definition hardened :: "Policy \<Rightarrow> Spec \<Rightarrow> bool" where
  "hardened p s \<longleftrightarrow>
     hex64_after ''sha256:'' (spec_ImageDigest s) \<and> spec_ImageDigest s \<in> set (pol_AllowedImages p)
     \<and> spec_UserID s \<noteq> 0 \<and> spec_GroupID s \<noteq> 0 \<and> \<not> spec_Privileged s \<and> spec_NoNewPrivileges s
     \<and> spec_HostMounts s = [] \<and> \<not> spec_ExposeRuntimeSocket s
     \<and> (pol_RequireReadOnlyRoot p \<longrightarrow> spec_ReadOnlyRoot s)
     \<and> (spec_Network s = NetworkNone \<and> spec_AllowedHosts s = []
        \<or> spec_Network s = NetworkAllowlist \<and> pol_PermitNetwork p \<and> spec_AllowedHosts s \<noteq> []
          \<and> set (spec_AllowedHosts s) \<subseteq> set (pol_AllowedNetworkHosts p))
     \<and> (if spec_AllowGPU s
        then pol_PermitGPU p \<and> 0 < lim_GPUDeviceCount (spec_Limits s)
             \<and> lim_GPUDeviceCount (spec_Limits s) \<le> lim_GPUDeviceCount (pol_Ceiling p)
        else lim_GPUDeviceCount (spec_Limits s) = 0)
     \<and> limits_within (spec_Limits s) (pol_Ceiling p)"

lemma containsExactString_iff [simp]: "containsExactString vs t \<longleftrightarrow> t \<in> set vs"
  by (auto simp: containsExactString_def list_ex_iff)

lemma validate_network_gpu_ok:
  assumes "in_int64 (lim_ExecutionTime (spec_Limits s))"
    and "in_int64 (lim_ExecutionTime (pol_Ceiling p))"
    and "validate_network_gpu p s = Inr ()"
  shows "(spec_Network s = NetworkNone \<and> spec_AllowedHosts s = []
          \<or> spec_Network s = NetworkAllowlist \<and> pol_PermitNetwork p \<and> spec_AllowedHosts s \<noteq> []
            \<and> set (spec_AllowedHosts s) \<subseteq> set (pol_AllowedNetworkHosts p))
       \<and> (if spec_AllowGPU s
          then pol_PermitGPU p \<and> 0 < lim_GPUDeviceCount (spec_Limits s)
               \<and> lim_GPUDeviceCount (spec_Limits s) \<le> lim_GPUDeviceCount (pol_Ceiling p)
          else lim_GPUDeviceCount (spec_Limits s) = 0)
       \<and> limits_within (spec_Limits s) (pol_Ceiling p)"
  using assms
  by (auto simp: validate_network_gpu_def withinCeiling_ok list_all_iff word_neq_0_conv not_less
      split: NetworkMode.splits if_splits)

lemma Validate_hardened:
  assumes "in_int64 (lim_ExecutionTime (spec_Limits s))"
    and "in_int64 (lim_ExecutionTime (pol_Ceiling p))"
    and "Validate p s = Inr ()"
  shows "hardened p s"
proof -
  from assms(3) have parts:
    "hex64_after ''sha256:'' (spec_ImageDigest s)" "spec_ImageDigest s \<in> set (pol_AllowedImages p)"
    "spec_UserID s \<noteq> 0" "spec_GroupID s \<noteq> 0" "\<not> spec_Privileged s" "spec_NoNewPrivileges s"
    "spec_HostMounts s = []" "\<not> spec_ExposeRuntimeSocket s"
    "pol_RequireReadOnlyRoot p \<longrightarrow> spec_ReadOnlyRoot s" "validate_network_gpu p s = Inr ()"
    by (simp_all add: Validate_def split: if_splits)
  with validate_network_gpu_ok [OF assms(1,2) parts(10)] show ?thesis
    unfolding hardened_def by blast
qed

lemma validateResult_ok:
  "validateResult l r = Inr () \<longleftrightarrow>
     0 \<le> res_ExitCode r \<and> res_ExitCode r \<le> 255
     \<and> length (res_Output r) \<le> unat (lim_OutputBytes l)
     \<and> use_CPUMillis (res_Usage r) \<le> lim_CPUMillis l
     \<and> use_PeakMemory (res_Usage r) \<le> lim_MemoryBytes l
     \<and> use_DiskWritten (res_Usage r) \<le> lim_DiskBytes l
     \<and> 0 \<le> use_Duration (res_Usage r) \<and> use_Duration (res_Usage r) \<le> lim_ExecutionTime l"
  by (auto simp: validateResult_def not_less)

lemma ExecutionDigest_ok:
  "ExecutionDigest i = Inr d \<Longrightarrow> hex64_after ''sha256:'' d \<and> ValidateExecutionDigest d = Inr ()"
  by (auto simp: ExecutionDigest_def ValidateExecutionDigest_def split: if_splits)

text \<open>A call reaches the client only after every check has passed.\<close>

lemma Execute_called:
  assumes "Execute p c env i s inp = (Some (req, inp'), r)"
  shows "Validate p s = Inr ()" and "ValidateInput p inp = Inr ()" and "inp' = inp"
    and "\<exists>d. ExecutionDigest i = Inr d \<and> req = container_request d s"
    and "\<not> env_cancelled_before env"
  using assms
  by (auto simp: Execute_def Let_def split: if_splits sum.splits)

lemma Execute_success:
  assumes "Execute p c env i s inp = (call, Inr r)"
  shows "\<exists>req. call = Some (req, inp) \<and> c req inp = Some (Inr r)"
    and "validateResult (spec_Limits s) r = Inr ()"
    and "env_returned env < env_started env + lim_ExecutionTime (spec_Limits s)"
  using assms
  by (auto simp: Execute_def Let_def callContainerdClient_def executionContextError_def
        execution_deadline_def split: if_splits sum.splits option.splits)

lemma Execute_refused:
  assumes "Validate p s = Inl e"
  shows "\<exists>e'. Execute p c env i s inp = (None, Inl e')"
  using assms by (simp add: Execute_def split: sum.splits)

section \<open>Properties\<close>

text \<open>
  C4. Whatever the caller asks for, a request that reaches the container runtime client is hardened:
  the image is pinned by digest and allowlisted by the operator, the user and group are not root, new
  privileges are off, the root file system is read-only where the policy asks for it, the network is
  off or limited to hosts the operator lists, GPUs are given only under a GPU policy, every limit is
  positive and within the policy's ceiling, the execution identity is a digest, and the input is the
  caller's and within the policy's bound.  Durations are 64-bit integers, as in the source.
\<close>

theorem Execute_request_hardened:
  assumes "in_int64 (lim_ExecutionTime (spec_Limits s))"
    and "in_int64 (lim_ExecutionTime (pol_Ceiling p))"
    and "Execute p c env i s inp = (Some (req, inp'), r)"
  shows "hex64_after ''sha256:'' (req_ImageDigest req) \<and> req_ImageDigest req \<in> set (pol_AllowedImages p)
     \<and> hex64_after ''sha256:'' (req_ExecutionDigest req)
     \<and> req_UserID req \<noteq> 0 \<and> req_GroupID req \<noteq> 0 \<and> req_NoNewPrivileges req
     \<and> (pol_RequireReadOnlyRoot p \<longrightarrow> req_ReadOnlyRoot req)
     \<and> (req_Network req = NetworkNone \<and> req_AllowedHosts req = []
        \<or> req_Network req = NetworkAllowlist \<and> pol_PermitNetwork p
          \<and> set (req_AllowedHosts req) \<subseteq> set (pol_AllowedNetworkHosts p))
     \<and> (if req_AllowGPU req
        then pol_PermitGPU p \<and> lim_GPUDeviceCount (req_Limits req) \<le> lim_GPUDeviceCount (pol_Ceiling p)
        else lim_GPUDeviceCount (req_Limits req) = 0)
     \<and> limits_within (req_Limits req) (pol_Ceiling p)
     \<and> inp' = inp \<and> length inp \<le> unat (pol_MaxInputBytes p)"
proof -
  obtain d where d: "ExecutionDigest i = Inr d" "req = container_request d s"
    using Execute_called(4) [OF assms(3)] by blast
  have "hardened p s"
    using Validate_hardened [OF assms(1,2) Execute_called(1) [OF assms(3)]] .
  moreover have "length inp \<le> unat (pol_MaxInputBytes p)"
    using Execute_called(2) [OF assms(3)] by (simp add: ValidateInput_def split: if_splits)
  ultimately show ?thesis
    using d(2) ExecutionDigest_ok [OF d(1)] Execute_called(3) [OF assms(3)]
    by (auto simp: hardened_def container_request_def)
qed

text \<open>
  A result is returned only when the client was called with the caller's input and returned it,
  the execution finished strictly before its deadline, and the reported exit code, output and
  resource usage are within the limits the caller asked for.
\<close>

theorem Execute_result_bounded:
  assumes "Execute p c env i s inp = (call, Inr r)"
  shows "(\<exists>req. call = Some (req, inp) \<and> c req inp = Some (Inr r) \<and> req_Limits req = spec_Limits s)
     \<and> env_returned env < env_started env + lim_ExecutionTime (spec_Limits s)
     \<and> 0 \<le> res_ExitCode r \<and> res_ExitCode r \<le> 255
     \<and> length (res_Output r) \<le> unat (lim_OutputBytes (spec_Limits s))
     \<and> use_CPUMillis (res_Usage r) \<le> lim_CPUMillis (spec_Limits s)
     \<and> use_PeakMemory (res_Usage r) \<le> lim_MemoryBytes (spec_Limits s)
     \<and> use_DiskWritten (res_Usage r) \<le> lim_DiskBytes (spec_Limits s)
     \<and> 0 \<le> use_Duration (res_Usage r) \<and> use_Duration (res_Usage r) \<le> lim_ExecutionTime (spec_Limits s)"
proof -
  obtain req where req: "call = Some (req, inp)" "c req inp = Some (Inr r)"
    using Execute_success(1) [OF assms] by blast
  then have "req_Limits req = spec_Limits s"
    using Execute_called(4) assms by (force simp: container_request_def)
  then show ?thesis
    using req Execute_success(2,3) [OF assms] by (auto simp: validateResult_ok)
qed

subsection \<open>A policy, a workload and a client\<close>

definition demo_limits :: Limits where
  "demo_limits = \<lparr>lim_CPUMillis = 1000, lim_MemoryBytes = 65536, lim_DiskBytes = 65536, lim_PIDs = 4,
     lim_ExecutionTime = 1000000000, lim_OutputBytes = 16, lim_GPUDeviceCount = 0\<rparr>"

definition demo_image :: string where
  "demo_image = ''sha256:'' @ replicate 64 (CHR ''a'')"

definition demo_policy :: Policy where
  "demo_policy = \<lparr>pol_AllowedImages = [demo_image], pol_AllowedNetworkHosts = [], pol_MaxAllowedImages = 1,
     pol_MaxEnvironment = 0, pol_MaxArguments = 1, pol_MaxAllowedHosts = 0, pol_MaxStringBytes = 64,
     pol_MaxInputBytes = 8, pol_Ceiling = demo_limits, pol_PermitGPU = False, pol_PermitNetwork = False,
     pol_RequireReadOnlyRoot = True\<rparr>"

definition demo_spec :: Spec where
  "demo_spec = \<lparr>spec_ImageDigest = demo_image, spec_Entrypoint = [''/run''], spec_WorkingDirectory = [],
     spec_Environment = [], spec_WorkspaceArchive = False, spec_ReadOnlyRoot = True,
     spec_Network = NetworkNone, spec_AllowedHosts = [], spec_AllowGPU = False, spec_UserID = 1000,
     spec_GroupID = 1000, spec_Privileged = False, spec_NoNewPrivileges = True, spec_HostMounts = [],
     spec_ExposeRuntimeSocket = False, spec_Limits = demo_limits\<rparr>"

definition demo_result :: Result where
  "demo_result = \<lparr>res_ExitCode = 0, res_Output = ''ok'',
     res_Usage = \<lparr>use_CPUMillis = 5, use_PeakMemory = 4096, use_DiskWritten = 0, use_Duration = 7\<rparr>\<rparr>"

definition demo_client :: client where
  "demo_client req input = (if input = ''in'' then Some (Inr demo_result) else None)"

definition demo_env :: exec_env where
  "demo_env = \<lparr>env_executor_ok = True, env_ctx_nil = False, env_cancelled_before = False,
     env_started = 100, env_parent_deadline = None, env_cancelled_after = False, env_returned = 200\<rparr>"

lemmas demo_defs = demo_limits_def demo_policy_def demo_spec_def demo_result_def demo_client_def demo_env_def

lemma demo_image_pattern: "hex64_after ''sha256:'' demo_image"
  unfolding demo_image_def by (rule hex64_afterI) (simp_all add: list_all_iff is_lower_hex_def)

lemma demo_limits_within: "withinCeiling demo_limits demo_limits = Inr ()"
  by (simp add: withinCeiling_def within_check_def demo_limits_def dur_u64_def)

lemmas demo_limits_within_record = demo_limits_within [unfolded demo_limits_def]

lemma demo_policy_validate: "policy_validate demo_policy = Inr ()"
  by (simp add: policy_validate_def demo_policy_def validatePolicyCeiling_def demo_limits_def
      validateNetworkHosts_def demo_image_pattern)

lemma demo_Validate: "Validate demo_policy demo_spec = Inr ()"
  unfolding Validate_def demo_policy_validate
  by (simp add: demo_spec_def demo_image_pattern invalidContainerString_def validateNetworkHosts_def
      validate_network_gpu_def demo_limits_within)
    (simp add: demo_policy_def demo_limits_def demo_limits_within_record)

definition demo_digest :: string where
  "demo_digest = sha256_digest (''TOS-AI-EXECUTION-ID-V1'' @ [CHR 0x00] @ ''job'')"

lemma demo_ExecutionDigest: "ExecutionDigest ''job'' = Inr demo_digest"
  by (simp add: ExecutionDigest_def demo_digest_def)

lemma demo_Execute:
  "Execute demo_policy demo_client demo_env ''job'' demo_spec ''in'' =
     (Some (container_request demo_digest demo_spec, ''in''), Inr demo_result)"
  unfolding Execute_def demo_Validate demo_ExecutionDigest
  by (simp add: Let_def ValidateInput_def callContainerdClient_def executionContextError_def
      execution_deadline_def validateResult_def demo_defs)

theorem Execute_request_hardened_witness:
  "req_UserID (container_request demo_digest demo_spec) \<noteq> 0
   \<and> req_ImageDigest (container_request demo_digest demo_spec) \<in> set (pol_AllowedImages demo_policy)
   \<and> limits_within (req_Limits (container_request demo_digest demo_spec)) (pol_Ceiling demo_policy)"
  using Execute_request_hardened [OF _ _ demo_Execute]
  by (simp add: in_int64_def demo_policy_def demo_spec_def demo_limits_def)

theorem Execute_result_bounded_witness:
  "length (res_Output demo_result) \<le> unat (lim_OutputBytes (spec_Limits demo_spec))
   \<and> res_ExitCode demo_result \<le> 255"
  using Execute_result_bounded [OF demo_Execute] by blast

end
