(* ===== verification/Go_Tar.thy ===== *)
theory Go_Tar
  imports Go_Prelude
begin

text \<open>
  The writer of package \<open>archive/tar\<close> for regular files in the USTAR format, as the sources use it:
  a header block per file, the body padded to whole blocks, two zero blocks at the end.  A small reader
  of such archives is the specification the writer is checked against.
\<close>

section \<open>Writer\<close>

fun octal :: "nat \<Rightarrow> string" where
  "octal n = (if n < 8 then [char_of (48 + n)] else octal (n div 8) @ [char_of (48 + n mod 8)])"

declare octal.simps [simp del]

definition nul :: "nat \<Rightarrow> string" where
  "nul n = replicate n (CHR 0x00)"

text \<open>\<open>formatString\<close>, for a string that fits its field, and \<open>formatOctal\<close>, for a number that fits.\<close>

definition format_string :: "nat \<Rightarrow> string \<Rightarrow> bytes" where
  "format_string width s = s @ nul (width - length s)"

definition format_octal :: "nat \<Rightarrow> nat \<Rightarrow> bytes" where
  "format_octal width n =
     format_string width (replicate (width - 1 - length (octal n)) (CHR ''0'') @ octal n)"

definition fits_octal :: "nat \<Rightarrow> nat \<Rightarrow> bool" where
  "fits_octal width n \<longleftrightarrow> n < 8 ^ (width - 1)"

definition ustar_before :: "string \<Rightarrow> nat \<Rightarrow> nat \<Rightarrow> bytes" where
  "ustar_before name mode sz =
     format_string 100 name @ format_octal 8 mode @ format_octal 8 0 @ format_octal 8 0
     @ format_octal 12 sz @ format_octal 12 0"

definition ustar_after :: bytes where
  "ustar_after =
     ''0'' @ nul 100 @ ''ustar'' @ nul 1 @ ''00'' @ nul 32 @ nul 32 @ format_octal 8 0 @ format_octal 8 0
     @ nul 155 @ nul 12"

definition checksum :: "bytes \<Rightarrow> nat" where
  "checksum bs = sum_list (map of_char bs)"

definition ustar_header :: "string \<Rightarrow> nat \<Rightarrow> nat \<Rightarrow> bytes" where
  "ustar_header name mode sz =
     ustar_before name mode sz
     @ format_octal 7 (checksum (ustar_before name mode sz @ replicate 8 (CHR '' '') @ ustar_after))
     @ '' '' @ ustar_after"

definition tar_pad :: "nat \<Rightarrow> nat" where
  "tar_pad n = (512 - n mod 512) mod 512"

definition tar_entry :: "string \<Rightarrow> nat \<Rightarrow> bytes \<Rightarrow> bytes" where
  "tar_entry name mode body = ustar_header name mode (length body) @ body @ nul (tar_pad (length body))"

text \<open>An archive of the given files; \<open>None\<close> when a size does not fit the header.\<close>

definition tar_archive :: "nat \<Rightarrow> (string \<times> bytes) list \<Rightarrow> bytes option" where
  "tar_archive mode es =
     (if list_all (\<lambda>e. fits_octal 12 (length (snd e))) es
      then Some (concat (map (\<lambda>e. tar_entry (fst e) mode (snd e)) es) @ nul 1024) else None)"

section \<open>Reader\<close>

definition octal_value :: "string \<Rightarrow> nat" where
  "octal_value s = foldl (\<lambda>v c. v * 8 + (of_char c - 48)) 0 s"

definition until_nul :: "bytes \<Rightarrow> string" where
  "until_nul bs = takeWhile (\<lambda>c. c \<noteq> CHR 0x00) bs"

function tar_read :: "bytes \<Rightarrow> (string \<times> bytes) list" where
  "tar_read bs =
     (if length bs < 512 \<or> hd bs = CHR 0x00 then []
      else let sz = octal_value (until_nul (take 12 (drop 124 bs)));
               rest = drop 512 bs
           in (until_nul (take 100 bs), take sz rest) # tar_read (drop (sz + tar_pad sz) rest))"
  by pat_completeness auto

termination
  by (relation "measure length") (auto simp: Let_def)

declare tar_read.simps [simp del]

section \<open>Lemmas\<close>

lemma length_nul [simp]: "length (nul n) = n"
  by (simp add: nul_def)

lemma length_format_string [simp]: "length s \<le> width \<Longrightarrow> length (format_string width s) = width"
  by (simp add: format_string_def)

lemma length_octal: "n < 8 ^ k \<Longrightarrow> 0 < k \<Longrightarrow> length (octal n) \<le> k"
proof (induction n arbitrary: k rule: octal.induct)
  case (1 n)
  show ?case
  proof (cases "n < 8")
    case True
    then show ?thesis
      using 1 by (simp add: octal.simps)
  next
    case False
    then obtain j where j: "k = Suc j" "0 < j"
      using 1(2,3) by (cases k; cases "k - 1") auto
    then have "n div 8 < 8 ^ j"
      using 1(2) by (simp add: less_mult_imp_div_less mult.commute)
    then have "length (octal (n div 8)) \<le> j"
      using 1(1) False j by blast
    then show ?thesis
      using False j by (subst octal.simps) simp
  qed
qed

lemma of_char_digit: "(v :: nat) < 8 \<Longrightarrow> of_char (char_of (48 + v)) - (48 :: nat) = v"
  by (simp add: of_char_of)

lemma octal_value_octal: "octal_value (octal n) = n"
proof (induction n rule: octal.induct)
  case (1 n)
  then show ?case
    by (subst octal.simps) (auto simp: octal_value_def of_char_digit)
qed

lemma octal_value_zeros: "octal_value (replicate k (CHR ''0'') @ s) = octal_value s"
  by (induction k) (simp_all add: octal_value_def)

lemma octal_no_nul: "CHR 0x00 \<notin> set (octal n)"
proof (induction n rule: octal.induct)
  case (1 n)
  have ne: "CHR 0x00 \<noteq> char_of (48 + v)" if "v < 8" for v :: nat
  proof
    assume "CHR 0x00 = char_of (48 + v)"
    then have "of_char (char_of (48 + v)) = (of_char (CHR 0x00) :: nat)" by (rule arg_cong [OF sym])
    then show False using that by (simp add: of_char_of)
  qed
  show ?case
  proof (cases "n < 8")
    case True
    then show ?thesis
      using ne by (subst octal.simps) simp
  next
    case False
    then show ?thesis
      using 1 ne [of "n mod 8"] by (subst octal.simps) simp
  qed
qed

lemma until_nul_format: "CHR 0x00 \<notin> set s \<Longrightarrow> until_nul (format_string width s) = s"
proof -
  assume "CHR 0x00 \<notin> set s"
  then have all: "\<forall>c\<in>set s. c \<noteq> CHR 0x00" by auto
  then show ?thesis
    by (simp add: until_nul_def format_string_def nul_def takeWhile_append2 takeWhile_replicate)
qed

lemma length_format_octal:
  assumes "fits_octal width n" and "2 \<le> width"
  shows "length (format_octal width n) = width"
  using length_octal [of n "width - 1"] assms
  by (simp add: format_octal_def format_string_def fits_octal_def)

lemma octal_value_format:
  "octal_value (until_nul (format_octal width n)) = n"
  unfolding format_octal_def
  using octal_no_nul by (subst until_nul_format) (auto simp: octal_value_zeros octal_value_octal)

text \<open>The fields a reader looks at, and the size of a header block.\<close>

lemma checksum_append: "checksum (a @ b) = checksum a + checksum b"
  by (simp add: checksum_def)

lemma checksum_bound: "checksum bs \<le> 255 * length bs"
proof (induction bs)
  case (Cons b bs)
  have "of_char b \<le> (255 :: nat)"
    using of_char_lt_256 [of b] by linarith
  then show ?case
    using Cons by (simp add: checksum_def)
qed (simp add: checksum_def)

lemma length_ustar_before:
  assumes "length name \<le> 100" and "fits_octal 8 mode" and "fits_octal 12 sz"
  shows "length (ustar_before name mode sz) = 148"
proof -
  have "fits_octal 8 0" "fits_octal 12 0" by (simp_all add: fits_octal_def)
  then show ?thesis
    using assms by (simp add: ustar_before_def length_format_octal)
qed

lemma length_ustar_after: "length ustar_after = 356"
proof -
  have "fits_octal 8 0" by (simp add: fits_octal_def)
  then show ?thesis by (simp add: ustar_after_def length_format_octal)
qed

lemma length_ustar_header:
  assumes "length name \<le> 100" and "fits_octal 8 mode" and "fits_octal 12 sz"
  shows "length (ustar_header name mode sz) = 512"
proof -
  let ?all = "ustar_before name mode sz @ replicate 8 (CHR '' '') @ ustar_after"
  have "checksum ?all \<le> 255 * 512"
    using checksum_bound [of ?all] by (simp add: length_ustar_before [OF assms] length_ustar_after)
  then have "fits_octal 7 (checksum ?all)"
    by (simp add: fits_octal_def)
  then show ?thesis
    by (simp add: ustar_header_def length_ustar_before [OF assms] length_ustar_after length_format_octal)
qed

lemma ustar_header_fields:
  assumes "length name \<le> 100" and "fits_octal 8 mode" and "fits_octal 12 sz"
  shows "take 100 (ustar_header name mode sz @ rest) = format_string 100 name"
    and "take 12 (drop 124 (ustar_header name mode sz @ rest)) = format_octal 12 sz"
proof -
  have z: "fits_octal 8 0" by (simp add: fits_octal_def)
  show "take 100 (ustar_header name mode sz @ rest) = format_string 100 name"
    using assms(1) by (simp add: ustar_header_def ustar_before_def)
  have pre: "length (format_string 100 name @ format_octal 8 mode @ format_octal 8 0 @ format_octal 8 0) = 124"
    using assms z by (simp add: length_format_octal)
  have "ustar_header name mode sz @ rest =
     (format_string 100 name @ format_octal 8 mode @ format_octal 8 0 @ format_octal 8 0)
     @ format_octal 12 sz @ drop 136 (ustar_header name mode sz @ rest)"
    using assms z by (simp add: ustar_header_def ustar_before_def length_format_octal)
  then show "take 12 (drop 124 (ustar_header name mode sz @ rest)) = format_octal 12 sz"
    using assms(3) pre by (metis append_eq_conv_conj length_format_octal one_le_numeral numeral_le_iff
        semiring_norm(68,71))
qed

lemma tar_read_entry:
  assumes "name \<noteq> []" and "CHR 0x00 \<notin> set name" and "length name \<le> 100" and "fits_octal 8 mode"
    and "fits_octal 12 (length body)"
  shows "tar_read (tar_entry name mode body @ rest) = (name, body) # tar_read rest"
proof -
  let ?h = "ustar_header name mode (length body)"
  let ?tail = "body @ nul (tar_pad (length body)) @ rest"
  have h: "length ?h = 512"
    using length_ustar_header assms(3-5) by blast
  have fields: "take 100 (?h @ ?tail) = format_string 100 name"
    "take 12 (drop 124 (?h @ ?tail)) = format_octal 12 (length body)"
    using ustar_header_fields assms(3-5) by blast+
  obtain c cs where c: "name = c # cs" "c \<noteq> CHR 0x00"
    using assms(1,2) by (cases name) auto
  then have "hd (?h @ ?tail) \<noteq> CHR 0x00"
    by (simp add: ustar_header_def ustar_before_def format_string_def)
  then show ?thesis
    using h fields assms(2)
    by (subst tar_read.simps) (simp add: tar_entry_def Let_def until_nul_format octal_value_format)
qed

lemma tar_read_archive:
  assumes "tar_archive mode es = Some bs" and "fits_octal 8 mode"
    and "\<forall>e\<in>set es. fst e \<noteq> [] \<and> CHR 0x00 \<notin> set (fst e) \<and> length (fst e) \<le> 100"
  shows "tar_read bs = es"
proof -
  have bs: "bs = concat (map (\<lambda>e. tar_entry (fst e) mode (snd e)) es) @ nul 1024"
    and fits: "list_all (\<lambda>e. fits_octal 12 (length (snd e))) es"
    using assms(1) by (auto simp: tar_archive_def split: if_splits)
  show ?thesis
    unfolding bs using fits assms(3)
  proof (induction es)
    case Nil
    show ?case
      by (subst tar_read.simps) (simp add: nul_def)
  next
    case (Cons e es)
    then show ?case
      using assms(2) by (simp add: tar_read_entry)
  qed
qed

lemma tar_pad_dvd: "512 dvd n + tar_pad n"
proof (cases "n mod 512 = 0")
  case True
  then show ?thesis
    by (simp add: tar_pad_def dvd_eq_mod_eq_0)
next
  case False
  define q r where "q = n div 512" and "r = n mod 512"
  have "r < 512" "0 < r" "n = q * 512 + r"
    using False by (simp_all add: q_def r_def)
  then have "n + tar_pad n = (q + 1) * 512"
    by (simp add: tar_pad_def)
  then show ?thesis by (metis dvd_triv_right)
qed

lemma tar_entry_blocks:
  assumes "length name \<le> 100" and "fits_octal 8 mode" and "fits_octal 12 (length body)"
  shows "512 dvd length (tar_entry name mode body)"
proof -
  have "length (tar_entry name mode body) = 512 + (length body + tar_pad (length body))"
    using length_ustar_header [OF assms] by (simp add: tar_entry_def)
  then show ?thesis
    using tar_pad_dvd [of "length body"] by (simp only: dvd_add dvd_refl)
qed

end
