(* ===== verification/Software_Work.thy ===== *)
theory Software_Work
  imports Software_Journal Executor_Policy Go_Tar
begin

text \<open>
  Package \<open>pkg/softwarework\<close>, files \<open>runner.go\<close> and \<open>preset.go\<close>: the runner that binds a frozen contract
  to the executor, the artifact store and the journal, and the frozen version 1 contract and policy.

  The executor is an interface of the source and a parameter here.  A call of \<open>runner_Execute\<close> returns
  its result, the executor call it made, if any, and the two directories.
\<close>

section \<open>Data\<close>

abbreviation (input) ArtifactMediaType :: string where
  "ArtifactMediaType \<equiv> ''application/vnd.tos.service.software-artifact.v1+tar''"
abbreviation (input) ReportMediaType :: string where
  "ReportMediaType \<equiv> ''application/vnd.tos.service.test-report.v1+json''"

record Contract =
  con_ManifestDigest :: string
  con_ToolchainDigest :: string
  con_SandboxDigest :: string
  con_Executable :: string
  con_Arguments :: "string list"
  con_WorkingDirectory :: string
  con_Limits :: Limits
  con_UserID :: u32
  con_GroupID :: u32

record Request =
  rq_QuoteCommitment :: string
  rq_ExecutionID :: string
  rq_InputDigest :: string
  rq_SourceDigest :: string
  rq_SourceArchive :: bytes

record Runner =
  run_store :: Store
  run_journal :: Journal
  run_contract :: Contract

section \<open>Validation\<close>

definition forbiddenExecutable :: "string \<Rightarrow> bool" where
  "forbiddenExecutable v \<longleftrightarrow>
     path_base v \<in> {''sh'', ''bash'', ''dash'', ''zsh'', ''fish'', ''ksh'', ''cmd'', ''powershell'', ''pwsh''}"

definition validateContract :: "Contract \<Rightarrow> unit result" where
  "validateContract v =
     (let l = con_Limits v in
      if \<not> hex64_after ''sha256:'' (con_ManifestDigest v) \<or> \<not> hex64_after ''sha256:'' (con_ToolchainDigest v)
         \<or> con_SandboxDigest v \<noteq> con_ManifestDigest v \<or> con_Executable v = [] \<or> length (con_Arguments v) = 0
         \<or> length (con_Arguments v) > 64 \<or> \<not> has_prefix (con_Executable v) ''/''
         \<or> path_clean (con_Executable v) \<noteq> con_Executable v
         \<or> forbiddenExecutable (con_Executable v) \<or> con_WorkingDirectory v \<noteq> ''/workspace/source''
         \<or> con_UserID v = 0 \<or> con_GroupID v = 0
         \<or> lim_CPUMillis l = 0 \<or> lim_MemoryBytes l = 0 \<or> lim_DiskBytes l = 0 \<or> lim_PIDs l = 0
         \<or> lim_ExecutionTime l \<le> 0 \<or> lim_OutputBytes l = 0 \<or> lim_GPUDeviceCount l \<noteq> 0
      then Inl (ErrMsg ''invalid software-work contract'')
      else if list_ex (\<lambda>a. a = [] \<or> length a > 512 \<or> CHR 0x00 \<in> set a) (con_Arguments v)
      then Inl (ErrMsg ''invalid software-work contract'') else Inr ())"

definition validateRequest :: "Contract \<Rightarrow> Request \<Rightarrow> unit result" where
  "validateRequest contract v =
     (if \<not> hex64_after ''tvm-cell-sha256:'' (rq_QuoteCommitment v)
         \<or> \<not> hex64_after ''sha256:'' (rq_ExecutionID v)
         \<or> \<not> hex64_after ''sha256:'' (rq_InputDigest v) \<or> \<not> hex64_after ''sha256:'' (rq_SourceDigest v)
         \<or> sha256_digest (rq_SourceArchive v) \<noteq> rq_SourceDigest v
         \<or> length (rq_SourceArchive v) > unat (lim_DiskBytes (con_Limits contract))
      then Inl (ErrMsg ''software-work request does not match its commitments'') else Inr ())"

definition fingerprint_preimage :: "Contract \<Rightarrow> Request \<Rightarrow> bytes" where
  "fingerprint_preimage contract request = json_object
     [(''manifest'', json_string (con_ManifestDigest contract)),
      (''quote'', json_string (rq_QuoteCommitment request)),
      (''execution'', json_string (rq_ExecutionID request)),
      (''input'', json_string (rq_InputDigest request)),
      (''source'', json_string (rq_SourceDigest request))]"

definition requestFingerprint :: "Contract \<Rightarrow> Request \<Rightarrow> string" where
  "requestFingerprint contract request = sha256_digest (fingerprint_preimage contract request)"

definition NewRunner :: "bool \<Rightarrow> Store option \<Rightarrow> Journal option \<Rightarrow> Contract \<Rightarrow> Runner result" where
  "NewRunner executor_nil store journal contract =
     (case (store, journal, validateContract contract) of
        (Some s, Some j, Inr _) \<Rightarrow>
          if executor_nil then Inl (ErrMsg ''invalid software-work runner configuration'')
          else Inr \<lparr>run_store = s, run_journal = j, run_contract = contract\<rparr>
      | _ \<Rightarrow> Inl (ErrMsg ''invalid software-work runner configuration''))"

section \<open>Execution\<close>

definition runner_spec :: "Contract \<Rightarrow> Spec" where
  "runner_spec c =
     \<lparr>spec_ImageDigest = con_ToolchainDigest c, spec_Entrypoint = con_Executable c # con_Arguments c,
      spec_WorkingDirectory = con_WorkingDirectory c,
      spec_Environment =
        [(''GOROOT'', ''/usr/local/go''), (''HOME'', ''/workspace''), (''GOCACHE'', ''/workspace/go-cache''),
         (''GOTMPDIR'', ''/workspace''), (''TMPDIR'', ''/workspace''), (''CGO_ENABLED'', ''0''),
         (''GOMAXPROCS'', ''2'')],
      spec_WorkspaceArchive = True, spec_ReadOnlyRoot = True, spec_Network = NetworkNone,
      spec_AllowedHosts = [], spec_AllowGPU = False, spec_UserID = con_UserID c, spec_GroupID = con_GroupID c,
      spec_Privileged = False, spec_NoNewPrivileges = True, spec_HostMounts = [],
      spec_ExposeRuntimeSocket = False, spec_Limits = con_Limits c\<rparr>"

definition json_Usage :: "Usage \<Rightarrow> string" where
  "json_Usage u = json_object
     [(''CPUMillis'', json_u64 (use_CPUMillis u)), (''PeakMemory'', json_u64 (use_PeakMemory u)),
      (''DiskWritten'', json_u64 (use_DiskWritten u)), (''Duration'', show_int (use_Duration u))]"

definition report_bytes :: "Request \<Rightarrow> Result \<Rightarrow> u64 \<Rightarrow> bytes" where
  "report_bytes request r completed = json_object
     [(''schema'', json_string ''tos.service.software-work-report.v1''),
      (''execution_id'', json_string (rq_ExecutionID request)),
      (''result_digest'', json_string (sha256_digest (res_Output r))),
      (''exit_code'', show_int (res_ExitCode r)), (''usage'', json_Usage (res_Usage r)),
      (''completed_at_unix'', json_u64 completed)]"

text \<open>Mode \<open>0o444\<close>.\<close>

definition buildArtifact :: "bytes \<Rightarrow> bytes \<Rightarrow> bytes result" where
  "buildArtifact output report =
     (case tar_archive 292 [(''output.log'', output), (''report.json'', report)] of
        None \<Rightarrow> Inl (ErrMsg ''encode software-work artifact'') | Some bs \<Rightarrow> Inr bs)"

text \<open>What one call meets: the context, the clock, and the system calls of its four durable steps.\<close>

record run_env =
  re_ctx_nil :: bool
  re_ctx_err_report :: bool
  re_ctx_err_artifact :: bool
  re_now :: instant
  re_claim :: io
  re_report :: io
  re_artifact :: io
  re_complete :: io
  re_same :: bool

record work_dirs =
  wd_journal :: "journalRecord fs"
  wd_objects :: "bytes fs"

definition runner_outcome :: "Contract \<Rightarrow> Request \<Rightarrow> Result \<Rightarrow> Descriptor \<Rightarrow> Descriptor \<Rightarrow> u64 \<Rightarrow> Outcome" where
  "runner_outcome c request r artifact report completed =
     \<lparr>out_QuoteCommitment = rq_QuoteCommitment request, out_ExecutionID = rq_ExecutionID request,
      out_InputDigest = rq_InputDigest request, out_ResultDigest = sha256_digest (res_Output r),
      out_Artifact = artifact, out_Report = report, out_SourceDigest = rq_SourceDigest request,
      out_ToolchainDigest = con_ToolchainDigest c, out_SandboxDigest = con_SandboxDigest c,
      out_ExitCode = res_ExitCode r, out_CompletedAtUnix = completed\<rparr>"

text \<open>The part of \<open>Execute\<close> after the executor has returned a result with exit code zero.\<close>

definition runner_finish :: "Runner \<Rightarrow> run_env \<Rightarrow> Request \<Rightarrow> Result \<Rightarrow> work_dirs \<Rightarrow> Outcome result \<times> work_dirs" where
  "runner_finish rn env request r d =
     (let completed = unix_u64 (re_now env); report_body = report_bytes request r completed in
      case Put (re_report env) (re_same env) (run_store rn) False (re_ctx_err_report env) ReportMediaType
             (Some \<lparr>rd_data = report_body, rd_fail = False\<rparr>) (wd_objects d) of
        (Inl e, o1) \<Rightarrow> (Inl e, d\<lparr>wd_objects := o1\<rparr>)
      | (Inr report, o1) \<Rightarrow>
          (case buildArtifact (res_Output r) report_body of
             Inl e \<Rightarrow> (Inl e, d\<lparr>wd_objects := o1\<rparr>)
           | Inr artifact_body \<Rightarrow>
               (case Put (re_artifact env) (re_same env) (run_store rn) False (re_ctx_err_artifact env)
                      ArtifactMediaType (Some \<lparr>rd_data = artifact_body, rd_fail = False\<rparr>) o1 of
                  (Inl e, o2) \<Rightarrow> (Inl e, d\<lparr>wd_objects := o2\<rparr>)
                | (Inr artifact, o2) \<Rightarrow>
                    let outcome = runner_outcome (run_contract rn) request r artifact report completed in
                    (case Complete (re_complete env) (run_journal rn) (rq_ExecutionID request)
                            (requestFingerprint (run_contract rn) request) outcome (wd_journal d) of
                       (Inl e, j2) \<Rightarrow> (Inl e, \<lparr>wd_journal = j2, wd_objects = o2\<rparr>)
                     | (Inr _, j2) \<Rightarrow> (Inr outcome, \<lparr>wd_journal = j2, wd_objects = o2\<rparr>)))))"

type_synonym executor = "string \<Rightarrow> Spec \<Rightarrow> bytes \<Rightarrow> Result result"

definition runner_Execute :: "executor \<Rightarrow> Runner \<Rightarrow> run_env \<Rightarrow> Request \<Rightarrow> work_dirs
    \<Rightarrow> Outcome result \<times> (string \<times> Spec \<times> bytes) option \<times> work_dirs" where
  "runner_Execute exec rn env request d =
     (if re_ctx_nil env then (Inl (ErrMsg ''invalid software-work execution request''), None, d)
      else case validateRequest (run_contract rn) request of Inl e \<Rightarrow> (Inl e, None, d) | Inr _ \<Rightarrow>
      case Claim (re_claim env) (run_journal rn) (rq_ExecutionID request)
             (requestFingerprint (run_contract rn) request) (wd_journal d) of
        (Inl e, j1) \<Rightarrow> (Inl e, None, d\<lparr>wd_journal := j1\<rparr>)
      | (Inr (False, r), j1) \<Rightarrow>
          (if jr_State r = ''complete'' then Inr (jr_Outcome r)
           else Inl (ErrMsg ''software-work execution outcome is ambiguous''), None, d\<lparr>wd_journal := j1\<rparr>)
      | (Inr (True, r), j1) \<Rightarrow>
          let call = (rq_ExecutionID request, runner_spec (run_contract rn), rq_SourceArchive request) in
          (case exec (rq_ExecutionID request) (runner_spec (run_contract rn)) (rq_SourceArchive request) of
             Inl e \<Rightarrow> (Inl e, Some call, d\<lparr>wd_journal := j1\<rparr>)
           | Inr result \<Rightarrow>
               if res_ExitCode result \<noteq> 0
               then (Inl (ErrMsg ''software-work objective success condition failed''), Some call,
                     d\<lparr>wd_journal := j1\<rparr>)
               else (case runner_finish rn env request result (d\<lparr>wd_journal := j1\<rparr>) of
                   (r, d') \<Rightarrow> (r, Some call, d'))))"

section \<open>Frozen version 1\<close>

abbreviation (input) FrozenV1ManifestDigest :: string where
  "FrozenV1ManifestDigest \<equiv> ''sha256:e4db0138ca2a4d5ad8f3c7ec458304927344e341ae610ee0a682b9cc5b00594e''"
abbreviation (input) FrozenV1ImageDigest :: string where
  "FrozenV1ImageDigest \<equiv> ''sha256:9624bca74096f810c5b24e489521dde124fadcfa1808581648b38bdc1ba1b105''"

definition FrozenV1Limits :: Limits where
  "FrozenV1Limits = \<lparr>lim_CPUMillis = 120000, lim_MemoryBytes = 1073741824, lim_DiskBytes = 2147483648,
     lim_PIDs = 64, lim_ExecutionTime = 180 * 1000000000, lim_OutputBytes = 16777216, lim_GPUDeviceCount = 0\<rparr>"

definition FrozenV1Policy :: Policy where
  "FrozenV1Policy = \<lparr>pol_AllowedImages = [FrozenV1ImageDigest], pol_AllowedNetworkHosts = [],
     pol_MaxAllowedImages = 1, pol_MaxEnvironment = 8, pol_MaxArguments = 8, pol_MaxAllowedHosts = 0,
     pol_MaxStringBytes = 4096, pol_MaxInputBytes = 16777216, pol_Ceiling = FrozenV1Limits,
     pol_PermitGPU = False, pol_PermitNetwork = False, pol_RequireReadOnlyRoot = True\<rparr>"

definition FrozenV1Contract :: Contract where
  "FrozenV1Contract = \<lparr>con_ManifestDigest = FrozenV1ManifestDigest, con_ToolchainDigest = FrozenV1ImageDigest,
     con_SandboxDigest = FrozenV1ManifestDigest, con_Executable = ''/usr/local/bin/go'',
     con_Arguments = [''test'', ''./...'', ''-count=1''], con_WorkingDirectory = ''/workspace/source'',
     con_Limits = FrozenV1Limits, con_UserID = 65532, con_GroupID = 65532\<rparr>"

section \<open>Lemmas\<close>

lemma runner_called:
  assumes "runner_Execute exec rn env rq d = (r, Some call, d')"
  shows "fst call = rq_ExecutionID rq \<and>
    (\<exists>j1. journal_grants (wd_journal d) (rq_ExecutionID rq) j1 \<and>
       (wd_journal d' = j1 \<or> journal_other j1 (wd_journal d')))"
proof -
  obtain rec j1 where claim: "Claim (re_claim env) (run_journal rn) (rq_ExecutionID rq)
        (requestFingerprint (run_contract rn) rq) (wd_journal d) = (Inr (True, rec), j1)"
    using assms by (auto simp: runner_Execute_def split: if_splits sum.splits prod.splits bool.splits)
  have fin: "wd_journal d2 = wd_journal d1 \<or> journal_other (wd_journal d1) (wd_journal d2)"
    if "runner_finish rn env rq res d1 = (r2, d2)" for res d1 r2 d2
    using that journal_complete
    by (auto simp: runner_finish_def Let_def split: sum.splits prod.splits if_splits)
  have "fst call = rq_ExecutionID rq"
    using assms claim
    by (auto simp: runner_Execute_def Let_def split: if_splits sum.splits prod.splits)
  moreover have "wd_journal d' = j1 \<or> journal_other j1 (wd_journal d')"
    using assms claim fin [of _ "d\<lparr>wd_journal := j1\<rparr>"]
    by (auto simp: runner_Execute_def Let_def split: if_splits sum.splits prod.splits)
  moreover have "journal_grants (wd_journal d) (rq_ExecutionID rq) j1"
    unfolding journal_grants_def using claim by blast
  ultimately show ?thesis by blast
qed

lemma runner_not_called:
  assumes "runner_Execute exec rn env rq d = (r, None, d')"
  shows "wd_journal d' = wd_journal d \<or> journal_other (wd_journal d) (wd_journal d')"
  using assms journal_claim_refused
  by (auto simp: runner_Execute_def Let_def split: if_splits sum.splits prod.splits bool.splits)

text \<open>
  The life of a worker: any sequence of calls of \<open>runner_Execute\<close>, by any runner over the same
  directories and with any executor, and crashes.  The list holds the identities for which the
  executor was called.
\<close>

inductive runner_run :: "work_dirs \<Rightarrow> string list \<Rightarrow> work_dirs \<Rightarrow> bool" where
  runner_start: "runner_run d [] d"
| runner_executed: "runner_run d ids d1 \<Longrightarrow> runner_Execute exec rn env rq d1 = (r, Some call, d2) \<Longrightarrow>
    runner_run d (ids @ [fst call]) d2"
| runner_answered: "runner_run d ids d1 \<Longrightarrow> runner_Execute exec rn env rq d1 = (r, None, d2) \<Longrightarrow>
    runner_run d ids d2"
| runner_crash: "runner_run d ids d1 \<Longrightarrow>
    runner_run d ids \<lparr>wd_journal = fs_crash ch (wd_journal d1), wd_objects = fs_crash ch' (wd_objects d1)\<rparr>"

lemma runner_run_grants:
  "runner_run d ids d' \<Longrightarrow> grant_run journal_grants journal_other (wd_journal d) ids (wd_journal d')"
proof (induction rule: runner_run.induct)
  case (runner_executed d ids d1 exec rn env rq r call d2)
  from runner_called [OF runner_executed(2)] runner_executed(3) show ?case
    by (metis run_grant run_other)
next
  case (runner_answered d ids d1 exec rn env rq r d2)
  then show ?case
    using runner_not_called run_other by metis
next
  case (runner_crash d ids d1 ch ch')
  then show ?case
    using run_other journal_crash by fastforce
qed (rule run_nil)

text \<open>What a successful call that reached the executor leaves behind.\<close>

lemma runner_success:
  assumes "runner_Execute exec rn env rq d = (Inr outcome, Some call, d')"
  obtains result report artifact body o1 j1 where
    "exec (rq_ExecutionID rq) (runner_spec (run_contract rn)) (rq_SourceArchive rq) = Inr result"
    and "res_ExitCode result = 0"
    and "Put (re_report env) (re_same env) (run_store rn) False (re_ctx_err_report env) ReportMediaType
           (Some \<lparr>rd_data = report_bytes rq result (unix_u64 (re_now env)), rd_fail = False\<rparr>)
           (wd_objects d) = (Inr report, o1)"
    and "buildArtifact (res_Output result) (report_bytes rq result (unix_u64 (re_now env))) = Inr body"
    and "Put (re_artifact env) (re_same env) (run_store rn) False (re_ctx_err_artifact env) ArtifactMediaType
           (Some \<lparr>rd_data = body, rd_fail = False\<rparr>) o1 = (Inr artifact, wd_objects d')"
    and "outcome = runner_outcome (run_contract rn) rq result artifact report (unix_u64 (re_now env))"
    and "Complete (re_complete env) (run_journal rn) (rq_ExecutionID rq)
           (requestFingerprint (run_contract rn) rq) outcome j1 = (Inr (), wd_journal d')"
    and "validateRequest (run_contract rn) rq = Inr ()"
proof -
  obtain rec j1 result where 1:
    "Claim (re_claim env) (run_journal rn) (rq_ExecutionID rq)
        (requestFingerprint (run_contract rn) rq) (wd_journal d) = (Inr (True, rec), j1)"
    "exec (rq_ExecutionID rq) (runner_spec (run_contract rn)) (rq_SourceArchive rq) = Inr result"
    "res_ExitCode result = 0" "validateRequest (run_contract rn) rq = Inr ()"
    using assms
    by (auto simp: runner_Execute_def Let_def split: if_splits sum.splits prod.splits bool.splits)
  then have fin: "runner_finish rn env rq result (d\<lparr>wd_journal := j1\<rparr>) = (Inr outcome, d')"
    using assms by (auto simp: runner_Execute_def Let_def split: if_splits prod.splits)
  show ?thesis
    using fin 1(2-4)
    by (auto simp: runner_finish_def Let_def split: sum.splits prod.splits if_splits intro!: that)
qed

text \<open>The record of a runner's outcome is far below the 32 KiB that the journal reads back.\<close>

lemma length_json_Outcome:
  assumes "length (out_QuoteCommitment v) \<le> 80" and "length (out_ExecutionID v) \<le> 71"
    and "length (out_InputDigest v) \<le> 71" and "length (out_ResultDigest v) \<le> 71"
    and "length (json_Descriptor (out_Artifact v)) \<le> 1100" and "length (json_Descriptor (out_Report v)) \<le> 1100"
    and "length (out_SourceDigest v) \<le> 71" and "length (out_ToolchainDigest v) \<le> 71"
    and "length (out_SandboxDigest v) \<le> 71" and "length (show_int (out_ExitCode v)) \<le> 20"
  shows "length (json_Outcome v) \<le> 8000"
  using assms
    length_json_string_le [of "out_QuoteCommitment v"] length_json_string_le [of "out_ExecutionID v"]
    length_json_string_le [of "out_InputDigest v"] length_json_string_le [of "out_ResultDigest v"]
    length_json_string_le [of "out_SourceDigest v"] length_json_string_le [of "out_ToolchainDigest v"]
    length_json_string_le [of "out_SandboxDigest v"] length_json_u64 [of "out_CompletedAtUnix v"]
  unfolding json_Outcome_def
  by (intro order_trans [OF length_json_object_le]) simp

lemma record_size_le:
  assumes "jr_Schema r = journal_schema" and "length (jr_Fingerprint r) \<le> 71"
    and "length (jr_State r) \<le> 8" and "length (json_Outcome (jr_Outcome r)) \<le> 8000"
  shows "record_size r \<le> 32768"
proof -
  have "length (json_journalRecord r) \<le> 32767"
    unfolding json_journalRecord_def
    using assms length_json_string_le [of "jr_Fingerprint r"] length_json_string_le [of "jr_Schema r"]
      length_json_string_le [of "jr_State r"]
    by (intro order_trans [OF length_json_object_le]) simp
  then show ?thesis by (simp add: record_size_def)
qed

lemma runner_outcome_size:
  assumes "validateContract (run_contract rn) = Inr ()"
    and "runner_Execute exec rn env rq d = (Inr outcome, Some call, d')"
  shows "length (json_Outcome outcome) \<le> 8000"
proof -
  obtain result report artifact body o1 j1 where s:
    "res_ExitCode result = 0"
    "Put (re_report env) (re_same env) (run_store rn) False (re_ctx_err_report env) ReportMediaType
       (Some \<lparr>rd_data = report_bytes rq result (unix_u64 (re_now env)), rd_fail = False\<rparr>)
       (wd_objects d) = (Inr report, o1)"
    "Put (re_artifact env) (re_same env) (run_store rn) False (re_ctx_err_artifact env) ArtifactMediaType
       (Some \<lparr>rd_data = body, rd_fail = False\<rparr>) o1 = (Inr artifact, wd_objects d')"
    "outcome = runner_outcome (run_contract rn) rq result artifact report (unix_u64 (re_now env))"
    "validateRequest (run_contract rn) rq = Inr ()"
    using runner_success [OF assms(2)] by metis
  have desc: "length (json_Descriptor report) \<le> 1100" "length (json_Descriptor artifact) \<le> 1100"
    using s(2,3) by (auto elim!: Put_Inr intro!: length_json_Descriptor simp: length_sha256_digest)
  have digests: "length (con_ToolchainDigest (run_contract rn)) = 71"
    "length (con_SandboxDigest (run_contract rn)) = 71"
    using assms(1) by (auto simp: validateContract_def Let_def dest: hex64_length split: if_splits)
  have req: "length (rq_QuoteCommitment rq) = 80" "length (rq_ExecutionID rq) = 71"
    "length (rq_InputDigest rq) = 71" "length (rq_SourceDigest rq) = 71"
    using s(5) by (auto simp: validateRequest_def dest: hex64_length split: if_splits)
  have "length (show_int 0) \<le> 20"
    by (simp add: show_int_def show_nat.simps)
  then show ?thesis
    using s(1,4) desc digests req
    by (intro length_json_Outcome) (simp_all add: runner_outcome_def length_sha256_digest)
qed

lemma buildArtifact_read:
  "buildArtifact output report = Inr body \<Longrightarrow>
     tar_read body = [(''output.log'', output), (''report.json'', report)]"
  by (rule tar_read_archive [of 292]) (auto simp: buildArtifact_def fits_octal_def split: option.splits)

lemma buildArtifact_blocks:
  assumes "buildArtifact output report = Inr body"
  shows "512 dvd length body"
proof -
  have fits: "fits_octal 12 (length output)" "fits_octal 12 (length report)"
    and body: "body = tar_entry ''output.log'' 292 output @ tar_entry ''report.json'' 292 report @ nul 1024"
    using assms by (auto simp: buildArtifact_def tar_archive_def split: if_splits option.splits)
  have "fits_octal 8 292" by (simp add: fits_octal_def)
  then have "512 dvd length (tar_entry ''output.log'' 292 output)"
    "512 dvd length (tar_entry ''report.json'' 292 report)"
    using fits by (auto intro!: tar_entry_blocks)
  moreover have "512 dvd (1024 :: nat)" by simp
  ultimately show ?thesis
    unfolding body length_append length_nul by (intro dvd_add)
qed

lemma validateContract_plain:
  "validateContract c = Inr () \<Longrightarrow>
     length (con_ManifestDigest c) = 71 \<and> list_all json_plain (con_ManifestDigest c)"
  using hex64_plain digest_prefix_plain
  by (auto simp: validateContract_def Let_def dest: hex64_length split: if_splits)

lemma validateRequest_plain:
  "validateRequest c r = Inr () \<Longrightarrow>
     length (rq_QuoteCommitment r) = 80 \<and> length (rq_ExecutionID r) = 71
     \<and> length (rq_InputDigest r) = 71 \<and> length (rq_SourceDigest r) = 71
     \<and> list_all json_plain (rq_QuoteCommitment r) \<and> list_all json_plain (rq_ExecutionID r)
     \<and> list_all json_plain (rq_InputDigest r) \<and> list_all json_plain (rq_SourceDigest r)"
  using hex64_plain digest_prefix_plain
  by (auto simp: validateRequest_def dest: hex64_length split: if_splits)

lemma frozen_digests:
  "hex64_after ''sha256:'' FrozenV1ManifestDigest" "hex64_after ''sha256:'' FrozenV1ImageDigest"
  by code_simp+

lemma frozen_executable:
  "has_prefix ''/usr/local/bin/go'' ''/''" "path_clean ''/usr/local/bin/go'' = ''/usr/local/bin/go''"
  "\<not> forbiddenExecutable ''/usr/local/bin/go''"
  by code_simp+

lemma frozen_contract: "validateContract FrozenV1Contract = Inr ()"
  unfolding validateContract_def
  by (simp add: FrozenV1Contract_def FrozenV1Limits_def frozen_digests frozen_executable)

lemma frozen_policy: "policy_validate FrozenV1Policy = Inr ()"
  by (simp add: policy_validate_def FrozenV1Policy_def validatePolicyCeiling_def FrozenV1Limits_def
      validateNetworkHosts_def frozen_digests)

lemma frozen_limits: "withinCeiling FrozenV1Limits FrozenV1Limits = Inr ()"
  by (simp add: withinCeiling_def within_check_def FrozenV1Limits_def dur_u64_def)

lemma frozen_gpu: "lim_GPUDeviceCount FrozenV1Limits = 0"
  by (simp add: FrozenV1Limits_def)

lemma frozen_directory: "validWorkspaceDirectory ''/workspace/source''"
  by code_simp

lemma frozen_spec: "Validate FrozenV1Policy (runner_spec FrozenV1Contract) = Inr ()"
  unfolding Validate_def frozen_policy
  by (simp add: runner_spec_def FrozenV1Contract_def frozen_digests invalidContainerString_def
      validateNetworkHosts_def frozen_directory)
    (simp add: FrozenV1Policy_def validate_network_gpu_def frozen_limits frozen_gpu)

section \<open>Properties\<close>

text \<open>
  C1. At most one execution: over the whole life of a worker, with any runners and executors over the
  same directories, any failures of their system calls and any crashes, the executor is called at most
  once for an execution identity.
\<close>

theorem execution_at_most_once:
  assumes "runner_run d ids d'"
  shows "distinct ids"
  using journal.run_distinct [OF runner_run_grants [OF assms]] .

text \<open>
  At most one claim under concurrency: in every interleaving of the journal's atomic operations,
  claims and completions by any number of goroutines, and crashes, each identity is granted at most
  once, and never one that was already claimed.
\<close>

theorem claim_at_most_once:
  assumes "grant_run journal_grants journal_other f ids f'"
  shows "distinct ids \<and> (\<forall>e\<in>set ids. \<not> journal_spent f e \<and> journal_spent f' e)"
  using journal.run_distinct [OF assms] journal.run_fresh [OF assms] journal.run_spends [OF assms] by blast

text \<open>
  A completed execution is replayed, not repeated: once \<open>Complete\<close> has recorded an outcome for a
  valid request, every later call with the same request and contract, after any number of other calls
  and crashes, returns that outcome without calling the executor, and changes nothing.  The outcomes
  that \<open>Execute\<close> records are below the size bound (\<open>runner_outcome_size\<close>).
\<close>

theorem completed_execution_replayed:
  assumes "validateRequest c rq = Inr ()"
    and "Complete w j (rq_ExecutionID rq) (requestFingerprint c rq) outcome f = (Inr (), wd_journal d')"
    and "length (json_Outcome outcome) \<le> 8000"
    and "runner_run d' ids d''"
    and "run_contract rn = c" and "jn_lock (run_journal rn) \<noteq> None"
    and "\<not> re_ctx_nil env" and "io_read (re_claim env)"
  shows "runner_Execute exec rn env rq d'' = (Inr outcome, None, d'')"
proof -
  let ?fp = "requestFingerprint c rq"
  obtain r where r: "completed_at (wd_journal d') (journal_path (rq_ExecutionID rq))
        (node_sync (node_write r (record_size r) (new_node mode_0600)))"
      "jr_Schema r = journal_schema" "jr_Fingerprint r = ?fp" "hex64_after ''sha256:'' ?fp"
      "jr_State r = ''complete''" "jr_Outcome r = outcome"
    using Complete_ok [OF assms(2)] by blast
  have len: "record_size r \<le> 32768"
    using r assms(3) hex64_length [OF r(4)] by (intro record_size_le) simp_all
  have id: "hex64_after ''sha256:'' (rq_ExecutionID rq)"
    using assms(1) by (auto simp: validateRequest_def split: if_splits)
  have "completed_at (wd_journal d'') (journal_path (rq_ExecutionID rq))
        (node_sync (node_write r (record_size r) (new_node mode_0600)))"
    using run_keeps_completed [OF runner_run_grants [OF assms(4)] r(1)] .
  then have "Claim (re_claim env) (run_journal rn) (rq_ExecutionID rq) ?fp (wd_journal d'') =
      (Inr (False, r), wd_journal d'')"
    using r len id assms(6,8) by (intro Claim_completed) auto
  then show ?thesis
    using r assms(1,5,7) by (simp add: runner_Execute_def)
qed


text \<open>
  Packing is total and lossless below the format's size limit: outputs and reports below
  8 GiB are packed, into whole blocks, and a reader gets back exactly the two files.
\<close>

theorem buildArtifact_roundtrip:
  assumes "length output < 8 ^ 11" and "length report < 8 ^ 11"
  shows "\<exists>body. buildArtifact output report = Inr body \<and> 512 dvd length body
     \<and> tar_read body = [(''output.log'', output), (''report.json'', report)]"
proof -
  obtain body where "buildArtifact output report = Inr body"
    using assms by (auto simp: buildArtifact_def tar_archive_def fits_octal_def)
  then show ?thesis
    using buildArtifact_read buildArtifact_blocks by blast
qed

text \<open>
  The fingerprint binds the request: two requests under valid contracts have the same fingerprint
  preimage only when manifest, quote, execution identity, input and source all agree.
\<close>

theorem fingerprint_preimage_injective:
  assumes "validateContract c1 = Inr ()" and "validateContract c2 = Inr ()"
    and "validateRequest c1 r1 = Inr ()" and "validateRequest c2 r2 = Inr ()"
    and "fingerprint_preimage c1 r1 = fingerprint_preimage c2 r2"
  shows "con_ManifestDigest c1 = con_ManifestDigest c2 \<and> rq_QuoteCommitment r1 = rq_QuoteCommitment r2
     \<and> rq_ExecutionID r1 = rq_ExecutionID r2 \<and> rq_InputDigest r1 = rq_InputDigest r2
     \<and> rq_SourceDigest r1 = rq_SourceDigest r2"
proof -
  note p = validateContract_plain [OF assms(1)] validateContract_plain [OF assms(2)]
    validateRequest_plain [OF assms(3)] validateRequest_plain [OF assms(4)]
  then have "list_all2 (\<lambda>a b. fst a = fst b \<and> length (snd a) = length (snd b))
     [(''manifest'', json_string (con_ManifestDigest c1)), (''quote'', json_string (rq_QuoteCommitment r1)),
      (''execution'', json_string (rq_ExecutionID r1)), (''input'', json_string (rq_InputDigest r1)),
      (''source'', json_string (rq_SourceDigest r1))]
     [(''manifest'', json_string (con_ManifestDigest c2)), (''quote'', json_string (rq_QuoteCommitment r2)),
      (''execution'', json_string (rq_ExecutionID r2)), (''input'', json_string (rq_InputDigest r2)),
      (''source'', json_string (rq_SourceDigest r2))]"
    by (simp add: json_string_plain)
  from json_object_inject [OF this assms(5) [unfolded fingerprint_preimage_def]] show ?thesis
    using p by (simp add: json_string_plain_inject)
qed

text \<open>
  The frozen version 1 preset fits together: the contract is valid, the policy is valid, and the
  policy accepts the workload the runner builds from the contract.
\<close>

theorem FrozenV1_consistent:
  "validateContract FrozenV1Contract = Inr () \<and> policy_validate FrozenV1Policy = Inr ()
   \<and> Validate FrozenV1Policy (runner_spec FrozenV1Contract) = Inr ()"
  using frozen_contract frozen_policy frozen_spec by blast

section \<open>A worker at work\<close>

definition demo_request :: Request where
  "demo_request = \<lparr>rq_QuoteCommitment = ''tvm-cell-sha256:'' @ replicate 64 (CHR ''b''),
     rq_ExecutionID = demo_image, rq_InputDigest = demo_image, rq_SourceDigest = sha256_digest ''src'',
     rq_SourceArchive = ''src''\<rparr>"

definition demo_journal :: Journal where
  "demo_journal = \<lparr>jn_root = ''/var/lib/tos/journal'',
     jn_lock = Some \<lparr>lk_file = Some (7, 3), lk_closed = False\<rparr>\<rparr>"

definition demo_runner :: Runner where
  "demo_runner = \<lparr>run_store = demo_store, run_journal = demo_journal, run_contract = FrozenV1Contract\<rparr>"

definition demo_run_env :: run_env where
  "demo_run_env = \<lparr>re_ctx_nil = False, re_ctx_err_report = False, re_ctx_err_artifact = False, re_now = 0,
     re_claim = io_ok, re_report = io_ok, re_artifact = io_ok, re_complete = io_ok, re_same = True\<rparr>"

definition demo_dirs :: work_dirs where
  "demo_dirs = \<lparr>wd_journal = fs_empty, wd_objects = fs_empty\<rparr>"

definition demo_fingerprint :: string where
  "demo_fingerprint = requestFingerprint FrozenV1Contract demo_request"

definition demo_claimed :: "journalRecord fs" where
  "demo_claimed = fs_dirsync (fs_put (journal_path demo_image)
     (node_sync (node_write (running_record demo_fingerprint) (record_size (running_record demo_fingerprint))
        (new_node mode_0600))) fs_empty)"

lemma demo_quote: "hex64_after ''tvm-cell-sha256:'' (''tvm-cell-sha256:'' @ replicate 64 (CHR ''b''))"
  by (rule hex64_afterI) (simp_all add: list_all_iff is_lower_hex_def)

lemma demo_request_valid: "validateRequest FrozenV1Contract demo_request = Inr ()"
  unfolding validateRequest_def
  using demo_quote by (simp add: demo_request_def demo_image_pattern FrozenV1Contract_def FrozenV1Limits_def)

lemma demo_fingerprint_pattern [simp]: "hex64_after ''sha256:'' demo_fingerprint"
  by (simp add: demo_fingerprint_def requestFingerprint_def)

lemma demo_Claim:
  "Claim io_ok demo_journal demo_image demo_fingerprint fs_empty =
     (Inr (True, running_record demo_fingerprint), demo_claimed)"
  by (simp add: Claim_def demo_journal_def demo_image_pattern Let_def journal_syncDirectory_def demo_claimed_def)

lemma demo_executed:
  "runner_Execute (\<lambda>_ _ _. Inl ErrOs) demo_runner demo_run_env demo_request demo_dirs =
     (Inl ErrOs, Some (demo_image, runner_spec FrozenV1Contract, ''src''), demo_dirs\<lparr>wd_journal := demo_claimed\<rparr>)"
proof -
  have "run_contract demo_runner = FrozenV1Contract" "run_journal demo_runner = demo_journal"
    "rq_ExecutionID demo_request = demo_image" "rq_SourceArchive demo_request = ''src''"
    "wd_journal demo_dirs = fs_empty" "re_claim demo_run_env = io_ok" "\<not> re_ctx_nil demo_run_env"
    by (simp_all add: demo_runner_def demo_request_def demo_dirs_def demo_run_env_def)
  then show ?thesis
    using demo_Claim demo_request_valid
    by (simp add: runner_Execute_def demo_fingerprint_def Let_def)
qed

lemma demo_run: "runner_run demo_dirs [demo_image] (demo_dirs\<lparr>wd_journal := demo_claimed\<rparr>)"
  using runner_executed [OF runner_start demo_executed] by simp

theorem execution_at_most_once_witness:
  "\<exists>d'. runner_run demo_dirs [demo_image] d' \<and> distinct [demo_image]"
  using demo_run execution_at_most_once by blast

lemma demo_grant: "grant_run journal_grants journal_other fs_empty [demo_image] demo_claimed"
  by (rule run_single) (use demo_Claim in \<open>auto simp: journal_grants_def\<close>)

theorem claim_at_most_once_witness:
  "\<not> journal_spent fs_empty demo_image \<and> journal_spent demo_claimed demo_image"
  using claim_at_most_once [OF demo_grant] by simp

lemma demo_zero_size: "length (json_Outcome zero_Outcome) \<le> 8000"
proof -
  have "length (json_Descriptor zero_Descriptor) \<le> 1100"
    by (rule length_json_Descriptor) (simp_all add: zero_Descriptor_def)
  moreover have "length (show_int 0) \<le> 20"
    by (simp add: show_int_def show_nat.simps)
  ultimately show ?thesis
    by (intro length_json_Outcome) (simp_all add: zero_Outcome_def)
qed

lemma demo_Complete:
  "\<exists>f. Complete io_ok demo_journal demo_image demo_fingerprint zero_Outcome demo_claimed = (Inr (), f)"
proof -
  have "record_size (running_record demo_fingerprint) \<le> 32768"
    using demo_zero_size hex64_length [OF demo_fingerprint_pattern]
    by (intro record_size_le) (simp_all add: running_record_def)
  moreover have "0 < record_size (running_record demo_fingerprint)"
    by (simp add: record_size_def)
  ultimately have "readJournalRecord io_ok (journal_path demo_image) demo_claimed =
      Inr (running_record demo_fingerprint)"
    by (simp add: readJournalRecord_def demo_claimed_def running_record_def)
  then show ?thesis
    by (simp add: Complete_def demo_journal_def running_record_def Let_def replace_file_ok)
qed

theorem completed_execution_replayed_witness:
  "\<exists>d. runner_Execute (\<lambda>_ _ _. Inl ErrOs) demo_runner demo_run_env demo_request d = (Inr zero_Outcome, None, d)"
proof -
  obtain f where f: "Complete io_ok demo_journal demo_image demo_fingerprint zero_Outcome demo_claimed = (Inr (), f)"
    using demo_Complete by blast
  let ?d = "\<lparr>wd_journal = f, wd_objects = fs_empty\<rparr>"
  have "rq_ExecutionID demo_request = demo_image" by (simp add: demo_request_def)
  then have "runner_Execute (\<lambda>_ _ _. Inl ErrOs) demo_runner demo_run_env demo_request ?d = (Inr zero_Outcome, None, ?d)"
    using f
    by (intro completed_execution_replayed [OF demo_request_valid _ demo_zero_size runner_start])
      (simp_all add: demo_fingerprint_def demo_runner_def demo_journal_def demo_run_env_def)
  then show ?thesis by blast
qed

theorem buildArtifact_roundtrip_witness:
  "\<exists>body. buildArtifact ''ok'' ''{}'' = Inr body \<and> tar_read body = [(''output.log'', ''ok''), (''report.json'', ''{}'')]"
  using buildArtifact_roundtrip [of "''ok''" "''{}''"] by auto

theorem fingerprint_preimage_injective_witness:
  "rq_InputDigest demo_request = rq_InputDigest (demo_request\<lparr>rq_SourceArchive := ''src''\<rparr>)"
  using fingerprint_preimage_injective [OF frozen_contract frozen_contract demo_request_valid demo_request_valid]
  by simp

end
