(* ===== verification/Commerce_Plan.thy ===== *)
theory Commerce_Plan
  imports Dir_Lock Go_Json Go_Net Go_Sha256 "HOL-Library.AList"
begin

text \<open>
  Package \<open>pkg/commercegate\<close>, file \<open>gate.go\<close>, first part: the execution plan, its canonical form
  (\<open>preparePlan\<close>), the durable record and its JSON encoding, and the material that the owner's
  authority signs.

  The protocol library (\<open>tos-service-protocol\<close>: fences, authorised actions, canonical encoding and
  digests) is not part of this repository.  What the package calls of it is the record
  \<open>commerce\<close>, an argument of the definitions; a fence and an action carry the fields this package
  reads and, as \<open>rest\<close>, whatever else the library puts in them.
\<close>

section \<open>Data\<close>

datatype LeaseLossPolicy = LeaseLossContinue | LeaseLossDrain | LeaseLossKill | LeaseLossOther string

record FileBinding =
  fb_Path :: string
  fb_Digest :: string
  fb_Size :: u64

record NetworkBinding =
  nb_BindingID :: string
  nb_Scheme :: string
  nb_Host :: string
  nb_Port :: u16
  nb_ResolvedIPs :: "string list"
  nb_TLSServerName :: string
  nb_AllowRedirects :: bool
  nb_MaxRequestBytes :: u64
  nb_MaxResponseBytes :: u64

record CredentialBinding =
  cb_HandleID :: string
  cb_ScopeDigest :: string
  cb_ExpiresAtUnix :: u64

record EffectBinding =
  eb_PlanEffectID :: string
  eb_EffectProfileDigest :: string
  eb_TargetDigest :: string
  eb_OperationKind :: string
  eb_EffectSemanticKeyDigest :: string
  eb_NetworkBindingID :: string
  eb_CredentialHandleID :: string
  eb_MaximumUses :: u32

record Plan =
  pl_OwnerID :: string
  pl_AgentID :: string
  pl_AgreementBodyDigest :: string
  pl_ExecutionObligationID :: string
  pl_CanonicalPlanDigest :: string
  pl_AcceptedInputManifestDigest :: string
  pl_AttemptIndex :: u64
  pl_PredecessorTerminalResolutionDigest :: string
  pl_ExecutionID :: string
  pl_ReservationID :: string
  pl_PolicyRevision :: u64
  pl_WriterGeneration :: u64
  pl_LeaseLossPolicy :: LeaseLossPolicy
  pl_Files :: "FileBinding list"
  pl_NetworkBindings :: "NetworkBinding list"
  pl_CredentialBindings :: "CredentialBinding list"
  pl_EffectBindings :: "EffectBinding list"

record Ticket =
  tk_ExecutionID :: string
  tk_Secret :: string
  tk_StartNotAfterUnix :: u64
  tk_PlanDigest :: string

datatype State = StatePrepared | StateStarting | StateRunning | StateAmbiguousStart | StateAmbiguousRun
  | StateSucceeded | StateFailed | StateCancelled | StateKilled | StateOther string

record EffectRecord =
  er_StableActionID :: string
  er_ExactRequestDigest :: string
  er_State :: string
  er_ResponseDigest :: string
  er_HTTPStatus :: u16
  er_StateRevision :: u64

record gate_record =
  gr_Schema :: string
  gr_Plan :: Plan
  gr_PlanDigest :: string
  gr_TicketSecret :: string
  gr_StartNotAfterUnix :: u64
  gr_State :: State
  gr_StateRevision :: u64
  gr_OutcomeDigest :: string
  gr_PrepareActionID :: string
  gr_PrepareRequestDigest :: string
  gr_StartActionID :: string
  gr_StartRequestDigest :: string
  gr_Effects :: "(string \<times> EffectRecord) list"

record HTTPHeader =
  hh_Name :: string
  hh_Value :: string

record HTTPSRequest =
  hr_PlanEffectID :: string
  hr_Method :: string
  hr_PathAndQuery :: string
  hr_Headers :: "HTTPHeader list"
  hr_Body :: bytes

abbreviation (input) gate_schema :: string where "gate_schema \<equiv> ''tos.ai.local-execution-gate.v1''"
abbreviation (input) MaxPlanFiles :: nat where "MaxPlanFiles \<equiv> 256"
abbreviation (input) MaxInputFileBytes :: nat where "MaxInputFileBytes \<equiv> 1073741824"
abbreviation (input) MaxStartTicketLifetime :: duration where "MaxStartTicketLifetime \<equiv> 300000000000"
abbreviation (input) MaxPlanNetworkTargets :: nat where "MaxPlanNetworkTargets \<equiv> 64"
abbreviation (input) MaxPlanCredentials :: nat where "MaxPlanCredentials \<equiv> 64"
abbreviation (input) MaxPlanEffects :: nat where "MaxPlanEffects \<equiv> 256"

section \<open>The protocol library, as the package calls it\<close>

record WriterFence =
  fen_OwnerID :: string
  fen_AgentID :: string
  fen_WriterGeneration :: u64
  fen_ExpiresAtUnix :: u64
  fen_rest :: bytes

record AuthorizedAction =
  act_ActionKind :: string
  act_StableActionID :: string
  act_ExactRequestDigest :: string
  act_ExpiresAtUnix :: u64
  act_rest :: bytes

datatype SemanticValue = SemID string | SemDigest32 string | SemU64 u64 | SemKind string

type_synonym sem_fields = "(string \<times> SemanticValue) list"

record commerce =
  com_VerifyWriterFence :: "WriterFence \<Rightarrow> instant \<Rightarrow> string \<Rightarrow> unit result"
  com_ConfirmCurrentWriterFence :: "WriterFence \<Rightarrow> instant \<Rightarrow> unit result"
  com_VerifyAuthorizedAction ::
    "AuthorizedAction \<Rightarrow> sem_fields \<Rightarrow> bytes \<Rightarrow> WriterFence \<Rightarrow> instant \<Rightarrow> unit result"
  com_MarshalPlan :: "Plan \<Rightarrow> bytes result"
  com_MarshalTicket :: "Ticket \<Rightarrow> bytes result"
  com_MarshalRequest :: "HTTPSRequest \<Rightarrow> bytes result"
  com_DigestPlan :: "string \<Rightarrow> Plan \<Rightarrow> string result"
  com_DigestNetwork :: "string \<Rightarrow> NetworkBinding \<Rightarrow> string result"
  com_DigestResponse :: "string \<Rightarrow> int \<times> bytes \<Rightarrow> string result"
  com_DeriveStableActionID :: "string \<Rightarrow> sem_fields \<Rightarrow> string result"

section \<open>Canonical plans\<close>

definition validDigest :: "string \<Rightarrow> bool" where
  "validDigest v =
     (if length v \<noteq> 71 \<or> take 7 v \<noteq> ''sha256:'' then False else hex_decodable (drop 7 v))"

definition publicIP :: "nat list option \<Rightarrow> bool" where
  "publicIP ip = (case ip of None \<Rightarrow> False
     | Some a \<Rightarrow> ip_is_global_unicast a \<and> \<not> ip_is_private a \<and> \<not> ip_is_loopback a
               \<and> \<not> ip_is_link_local_unicast a \<and> \<not> ip_is_link_local_multicast a)"

text \<open>A loop over a sorted slice that also compares each element's key with its predecessor's.\<close>

fun check_bindings :: "('a \<Rightarrow> bool) \<Rightarrow> ('a \<Rightarrow> string) \<Rightarrow> string option \<Rightarrow> 'a list \<Rightarrow> bool" where
  "check_bindings ok key prev [] = True"
| "check_bindings ok key prev (x # xs) =
     (if \<not> ok x \<or> prev = Some (key x) then False else check_bindings ok key (Some (key x)) xs)"

definition file_ok :: "FileBinding \<Rightarrow> bool" where
  "file_ok f \<longleftrightarrow> is_abs (fb_Path f) \<and> path_clean (fb_Path f) = fb_Path f \<and> validDigest (fb_Digest f)
     \<and> unat (fb_Size f) \<le> MaxInputFileBytes"

definition network_fields_ok :: "NetworkBinding \<Rightarrow> bool" where
  "network_fields_ok b \<longleftrightarrow>
     nb_BindingID b \<noteq> [] \<and> nb_Scheme b = ''https'' \<and> nb_Host b \<noteq> [] \<and> nb_Port b \<noteq> 0
     \<and> nb_TLSServerName b = nb_Host b \<and> \<not> nb_AllowRedirects b
     \<and> nb_MaxRequestBytes b \<noteq> 0 \<and> nb_MaxRequestBytes b \<le> 16777216
     \<and> nb_MaxResponseBytes b \<noteq> 0 \<and> nb_MaxResponseBytes b \<le> 67108864
     \<and> length (nb_ResolvedIPs b) \<noteq> 0 \<and> length (nb_ResolvedIPs b) \<le> 16 \<and> sorted (nb_ResolvedIPs b)"

definition network_ips_ok :: "NetworkBinding \<Rightarrow> bool" where
  "network_ips_ok b = check_bindings (\<lambda>t. publicIP (parse_ip t)) (\<lambda>t. t) None (nb_ResolvedIPs b)"

definition credential_ok :: "CredentialBinding \<Rightarrow> bool" where
  "credential_ok b \<longleftrightarrow> cb_HandleID b \<noteq> [] \<and> validDigest (cb_ScopeDigest b) \<and> cb_ExpiresAtUnix b \<noteq> 0"

definition effect_ok :: "commerce \<Rightarrow> NetworkBinding list \<Rightarrow> CredentialBinding list \<Rightarrow> EffectBinding \<Rightarrow> bool" where
  "effect_ok com networks credentials e \<longleftrightarrow>
     eb_PlanEffectID e \<noteq> [] \<and> validDigest (eb_EffectProfileDigest e) \<and> validDigest (eb_TargetDigest e)
     \<and> validDigest (eb_EffectSemanticKeyDigest e)
     \<and> eb_OperationKind e \<in> {''https.get'', ''https.post'', ''https.put'', ''https.delete''}
     \<and> (case find (\<lambda>b. nb_BindingID b = eb_NetworkBindingID e) (rev networks) of
          None \<Rightarrow> False
        | Some network \<Rightarrow>
            com_DigestNetwork com ''tos.executor-network-target.v1'' network = Inr (eb_TargetDigest e))
     \<and> eb_MaximumUses e = 1
     \<and> (eb_CredentialHandleID e \<noteq> [] \<longrightarrow> list_ex (\<lambda>b. cb_HandleID b = eb_CredentialHandleID e) credentials)"

fun check_networks :: "string option \<Rightarrow> NetworkBinding list \<Rightarrow> unit result" where
  "check_networks prev [] = Inr ()"
| "check_networks prev (b # bs) =
     (if \<not> network_fields_ok b \<or> prev = Some (nb_BindingID b)
      then Inl (ErrMsg ''execution network binding is invalid or duplicated'')
      else if \<not> network_ips_ok b
      then Inl (ErrMsg ''execution network binding contains a non-public or duplicate address'')
      else check_networks (Some (nb_BindingID b)) bs)"

definition slot_fields :: "Plan \<Rightarrow> string \<Rightarrow> sem_fields" where
  "slot_fields plan canonicalPlanDigest =
     [(''owner_id'', SemID (pl_OwnerID plan)), (''agent_id'', SemID (pl_AgentID plan)),
      (''agreement_body_digest'', SemDigest32 (pl_AgreementBodyDigest plan)),
      (''execution_obligation_id'', SemID (pl_ExecutionObligationID plan)),
      (''canonical_plan_digest'', SemDigest32 canonicalPlanDigest),
      (''accepted_input_manifest_digest'', SemDigest32 (pl_AcceptedInputManifestDigest plan)),
      (''attempt_index'', SemU64 (pl_AttemptIndex plan)),
      (''predecessor_terminal_resolution_digest'', SemDigest32 (pl_PredecessorTerminalResolutionDigest plan))]"

definition plan_incomplete :: "Plan \<Rightarrow> WriterFence \<Rightarrow> bool" where
  "plan_incomplete plan fence \<longleftrightarrow>
     pl_OwnerID plan \<noteq> fen_OwnerID fence \<or> pl_AgentID plan \<noteq> fen_AgentID fence
     \<or> pl_AgreementBodyDigest plan = [] \<or> pl_ExecutionObligationID plan = []
     \<or> pl_AcceptedInputManifestDigest plan = [] \<or> pl_ReservationID plan = [] \<or> pl_PolicyRevision plan = 0
     \<or> length (pl_Files plan) > MaxPlanFiles \<or> length (pl_NetworkBindings plan) > MaxPlanNetworkTargets
     \<or> length (pl_CredentialBindings plan) > MaxPlanCredentials
     \<or> length (pl_EffectBindings plan) > MaxPlanEffects
     \<or> pl_LeaseLossPolicy plan \<notin> {LeaseLossContinue, LeaseLossDrain, LeaseLossKill}"

text \<open>The part of \<open>preparePlan\<close> that puts a plan into canonical form: identities cleared, lists sorted.\<close>

definition canonical_plan :: "Plan \<Rightarrow> WriterFence \<Rightarrow> Plan" where
  "canonical_plan plan fence = plan\<lparr>pl_WriterGeneration := fen_WriterGeneration fence, pl_ExecutionID := [],
     pl_CanonicalPlanDigest := [],
     pl_Files := sort_key fb_Path (pl_Files plan),
     pl_NetworkBindings := sort_key nb_BindingID (pl_NetworkBindings plan),
     pl_CredentialBindings := sort_key cb_HandleID (pl_CredentialBindings plan),
     pl_EffectBindings := sort_key eb_PlanEffectID (pl_EffectBindings plan)\<rparr>"

definition preparePlan :: "commerce \<Rightarrow> Plan \<Rightarrow> WriterFence \<Rightarrow> (Plan \<times> string) result" where
  "preparePlan com plan0 fence =
     (if plan_incomplete plan0 fence then Inl (ErrMsg ''execution plan is incomplete'')
      else
        let plan = canonical_plan plan0 fence in
        if \<not> check_bindings file_ok fb_Path None (pl_Files plan)
        then Inl (ErrMsg ''execution file binding is invalid or duplicated'')
        else case check_networks None (pl_NetworkBindings plan) of Inl e \<Rightarrow> Inl e | Inr _ \<Rightarrow>
        if \<not> check_bindings credential_ok cb_HandleID None (pl_CredentialBindings plan)
        then Inl (ErrMsg ''execution credential binding is invalid or duplicated'')
        else if \<not> check_bindings (effect_ok com (pl_NetworkBindings plan) (pl_CredentialBindings plan))
                   eb_PlanEffectID None (pl_EffectBindings plan)
        then Inl (ErrMsg ''execution effect binding is invalid or duplicated'')
        else case com_DigestPlan com ''tos.local-execution-plan.v1'' (plan\<lparr>pl_WriterGeneration := 0\<rparr>) of
          Inl e \<Rightarrow> Inl e
        | Inr canonicalPlanDigest \<Rightarrow>
            (let plan1 = plan\<lparr>pl_CanonicalPlanDigest := canonicalPlanDigest\<rparr> in
             case com_DeriveStableActionID com ''execution.slot'' (slot_fields plan1 canonicalPlanDigest) of
               Inl e \<Rightarrow> Inl e
             | Inr executionID \<Rightarrow>
                 (let plan2 = plan1\<lparr>pl_ExecutionID := executionID\<rparr> in
                  case com_DigestPlan com ''tos.local-execution-plan-bound.v1'' plan2 of
                    Inl e \<Rightarrow> Inl e
                  | Inr digest \<Rightarrow> Inr (plan2, digest))))"

section \<open>Authorisation material\<close>

definition identity_fields :: "Plan \<Rightarrow> sem_fields" where
  "identity_fields plan =
     [(''owner_id'', SemID (pl_OwnerID plan)), (''agent_id'', SemID (pl_AgentID plan)),
      (''execution_id'', SemDigest32 (pl_ExecutionID plan))]"

definition prepareAuthorizationMaterial :: "commerce \<Rightarrow> Plan \<Rightarrow> (bytes \<times> sem_fields) result" where
  "prepareAuthorizationMaterial com prepared =
     (case com_MarshalPlan com prepared of Inl e \<Rightarrow> Inl e
      | Inr request \<Rightarrow> Inr (request, identity_fields prepared))"

definition PrepareAuthorizationMaterial :: "commerce \<Rightarrow> Plan \<Rightarrow> WriterFence \<Rightarrow> (Plan \<times> bytes \<times> sem_fields) result" where
  "PrepareAuthorizationMaterial com plan fence =
     (case preparePlan com plan fence of Inl e \<Rightarrow> Inl e
      | Inr (prepared, _) \<Rightarrow> (case prepareAuthorizationMaterial com prepared of Inl e \<Rightarrow> Inl e
          | Inr (request, sem) \<Rightarrow> Inr (prepared, request, sem)))"

definition startAuthorizationMaterial :: "commerce \<Rightarrow> Plan \<Rightarrow> Ticket \<Rightarrow> (bytes \<times> sem_fields) result" where
  "startAuthorizationMaterial com plan ticket =
     (case com_MarshalTicket com ticket of Inl e \<Rightarrow> Inl e
      | Inr request \<Rightarrow> Inr (request, identity_fields plan))"

definition find_effect :: "Plan \<Rightarrow> string \<Rightarrow> EffectBinding option" where
  "find_effect plan i = find (\<lambda>e. eb_PlanEffectID e = i) (pl_EffectBindings plan)"

definition EffectAuthorizationMaterial :: "commerce \<Rightarrow> Plan \<Rightarrow> HTTPSRequest \<Rightarrow> (bytes \<times> sem_fields) result" where
  "EffectAuthorizationMaterial com plan request =
     (case find_effect plan (hr_PlanEffectID request) of
        None \<Rightarrow> Inl (ErrMsg ''effect is not present in the approved plan'')
      | Some effect \<Rightarrow>
          (case com_MarshalRequest com request of Inl e \<Rightarrow> Inl e
           | Inr canonical \<Rightarrow> Inr (canonical,
               [(''owner_id'', SemID (pl_OwnerID plan)), (''agent_id'', SemID (pl_AgentID plan)),
                (''agreement_body_digest'', SemDigest32 (pl_AgreementBodyDigest plan)),
                (''obligation_id'', SemID (pl_ExecutionObligationID plan)),
                (''execution_id'', SemDigest32 (pl_ExecutionID plan)),
                (''plan_effect_id'', SemID (eb_PlanEffectID effect)),
                (''effect_profile_digest'', SemDigest32 (eb_EffectProfileDigest effect)),
                (''target_digest'', SemDigest32 (eb_TargetDigest effect)),
                (''operation_kind'', SemKind (eb_OperationKind effect)),
                (''effect_semantic_key_digest'', SemDigest32 (eb_EffectSemanticKeyDigest effect))])))"

section \<open>Lemmas on canonical plans\<close>

lemma check_bindings_prev:
  "sorted (map key xs) \<Longrightarrow> (\<forall>x\<in>set xs. k \<le> key x) \<Longrightarrow>
     check_bindings ok key (Some k) xs \<longleftrightarrow> list_all ok xs \<and> distinct (map key xs) \<and> k \<notin> key ` set xs"
proof (induction xs arbitrary: k)
  case (Cons x xs)
  have le: "\<forall>y\<in>set xs. key x \<le> key y" and srt: "sorted (map key xs)"
    using Cons.prems(1) by auto
  have "k \<notin> key ` set xs" if "k \<noteq> key x" "key x \<notin> key ` set xs"
  proof
    assume "k \<in> key ` set xs"
    then obtain y where "y \<in> set xs" "k = key y" by blast
    then have "key x \<le> k" using le by blast
    moreover have "k \<le> key x" using Cons.prems(2) by simp
    ultimately show False using that(1) by (meson antisym)
  qed
  then show ?case
    using Cons.IH [OF srt le] by auto
qed simp

lemma check_bindings_iff:
  assumes "sorted (map key xs)"
  shows "check_bindings ok key None xs \<longleftrightarrow> list_all ok xs \<and> distinct (map key xs)"
proof (cases xs)
  case (Cons x ys)
  have "\<forall>y\<in>set ys. key x \<le> key y" "sorted (map key ys)"
    using assms Cons by auto
  then show ?thesis
    using check_bindings_prev [of key ys "key x" ok] Cons by auto
qed simp

lemma check_networks_ok:
  "check_networks prev bs = Inr () \<longleftrightarrow>
     check_bindings (\<lambda>b. network_fields_ok b \<and> network_ips_ok b) nb_BindingID prev bs"
  by (induction bs arbitrary: prev) auto

lemma preparePlan_Inr:
  assumes "preparePlan com plan fence = Inr (p, d)"
  obtains c e where
    "\<not> plan_incomplete plan fence"
    "check_bindings file_ok fb_Path None (pl_Files (canonical_plan plan fence))"
    "check_networks None (pl_NetworkBindings (canonical_plan plan fence)) = Inr ()"
    "check_bindings credential_ok cb_HandleID None (pl_CredentialBindings (canonical_plan plan fence))"
    "check_bindings (effect_ok com (pl_NetworkBindings (canonical_plan plan fence))
        (pl_CredentialBindings (canonical_plan plan fence))) eb_PlanEffectID None
        (pl_EffectBindings (canonical_plan plan fence))"
    "com_DigestPlan com ''tos.local-execution-plan.v1''
        (canonical_plan plan fence\<lparr>pl_WriterGeneration := 0\<rparr>) = Inr c"
    "com_DeriveStableActionID com ''execution.slot''
        (slot_fields (canonical_plan plan fence\<lparr>pl_CanonicalPlanDigest := c\<rparr>) c) = Inr e"
    "p = canonical_plan plan fence\<lparr>pl_CanonicalPlanDigest := c, pl_ExecutionID := e\<rparr>"
    "com_DigestPlan com ''tos.local-execution-plan-bound.v1'' p = Inr d"
  using assms
  by (auto simp: preparePlan_def Let_def split: if_splits sum.splits)

lemma canonical_plan_idem:
  "canonical_plan (canonical_plan plan fence\<lparr>pl_CanonicalPlanDigest := c, pl_ExecutionID := e\<rparr>) fence =
     canonical_plan plan fence"
  by (simp add: canonical_plan_def sort_key_id_if_sorted sort_key_const)

lemma plan_incomplete_canonical:
  "plan_incomplete (canonical_plan plan fence\<lparr>pl_CanonicalPlanDigest := c, pl_ExecutionID := e\<rparr>) fence =
     plan_incomplete plan fence"
  by (simp add: plan_incomplete_def canonical_plan_def)

lemma find_rev_unique:
  assumes "distinct (map key xs)" and "find (\<lambda>x. key x = k) (rev xs) = Some x"
  shows "x \<in> set xs \<and> key x = k"
  using assms(2) by (auto simp: find_Some_iff) (metis nth_mem set_rev length_rev)

text \<open>What a prepared plan is: every list strictly sorted by its key and every binding sound.\<close>

definition plan_sound :: "commerce \<Rightarrow> Plan \<Rightarrow> bool" where
  "plan_sound com p \<longleftrightarrow>
     sorted (map fb_Path (pl_Files p)) \<and> distinct (map fb_Path (pl_Files p)) \<and> list_all file_ok (pl_Files p)
     \<and> sorted (map nb_BindingID (pl_NetworkBindings p)) \<and> distinct (map nb_BindingID (pl_NetworkBindings p))
     \<and> (\<forall>b\<in>set (pl_NetworkBindings p). nb_Scheme b = ''https'' \<and> \<not> nb_AllowRedirects b
          \<and> nb_TLSServerName b = nb_Host b \<and> nb_ResolvedIPs b \<noteq> [] \<and> distinct (nb_ResolvedIPs b)
          \<and> (\<forall>t\<in>set (nb_ResolvedIPs b). publicIP (parse_ip t)))
     \<and> distinct (map cb_HandleID (pl_CredentialBindings p))
     \<and> distinct (map eb_PlanEffectID (pl_EffectBindings p))
     \<and> (\<forall>e\<in>set (pl_EffectBindings p).
          eb_MaximumUses e = 1
          \<and> (\<exists>b\<in>set (pl_NetworkBindings p). nb_BindingID b = eb_NetworkBindingID e
               \<and> com_DigestNetwork com ''tos.executor-network-target.v1'' b = Inr (eb_TargetDigest e))
          \<and> (eb_CredentialHandleID e \<noteq> [] \<longrightarrow>
               (\<exists>b\<in>set (pl_CredentialBindings p). cb_HandleID b = eb_CredentialHandleID e)))"

lemma sorted_canonical:
  "sorted (map fb_Path (pl_Files (canonical_plan plan fence)))"
  "sorted (map nb_BindingID (pl_NetworkBindings (canonical_plan plan fence)))"
  "sorted (map cb_HandleID (pl_CredentialBindings (canonical_plan plan fence)))"
  "sorted (map eb_PlanEffectID (pl_EffectBindings (canonical_plan plan fence)))"
  by (simp_all add: canonical_plan_def)

lemma network_sound:
  assumes "network_fields_ok b" and "network_ips_ok b"
  shows "nb_Scheme b = ''https'' \<and> \<not> nb_AllowRedirects b \<and> nb_TLSServerName b = nb_Host b
     \<and> nb_ResolvedIPs b \<noteq> [] \<and> distinct (nb_ResolvedIPs b) \<and> (\<forall>t\<in>set (nb_ResolvedIPs b). publicIP (parse_ip t))"
proof -
  have "sorted (map (\<lambda>t. t) (nb_ResolvedIPs b))"
    using assms(1) by (simp add: network_fields_ok_def)
  from check_bindings_iff [OF this, of "\<lambda>t. publicIP (parse_ip t)"] show ?thesis
    using assms by (auto simp: network_fields_ok_def network_ips_ok_def list_all_iff)
qed

lemma effect_sound:
  assumes "effect_ok com ns cs e" and "distinct (map nb_BindingID ns)"
  shows "eb_MaximumUses e = 1
     \<and> (\<exists>b\<in>set ns. nb_BindingID b = eb_NetworkBindingID e
          \<and> com_DigestNetwork com ''tos.executor-network-target.v1'' b = Inr (eb_TargetDigest e))
     \<and> (eb_CredentialHandleID e \<noteq> [] \<longrightarrow> (\<exists>b\<in>set cs. cb_HandleID b = eb_CredentialHandleID e))"
proof -
  obtain b where b: "find (\<lambda>b. nb_BindingID b = eb_NetworkBindingID e) (rev ns) = Some b"
      "com_DigestNetwork com ''tos.executor-network-target.v1'' b = Inr (eb_TargetDigest e)"
    using assms(1) unfolding effect_ok_def by (auto split: option.splits)
  have "b \<in> set ns \<and> nb_BindingID b = eb_NetworkBindingID e"
    using find_rev_unique [OF assms(2) b(1)] .
  moreover have "eb_MaximumUses e = 1"
    "eb_CredentialHandleID e \<noteq> [] \<longrightarrow> (\<exists>b\<in>set cs. cb_HandleID b = eb_CredentialHandleID e)"
    using assms(1) unfolding effect_ok_def list_ex_iff by blast+
  ultimately show ?thesis
    using b(2) by blast
qed

lemma preparePlan_sound:
  assumes "preparePlan com plan fence = Inr (p, d)"
  shows "plan_sound com p"
proof -
  let ?c = "canonical_plan plan fence"
  from assms obtain c e where ok:
    "check_bindings file_ok fb_Path None (pl_Files ?c)"
    "check_networks None (pl_NetworkBindings ?c) = Inr ()"
    "check_bindings credential_ok cb_HandleID None (pl_CredentialBindings ?c)"
    "check_bindings (effect_ok com (pl_NetworkBindings ?c) (pl_CredentialBindings ?c)) eb_PlanEffectID None
        (pl_EffectBindings ?c)"
    and p: "p = ?c\<lparr>pl_CanonicalPlanDigest := c, pl_ExecutionID := e\<rparr>"
    by (rule preparePlan_Inr)
  have lists: "pl_Files p = pl_Files ?c" "pl_NetworkBindings p = pl_NetworkBindings ?c"
    "pl_CredentialBindings p = pl_CredentialBindings ?c" "pl_EffectBindings p = pl_EffectBindings ?c"
    by (simp_all add: p)
  have nets: "distinct (map nb_BindingID (pl_NetworkBindings ?c))"
    "\<forall>b\<in>set (pl_NetworkBindings ?c). network_fields_ok b \<and> network_ips_ok b"
    using ok(2) check_bindings_iff [OF sorted_canonical(2)] by (auto simp: check_networks_ok list_all_iff)
  have effs: "distinct (map eb_PlanEffectID (pl_EffectBindings ?c))"
    "\<forall>e\<in>set (pl_EffectBindings ?c). effect_ok com (pl_NetworkBindings ?c) (pl_CredentialBindings ?c) e"
    using ok(4) check_bindings_iff [OF sorted_canonical(4)] by (auto simp: list_all_iff)
  have fls: "list_all file_ok (pl_Files ?c)" "distinct (map fb_Path (pl_Files ?c))"
    and crs: "distinct (map cb_HandleID (pl_CredentialBindings ?c))"
    using ok(1,3) check_bindings_iff [OF sorted_canonical(1)] check_bindings_iff [OF sorted_canonical(3)]
    by auto
  show ?thesis
    unfolding plan_sound_def lists
    using fls crs nets(1) effs(1) sorted_canonical(1,2) [of plan fence] nets(2) effs(2) network_sound effect_sound
    by (intro conjI ballI) blast+
qed

section \<open>Properties\<close>

text \<open>
  C30. A prepared plan is sound: its files, networks, credentials and effects have distinct keys in
  order; networks are HTTPS without redirects, pinned to distinct public addresses; and every effect is
  used once, names a network of the plan with the digest of exactly that network, and names a
  credential of the plan or none.
\<close>

theorem preparePlan_gives_sound_plan:
  assumes "preparePlan com plan fence = Inr (p, d)"
  shows "plan_sound com p \<and> pl_OwnerID p = fen_OwnerID fence \<and> pl_AgentID p = fen_AgentID fence
     \<and> pl_WriterGeneration p = fen_WriterGeneration fence"
proof -
  obtain c e where "\<not> plan_incomplete plan fence"
    and "p = canonical_plan plan fence\<lparr>pl_CanonicalPlanDigest := c, pl_ExecutionID := e\<rparr>"
    using assms by (rule preparePlan_Inr)
  then show ?thesis
    using preparePlan_sound [OF assms] by (auto simp: plan_incomplete_def canonical_plan_def)
qed

text \<open>Preparing a prepared plan again changes nothing: the canonical form is a fixed point.\<close>

theorem preparePlan_idempotent:
  assumes "preparePlan com plan fence = Inr (p, d)"
  shows "preparePlan com p fence = Inr (p, d)"
proof -
  let ?c = "canonical_plan plan fence"
  from assms obtain c e where ok:
    "\<not> plan_incomplete plan fence"
    "check_bindings file_ok fb_Path None (pl_Files ?c)"
    "check_networks None (pl_NetworkBindings ?c) = Inr ()"
    "check_bindings credential_ok cb_HandleID None (pl_CredentialBindings ?c)"
    "check_bindings (effect_ok com (pl_NetworkBindings ?c) (pl_CredentialBindings ?c)) eb_PlanEffectID None
        (pl_EffectBindings ?c)"
    "com_DigestPlan com ''tos.local-execution-plan.v1'' (?c\<lparr>pl_WriterGeneration := 0\<rparr>) = Inr c"
    "com_DeriveStableActionID com ''execution.slot'' (slot_fields (?c\<lparr>pl_CanonicalPlanDigest := c\<rparr>) c) = Inr e"
    and p: "p = ?c\<lparr>pl_CanonicalPlanDigest := c, pl_ExecutionID := e\<rparr>"
    and d: "com_DigestPlan com ''tos.local-execution-plan-bound.v1'' p = Inr d"
    by (rule preparePlan_Inr)
  have "canonical_plan p fence = ?c" "plan_incomplete p fence = plan_incomplete plan fence"
    unfolding p by (rule canonical_plan_idem, rule plan_incomplete_canonical)
  then show ?thesis
    using ok d unfolding preparePlan_def by (simp add: Let_def p)
qed

text \<open>
  The execution identity does not depend on the writer: after a takeover, a plan prepared under
  another writer's fence has the same execution identity and canonical digest, so it meets the same
  slot instead of making a second one.
\<close>

theorem execution_identity_writer_independent:
  assumes "preparePlan com plan fence1 = Inr (p1, d1)" and "preparePlan com plan fence2 = Inr (p2, d2)"
  shows "pl_ExecutionID p1 = pl_ExecutionID p2 \<and> pl_CanonicalPlanDigest p1 = pl_CanonicalPlanDigest p2"
proof -
  obtain c1 e1 where 1: "com_DigestPlan com ''tos.local-execution-plan.v1''
        (canonical_plan plan fence1\<lparr>pl_WriterGeneration := 0\<rparr>) = Inr c1"
      "com_DeriveStableActionID com ''execution.slot''
        (slot_fields (canonical_plan plan fence1\<lparr>pl_CanonicalPlanDigest := c1\<rparr>) c1) = Inr e1"
      "p1 = canonical_plan plan fence1\<lparr>pl_CanonicalPlanDigest := c1, pl_ExecutionID := e1\<rparr>"
    using assms(1) by (rule preparePlan_Inr)
  obtain c2 e2 where 2: "com_DigestPlan com ''tos.local-execution-plan.v1''
        (canonical_plan plan fence2\<lparr>pl_WriterGeneration := 0\<rparr>) = Inr c2"
      "com_DeriveStableActionID com ''execution.slot''
        (slot_fields (canonical_plan plan fence2\<lparr>pl_CanonicalPlanDigest := c2\<rparr>) c2) = Inr e2"
      "p2 = canonical_plan plan fence2\<lparr>pl_CanonicalPlanDigest := c2, pl_ExecutionID := e2\<rparr>"
    using assms(2) by (rule preparePlan_Inr)
  have "canonical_plan plan fence1\<lparr>pl_WriterGeneration := 0\<rparr> = canonical_plan plan fence2\<lparr>pl_WriterGeneration := 0\<rparr>"
    by (simp add: canonical_plan_def)
  then have "c1 = c2" using 1(1) 2(1) by simp
  moreover have "slot_fields (canonical_plan plan fence1\<lparr>pl_CanonicalPlanDigest := c2\<rparr>) c2 =
      slot_fields (canonical_plan plan fence2\<lparr>pl_CanonicalPlanDigest := c2\<rparr>) c2"
    by (simp add: slot_fields_def canonical_plan_def)
  ultimately show ?thesis
    using 1 2 by simp
qed

subsection \<open>A plan and a protocol library\<close>

definition demo_commerce :: commerce where
  "demo_commerce = \<lparr>com_VerifyWriterFence = (\<lambda>_ _ _. Inr ()), com_ConfirmCurrentWriterFence = (\<lambda>_ _. Inr ()),
     com_VerifyAuthorizedAction = (\<lambda>_ _ _ _ _. Inr ()), com_MarshalPlan = (\<lambda>_. Inr ''plan''),
     com_MarshalTicket = (\<lambda>t. Inr (tk_ExecutionID t)), com_MarshalRequest = (\<lambda>r. Inr (hr_Body r)),
     com_DigestPlan = (\<lambda>s p. Inr (sha256_digest s)), com_DigestNetwork = (\<lambda>s b. Inr (sha256_digest (nb_Host b))),
     com_DigestResponse = (\<lambda>s r. Inr (sha256_digest (snd r))),
     com_DeriveStableActionID = (\<lambda>s f. Inr (sha256_digest s))\<rparr>"

definition demo_network :: NetworkBinding where
  "demo_network = \<lparr>nb_BindingID = ''api'', nb_Scheme = ''https'', nb_Host = ''api.example'', nb_Port = 443,
     nb_ResolvedIPs = [''8.8.8.8''], nb_TLSServerName = ''api.example'', nb_AllowRedirects = False,
     nb_MaxRequestBytes = 1024, nb_MaxResponseBytes = 1024\<rparr>"

definition demo_effect :: EffectBinding where
  "demo_effect = \<lparr>eb_PlanEffectID = ''notify'', eb_EffectProfileDigest = sha256_digest ''profile'',
     eb_TargetDigest = sha256_digest ''api.example'', eb_OperationKind = ''https.post'',
     eb_EffectSemanticKeyDigest = sha256_digest ''key'', eb_NetworkBindingID = ''api'',
     eb_CredentialHandleID = [], eb_MaximumUses = 1\<rparr>"

definition demo_plan :: Plan where
  "demo_plan = \<lparr>pl_OwnerID = ''owner'', pl_AgentID = ''agent'', pl_AgreementBodyDigest = ''a'',
     pl_ExecutionObligationID = ''o'', pl_CanonicalPlanDigest = [], pl_AcceptedInputManifestDigest = ''m'',
     pl_AttemptIndex = 0, pl_PredecessorTerminalResolutionDigest = [], pl_ExecutionID = [],
     pl_ReservationID = ''r'', pl_PolicyRevision = 1, pl_WriterGeneration = 0,
     pl_LeaseLossPolicy = LeaseLossDrain, pl_Files = [], pl_NetworkBindings = [demo_network],
     pl_CredentialBindings = [], pl_EffectBindings = [demo_effect]\<rparr>"

definition demo_fence :: "u64 \<Rightarrow> WriterFence" where
  "demo_fence g = \<lparr>fen_OwnerID = ''owner'', fen_AgentID = ''agent'', fen_WriterGeneration = g,
     fen_ExpiresAtUnix = 1000, fen_rest = []\<rparr>"

definition demo_prepared :: "u64 \<Rightarrow> Plan" where
  "demo_prepared g = demo_plan\<lparr>pl_WriterGeneration := g,
     pl_CanonicalPlanDigest := sha256_digest ''tos.local-execution-plan.v1'',
     pl_ExecutionID := sha256_digest ''execution.slot''\<rparr>"

lemma is_lower_hex_digest: "hex64_after ''sha256:'' d \<Longrightarrow> validDigest d"
  by (auto simp: hex64_after_decompose validDigest_def hex_decodable_def list_all_iff)

lemma sha256_digest_valid [simp]: "validDigest (sha256_digest m)"
  by (rule is_lower_hex_digest) simp

lemma demo_public: "publicIP (parse_ip ''8.8.8.8'')"
  by code_simp

lemma demo_preparePlan:
  "preparePlan demo_commerce demo_plan (demo_fence g) =
     Inr (demo_prepared g, sha256_digest ''tos.local-execution-plan-bound.v1'')"
proof -
  have "network_fields_ok demo_network" "network_ips_ok demo_network"
    using demo_public by (simp_all add: network_fields_ok_def network_ips_ok_def demo_network_def)
  moreover have "effect_ok demo_commerce [demo_network] [] demo_effect"
    by (simp add: effect_ok_def demo_effect_def demo_network_def demo_commerce_def)
  moreover have "canonical_plan demo_plan (demo_fence g) = demo_plan\<lparr>pl_WriterGeneration := g\<rparr>"
    by (simp add: canonical_plan_def demo_plan_def demo_fence_def)
  moreover have "\<not> plan_incomplete demo_plan (demo_fence g)"
    by (simp add: plan_incomplete_def demo_plan_def demo_fence_def)
  ultimately show ?thesis
    by (simp add: preparePlan_def demo_plan_def demo_commerce_def demo_prepared_def)
qed

theorem preparePlan_gives_sound_plan_witness: "plan_sound demo_commerce (demo_prepared 3)"
  using preparePlan_gives_sound_plan [OF demo_preparePlan] by blast

theorem preparePlan_idempotent_witness:
  "preparePlan demo_commerce (demo_prepared 3) (demo_fence 3) =
     Inr (demo_prepared 3, sha256_digest ''tos.local-execution-plan-bound.v1'')"
  by (rule preparePlan_idempotent [OF demo_preparePlan])

theorem execution_identity_writer_independent_witness:
  "pl_ExecutionID (demo_prepared 3) = pl_ExecutionID (demo_prepared 4)"
  using execution_identity_writer_independent [OF demo_preparePlan demo_preparePlan] by blast

end
