(* ===== verification/Commerce_Gate.thy ===== *)
theory Commerce_Gate
  imports Commerce_Plan Contracts
begin

text \<open>
  Package \<open>pkg/commercegate\<close>, file \<open>gate.go\<close>, second part: the durable state machine of an execution.

  The model's directory is the Gate's own, which its lock makes exclusive; a file is named by its name
  in it.  A file's content is the record its JSON decodes to.  Every operation that touches a record
  runs under the Gate's mutex, so it is one step; \<open>PerformHTTPS\<close>, which releases the mutex around the
  network call, is in \<open>Commerce_Effects\<close>.
\<close>

section \<open>JSON size of a record\<close>

definition state_name :: "State \<Rightarrow> string" where
  "state_name s = (case s of StatePrepared \<Rightarrow> ''PREPARED'' | StateStarting \<Rightarrow> ''STARTING''
     | StateRunning \<Rightarrow> ''RUNNING'' | StateAmbiguousStart \<Rightarrow> ''AMBIGUOUS_START''
     | StateAmbiguousRun \<Rightarrow> ''AMBIGUOUS_RUN'' | StateSucceeded \<Rightarrow> ''SUCCEEDED'' | StateFailed \<Rightarrow> ''FAILED''
     | StateCancelled \<Rightarrow> ''CANCELLED'' | StateKilled \<Rightarrow> ''KILLED'' | StateOther t \<Rightarrow> t)"

definition policy_name :: "LeaseLossPolicy \<Rightarrow> string" where
  "policy_name p = (case p of LeaseLossContinue \<Rightarrow> ''continue'' | LeaseLossDrain \<Rightarrow> ''drain''
     | LeaseLossKill \<Rightarrow> ''kill'' | LeaseLossOther t \<Rightarrow> t)"

definition omit_string :: "string \<Rightarrow> string \<Rightarrow> (string \<times> string) list" where
  "omit_string k v = omit_if (v = []) k (json_string v)"

definition json_file :: "FileBinding \<Rightarrow> string" where
  "json_file f = json_object [(''path'', json_string (fb_Path f)), (''digest'', json_string (fb_Digest f)),
     (''size'', json_u64 (fb_Size f))]"

definition json_network :: "NetworkBinding \<Rightarrow> string" where
  "json_network b = json_object
     [(''binding_id'', json_string (nb_BindingID b)), (''scheme'', json_string (nb_Scheme b)),
      (''host'', json_string (nb_Host b)), (''port'', show_nat (unat (nb_Port b))),
      (''resolved_ips'', json_array (map json_string (nb_ResolvedIPs b))),
      (''tls_server_name'', json_string (nb_TLSServerName b)),
      (''allow_redirects'', json_bool (nb_AllowRedirects b)),
      (''max_request_bytes'', json_u64 (nb_MaxRequestBytes b)),
      (''max_response_bytes'', json_u64 (nb_MaxResponseBytes b))]"

definition json_credential :: "CredentialBinding \<Rightarrow> string" where
  "json_credential b = json_object
     [(''handle_id'', json_string (cb_HandleID b)), (''scope_digest'', json_string (cb_ScopeDigest b)),
      (''expires_at_unix'', json_u64 (cb_ExpiresAtUnix b))]"

definition json_effect :: "EffectBinding \<Rightarrow> string" where
  "json_effect e = json_object
     ([(''plan_effect_id'', json_string (eb_PlanEffectID e)),
       (''effect_profile_digest'', json_string (eb_EffectProfileDigest e)),
       (''target_digest'', json_string (eb_TargetDigest e)),
       (''operation_kind'', json_string (eb_OperationKind e)),
       (''effect_semantic_key_digest'', json_string (eb_EffectSemanticKeyDigest e))]
      @ omit_string ''network_binding_id'' (eb_NetworkBindingID e)
      @ omit_string ''credential_handle_id'' (eb_CredentialHandleID e)
      @ [(''maximum_uses'', show_nat (unat (eb_MaximumUses e)))])"

definition omit_list :: "string \<Rightarrow> ('a \<Rightarrow> string) \<Rightarrow> 'a list \<Rightarrow> (string \<times> string) list" where
  "omit_list k enc xs = omit_if (xs = []) k (json_array (map enc xs))"

definition json_Plan :: "Plan \<Rightarrow> string" where
  "json_Plan p = json_object
     ([(''owner_id'', json_string (pl_OwnerID p)), (''agent_id'', json_string (pl_AgentID p)),
       (''agreement_body_digest'', json_string (pl_AgreementBodyDigest p)),
       (''execution_obligation_id'', json_string (pl_ExecutionObligationID p)),
       (''canonical_plan_digest'', json_string (pl_CanonicalPlanDigest p)),
       (''accepted_input_manifest_digest'', json_string (pl_AcceptedInputManifestDigest p)),
       (''attempt_index'', json_u64 (pl_AttemptIndex p)),
       (''predecessor_terminal_resolution_digest'', json_string (pl_PredecessorTerminalResolutionDigest p)),
       (''execution_id'', json_string (pl_ExecutionID p)),
       (''reservation_id'', json_string (pl_ReservationID p)),
       (''policy_revision'', json_u64 (pl_PolicyRevision p)),
       (''writer_generation'', json_u64 (pl_WriterGeneration p)),
       (''lease_loss_policy'', json_string (policy_name (pl_LeaseLossPolicy p)))]
      @ omit_list ''files'' json_file (pl_Files p)
      @ omit_list ''network_bindings'' json_network (pl_NetworkBindings p)
      @ omit_list ''credential_bindings'' json_credential (pl_CredentialBindings p)
      @ omit_list ''effect_bindings'' json_effect (pl_EffectBindings p))"

definition json_EffectRecord :: "EffectRecord \<Rightarrow> string" where
  "json_EffectRecord e = json_object
     ([(''stable_action_id'', json_string (er_StableActionID e)),
       (''exact_request_digest'', json_string (er_ExactRequestDigest e)),
       (''state'', json_string (er_State e))]
      @ omit_string ''response_digest'' (er_ResponseDigest e)
      @ omit_if (er_HTTPStatus e = 0) ''http_status'' (show_nat (unat (er_HTTPStatus e)))
      @ [(''state_revision'', json_u64 (er_StateRevision e))])"

definition json_gate_record :: "gate_record \<Rightarrow> string" where
  "json_gate_record r = json_object
     ([(''schema'', json_string (gr_Schema r)), (''plan'', json_Plan (gr_Plan r)),
       (''plan_digest'', json_string (gr_PlanDigest r)), (''ticket_secret'', json_string (gr_TicketSecret r)),
       (''start_not_after_unix'', json_u64 (gr_StartNotAfterUnix r)),
       (''state'', json_string (state_name (gr_State r))),
       (''state_revision'', json_u64 (gr_StateRevision r))]
      @ omit_string ''outcome_digest'' (gr_OutcomeDigest r)
      @ [(''prepare_action_id'', json_string (gr_PrepareActionID r)),
         (''prepare_request_digest'', json_string (gr_PrepareRequestDigest r))]
      @ omit_string ''start_action_id'' (gr_StartActionID r)
      @ omit_string ''start_request_digest'' (gr_StartRequestDigest r)
      @ omit_if (gr_Effects r = []) ''effects''
          (json_object (map (\<lambda>kv. (fst kv, json_EffectRecord (snd kv))) (sort_key fst (gr_Effects r)))))"

definition gate_record_size :: "gate_record \<Rightarrow> nat" where
  "gate_record_size r = length (json_gate_record r)"

section \<open>Records on disk\<close>

definition gate_path :: "string \<Rightarrow> string" where
  "gate_path i = (if \<not> validDigest i then ''invalid'' else drop 7 i @ ''.json'')"

definition knownState :: "State \<Rightarrow> bool" where
  "knownState s = (case s of StateOther _ \<Rightarrow> False | _ \<Rightarrow> True)"

definition effect_record_ok :: "string \<times> EffectRecord \<Rightarrow> bool" where
  "effect_record_ok kv =
     (let e = snd kv in
      fst kv \<noteq> [] \<and> validDigest (er_StableActionID e) \<and> validDigest (er_ExactRequestDigest e)
      \<and> er_StateRevision e \<noteq> 0 \<and> (er_State e = ''submitted'' \<or> er_State e = ''terminal'')
      \<and> (er_State e = ''terminal'' \<longrightarrow> validDigest (er_ResponseDigest e) \<and> er_HTTPStatus e \<noteq> 0))"

definition gate_record_ok :: "gate_record \<Rightarrow> bool" where
  "gate_record_ok r \<longleftrightarrow>
     gr_Schema r = gate_schema \<and> gr_StateRevision r \<noteq> 0
     \<and> validDigest (gr_PrepareActionID r) \<and> validDigest (gr_PrepareRequestDigest r) \<and> knownState (gr_State r)
     \<and> (gr_StartActionID r = []) = (gr_StartRequestDigest r = [])
     \<and> (gr_StartActionID r \<noteq> [] \<longrightarrow> validDigest (gr_StartActionID r) \<and> validDigest (gr_StartRequestDigest r))"

definition readRecord :: "io \<Rightarrow> string \<Rightarrow> gate_record fs \<Rightarrow> gate_record result" where
  "readRecord w p f =
     (if \<not> io_read w then Inl ErrOs
      else case fs_live f p of
        None \<Rightarrow> Inl ErrNotExist
      | Some n \<Rightarrow>
          if node_type n \<noteq> RegularFile \<or> node_perm n \<noteq> mode_0600 \<or> node_size n = 0 \<or> node_size n > 2097152
          then Inl (ErrMsg ''invalid local execution Gate record'')
          else (case node_data n of
              None \<Rightarrow> Inl (ErrMsg ''invalid local execution Gate record'')
            | Some r \<Rightarrow>
                if \<not> gate_record_ok r then Inl (ErrMsg ''invalid local execution Gate record'')
                else if \<not> list_all effect_record_ok (gr_Effects r)
                then Inl (ErrMsg ''invalid execution effect record'')
                else Inr r))"

text \<open>\<open>createRecord\<close> leaves the file it created behind when a later call fails.\<close>

definition createRecord :: "io \<Rightarrow> string \<Rightarrow> gate_record \<Rightarrow> gate_record fs \<Rightarrow> unit result \<times> gate_record fs" where
  "createRecord w p r f =
     (let created = new_node mode_0600; written = node_write r (gate_record_size r) created in
      if fs_live f p \<noteq> None then (Inl ErrExist, f)
      else if \<not> io_open w then (Inl ErrOs, f)
      else if \<not> io_write w then (Inl ErrOs, fs_put p created f)
      else if \<not> io_sync w then (Inl ErrOs, fs_put p written f)
      else if \<not> io_close w \<or> \<not> io_diropen w \<or> \<not> io_dirsync w then (Inl ErrOs, fs_put p (node_sync written) f)
      else (Inr (), fs_dirsync (fs_put p (node_sync written) f)))"

definition replaceRecord :: "io \<Rightarrow> string \<Rightarrow> gate_record \<Rightarrow> gate_record fs \<Rightarrow> unit result \<times> gate_record fs" where
  "replaceRecord w p r f =
     (case replace_file w p r (gate_record_size r) f of
        (None, f') \<Rightarrow> (Inr (), f') | (Some e, f') \<Rightarrow> (Inl ErrOs, f'))"

section \<open>Opening a Gate\<close>

record Gate =
  gt_directory :: string
  gt_lock :: "Lock option"

definition interrupted :: "State \<Rightarrow> State option" where
  "interrupted s = (case s of StateStarting \<Rightarrow> Some StateAmbiguousStart
     | StateRunning \<Rightarrow> Some StateAmbiguousRun | _ \<Rightarrow> None)"

definition is_record_name :: "string \<Rightarrow> gate_record fs \<Rightarrow> bool" where
  "is_record_name name f \<longleftrightarrow>
     (case fs_live f name of None \<Rightarrow> False | Some n \<Rightarrow> node_type n = RegularFile)
     \<and> has_suffix name ''.json'' \<and> length name = 64 + 5"

text \<open>The loop of \<open>recoverInterruptedStates\<close> over the directory's listing; \<open>w\<close> gives the outcome of
  the system calls made for each name.\<close>

fun recover_names :: "(string \<Rightarrow> io) \<Rightarrow> string list \<Rightarrow> gate_record fs \<Rightarrow> unit result \<times> gate_record fs" where
  "recover_names w [] f = (Inr (), f)"
| "recover_names w (name # names) f =
     (if \<not> is_record_name name f then recover_names w names f
      else case readRecord (w name) name f of
        Inl e \<Rightarrow> (Inl e, f)
      | Inr r \<Rightarrow>
          (case interrupted (gr_State r) of
             None \<Rightarrow> recover_names w names f
           | Some s \<Rightarrow>
               (case replaceRecord (w name) name (r\<lparr>gr_State := s, gr_StateRevision := gr_StateRevision r + 1\<rparr>) f of
                  (Inl e, f') \<Rightarrow> (Inl e, f')
                | (Inr _, f') \<Rightarrow> recover_names w names f')))"

definition recoverInterruptedStates :: "bool \<Rightarrow> (string \<Rightarrow> io) \<Rightarrow> string list \<Rightarrow> gate_record fs
    \<Rightarrow> unit result \<times> gate_record fs" where
  "recoverInterruptedStates readdir_ok w names f =
     (if \<not> readdir_ok then (Inl ErrOs, f) else recover_names w names f)"

text \<open>What \<open>Open\<close> meets outside the records: the resolver, \<open>MkdirAll\<close>, the directory, and the lock.\<close>

record gate_open_env =
  go_resolver_nil :: bool
  go_mkdir :: bool
  go_info :: "unit node option"
  go_lock :: lock_obs
  go_inode :: nat
  go_fd :: nat
  go_readdir :: bool
  go_io :: "string \<Rightarrow> io"
  go_names :: "string list"

definition OpenGate :: "string \<Rightarrow> gate_open_env \<Rightarrow> kernel \<Rightarrow> gate_record fs
    \<Rightarrow> Gate result \<times> kernel \<times> gate_record fs" where
  "OpenGate directory env k f =
     (if \<not> is_abs directory \<or> path_clean directory \<noteq> directory \<or> go_resolver_nil env
      then (Inl (ErrMsg ''local execution Gate configuration is invalid''), k, f)
      else if \<not> go_mkdir env then (Inl ErrOs, k, f)
      else case go_info env of
        None \<Rightarrow> (Inl (ErrMsg ''local execution Gate directory must be private''), k, f)
      | Some n \<Rightarrow>
          if node_type n \<noteq> DirectoryFile \<or> node_perm n \<noteq> mode_0700
          then (Inl (ErrMsg ''local execution Gate directory must be private''), k, f)
          else (case Acquire directory ''.commerce-gate.lock'' (go_lock env) (go_inode env) (go_fd env) k of
              (Inl e, k') \<Rightarrow> (Inl (ErrMsg ''local execution Gate is already owned''), k', f)
            | (Inr l, k') \<Rightarrow>
                (case recoverInterruptedStates (go_readdir env) (go_io env) (go_names env) f of
                   (Inl e, f') \<Rightarrow> (Inl e, snd (snd (Lock_Close True True l k')), f')
                 | (Inr _, f') \<Rightarrow> (Inr \<lparr>gt_directory = directory, gt_lock = Some l\<rparr>, k', f'))))"

definition gate_Close :: "bool \<Rightarrow> bool \<Rightarrow> Gate \<Rightarrow> kernel \<Rightarrow> unit result \<times> Gate \<times> kernel" where
  "gate_Close u c gate k =
     (case gt_lock gate of
        None \<Rightarrow> (Inr (), gate, k)
      | Some l \<Rightarrow> (case Lock_Close u c l k of (r, l', k') \<Rightarrow> (r, gate\<lparr>gt_lock := None\<rparr>, k')))"

section \<open>Prepare, Start and the transitions\<close>

definition ticketFrom :: "gate_record \<Rightarrow> Ticket" where
  "ticketFrom r = \<lparr>tk_ExecutionID = pl_ExecutionID (gr_Plan r), tk_Secret = gr_TicketSecret r,
     tk_StartNotAfterUnix = gr_StartNotAfterUnix r, tk_PlanDigest = gr_PlanDigest r\<rparr>"

text \<open>\<open>secret\<close> is what \<open>randomSecret\<close> returns.\<close>

definition Prepare :: "commerce \<Rightarrow> Gate \<Rightarrow> io \<Rightarrow> instant \<Rightarrow> string result \<Rightarrow> Plan \<Rightarrow> WriterFence \<Rightarrow> duration
    \<Rightarrow> AuthorizedAction \<Rightarrow> gate_record fs \<Rightarrow> Ticket result \<times> gate_record fs" where
  "Prepare com gate w now secret plan fence lifetime action f =
     (if gt_lock gate = None \<or> lifetime < 1000000000 \<or> lifetime > MaxStartTicketLifetime
      then (Inl (ErrMsg ''local execution preparation is invalid''), f)
      else case com_VerifyWriterFence com fence now ''execution.prepare'' of Inl e \<Rightarrow> (Inl e, f) | Inr _ \<Rightarrow>
      case com_ConfirmCurrentWriterFence com fence now of Inl e \<Rightarrow> (Inl e, f) | Inr _ \<Rightarrow>
      case preparePlan com plan fence of Inl e \<Rightarrow> (Inl e, f) | Inr (prepared, digest) \<Rightarrow>
      case prepareAuthorizationMaterial com prepared of
        Inl e \<Rightarrow> (Inl (ErrMsg ''execution preparation is not an exact authorized action''), f)
      | Inr (canonicalRequest, sem) \<Rightarrow>
      if act_ActionKind action \<noteq> ''execution.prepare''
         \<or> com_VerifyAuthorizedAction com action sem canonicalRequest fence now \<noteq> Inr ()
      then (Inl (ErrMsg ''execution preparation is not an exact authorized action''), f)
      else
        let p = gate_path (pl_ExecutionID prepared) in
        case readRecord w p f of
          Inr existing \<Rightarrow>
            (if gr_PlanDigest existing \<noteq> digest \<or> gr_PrepareActionID existing \<noteq> act_StableActionID action
                \<or> gr_PrepareRequestDigest existing \<noteq> act_ExactRequestDigest action
             then Inl (ErrMsg ''execution identity conflicts with another plan'')
             else if gr_State existing \<noteq> StatePrepared
             then Inl (ErrMsg ''execution has already started or is ambiguous'')
             else if unix_u64 now \<ge> gr_StartNotAfterUnix existing
             then Inl (ErrMsg ''execution start ticket expired'')
             else Inr (ticketFrom existing), f)
        | Inl e \<Rightarrow>
            if e \<noteq> ErrNotExist then (Inl e, f)
            else (case secret of
                Inl e \<Rightarrow> (Inl e, f)
              | Inr s \<Rightarrow>
                  let deadline = min (min (unix_u64 (now + lifetime)) (fen_ExpiresAtUnix fence)) (act_ExpiresAtUnix action);
                      entry = \<lparr>gr_Schema = gate_schema, gr_Plan = prepared, gr_PlanDigest = digest,
                        gr_TicketSecret = s, gr_StartNotAfterUnix = deadline, gr_State = StatePrepared,
                        gr_StateRevision = 1, gr_OutcomeDigest = [],
                        gr_PrepareActionID = act_StableActionID action,
                        gr_PrepareRequestDigest = act_ExactRequestDigest action, gr_StartActionID = [],
                        gr_StartRequestDigest = [], gr_Effects = []\<rparr>
                  in (case createRecord w p entry f of
                        (Inl e, f') \<Rightarrow> (Inl e, f')
                      | (Inr _, f') \<Rightarrow> (Inr (ticketFrom entry), f'))))"

text \<open>The bound input files, as the Gate opens them.\<close>

record input_file =
  if_regular :: bool
  if_size :: u64
  if_data :: bytes
  if_read :: bool
  if_seek :: bool

fun openBoundFiles :: "(string \<Rightarrow> input_file option) \<Rightarrow> FileBinding list \<Rightarrow> (string \<times> bytes) list result" where
  "openBoundFiles inputs [] = Inr []"
| "openBoundFiles inputs (b # bs) =
     (case inputs (fb_Path b) of
        None \<Rightarrow> Inl (ErrMsg ''open immutable execution input'')
      | Some i \<Rightarrow>
          if \<not> if_regular i \<or> if_size i \<noteq> fb_Size b then Inl (ErrMsg ''execution input identity changed'')
          else if \<not> if_read i \<or> sha256_digest (take (MaxInputFileBytes + 1) (if_data i)) \<noteq> fb_Digest b
          then Inl (ErrMsg ''execution input digest changed'')
          else if \<not> if_seek i then Inl ErrOs
          else (case openBoundFiles inputs bs of
              Inl e \<Rightarrow> Inl e
            | Inr files \<Rightarrow> Inr ((fb_Path b, if_data i) # files)))"

record Launch =
  la_ExecutionID :: string
  la_PlanDigest :: string
  la_TicketSecret :: string
  la_LeaseLossPolicy :: LeaseLossPolicy
  la_Files :: "(string \<times> bytes) list"
  la_NetworkBindings :: "NetworkBinding list"
  la_CredentialBindings :: "CredentialBinding list"
  la_EffectBindings :: "EffectBinding list"

text \<open>\<open>!now.Before(time.Unix(int64(v), 0))\<close>.\<close>

definition not_before_unix :: "instant \<Rightarrow> u64 \<Rightarrow> bool" where
  "not_before_unix now v \<longleftrightarrow> \<not> now < sint v * 1000000000"

definition started_record :: "gate_record \<Rightarrow> AuthorizedAction \<Rightarrow> gate_record" where
  "started_record r action = r\<lparr>gr_State := StateStarting, gr_StateRevision := gr_StateRevision r + 1,
     gr_StartActionID := act_StableActionID action, gr_StartRequestDigest := act_ExactRequestDigest action\<rparr>"

definition Start :: "commerce \<Rightarrow> Gate \<Rightarrow> io \<Rightarrow> (string \<Rightarrow> input_file option) \<Rightarrow> instant \<Rightarrow> Ticket \<Rightarrow> WriterFence
    \<Rightarrow> AuthorizedAction \<Rightarrow> gate_record fs \<Rightarrow> Launch result \<times> gate_record fs" where
  "Start com gate w inputs now ticket fence action f =
     (if gt_lock gate = None \<or> tk_ExecutionID ticket = [] \<or> tk_Secret ticket = []
      then (Inl (ErrMsg ''local execution start is invalid''), f)
      else case com_VerifyWriterFence com fence now ''execution.start'' of Inl e \<Rightarrow> (Inl e, f) | Inr _ \<Rightarrow>
      case com_ConfirmCurrentWriterFence com fence now of Inl e \<Rightarrow> (Inl e, f) | Inr _ \<Rightarrow>
      let p = gate_path (tk_ExecutionID ticket) in
      case readRecord w p f of Inl e \<Rightarrow> (Inl e, f) | Inr entry \<Rightarrow>
      if gr_PlanDigest entry \<noteq> tk_PlanDigest ticket \<or> gr_TicketSecret entry \<noteq> tk_Secret ticket
         \<or> gr_StartNotAfterUnix entry \<noteq> tk_StartNotAfterUnix ticket
         \<or> pl_WriterGeneration (gr_Plan entry) \<noteq> fen_WriterGeneration fence
      then (Inl (ErrMsg ''start ticket, plan, or writer mismatch''), f)
      else case startAuthorizationMaterial com (gr_Plan entry) ticket of
        Inl e \<Rightarrow> (Inl (ErrMsg ''execution start is not an exact authorized action''), f)
      | Inr (canonicalRequest, sem) \<Rightarrow>
      if act_ActionKind action \<noteq> ''execution.start''
         \<or> com_VerifyAuthorizedAction com action sem canonicalRequest fence now \<noteq> Inr ()
      then (Inl (ErrMsg ''execution start is not an exact authorized action''), f)
      else if gr_State entry = StateStarting \<or> gr_State entry = StateRunning
      then (Inl (ErrMsg ''execution start is ambiguous or already running''), f)
      else if gr_State entry \<noteq> StatePrepared \<or> not_before_unix now (gr_StartNotAfterUnix entry)
      then (Inl (ErrMsg ''execution is not startable''), f)
      else case openBoundFiles inputs (pl_Files (gr_Plan entry)) of Inl e \<Rightarrow> (Inl e, f) | Inr files \<Rightarrow>
      case replaceRecord w p (started_record entry action) f of
        (Inl e, f') \<Rightarrow> (Inl e, f')
      | (Inr _, f') \<Rightarrow>
          (Inr \<lparr>la_ExecutionID = pl_ExecutionID (gr_Plan entry), la_PlanDigest = gr_PlanDigest entry,
                la_TicketSecret = gr_TicketSecret entry,
                la_LeaseLossPolicy = pl_LeaseLossPolicy (gr_Plan entry), la_Files = files,
                la_NetworkBindings = pl_NetworkBindings (gr_Plan entry),
                la_CredentialBindings = pl_CredentialBindings (gr_Plan entry),
                la_EffectBindings = pl_EffectBindings (gr_Plan entry)\<rparr>, f'))"

definition transition :: "Gate \<Rightarrow> io \<Rightarrow> Launch \<Rightarrow> State \<Rightarrow> State \<Rightarrow> string \<Rightarrow> gate_record fs
    \<Rightarrow> unit result \<times> gate_record fs" where
  "transition gate w launch expected target outcome f =
     (if gt_lock gate = None then (Inl (ErrMsg ''local execution Gate is unavailable''), f)
      else
        let p = gate_path (la_ExecutionID launch) in
        case readRecord w p f of
          Inl e \<Rightarrow> (Inl (ErrMsg ''execution transition does not match its one-shot launch''), f)
        | Inr entry \<Rightarrow>
            if gr_PlanDigest entry \<noteq> la_PlanDigest launch \<or> gr_TicketSecret entry \<noteq> la_TicketSecret launch
               \<or> gr_State entry \<noteq> expected
            then (Inl (ErrMsg ''execution transition does not match its one-shot launch''), f)
            else replaceRecord w p (entry\<lparr>gr_State := target, gr_StateRevision := gr_StateRevision entry + 1,
                   gr_OutcomeDigest := outcome\<rparr>) f)"

definition MarkRunning :: "Gate \<Rightarrow> io \<Rightarrow> Launch \<Rightarrow> gate_record fs \<Rightarrow> unit result \<times> gate_record fs" where
  "MarkRunning gate w launch f = transition gate w launch StateStarting StateRunning [] f"

definition gate_Complete :: "Gate \<Rightarrow> io \<Rightarrow> Launch \<Rightarrow> State \<Rightarrow> string \<Rightarrow> gate_record fs
    \<Rightarrow> unit result \<times> gate_record fs" where
  "gate_Complete gate w launch terminal outcomeDigest f =
     (if terminal \<notin> {StateSucceeded, StateFailed, StateCancelled, StateKilled}
      then (Inl (ErrMsg ''execution completion is not terminal''), f)
      else if terminal = StateSucceeded \<and> \<not> validDigest outcomeDigest
      then (Inl (ErrMsg ''successful execution requires an outcome digest''), f)
      else transition gate w launch StateRunning terminal outcomeDigest f)"

record Resolution =
  rn_State :: State
  rn_StateRevision :: u64
  rn_PlanDigest :: string
  rn_OutcomeDigest :: string

definition Inspect :: "io \<Rightarrow> string \<Rightarrow> gate_record fs \<Rightarrow> Resolution result" where
  "Inspect w executionID f =
     (if \<not> validDigest executionID then Inl (ErrMsg ''invalid execution identity'')
      else case readRecord w (gate_path executionID) f of
        Inl e \<Rightarrow> Inl e
      | Inr r \<Rightarrow> Inr \<lparr>rn_State = gr_State r, rn_StateRevision = gr_StateRevision r,
          rn_PlanDigest = gr_PlanDigest r, rn_OutcomeDigest = gr_OutcomeDigest r\<rparr>)"

definition Resolve :: "io \<Rightarrow> string \<Rightarrow> gate_record fs \<Rightarrow> (State \<times> u64) result" where
  "Resolve w executionID f =
     (case Inspect w executionID f of Inl e \<Rightarrow> Inl e | Inr r \<Rightarrow> Inr (rn_State r, rn_StateRevision r))"

end
