(* ===== verification/Commerce_Effects.thy ===== *)
theory Commerce_Effects
  imports Commerce_Gate
begin

text \<open>
  Package \<open>pkg/commercegate\<close>, file \<open>gate.go\<close>, third part: \<open>PerformHTTPS\<close>, the broker of externally
  visible effects.

  It has two sections under the Gate's mutex, \<open>submit_effect\<close>, which records the effect as submitted
  before anything is sent, and \<open>terminalize_effect\<close>, which records the response.  Between them, outside
  the mutex, it resolves the credential, revalidates and makes the call.  The HTTP client of the
  standard library, the credential resolver and the revalidation callback are arguments.  The files
  with the responses are in the Gate's directory under names of their own; they are kept in a second
  directory of the model because their content is bytes.
\<close>

section \<open>Requests\<close>

text \<open>\<open>http.CanonicalHeaderKey\<close>.\<close>

definition header_token :: "char \<Rightarrow> bool" where
  "header_token c \<longleftrightarrow> is_lower c \<or> is_upper c \<or> is_digit c \<or> c \<in> set ''!#$%&*+-.^_`|~'' \<or> c = CHR 0x27"

fun canonical_from :: "bool \<Rightarrow> string \<Rightarrow> string" where
  "canonical_from up [] = []"
| "canonical_from up (c # cs) =
     (if up then to_upper_char c else to_lower_char c) # canonical_from (c = CHR ''-'') cs"

definition CanonicalHeaderKey :: "string \<Rightarrow> string" where
  "CanonicalHeaderKey s = (if list_all header_token s then canonical_from True s else s)"

definition contains_crlf :: "string \<Rightarrow> bool" where
  "contains_crlf s \<longleftrightarrow> CHR 0x0D \<in> set s \<or> CHR 0x0A \<in> set s"

fun valid_headers :: "string \<Rightarrow> HTTPHeader list \<Rightarrow> bool" where
  "valid_headers prev [] = True"
| "valid_headers prev (h # hs) =
     (let name = CanonicalHeaderKey (hh_Name h) in
      if name = [] \<or> name \<noteq> hh_Name h \<or> name \<le> prev \<or> hh_Value h = [] \<or> contains_crlf (hh_Value h)
         \<or> name \<in> {''Authorization'', ''Proxy-Authorization'', ''Host'', ''Connection'', ''Transfer-Encoding'',
                   ''Idempotency-Key''}
      then False else valid_headers name hs)"

definition validHTTPSRequest :: "HTTPSRequest \<Rightarrow> EffectBinding \<Rightarrow> NetworkBinding \<Rightarrow> bool" where
  "validHTTPSRequest request effect binding =
     (let wantMethod = to_upper (trim_prefix (eb_OperationKind effect) ''https.'') in
      if hr_Method request \<noteq> wantMethod \<or> hr_PathAndQuery request = [] \<or> hd (hr_PathAndQuery request) \<noteq> CHR ''/''
         \<or> contains_crlf (hr_PathAndQuery request)
         \<or> length (hr_Body request) > unat (nb_MaxRequestBytes binding)
      then False else valid_headers [] (hr_Headers request))"

section \<open>The pinned call\<close>

record http_call =
  hc_dial :: string
  hc_server_name :: string
  hc_url :: string
  hc_method :: string
  hc_headers :: "(string \<times> string) list"
  hc_body :: bytes

text \<open>What the client answers: a status, the body, and whether reading the body succeeds.\<close>

type_synonym http_client = "http_call \<Rightarrow> (int \<times> bytes \<times> bool) result"

record HTTPSResponse =
  hs_StatusCode :: int
  hs_Body :: bytes
  hs_Digest :: string

definition join_host_port :: "string \<Rightarrow> string \<Rightarrow> string" where
  "join_host_port host port =
     (if CHR '':'' \<in> set host \<or> CHR ''%'' \<in> set host then ''['' @ host @ '']:'' @ port else host @ '':'' @ port)"

definition unsafe_header :: "HTTPHeader \<Rightarrow> bool" where
  "unsafe_header h =
     (let name = CanonicalHeaderKey (hh_Name h) in
      name = [] \<or> contains_crlf (hh_Value h)
      \<or> name \<in> {''Host'', ''Connection'', ''Transfer-Encoding'', ''Idempotency-Key''})"

definition pinned_call :: "NetworkBinding \<Rightarrow> HTTPSRequest \<Rightarrow> HTTPHeader list \<Rightarrow> string \<Rightarrow> http_call" where
  "pinned_call binding request headers stableID =
     (let port = show_nat (unat (nb_Port binding)) in
      \<lparr>hc_dial = join_host_port (hd (nb_ResolvedIPs binding)) port,
       hc_server_name = nb_TLSServerName binding,
       hc_url = ''https://'' @ join_host_port (nb_Host binding) port @ hr_PathAndQuery request,
       hc_method = hr_Method request,
       hc_headers = map (\<lambda>h. (CanonicalHeaderKey (hh_Name h), hh_Value h)) headers
         @ [(''Idempotency-Key'', trim_prefix stableID ''sha256:'')],
       hc_body = hr_Body request\<rparr>)"

text \<open>\<open>new_ok\<close> tells whether \<open>http.NewRequestWithContext\<close> accepts the method and the URL.\<close>

definition performPinnedHTTPS :: "http_client \<Rightarrow> bool \<Rightarrow> NetworkBinding \<Rightarrow> HTTPSRequest \<Rightarrow> HTTPHeader list \<Rightarrow> string
    \<Rightarrow> http_call option \<times> (int \<times> bytes) result" where
  "performPinnedHTTPS client new_ok binding request headers stableID =
     (if \<not> new_ok then (None, Inl ErrOs)
      else if list_ex unsafe_header headers
      then (None, Inl (ErrMsg ''credential supplied an unsafe HTTP header''))
      else
        let call = pinned_call binding request headers stableID in
        (Some call,
         case client call of
           Inl e \<Rightarrow> Inl e
         | Inr (status, body, read_ok) \<Rightarrow>
             let limited = take (unat (nb_MaxResponseBytes binding) + 1) body in
             if \<not> read_ok \<or> length limited > unat (nb_MaxResponseBytes binding)
             then Inl (ErrMsg ''HTTPS effect response exceeded its exact bound'')
             else Inr (status, limited)))"

section \<open>The two durable sections\<close>

definition effectResponsePath :: "string \<Rightarrow> string" where
  "effectResponsePath stableID = ''effect-'' @ trim_prefix stableID ''sha256:'' @ ''.response''"

definition writeEffectResponse :: "io \<Rightarrow> string \<Rightarrow> bytes \<Rightarrow> bytes fs \<Rightarrow> unit result \<times> bytes fs" where
  "writeEffectResponse w stableID body f =
     (case replace_file w (effectResponsePath stableID) body (length body) f of
        (None, f') \<Rightarrow> (Inr (), f') | (Some e, f') \<Rightarrow> (Inl ErrOs, f'))"

datatype submission =
    Answered "HTTPSResponse result"
  | Submitted NetworkBinding "CredentialBinding option"

definition find_network :: "Plan \<Rightarrow> EffectBinding \<Rightarrow> NetworkBinding option" where
  "find_network plan e = find (\<lambda>b. nb_BindingID b = eb_NetworkBindingID e) (pl_NetworkBindings plan)"

definition find_credential :: "Plan \<Rightarrow> EffectBinding \<Rightarrow> CredentialBinding option" where
  "find_credential plan e =
     (if eb_CredentialHandleID e = [] then None
      else find (\<lambda>b. cb_HandleID b = eb_CredentialHandleID e) (pl_CredentialBindings plan))"

definition effect_authorized :: "commerce \<Rightarrow> instant \<Rightarrow> gate_record \<Rightarrow> HTTPSRequest \<Rightarrow> AuthorizedAction \<Rightarrow> WriterFence
    \<Rightarrow> (NetworkBinding \<times> CredentialBinding option) option" where
  "effect_authorized com now entry request action fence =
     (case EffectAuthorizationMaterial com (gr_Plan entry) request of
        Inl e \<Rightarrow> None
      | Inr (canonical, sem) \<Rightarrow>
          (case find_effect (gr_Plan entry) (hr_PlanEffectID request) of
             None \<Rightarrow> None
           | Some effect \<Rightarrow>
               (case find_network (gr_Plan entry) effect of
                  None \<Rightarrow> None
                | Some network \<Rightarrow>
                    if act_ActionKind action \<noteq> ''executor.effect''
                       \<or> com_VerifyAuthorizedAction com action sem canonical fence now \<noteq> Inr ()
                       \<or> com_ConfirmCurrentWriterFence com fence now \<noteq> Inr ()
                       \<or> \<not> validHTTPSRequest request effect network
                    then None else Some (network, find_credential (gr_Plan entry) effect))))"

definition submitted_record :: "gate_record \<Rightarrow> HTTPSRequest \<Rightarrow> AuthorizedAction \<Rightarrow> gate_record" where
  "submitted_record entry request action = entry\<lparr>
     gr_Effects := AList.update (hr_PlanEffectID request)
       \<lparr>er_StableActionID = act_StableActionID action, er_ExactRequestDigest = act_ExactRequestDigest action,
        er_State = ''submitted'', er_ResponseDigest = [], er_HTTPStatus = 0, er_StateRevision = 1\<rparr>
       (gr_Effects entry),
     gr_StateRevision := gr_StateRevision entry + 1\<rparr>"

definition submit_effect :: "commerce \<Rightarrow> Gate \<Rightarrow> io \<Rightarrow> instant \<Rightarrow> Launch \<Rightarrow> HTTPSRequest \<Rightarrow> AuthorizedAction
    \<Rightarrow> WriterFence \<Rightarrow> bytes fs \<Rightarrow> gate_record fs \<Rightarrow> submission \<times> gate_record fs" where
  "submit_effect com gate w now launch request action fence responses f =
     (if gt_lock gate = None then (Answered (Inl (ErrMsg ''execution effect broker is unavailable'')), f)
      else
        let p = gate_path (la_ExecutionID launch);
            mismatch = (Answered (Inl (ErrMsg ''effect does not belong to the running one-shot launch'')), f)
        in case readRecord w p f of
          Inl e \<Rightarrow> mismatch
        | Inr entry \<Rightarrow>
            if gr_State entry \<noteq> StateRunning \<or> gr_PlanDigest entry \<noteq> la_PlanDigest launch
               \<or> gr_TicketSecret entry \<noteq> la_TicketSecret launch
            then mismatch
            else (case effect_authorized com now entry request action fence of
                None \<Rightarrow> (Answered (Inl (ErrMsg ''HTTPS effect is not an exact current authorized action'')), f)
              | Some (network, credential) \<Rightarrow>
                  (case map_of (gr_Effects entry) (hr_PlanEffectID request) of
                     Some prior \<Rightarrow>
                       (Answered
                         (if er_StableActionID prior \<noteq> act_StableActionID action
                             \<or> er_ExactRequestDigest prior \<noteq> act_ExactRequestDigest action
                          then Inl (ErrMsg ''effect identity conflicts'')
                          else if er_State prior \<noteq> ''terminal''
                          then Inl (ErrMsg ''effect submission is ambiguous; resolve externally without retry'')
                          else (case Option.bind (fs_live responses (effectResponsePath (act_StableActionID action)))
                                       node_data of
                              None \<Rightarrow> Inl (ErrMsg ''terminal effect response is unavailable'')
                            | Some body \<Rightarrow> Inr \<lparr>hs_StatusCode = uint (er_HTTPStatus prior), hs_Body = body,
                                              hs_Digest = er_ResponseDigest prior\<rparr>)), f)
                   | None \<Rightarrow>
                       (case replaceRecord w p (submitted_record entry request action) f of
                          (Inl e, f') \<Rightarrow> (Answered (Inl e), f')
                        | (Inr _, f') \<Rightarrow> (Submitted network credential, f')))))"

definition terminalize_effect :: "io \<Rightarrow> Launch \<Rightarrow> HTTPSRequest \<Rightarrow> AuthorizedAction \<Rightarrow> HTTPSResponse
    \<Rightarrow> gate_record fs \<Rightarrow> unit result \<times> gate_record fs" where
  "terminalize_effect w launch request action response f =
     (let p = gate_path (la_ExecutionID launch);
          lost = (Inl (ErrMsg ''effect terminalization lost its submitted predecessor''), f)
      in case readRecord w p f of
        Inl e \<Rightarrow> lost
      | Inr entry \<Rightarrow>
          (case map_of (gr_Effects entry) (hr_PlanEffectID request) of
             None \<Rightarrow> lost
           | Some prior \<Rightarrow>
               if er_State prior \<noteq> ''submitted'' \<or> er_StableActionID prior \<noteq> act_StableActionID action then lost
               else replaceRecord w p (entry\<lparr>
                 gr_Effects := AList.update (hr_PlanEffectID request)
                   (prior\<lparr>er_State := ''terminal'', er_ResponseDigest := hs_Digest response,
                          er_HTTPStatus := word_of_int (hs_StatusCode response),
                          er_StateRevision := er_StateRevision prior + 1\<rparr>) (gr_Effects entry),
                 gr_StateRevision := gr_StateRevision entry + 1\<rparr>) f))"

section \<open>PerformHTTPS\<close>

type_synonym credential_resolver = "string \<Rightarrow> string \<Rightarrow> string \<Rightarrow> instant \<Rightarrow> HTTPHeader list result"

definition effect_headers :: "credential_resolver option \<Rightarrow> instant \<Rightarrow> CredentialBinding option \<Rightarrow> HTTPSRequest
    \<Rightarrow> AuthorizedAction \<Rightarrow> HTTPHeader list result" where
  "effect_headers credentials now credential request action =
     (case credential of
        None \<Rightarrow> Inr (hr_Headers request)
      | Some c \<Rightarrow>
          (case credentials of
             None \<Rightarrow> Inl (ErrMsg ''effect credential is unavailable or expired'')
           | Some resolve \<Rightarrow>
               if not_before_unix now (cb_ExpiresAtUnix c)
               then Inl (ErrMsg ''effect credential is unavailable or expired'')
               else (case resolve (cb_HandleID c) (cb_ScopeDigest c) (act_StableActionID action) now of
                   Inl e \<Rightarrow> Inl e
                 | Inr secret \<Rightarrow> Inr (hr_Headers request @ secret))))"

record effect_env =
  ee_client :: http_client
  ee_new_request :: bool
  ee_credentials :: "credential_resolver option"
  ee_revalidate :: bool
  ee_submit :: io
  ee_response :: io
  ee_terminal :: io

record gate_dirs =
  gd_records :: "gate_record fs"
  gd_responses :: "bytes fs"

text \<open>
  The call as one sequence, with no other operation in between; the interleavings with others are
  in the step relation of \<open>Commerce_Machine\<close>.  The call that was sent, if any, is returned too.
\<close>

definition PerformHTTPS :: "commerce \<Rightarrow> Gate \<Rightarrow> effect_env \<Rightarrow> instant \<Rightarrow> Launch \<Rightarrow> HTTPSRequest \<Rightarrow> AuthorizedAction
    \<Rightarrow> WriterFence \<Rightarrow> gate_dirs \<Rightarrow> HTTPSResponse result \<times> http_call option \<times> gate_dirs" where
  "PerformHTTPS com gate env now launch request action fence d =
     (case submit_effect com gate (ee_submit env) now launch request action fence (gd_responses d) (gd_records d) of
        (Answered r, f1) \<Rightarrow> (r, None, d\<lparr>gd_records := f1\<rparr>)
      | (Submitted network credential, f1) \<Rightarrow>
          (let d1 = d\<lparr>gd_records := f1\<rparr> in
           case effect_headers (ee_credentials env) now credential request action of
             Inl e \<Rightarrow> (Inl e, None, d1)
           | Inr headers \<Rightarrow>
               if \<not> ee_revalidate env
               then (Inl (ErrMsg ''trusted capability was revoked at HTTPS submission''), None, d1)
               else (case performPinnedHTTPS (ee_client env) (ee_new_request env) network request headers
                            (act_StableActionID action) of
                   (call, Inl e) \<Rightarrow> (Inl e, call, d1)
                 | (call, Inr (status, body)) \<Rightarrow>
                     (case com_DigestResponse com ''tos.executor-effect-response.v1'' (status, body) of
                        Inl e \<Rightarrow> (Inl e, call, d1)
                      | Inr digest \<Rightarrow>
                          (case writeEffectResponse (ee_response env) (act_StableActionID action) body (gd_responses d1) of
                             (Inl e, r1) \<Rightarrow> (Inl e, call, d1\<lparr>gd_responses := r1\<rparr>)
                           | (Inr _, r1) \<Rightarrow>
                               (let response = \<lparr>hs_StatusCode = status, hs_Body = body, hs_Digest = digest\<rparr> in
                                case terminalize_effect (ee_terminal env) launch request action response f1 of
                                  (Inl e, f2) \<Rightarrow> (Inl e, call, \<lparr>gd_records = f2, gd_responses = r1\<rparr>)
                                | (Inr _, f2) \<Rightarrow> (Inr response, call, \<lparr>gd_records = f2, gd_responses = r1\<rparr>)))))))"

end
