(* ===== verification/Commerce_Machine.thy ===== *)
theory Commerce_Machine
  imports Commerce_Effects
begin

text \<open>
  The Gate as a system: all its operations, in any order, with any outcome of their system calls, and
  crashes.  Every operation is a sequence of at most one creation or some replacements of a record
  along an edge of the state machine (\<open>gate_micro\<close>); the guarantees are proved for these and lifted to
  the operations (\<open>gate_step\<close>).
\<close>

section \<open>Steps\<close>

inductive gate_op :: "gate_record fs \<Rightarrow> gate_record fs \<Rightarrow> bool" where
  op_prepare: "Prepare com gate w now secret plan fence lifetime action f = (r, f') \<Longrightarrow> gate_op f f'"
| op_start: "Start com gate w inputs now ticket fence action f = (r, f') \<Longrightarrow> gate_op f f'"
| op_running: "MarkRunning gate w launch f = (r, f') \<Longrightarrow> gate_op f f'"
| op_complete: "gate_Complete gate w launch terminal outcome f = (r, f') \<Longrightarrow> gate_op f f'"
| op_submit: "submit_effect com gate w now launch request action fence responses f = (r, f') \<Longrightarrow> gate_op f f'"
| op_terminalize: "terminalize_effect w launch request action response f = (r, f') \<Longrightarrow> gate_op f f'"
| op_open: "OpenGate directory env k f = (r, k', f') \<Longrightarrow> gate_op f f'"

inductive gate_step :: "gate_record fs \<Rightarrow> gate_record fs \<Rightarrow> bool" where
  step_op: "gate_op f f' \<Longrightarrow> gate_step f f'"
| step_crash: "gate_step f (fs_crash ch f)"

text \<open>The state machine: the source's transitions, with recovery's.\<close>

definition state_edge :: "State \<Rightarrow> State \<Rightarrow> bool" where
  "state_edge s t \<longleftrightarrow>
     s = StatePrepared \<and> t = StateStarting \<or> s = StateStarting \<and> t = StateRunning
     \<or> s = StateRunning \<and> t \<in> {StateSucceeded, StateFailed, StateCancelled, StateKilled}
     \<or> s = StateStarting \<and> t = StateAmbiguousStart \<or> s = StateRunning \<and> t = StateAmbiguousRun"

text \<open>What no operation changes in a record.\<close>

definition same_identity :: "gate_record \<Rightarrow> gate_record \<Rightarrow> bool" where
  "same_identity r r' \<longleftrightarrow>
     gr_Schema r' = gr_Schema r \<and> gr_Plan r' = gr_Plan r \<and> gr_PlanDigest r' = gr_PlanDigest r
     \<and> gr_TicketSecret r' = gr_TicketSecret r \<and> gr_StartNotAfterUnix r' = gr_StartNotAfterUnix r
     \<and> gr_PrepareActionID r' = gr_PrepareActionID r \<and> gr_PrepareRequestDigest r' = gr_PrepareRequestDigest r"

definition record_edge :: "gate_record \<Rightarrow> gate_record \<Rightarrow> bool" where
  "record_edge r r' \<longleftrightarrow>
     same_identity r r' \<and> gr_StateRevision r' = gr_StateRevision r + 1
     \<and> (state_edge (gr_State r) (gr_State r') \<and> gr_Effects r' = gr_Effects r
        \<or> gr_State r' = gr_State r
          \<and> (\<exists>k e. gr_Effects r' = AList.update k e (gr_Effects r)
               \<and> (case map_of (gr_Effects r) k of
                    None \<Rightarrow> er_State e = ''submitted'' \<and> gr_State r = StateRunning
                  | Some prior \<Rightarrow> er_State prior = ''submitted'' \<and> er_State e = ''terminal''
                      \<and> er_StableActionID e = er_StableActionID prior)))"

inductive gate_micro :: "gate_record fs \<Rightarrow> gate_record fs \<Rightarrow> bool" where
  micro_create: "createRecord w p r f = (x, f') \<Longrightarrow> gr_State r = StatePrepared \<Longrightarrow> gr_Effects r = [] \<Longrightarrow>
    gate_micro f f'"
| micro_replace: "readRecord w p f = Inr r \<Longrightarrow> record_edge r r' \<Longrightarrow> replaceRecord w p r' f = (x, f') \<Longrightarrow>
    gate_micro f f'"

section \<open>Operations are micro steps\<close>

lemma Prepare_micro:
  assumes "Prepare com gate w now secret plan fence lifetime action f = (r, f')"
  shows "f' = f \<or> gate_micro f f'"
proof (cases "f' = f")
  case False
  then obtain p e x where "createRecord w p e f = (x, f')" "gr_State e = StatePrepared" "gr_Effects e = []"
    using assms
    by (auto simp: Prepare_def Let_def split: if_splits sum.splits prod.splits)
  then show ?thesis
    using micro_create by blast
qed simp

lemma Start_cases:
  assumes "Start com gate w inputs now ticket fence action f = (r, f')"
  shows "f' = f \<and> (\<exists>e. r = Inl e) \<or>
    (\<exists>entry x files. readRecord w (gate_path (tk_ExecutionID ticket)) f = Inr entry \<and> gr_State entry = StatePrepared
       \<and> replaceRecord w (gate_path (tk_ExecutionID ticket)) (started_record entry action) f = (x, f')
       \<and> ((\<exists>e. x = Inl e \<and> r = Inl e) \<or> (\<exists>launch. x = Inr () \<and> r = Inr launch))
       \<and> openBoundFiles inputs (pl_Files (gr_Plan entry)) = Inr files
       \<and> \<not> not_before_unix now (gr_StartNotAfterUnix entry))"
  using assms by (auto simp: Start_def Let_def split: if_splits sum.splits prod.splits)

lemma started_edge: "gr_State r = StatePrepared \<Longrightarrow> record_edge r (started_record r action)"
  by (simp add: record_edge_def started_record_def same_identity_def state_edge_def)

lemma Start_micro:
  assumes "Start com gate w inputs now ticket fence action f = (r, f')"
  shows "f' = f \<or> gate_micro f f'"
  using Start_cases [OF assms] micro_replace started_edge by blast

lemma transition_micro:
  assumes "transition gate w launch s t out f = (r, f')" and "state_edge s t"
  shows "f' = f \<or> gate_micro f f'"
proof (cases "f' = f")
  case False
  then obtain entry where "readRecord w (gate_path (la_ExecutionID launch)) f = Inr entry" "gr_State entry = s"
      "replaceRecord w (gate_path (la_ExecutionID launch)) (entry\<lparr>gr_State := t,
         gr_StateRevision := gr_StateRevision entry + 1, gr_OutcomeDigest := out\<rparr>) f = (r, f')"
    using assms(1) by (auto simp: transition_def Let_def split: if_splits sum.splits)
  then show ?thesis
    using assms(2) by (intro disjI2 micro_replace) (auto simp: record_edge_def same_identity_def)
qed simp

lemma MarkRunning_micro: "MarkRunning gate w launch f = (r, f') \<Longrightarrow> f' = f \<or> gate_micro f f'"
  unfolding MarkRunning_def by (erule transition_micro) (simp add: state_edge_def)

lemma Complete_micro:
  assumes "gate_Complete gate w launch terminal outcome f = (r, f')"
  shows "f' = f \<or> gate_micro f f'"
proof (cases "f' = f")
  case False
  then have "terminal \<in> {StateSucceeded, StateFailed, StateCancelled, StateKilled}"
    "transition gate w launch StateRunning terminal outcome f = (r, f')"
    using assms by (auto simp: gate_Complete_def split: if_splits)
  then show ?thesis
    by (intro transition_micro) (auto simp: state_edge_def)
qed simp

lemma submit_cases:
  assumes "submit_effect com gate w now launch request action fence responses f = (r, f')"
  shows "f' = f \<and> (\<exists>a. r = Answered a) \<or>
    (\<exists>entry x. readRecord w (gate_path (la_ExecutionID launch)) f = Inr entry \<and> gr_State entry = StateRunning
       \<and> map_of (gr_Effects entry) (hr_PlanEffectID request) = None
       \<and> replaceRecord w (gate_path (la_ExecutionID launch)) (submitted_record entry request action) f = (x, f')
       \<and> ((\<exists>e. x = Inl e \<and> r = Answered (Inl e)) \<or> (\<exists>n c. x = Inr () \<and> r = Submitted n c)))"
  using assms by (auto simp: submit_effect_def Let_def split: if_splits sum.splits prod.splits option.splits)

lemma submitted_edge:
  "gr_State r = StateRunning \<Longrightarrow> map_of (gr_Effects r) (hr_PlanEffectID request) = None \<Longrightarrow>
     record_edge r (submitted_record r request action)"
  unfolding record_edge_def submitted_record_def same_identity_def
  by (auto intro!: exI [of _ "hr_PlanEffectID request"])

lemma submit_micro:
  assumes "submit_effect com gate w now launch request action fence responses f = (r, f')"
  shows "f' = f \<or> gate_micro f f'"
  using submit_cases [OF assms] micro_replace submitted_edge by blast

lemma terminalize_micro:
  assumes "terminalize_effect w launch request action response f = (r, f')"
  shows "f' = f \<or> gate_micro f f'"
proof (cases "f' = f")
  case False
  then obtain entry prior where
    "readRecord w (gate_path (la_ExecutionID launch)) f = Inr entry"
    "map_of (gr_Effects entry) (hr_PlanEffectID request) = Some prior" "er_State prior = ''submitted''"
    "replaceRecord w (gate_path (la_ExecutionID launch)) (entry\<lparr>
       gr_Effects := AList.update (hr_PlanEffectID request)
         (prior\<lparr>er_State := ''terminal'', er_ResponseDigest := hs_Digest response,
                er_HTTPStatus := word_of_int (hs_StatusCode response),
                er_StateRevision := er_StateRevision prior + 1\<rparr>) (gr_Effects entry),
       gr_StateRevision := gr_StateRevision entry + 1\<rparr>) f = (r, f')"
    using assms by (auto simp: terminalize_effect_def Let_def split: if_splits sum.splits option.splits)
  then show ?thesis
    by (intro disjI2 micro_replace)
      (auto simp: record_edge_def same_identity_def intro!: exI [of _ "hr_PlanEffectID request"])
qed simp

lemma interrupted_edge:
  "interrupted (gr_State r) = Some s \<Longrightarrow>
     record_edge r (r\<lparr>gr_State := s, gr_StateRevision := gr_StateRevision r + 1\<rparr>)"
  by (auto simp: interrupted_def record_edge_def same_identity_def state_edge_def split: State.splits)

lemma recover_micro: "recover_names w names f = (r, f') \<Longrightarrow> gate_micro\<^sup>*\<^sup>* f f'"
proof (induction w names f arbitrary: r f' rule: recover_names.induct)
  case (2 w name names f)
  show ?case
  proof (cases "is_record_name name f")
    case True
    show ?thesis
    proof (cases "readRecord (w name) name f")
      case (Inl e)
      then show ?thesis using 2 True by simp
    next
      case (Inr entry)
      show ?thesis
      proof (cases "interrupted (gr_State entry)")
        case None
        then show ?thesis using 2 True Inr by auto
      next
        case (Some s)
        obtain x g where rep: "replaceRecord (w name) name
            (entry\<lparr>gr_State := s, gr_StateRevision := gr_StateRevision entry + 1\<rparr>) f = (x, g)"
          by fastforce
        have "gate_micro f g"
          using micro_replace [OF Inr interrupted_edge [OF Some] rep] .
        moreover have "gate_micro\<^sup>*\<^sup>* g f'"
          using 2 True Inr Some rep by (cases x) auto
        ultimately show ?thesis by (rule converse_rtranclp_into_rtranclp)
      qed
    qed
  qed (use 2 in simp)
qed simp

lemma OpenGate_micro: "OpenGate directory env k f = (r, k', f') \<Longrightarrow> gate_micro\<^sup>*\<^sup>* f f'"
  using recover_micro
  by (auto simp: OpenGate_def recoverInterruptedStates_def split: if_splits option.splits prod.splits sum.splits)

lemma micro_opt: "f' = f \<or> gate_micro f f' \<Longrightarrow> gate_micro\<^sup>*\<^sup>* f f'"
  by auto

lemmas op_micro = Prepare_micro Start_micro MarkRunning_micro Complete_micro submit_micro terminalize_micro

lemma gate_op_micro: "gate_op f f' \<Longrightarrow> gate_micro\<^sup>*\<^sup>* f f'"
proof (induction rule: gate_op.induct)
  case (op_open directory env k f r k' f')
  then show ?case by (rule OpenGate_micro)
qed (rule micro_opt, erule op_micro)+

section \<open>Facts that stick to a record\<close>

text \<open>
  A property of records that every edge keeps is kept by every step once it holds of the record on the
  disk and of the one running processes see; losing an unsynced content keeps it too.
\<close>

definition node_sat :: "(gate_record \<Rightarrow> bool) \<Rightarrow> gate_record node \<Rightarrow> bool" where
  "node_sat Q n \<longleftrightarrow> (\<forall>r. node_data n = Some r \<longrightarrow> Q r)"

definition sticks :: "(gate_record \<Rightarrow> bool) \<Rightarrow> gate_record fs \<Rightarrow> string \<Rightarrow> bool" where
  "sticks Q f p \<longleftrightarrow> (\<exists>n. fs_live f p = Some n \<and> node_sat Q n) \<and> (\<exists>n. fs_disk f p = Some n \<and> node_sat Q n)"

definition record_node :: "gate_record \<Rightarrow> gate_record node" where
  "record_node r = node_sync (node_write r (gate_record_size r) (new_node mode_0600))"

lemma node_data_record_node [simp]: "node_data (record_node r) = Some r"
  by (simp add: record_node_def)

lemma replaceRecord_fs:
  "replaceRecord w p r f = (x, f') \<Longrightarrow>
     f' = f \<or> f' = fs_put p (record_node r) f \<or> f' = fs_dirsync (fs_put p (record_node r) f)"
  using replace_file_live_disk [of w p r "gate_record_size r" f]
  by (auto simp: replaceRecord_def record_node_def split: prod.splits option.splits)

lemma replaceRecord_ok:
  "replaceRecord w p r f = (Inr u, f') \<Longrightarrow> f' = fs_dirsync (fs_put p (record_node r) f)"
  by (auto simp: replaceRecord_def replace_file_def Let_def record_node_def split: if_splits)

lemma createRecord_fs:
  "createRecord w p r f = (x, f') \<Longrightarrow>
     f' = f \<or> fs_live f p = None \<and> (\<exists>n. f' = fs_put p n f \<or> f' = fs_dirsync (fs_put p n f))"
  by (auto simp: createRecord_def Let_def split: if_splits)

lemma readRecord_live: "readRecord w p f = Inr r \<Longrightarrow> \<exists>n. fs_live f p = Some n \<and> node_data n = Some r"
  by (auto simp: readRecord_def split: if_splits option.splits)

lemma node_sat_crash: "node_sat Q n \<Longrightarrow> node_sat Q (crash_node k n)"
  by (simp add: node_sat_def crash_node_data)

lemma sticks_put: "sticks Q f p \<Longrightarrow> node_sat Q n \<or> q \<noteq> p \<Longrightarrow> sticks Q (fs_put q n f) p"
  and sticks_dirsync: "sticks Q f p \<Longrightarrow> sticks Q (fs_dirsync f) p"
  by (auto simp: sticks_def)

lemma sticks_crash: "sticks Q f p \<Longrightarrow> sticks Q (fs_crash ch f) p"
  using node_sat_crash by (fastforce simp: sticks_def crash_map_def)

lemma sticks_micro:
  assumes "gate_micro f f'" and "sticks Q f p" and "\<And>r r'. record_edge r r' \<Longrightarrow> Q r \<Longrightarrow> Q r'"
  shows "sticks Q f' p"
  using assms(1,2)
proof (induction rule: gate_micro.induct)
  case (micro_create w q r f x f')
  then have "q \<noteq> p \<or> f' = f"
    using createRecord_fs by (fastforce simp: sticks_def)
  then show ?case
    using createRecord_fs [OF micro_create(1)] micro_create(4) sticks_put sticks_dirsync by metis
next
  case (micro_replace w q f r r' x f')
  have "node_sat Q (record_node r') \<or> q \<noteq> p"
    using readRecord_live [OF micro_replace(1)] micro_replace(2,4) assms(3)
    by (fastforce simp: node_sat_def sticks_def)
  then show ?case
    using replaceRecord_fs [OF micro_replace(3)] micro_replace(4) sticks_put sticks_dirsync by metis
qed

lemma sticks_step:
  assumes "gate_step f f'" and "sticks Q f p" and "\<And>r r'. record_edge r r' \<Longrightarrow> Q r \<Longrightarrow> Q r'"
  shows "sticks Q f' p"
  using assms(1)
proof cases
  case step_op
  from gate_op_micro [OF this] assms(2) show ?thesis
    by (induction rule: rtranclp_induct) (auto intro: sticks_micro assms(3))
next
  case (step_crash ch)
  then show ?thesis using assms(2) sticks_crash by blast
qed

lemma sticks_put_self: "Q r \<Longrightarrow> sticks Q (fs_dirsync (fs_put p (record_node r) f)) p"
  by (simp add: sticks_def node_sat_def)

lemma not_sticks_live:
  "fs_live f p = Some n \<Longrightarrow> node_data n = Some r \<Longrightarrow> \<not> Q r \<Longrightarrow> \<not> sticks Q f p"
  by (simp add: sticks_def node_sat_def)

section \<open>At most one start and at most one submission of an effect\<close>

definition start_grants :: "gate_record fs \<Rightarrow> string \<Rightarrow> gate_record fs \<Rightarrow> bool" where
  "start_grants f executionID f' \<longleftrightarrow>
     (\<exists>com gate w inputs now ticket fence action launch.
        tk_ExecutionID ticket = executionID \<and>
        Start com gate w inputs now ticket fence action f = (Inr launch, f'))"

definition effect_grants :: "gate_record fs \<Rightarrow> string \<times> string \<Rightarrow> gate_record fs \<Rightarrow> bool" where
  "effect_grants f k f' \<longleftrightarrow>
     (\<exists>com gate w now launch request action fence responses network credential.
        la_ExecutionID launch = fst k \<and> hr_PlanEffectID request = snd k \<and>
        submit_effect com gate w now launch request action fence responses f = (Submitted network credential, f'))"

definition started :: "gate_record fs \<Rightarrow> string \<Rightarrow> bool" where
  "started f executionID = sticks (\<lambda>r. gr_State r \<noteq> StatePrepared) f (gate_path executionID)"

definition effect_spent :: "gate_record fs \<Rightarrow> string \<times> string \<Rightarrow> bool" where
  "effect_spent f k = sticks (\<lambda>r. map_of (gr_Effects r) (snd k) \<noteq> None) f (gate_path (fst k))"

lemma edge_not_prepared: "record_edge r r' \<Longrightarrow> gr_State r \<noteq> StatePrepared \<Longrightarrow> gr_State r' \<noteq> StatePrepared"
  by (auto simp: record_edge_def state_edge_def)

lemma edge_effects:
  "record_edge r r' \<Longrightarrow> map_of (gr_Effects r) k \<noteq> None \<Longrightarrow> map_of (gr_Effects r') k \<noteq> None"
  by (auto simp: record_edge_def update_conv' split: if_splits)

lemma start_grants_step: "start_grants f k f' \<Longrightarrow> gate_step f f'"
  unfolding start_grants_def using step_op op_start by blast

lemma effect_grants_step: "effect_grants f k f' \<Longrightarrow> gate_step f f'"
  unfolding effect_grants_def using step_op op_submit by blast

lemma start_granted:
  assumes "start_grants f k f'"
  shows "\<exists>n r action. fs_live f (gate_path k) = Some n \<and> node_data n = Some r \<and> gr_State r = StatePrepared
     \<and> f' = fs_dirsync (fs_put (gate_path k) (record_node (started_record r action)) f)"
proof -
  from assms obtain com gate w inputs now ticket fence action launch where s:
    "tk_ExecutionID ticket = k" "Start com gate w inputs now ticket fence action f = (Inr launch, f')"
    unfolding start_grants_def by blast
  from Start_cases [OF s(2)] obtain entry x where
    "readRecord w (gate_path k) f = Inr entry" "gr_State entry = StatePrepared"
    "replaceRecord w (gate_path k) (started_record entry action) f = (x, f')" "x = Inr ()"
    using s(1) by auto
  then show ?thesis
    using readRecord_live replaceRecord_ok by blast
qed

lemma effect_granted:
  assumes "effect_grants f k f'"
  shows "\<exists>n r request action. fs_live f (gate_path (fst k)) = Some n \<and> node_data n = Some r
     \<and> gr_State r = StateRunning \<and> map_of (gr_Effects r) (snd k) = None \<and> hr_PlanEffectID request = snd k
     \<and> f' = fs_dirsync (fs_put (gate_path (fst k)) (record_node (submitted_record r request action)) f)"
proof -
  from assms obtain com gate w now launch request action fence responses network credential where s:
    "la_ExecutionID launch = fst k" "hr_PlanEffectID request = snd k"
    "submit_effect com gate w now launch request action fence responses f = (Submitted network credential, f')"
    unfolding effect_grants_def by blast
  from submit_cases [OF s(3)] obtain entry x where
    "readRecord w (gate_path (fst k)) f = Inr entry" "gr_State entry = StateRunning"
    "map_of (gr_Effects entry) (snd k) = None"
    "replaceRecord w (gate_path (fst k)) (submitted_record entry request action) f = (x, f')" "x = Inr ()"
    using s(1,2) by auto
  then show ?thesis
    using readRecord_live replaceRecord_ok s(2) by blast
qed

interpretation gate_start: at_most_once start_grants gate_step started
proof
  show "\<not> started f k" if g: "start_grants f k f'" for f k f'
  proof -
    obtain n r where "fs_live f (gate_path k) = Some n" "node_data n = Some r" "gr_State r = StatePrepared"
      using start_granted [OF g] by blast
    then show ?thesis
      unfolding started_def by (intro not_sticks_live) auto
  qed
  show "started f' k" if g: "start_grants f k f'" for f k f'
  proof -
    obtain r action where "f' = fs_dirsync (fs_put (gate_path k) (record_node (started_record r action)) f)"
      using start_granted [OF g] by blast
    then show ?thesis
      unfolding started_def by (simp add: sticks_put_self started_record_def)
  qed
  show step: "started f' k" if "gate_step f f'" "started f k" for f k f'
    using sticks_step [OF that(1), of "\<lambda>r. gr_State r \<noteq> StatePrepared"] that(2) edge_not_prepared
    unfolding started_def by blast
  show "started f' k'" if "start_grants f k f'" "started f k'" for f k f' k'
    using step [OF start_grants_step [OF that(1)] that(2)] .
qed

interpretation gate_effect: at_most_once effect_grants gate_step effect_spent
proof
  show "\<not> effect_spent f k" if g: "effect_grants f k f'" for f k f'
  proof -
    obtain n r where "fs_live f (gate_path (fst k)) = Some n" "node_data n = Some r"
        "map_of (gr_Effects r) (snd k) = None"
      using effect_granted [OF g] by blast
    then show ?thesis
      unfolding effect_spent_def by (intro not_sticks_live) auto
  qed
  show "effect_spent f' k" if g: "effect_grants f k f'" for f k f'
  proof -
    obtain r request action where "hr_PlanEffectID request = snd k"
        "f' = fs_dirsync (fs_put (gate_path (fst k)) (record_node (submitted_record r request action)) f)"
      using effect_granted [OF g] by blast
    then show ?thesis
      unfolding effect_spent_def by (simp add: sticks_put_self submitted_record_def update_conv')
  qed
  show step: "effect_spent f' k" if "gate_step f f'" "effect_spent f k" for f k f'
    using sticks_step [OF that(1), of "\<lambda>r. map_of (gr_Effects r) (snd k) \<noteq> None"] that(2) edge_effects
    unfolding effect_spent_def by blast
  show "effect_spent f' k'" if "effect_grants f k f'" "effect_spent f k'" for f k f' k'
    using step [OF effect_grants_step [OF that(1)] that(2)] .
qed

section \<open>How a record evolves\<close>

definition live_record :: "gate_record fs \<Rightarrow> string \<Rightarrow> gate_record option" where
  "live_record f p = Option.bind (fs_live f p) node_data"

lemma live_record_Some: "live_record f p = Some r \<longleftrightarrow> (\<exists>n. fs_live f p = Some n \<and> node_data n = Some r)"
  by (auto simp: live_record_def bind_eq_Some_conv)

lemma micro_live:
  assumes "gate_micro f f'" and "live_record f p = Some r"
  shows "\<exists>r'. live_record f' p = Some r' \<and> record_edge\<^sup>*\<^sup>* r r'"
  using assms
proof (induction rule: gate_micro.induct)
  case (micro_create w q e f x f')
  have "live_record f' p = live_record f p"
    using createRecord_fs [OF micro_create(1)] micro_create(4) by (auto simp: live_record_def)
  then show ?case using micro_create(4) by auto
next
  case (micro_replace w q f e e' x f')
  show ?case
  proof (cases "q = p")
    case True
    then have "e = r"
      using readRecord_live [OF micro_replace(1)] micro_replace(4) by (auto simp: live_record_Some)
    moreover have "live_record f' p = live_record f p \<or> live_record f' p = Some e'"
      using replaceRecord_fs [OF micro_replace(3)] True by (auto simp: live_record_def)
    ultimately show ?thesis
      using micro_replace(2,4) by auto
  next
    case False
    then have "live_record f' p = live_record f p"
      using replaceRecord_fs [OF micro_replace(3)] by (auto simp: live_record_def)
    then show ?thesis using micro_replace(4) by auto
  qed
qed

lemma micros_live:
  assumes "gate_micro\<^sup>*\<^sup>* f f'" and "live_record f p = Some r"
  shows "\<exists>r'. live_record f' p = Some r' \<and> record_edge\<^sup>*\<^sup>* r r'"
  using assms
proof (induction rule: rtranclp_induct)
  case (step g h)
  then obtain r1 where "live_record g p = Some r1" "record_edge\<^sup>*\<^sup>* r r1" by blast
  then show ?case
    using micro_live [OF step(2)] rtranclp_trans by metis
qed blast

lemma ops_live:
  assumes "gate_op\<^sup>*\<^sup>* f f'" and "live_record f p = Some r"
  shows "\<exists>r'. live_record f' p = Some r' \<and> record_edge\<^sup>*\<^sup>* r r'"
proof -
  have "gate_micro\<^sup>*\<^sup>* f f'"
    using assms(1) by (induction rule: rtranclp_induct) (auto dest: gate_op_micro intro: rtranclp_trans)
  then show ?thesis using micros_live assms(2) by blast
qed

definition final_state :: "State \<Rightarrow> bool" where
  "final_state s \<longleftrightarrow> s \<in> {StateSucceeded, StateFailed, StateCancelled, StateKilled, StateAmbiguousStart,
     StateAmbiguousRun}"

lemma edge_facts:
  "record_edge r r' \<Longrightarrow> same_identity r r' \<and> state_edge\<^sup>*\<^sup>* (gr_State r) (gr_State r')
     \<and> (final_state (gr_State r) \<longrightarrow> gr_State r' = gr_State r)"
  by (auto simp: record_edge_def final_state_def state_edge_def)

lemma edges_facts:
  "record_edge\<^sup>*\<^sup>* r r' \<Longrightarrow> same_identity r r' \<and> state_edge\<^sup>*\<^sup>* (gr_State r) (gr_State r')
     \<and> (final_state (gr_State r) \<longrightarrow> gr_State r' = gr_State r)
     \<and> (\<exists>k. gr_StateRevision r' = gr_StateRevision r + of_nat k)"
proof (induction rule: rtranclp_induct)
  case base
  show ?case by (auto simp: same_identity_def intro: exI [of _ 0])
next
  case (step r1 r2)
  then obtain k where k: "gr_StateRevision r1 = gr_StateRevision r + of_nat k" by blast
  have "gr_StateRevision r2 = gr_StateRevision r + of_nat (Suc k)"
    using step(2) k by (simp add: record_edge_def)
  moreover have "same_identity r r2"
    using step edge_facts by (auto simp: same_identity_def)
  moreover have "state_edge\<^sup>*\<^sup>* (gr_State r) (gr_State r2)"
    using step edge_facts by (meson rtranclp_trans)
  moreover have "final_state (gr_State r) \<longrightarrow> gr_State r2 = gr_State r"
    using step edge_facts by metis
  ultimately show ?case by blast
qed

section \<open>Recovery\<close>

definition settled :: "gate_record fs \<Rightarrow> string \<Rightarrow> bool" where
  "settled f p \<longleftrightarrow> (\<forall>r. live_record f p = Some r \<longrightarrow> interrupted (gr_State r) = None)"

lemma interrupted_settled: "interrupted s = Some t \<Longrightarrow> interrupted t = None"
  by (auto simp: interrupted_def split: State.splits)

lemma replace_settled:
  assumes "replaceRecord w q r f = (x, f')" and "interrupted (gr_State r) = None" and "settled f p"
  shows "settled f' p"
  using replaceRecord_fs [OF assms(1)] assms(2,3) by (auto simp: settled_def live_record_def split: if_splits)

lemma recover_keeps_settled: "recover_names w names f = (r, f') \<Longrightarrow> settled f p \<Longrightarrow> settled f' p"
proof (induction w names f arbitrary: r f' rule: recover_names.induct)
  case (2 w name names f)
  show ?case
  proof (cases "is_record_name name f")
    case rec: True
    show ?thesis
    proof (cases "readRecord (w name) name f")
      case (Inr entry)
      show ?thesis
      proof (cases "interrupted (gr_State entry)")
        case (Some s)
        obtain x g where rep: "replaceRecord (w name) name
            (entry\<lparr>gr_State := s, gr_StateRevision := gr_StateRevision entry + 1\<rparr>) f = (x, g)"
          by fastforce
        then have "settled g p"
          using replace_settled 2(5) interrupted_settled [OF Some] by auto
        then show ?thesis
          using 2 rec Inr Some rep by (cases x) auto
      qed (use 2 rec Inr in auto)
    qed (use 2 rec in auto)
  qed (use 2 in auto)
qed simp

lemma is_record_name_replace:
  "replaceRecord w q r f = (x, g) \<Longrightarrow> is_record_name p f \<Longrightarrow> is_record_name p g"
  using replaceRecord_fs [of w q r f x g]
  by (auto simp: is_record_name_def record_node_def split: option.splits if_splits)

lemma recover_settles:
  "recover_names w names f = (Inr u, f') \<Longrightarrow> p \<in> set names \<Longrightarrow> is_record_name p f \<Longrightarrow> settled f' p"
proof (induction w names f arbitrary: f' rule: recover_names.induct)
  case (2 w name names f)
  show ?case
  proof (cases "is_record_name name f")
    case rec: True
    then obtain entry where entry: "readRecord (w name) name f = Inr entry"
      using 2(4) by (auto split: sum.splits)
    show ?thesis
    proof (cases "interrupted (gr_State entry)")
      case None
      then have rest: "recover_names w names f = (Inr u, f')"
        using 2(4) rec entry by simp
      show ?thesis
      proof (cases "name = p")
        case True
        then have "settled f p"
          using readRecord_live [OF entry] None by (auto simp: settled_def live_record_def)
        then show ?thesis using recover_keeps_settled [OF rest] by blast
      next
        case False
        then show ?thesis using 2 rec entry None rest by auto
      qed
    next
      case (Some s)
      then obtain v g where rep: "replaceRecord (w name) name
          (entry\<lparr>gr_State := s, gr_StateRevision := gr_StateRevision entry + 1\<rparr>) f = (Inr v, g)"
          and rest: "recover_names w names g = (Inr u, f')"
        using 2(4) rec entry by (auto split: prod.splits sum.splits)
      show ?thesis
      proof (cases "name = p")
        case True
        then have "settled g p"
          using replaceRecord_ok [OF rep] interrupted_settled [OF Some] by (simp add: settled_def live_record_def)
        then show ?thesis using recover_keeps_settled [OF rest] by blast
      next
        case False
        then have "p \<in> set names" using 2(5) by simp
        moreover have "is_record_name p g" using is_record_name_replace [OF rep 2(6)] .
        ultimately show ?thesis
          using 2(3) [OF _ entry Some rep [symmetric] refl rest] rec by blast
      qed
    qed
  next
    case False
    then show ?thesis using 2 by auto
  qed
qed simp

section \<open>Properties\<close>

lemma Start_Inr:
  assumes "Start com gate w inputs now ticket fence action f = (Inr launch, f')"
  obtains entry request sem files where
    "readRecord w (gate_path (tk_ExecutionID ticket)) f = Inr entry" "gr_State entry = StatePrepared"
    "gr_TicketSecret entry = tk_Secret ticket" "gr_PlanDigest entry = tk_PlanDigest ticket"
    "pl_WriterGeneration (gr_Plan entry) = fen_WriterGeneration fence"
    "now < sint (gr_StartNotAfterUnix entry) * 1000000000"
    "com_ConfirmCurrentWriterFence com fence now = Inr ()"
    "startAuthorizationMaterial com (gr_Plan entry) ticket = Inr (request, sem)"
    "act_ActionKind action = ''execution.start''"
    "com_VerifyAuthorizedAction com action sem request fence now = Inr ()"
    "openBoundFiles inputs (pl_Files (gr_Plan entry)) = Inr files" "la_Files launch = files"
    "f' = fs_dirsync (fs_put (gate_path (tk_ExecutionID ticket)) (record_node (started_record entry action)) f)"
proof -
  from assms show ?thesis
    unfolding Start_def Let_def
    by (auto simp: not_before_unix_def split: if_splits sum.splits prod.splits
        dest!: replaceRecord_ok intro!: that)
qed

lemma openBoundFiles_Inr:
  "openBoundFiles inputs bs = Inr files \<Longrightarrow>
     list_all2 (\<lambda>b file. fst file = fb_Path b \<and> sha256_digest (take (MaxInputFileBytes + 1) (snd file)) = fb_Digest b
       \<and> (\<exists>i. inputs (fb_Path b) = Some i \<and> if_regular i \<and> if_size i = fb_Size b \<and> if_data i = snd file)) bs files"
  by (induction inputs bs arbitrary: files rule: openBoundFiles.induct)
    (auto split: option.splits if_splits sum.splits)

text \<open>
  C2. At most one start: over the whole life of a Gate, with any sequence of operations, failing
  system calls, restarts and crashes, \<open>Start\<close> launches each execution identity at most once.
\<close>

theorem start_at_most_once:
  assumes "grant_run start_grants gate_step f ids f'"
  shows "distinct ids \<and> (\<forall>e\<in>set ids. \<not> started f e \<and> started f' e)"
  using gate_start.run_distinct [OF assms] gate_start.run_fresh [OF assms] gate_start.run_spends [OF assms]
  by blast


text \<open>
  C13. A record only moves forward: through any sequence of operations its plan, digests, secret and
  deadline stay as prepared, its state follows the edges of the state machine, terminal and ambiguous
  states are final, and its revision grows by one per change.
\<close>

theorem record_moves_forward:
  assumes "gate_op\<^sup>*\<^sup>* f f'" and "live_record f p = Some r"
  shows "\<exists>r'. live_record f' p = Some r' \<and> same_identity r r'
     \<and> state_edge\<^sup>*\<^sup>* (gr_State r) (gr_State r') \<and> (final_state (gr_State r) \<longrightarrow> gr_State r' = gr_State r)
     \<and> (\<exists>k. gr_StateRevision r' = gr_StateRevision r + of_nat k)"
  using ops_live [OF assms] edges_facts by blast

text \<open>
  C14. A launch is authorised and bound: \<open>Start\<close> launches only a prepared execution, with the secret
  and plan digest of its ticket, under the current writer of the plan's generation, with the owner's
  authorisation of exactly this start, before its deadline, and with every bound input file open and
  matching the digest and size in the plan.
\<close>

theorem Start_authorized:
  assumes "Start com gate w inputs now ticket fence action f = (Inr launch, f')"
  shows "\<exists>entry. live_record f (gate_path (tk_ExecutionID ticket)) = Some entry
     \<and> gr_State entry = StatePrepared
     \<and> gr_TicketSecret entry = tk_Secret ticket \<and> gr_PlanDigest entry = tk_PlanDigest ticket
     \<and> pl_WriterGeneration (gr_Plan entry) = fen_WriterGeneration fence
     \<and> com_ConfirmCurrentWriterFence com fence now = Inr ()
     \<and> (\<exists>request sem. startAuthorizationMaterial com (gr_Plan entry) ticket = Inr (request, sem)
          \<and> com_VerifyAuthorizedAction com action sem request fence now = Inr ())
     \<and> act_ActionKind action = ''execution.start''
     \<and> now < sint (gr_StartNotAfterUnix entry) * 1000000000
     \<and> list_all2 (\<lambda>b file. fst file = fb_Path b
          \<and> sha256_digest (take (MaxInputFileBytes + 1) (snd file)) = fb_Digest b
          \<and> (\<exists>i. inputs (fb_Path b) = Some i \<and> if_regular i \<and> if_size i = fb_Size b \<and> if_data i = snd file))
          (pl_Files (gr_Plan entry)) (la_Files launch)"
proof -
  obtain entry request sem files where s:
    "readRecord w (gate_path (tk_ExecutionID ticket)) f = Inr entry" "gr_State entry = StatePrepared"
    "gr_TicketSecret entry = tk_Secret ticket" "gr_PlanDigest entry = tk_PlanDigest ticket"
    "pl_WriterGeneration (gr_Plan entry) = fen_WriterGeneration fence"
    "now < sint (gr_StartNotAfterUnix entry) * 1000000000"
    "com_ConfirmCurrentWriterFence com fence now = Inr ()"
    "startAuthorizationMaterial com (gr_Plan entry) ticket = Inr (request, sem)"
    "act_ActionKind action = ''execution.start''"
    "com_VerifyAuthorizedAction com action sem request fence now = Inr ()"
    "openBoundFiles inputs (pl_Files (gr_Plan entry)) = Inr files" "la_Files launch = files"
    using assms by (rule Start_Inr)
  have "live_record f (gate_path (tk_ExecutionID ticket)) = Some entry"
    using readRecord_live [OF s(1)] by (simp add: live_record_Some)
  then show ?thesis
    using s openBoundFiles_Inr [OF s(11)] by blast
qed

text \<open>
  Restart makes uncertainty explicit: when \<open>Open\<close> succeeds on a listing of the directory, no
  record it lists is left starting or running.
\<close>

theorem OpenGate_settles:
  assumes "OpenGate directory env k f = (Inr gate, k', f')" and "name \<in> set (go_names env)"
    and "is_record_name name f" and "live_record f' name = Some r"
  shows "gr_State r \<noteq> StateStarting \<and> gr_State r \<noteq> StateRunning"
proof -
  have "recover_names (go_io env) (go_names env) f = (Inr (), f')"
    using assms(1)
    by (auto simp: OpenGate_def recoverInterruptedStates_def split: if_splits option.splits prod.splits sum.splits)
  from recover_settles [OF this assms(2,3)] assms(4) have "interrupted (gr_State r) = None"
    by (simp add: settled_def)
  then show ?thesis by (auto simp: interrupted_def)
qed

text \<open>
  A ticket never outlives its authority: the start deadline of a ticket that \<open>Prepare\<close> issues for
  a new execution is at most the writer fence's expiry, the action's expiry and the requested lifetime
  from now, which is at most five minutes.
\<close>

theorem Prepare_deadline:
  assumes "Prepare com gate w now secret plan fence lifetime action f = (Inr ticket, f')" and "f' \<noteq> f"
  shows "tk_StartNotAfterUnix ticket \<le> fen_ExpiresAtUnix fence
     \<and> tk_StartNotAfterUnix ticket \<le> act_ExpiresAtUnix action
     \<and> tk_StartNotAfterUnix ticket \<le> unix_u64 (now + lifetime)
     \<and> lifetime \<le> MaxStartTicketLifetime"
  using assms
  by (auto simp: Prepare_def Let_def ticketFrom_def min_le_iff_disj split: if_splits sum.splits prod.splits)

section \<open>An execution\<close>

definition demo_id :: string where
  "demo_id = sha256_digest ''execution.slot''"

definition demo_record :: "State \<Rightarrow> gate_record" where
  "demo_record s = \<lparr>gr_Schema = gate_schema, gr_Plan = demo_prepared 3, gr_PlanDigest = sha256_digest ''bound'',
     gr_TicketSecret = ''secret'', gr_StartNotAfterUnix = 500, gr_State = s, gr_StateRevision = 1,
     gr_OutcomeDigest = [], gr_PrepareActionID = sha256_digest ''p'', gr_PrepareRequestDigest = sha256_digest ''q'',
     gr_StartActionID = [], gr_StartRequestDigest = [], gr_Effects = []\<rparr>"

definition demo_record_fs :: "State \<Rightarrow> gate_record fs" where
  "demo_record_fs s =
     fs_dirsync (fs_put (gate_path demo_id) (node_sync (node_write (demo_record s) 1000 (new_node mode_0600))) fs_empty)"

definition demo_gate :: Gate where
  "demo_gate = \<lparr>gt_directory = ''/var/lib/tos/gate'', gt_lock = Some \<lparr>lk_file = Some (7, 3), lk_closed = False\<rparr>\<rparr>"

definition demo_ticket :: Ticket where
  "demo_ticket = \<lparr>tk_ExecutionID = demo_id, tk_Secret = ''secret'', tk_StartNotAfterUnix = 500,
     tk_PlanDigest = sha256_digest ''bound''\<rparr>"

definition demo_action :: "string \<Rightarrow> AuthorizedAction" where
  "demo_action kind = \<lparr>act_ActionKind = kind, act_StableActionID = sha256_digest kind,
     act_ExactRequestDigest = sha256_digest ''request'', act_ExpiresAtUnix = 900, act_rest = []\<rparr>"

lemma demo_read:
  "knownState s \<Longrightarrow> readRecord io_ok (gate_path demo_id) (demo_record_fs s) = Inr (demo_record s)"
  by (simp add: readRecord_def demo_record_fs_def demo_record_def gate_record_ok_def)

lemma demo_replace:
  "replaceRecord io_ok p r f = (Inr (), fs_dirsync (fs_put p (record_node r) f))"
  by (simp add: replaceRecord_def replace_file_ok record_node_def)

lemma demo_record_simps:
  "gr_PlanDigest (demo_record s) = sha256_digest ''bound''" "gr_TicketSecret (demo_record s) = ''secret''"
  "gr_StartNotAfterUnix (demo_record s) = 500" "gr_State (demo_record s) = s" "gr_Effects (demo_record s) = []"
  "pl_WriterGeneration (gr_Plan (demo_record s)) = 3" "pl_Files (gr_Plan (demo_record s)) = []"
  "gr_Plan (demo_record s) = demo_prepared 3"
  by (simp_all add: demo_record_def demo_prepared_def demo_plan_def)

lemma demo_commerce_simps:
  "com_VerifyWriterFence demo_commerce fence now kind = Inr ()"
  "com_ConfirmCurrentWriterFence demo_commerce fence now = Inr ()"
  "com_VerifyAuthorizedAction demo_commerce action sem request fence now = Inr ()"
  "startAuthorizationMaterial demo_commerce plan ticket = Inr (tk_ExecutionID ticket, identity_fields plan)"
  "prepareAuthorizationMaterial demo_commerce plan = Inr (''plan'', identity_fields plan)"
  "act_StableActionID (demo_action kind) = sha256_digest kind"
  "act_ExactRequestDigest (demo_action kind) = sha256_digest ''request''"
  "act_ActionKind (demo_action kind) = kind" "fen_WriterGeneration (demo_fence g) = g"
  by (simp_all add: demo_commerce_def startAuthorizationMaterial_def prepareAuthorizationMaterial_def
      demo_action_def demo_fence_def)

definition demo_start_fs :: "gate_record fs" where
  "demo_start_fs = fs_dirsync (fs_put (gate_path demo_id)
     (record_node (started_record (demo_record StatePrepared) (demo_action ''execution.start'')))
     (demo_record_fs StatePrepared))"

lemma demo_Start:
  "\<exists>launch. Start demo_commerce demo_gate io_ok (\<lambda>_. None) 100000000000 demo_ticket (demo_fence 3)
     (demo_action ''execution.start'') (demo_record_fs StatePrepared) = (Inr launch, demo_start_fs)
     \<and> la_Files launch = []"
proof -
  have lock: "gt_lock demo_gate \<noteq> None" by (simp add: demo_gate_def)
  have tk: "tk_ExecutionID demo_ticket = demo_id" "tk_Secret demo_ticket = ''secret''" "demo_id \<noteq> []"
    "tk_StartNotAfterUnix demo_ticket = 500" "tk_PlanDigest demo_ticket = sha256_digest ''bound''"
    by (simp_all add: demo_ticket_def demo_id_def)
  have read: "readRecord io_ok (gate_path demo_id) (demo_record_fs StatePrepared) = Inr (demo_record StatePrepared)"
    by (rule demo_read) (simp add: knownState_def)
  have files: "openBoundFiles (\<lambda>_. None) (pl_Files (demo_prepared 3)) = Inr []"
    by (simp add: demo_prepared_def demo_plan_def)
  have gen: "pl_WriterGeneration (demo_prepared 3) = 3"
    by (simp add: demo_prepared_def)
  have "\<not> not_before_unix 100000000000 500"
    by (simp add: not_before_unix_def)
  then show ?thesis
    using lock read tk files gen
    by (simp add: Start_def demo_replace demo_start_fs_def demo_record_simps(1-5,8) demo_commerce_simps)
qed

theorem Start_authorized_witness:
  "\<exists>entry. live_record (demo_record_fs StatePrepared) (gate_path demo_id) = Some entry
     \<and> gr_State entry = StatePrepared \<and> gr_TicketSecret entry = ''secret''"
proof -
  obtain launch where "Start demo_commerce demo_gate io_ok (\<lambda>_. None) 100000000000 demo_ticket (demo_fence 3)
     (demo_action ''execution.start'') (demo_record_fs StatePrepared) = (Inr launch, demo_start_fs)"
    using demo_Start by blast
  from Start_authorized [OF this] show ?thesis
    by (auto simp: demo_ticket_def)
qed

lemma demo_start_run: "grant_run start_grants gate_step (demo_record_fs StatePrepared) [demo_id] demo_start_fs"
proof -
  have "tk_ExecutionID demo_ticket = demo_id" by (simp add: demo_ticket_def)
  then have "start_grants (demo_record_fs StatePrepared) demo_id demo_start_fs"
    unfolding start_grants_def using demo_Start by blast
  then show ?thesis by (rule run_single)
qed

theorem start_at_most_once_witness:
  "\<not> started (demo_record_fs StatePrepared) demo_id \<and> started demo_start_fs demo_id"
  using start_at_most_once [OF demo_start_run] by simp

theorem record_moves_forward_witness:
  "\<exists>r'. live_record demo_start_fs (gate_path demo_id) = Some r'
     \<and> gr_TicketSecret r' = ''secret'' \<and> state_edge\<^sup>*\<^sup>* StatePrepared (gr_State r')"
proof -
  have "gate_op\<^sup>*\<^sup>* (demo_record_fs StatePrepared) demo_start_fs"
    using demo_Start op_start by blast
  moreover have "live_record (demo_record_fs StatePrepared) (gate_path demo_id) = Some (demo_record StatePrepared)"
    by (simp add: live_record_def demo_record_fs_def)
  ultimately obtain r' where r': "live_record demo_start_fs (gate_path demo_id) = Some r'"
      "same_identity (demo_record StatePrepared) r'"
      "state_edge\<^sup>*\<^sup>* (gr_State (demo_record StatePrepared)) (gr_State r')"
    using record_moves_forward by blast
  then show ?thesis
    by (auto simp: same_identity_def demo_record_def)
qed

definition demo_launch :: Launch where
  "demo_launch = \<lparr>la_ExecutionID = demo_id, la_PlanDigest = sha256_digest ''bound'', la_TicketSecret = ''secret'',
     la_LeaseLossPolicy = LeaseLossDrain, la_Files = [], la_NetworkBindings = [demo_network],
     la_CredentialBindings = [], la_EffectBindings = [demo_effect]\<rparr>"

definition demo_https :: HTTPSRequest where
  "demo_https = \<lparr>hr_PlanEffectID = ''notify'', hr_Method = ''POST'', hr_PathAndQuery = ''/v1'', hr_Headers = [],
     hr_Body = ''hello''\<rparr>"

lemma demo_https_valid: "validHTTPSRequest demo_https demo_effect demo_network"
proof -
  have "to_upper (trim_prefix ''https.post'' ''https.'') = ''POST''" by code_simp
  then show ?thesis
    by (simp add: validHTTPSRequest_def demo_https_def demo_effect_def demo_network_def contains_crlf_def)
qed

lemma demo_effect_authorized:
  "effect_authorized demo_commerce 0 (demo_record StateRunning) demo_https (demo_action ''executor.effect'')
     (demo_fence 3) = Some (demo_network, None)"
proof -
  have find: "find_effect (demo_prepared 3) ''notify'' = Some demo_effect"
    "find_network (demo_prepared 3) demo_effect = Some demo_network"
    "find_credential (demo_prepared 3) demo_effect = None"
    by (simp_all add: find_effect_def find_network_def find_credential_def demo_prepared_def demo_plan_def
        demo_effect_def demo_network_def)
  have "hr_PlanEffectID demo_https = ''notify''" "gr_Plan (demo_record StateRunning) = demo_prepared 3"
    by (simp_all add: demo_https_def demo_record_def)
  then show ?thesis
    using find demo_https_valid
    by (simp add: effect_authorized_def EffectAuthorizationMaterial_def demo_commerce_def demo_action_def)
qed

lemma demo_submit:
  "\<exists>f'. submit_effect demo_commerce demo_gate io_ok 0 demo_launch demo_https (demo_action ''executor.effect'')
     (demo_fence 3) fs_empty (demo_record_fs StateRunning) = (Submitted demo_network None, f')"
proof -
  have read: "readRecord io_ok (gate_path demo_id) (demo_record_fs StateRunning) = Inr (demo_record StateRunning)"
    by (rule demo_read) (simp add: knownState_def)
  have "la_ExecutionID demo_launch = demo_id" "gt_lock demo_gate \<noteq> None"
    "gr_PlanDigest (demo_record StateRunning) = la_PlanDigest demo_launch"
    "gr_TicketSecret (demo_record StateRunning) = la_TicketSecret demo_launch"
    "gr_State (demo_record StateRunning) = StateRunning" "gr_Effects (demo_record StateRunning) = []"
    by (simp_all add: demo_launch_def demo_gate_def demo_record_def)
  then show ?thesis
    using read demo_effect_authorized by (simp add: submit_effect_def demo_replace)
qed


definition demo_open_env :: "string list \<Rightarrow> gate_open_env" where
  "demo_open_env names = \<lparr>go_resolver_nil = False, go_mkdir = True, go_info = Some demo_directory,
     go_lock = demo_obs, go_inode = 7, go_fd = 3, go_readdir = True, go_io = (\<lambda>_. io_ok), go_names = names\<rparr>"

lemma demo_gate_dir: "is_abs ''/var/lib/tos/gate''" "path_clean ''/var/lib/tos/gate'' = ''/var/lib/tos/gate''"
  by code_simp+

lemma demo_gate_lock:
  "Acquire ''/var/lib/tos/gate'' ''.commerce-gate.lock'' demo_obs 7 3 demo_kernel =
     (Inr \<lparr>lk_file = Some (7, 3), lk_closed = False\<rparr>, demo_kernel\<lparr>krn_holder := [7 \<mapsto> 3]\<rparr>)"
proof -
  have "valid_lock_name ''.commerce-gate.lock''" by code_simp
  then show ?thesis
    using demo_gate_dir(1)
    by (simp add: Acquire_def openAndLock_def demo_obs_def demo_kernel_def demo_directory_def Let_def)
qed

lemma demo_record_name: "is_record_name (gate_path demo_id) (demo_record_fs s)"
proof -
  have "length (gate_path demo_id) = 69" "has_suffix (gate_path demo_id) ''.json''"
    by (simp_all add: gate_path_def demo_id_def has_suffix_def has_prefix_def)
  then show ?thesis
    by (simp add: is_record_name_def demo_record_fs_def)
qed

theorem OpenGate_settles_witness:
  "\<exists>gate k' f' r. OpenGate ''/var/lib/tos/gate'' (demo_open_env [gate_path demo_id]) demo_kernel
       (demo_record_fs StateRunning) = (Inr gate, k', f')
     \<and> live_record f' (gate_path demo_id) = Some r \<and> gr_State r \<noteq> StateRunning"
proof -
  let ?r = "(demo_record StateRunning)\<lparr>gr_State := StateAmbiguousRun, gr_StateRevision := 2\<rparr>"
  let ?f = "fs_dirsync (fs_put (gate_path demo_id) (record_node ?r) (demo_record_fs StateRunning))"
  have read: "readRecord io_ok (gate_path demo_id) (demo_record_fs StateRunning) = Inr (demo_record StateRunning)"
    by (rule demo_read) (simp add: knownState_def)
  have rev: "gr_StateRevision (demo_record StateRunning) = 1" by (simp add: demo_record_def)
  have "recover_names (\<lambda>_. io_ok) [gate_path demo_id] (demo_record_fs StateRunning) = (Inr (), ?f)"
    using read demo_record_name rev by (simp add: demo_record_simps interrupted_def demo_replace)
  then obtain gate k' where o: "OpenGate ''/var/lib/tos/gate'' (demo_open_env [gate_path demo_id]) demo_kernel
      (demo_record_fs StateRunning) = (Inr gate, k', ?f)"
    using demo_gate_dir demo_gate_lock
    by (simp add: OpenGate_def demo_open_env_def recoverInterruptedStates_def demo_directory_def)
  have live: "live_record ?f (gate_path demo_id) = Some ?r"
    by (simp add: live_record_def)
  have "gr_State ?r \<noteq> StateStarting \<and> gr_State ?r \<noteq> StateRunning"
    by (rule OpenGate_settles [OF o _ demo_record_name live]) (simp add: demo_open_env_def)
  then show ?thesis using o live by blast
qed

definition demo_entry :: gate_record where
  "demo_entry = \<lparr>gr_Schema = gate_schema, gr_Plan = demo_prepared 3,
     gr_PlanDigest = sha256_digest ''tos.local-execution-plan-bound.v1'',
     gr_TicketSecret = ''secret'', gr_StartNotAfterUnix = 160, gr_State = StatePrepared, gr_StateRevision = 1,
     gr_OutcomeDigest = [], gr_PrepareActionID = sha256_digest ''execution.prepare'',
     gr_PrepareRequestDigest = sha256_digest ''request'',
     gr_StartActionID = [], gr_StartRequestDigest = [], gr_Effects = []\<rparr>"

lemma demo_Prepare:
  assumes "io_open w" and "io_read w"
  shows "Prepare demo_commerce demo_gate w 100000000000 (Inr ''secret'') demo_plan (demo_fence 3) 60000000000
     (demo_action ''execution.prepare'') fs_empty =
     (case createRecord w (gate_path demo_id) demo_entry fs_empty of
        (Inl e, f') \<Rightarrow> (Inl e, f') | (Inr _, f') \<Rightarrow> (Inr (ticketFrom demo_entry), f'))"
proof -
  have "pl_ExecutionID (demo_prepared 3) = demo_id" by (simp add: demo_prepared_def demo_id_def)
  moreover have "readRecord w (gate_path demo_id) fs_empty = Inl ErrNotExist"
    using assms by (simp add: readRecord_def)
  moreover have "min (min (unix_u64 (100000000000 + 60000000000)) (fen_ExpiresAtUnix (demo_fence 3)))
      (act_ExpiresAtUnix (demo_action ''execution.prepare'')) = 160"
    by (simp add: unix_u64_def unix_seconds_def demo_fence_def demo_action_def min_def)
  moreover have "gt_lock demo_gate = Some \<lparr>lk_file = Some (7, 3), lk_closed = False\<rparr>"
    by (simp add: demo_gate_def)
  ultimately show ?thesis
    unfolding demo_entry_def using demo_preparePlan [of 3]
    by (simp add: Prepare_def demo_commerce_simps Let_def)
qed

theorem Prepare_deadline_witness:
  "\<exists>ticket f'. Prepare demo_commerce demo_gate io_ok 100000000000 (Inr ''secret'') demo_plan (demo_fence 3)
     60000000000 (demo_action ''execution.prepare'') fs_empty = (Inr ticket, f')
     \<and> tk_StartNotAfterUnix ticket \<le> fen_ExpiresAtUnix (demo_fence 3)"
proof -
  obtain ticket f' where p: "Prepare demo_commerce demo_gate io_ok 100000000000 (Inr ''secret'') demo_plan
      (demo_fence 3) 60000000000 (demo_action ''execution.prepare'') fs_empty = (Inr ticket, f')"
      and live: "fs_live f' (gate_path demo_id) \<noteq> None"
    using demo_Prepare [of io_ok] by (simp add: createRecord_def Let_def)
  have "f' \<noteq> fs_empty" using live by auto
  from Prepare_deadline [OF p this] show ?thesis using p by blast
qed

section \<open>Two ways to lose a Gate\<close>


text \<open>
  \<open>createRecord\<close> does not bound the size of the record, but \<open>readRecord\<close> refuses records above 2 MiB:
  a plan with a long enough identifier is prepared successfully and can then neither be started nor
  read by recovery.
\<close>

lemma oversized_record_unreadable:
  assumes "2097152 < length (pl_ReservationID (gr_Plan r))"
    and "createRecord w p r f = (Inr u, f')"
  shows "\<exists>e. readRecord w' p f' = Inl e"
proof -
  have "length (pl_ReservationID (gr_Plan r)) \<le> length (json_string (pl_ReservationID (gr_Plan r)))"
    using length_json_string [of "pl_ReservationID (gr_Plan r)"] by linarith
  also have "\<dots> \<le> length (json_Plan (gr_Plan r))"
    unfolding json_Plan_def by (rule length_json_object_member [of "''reservation_id''"]) simp
  also have "\<dots> \<le> gate_record_size r"
    unfolding gate_record_size_def json_gate_record_def
    by (rule length_json_object_member [of "''plan''"]) simp
  finally have "2097152 < gate_record_size r" using assms(1) by linarith
  moreover have "f' = fs_dirsync (fs_put p (record_node r) f)"
    using assms(2) by (auto simp: createRecord_def Let_def record_node_def split: if_splits)
  ultimately show ?thesis
    by (simp add: readRecord_def record_node_def)
qed

end
