(* ===== verification/Go_Base64.thy ===== *)
theory Go_Base64
  imports Go_Prelude
begin

text \<open>
  The parts of \<open>encoding/base64\<close> the sources use: the encoding without padding over the alphabet for
  URLs and file names.
\<close>

section \<open>Encoding and decoding\<close>

definition b64_alphabet :: string where
  "b64_alphabet = ''ABCDEFGHIJKLMNOPQRSTUVWXYZabcdefghijklmnopqrstuvwxyz0123456789-_''"

definition b64_value :: "char \<Rightarrow> nat option" where
  "b64_value c = (let i = length (takeWhile (\<lambda>x. x \<noteq> c) b64_alphabet) in if i < 64 then Some i else None)"

fun b64_encode :: "bytes \<Rightarrow> string" where
  "b64_encode [] = []"
| "b64_encode [a] = (let n = of_char a * 65536 in map (\<lambda>k. b64_alphabet ! (n div 64 ^ k mod 64)) [3, 2])"
| "b64_encode [a, b] = (let n = of_char a * 65536 + of_char b * 256 in
     map (\<lambda>k. b64_alphabet ! (n div 64 ^ k mod 64)) [3, 2, 1])"
| "b64_encode (a # b # c # rest) = (let n = of_char a * 65536 + of_char b * 256 + of_char c in
     map (\<lambda>k. b64_alphabet ! (n div 64 ^ k mod 64)) [3, 2, 1, 0] @ b64_encode rest)"

fun b64_groups :: "nat list \<Rightarrow> bytes option" where
  "b64_groups [] = Some []"
| "b64_groups [a] = None"
| "b64_groups [a, b] = Some [char_of ((a * 64 + b) div 16)]"
| "b64_groups [a, b, c] = Some [char_of ((a * 64 + b) div 16), char_of ((b * 4096 + c * 64) div 256 mod 256)]"
| "b64_groups (a # b # c # d # rest) =
     (let n = a * 262144 + b * 4096 + c * 64 + d in
      map_option (\<lambda>bs. char_of (n div 65536) # char_of (n div 256 mod 256) # char_of (n mod 256) # bs)
        (b64_groups rest))"

fun b64_values :: "string \<Rightarrow> nat list option" where
  "b64_values [] = Some []"
| "b64_values (c # cs) = (case b64_value c of None \<Rightarrow> None | Some v \<Rightarrow> map_option ((#) v) (b64_values cs))"

text \<open>\<open>base64.RawURLEncoding.DecodeString\<close>, which skips carriage returns and line feeds.\<close>

definition b64_decode :: "string \<Rightarrow> bytes option" where
  "b64_decode s = Option.bind (b64_values (filter (\<lambda>c. c \<noteq> CHR 0x0A \<and> c \<noteq> CHR 0x0D) s)) b64_groups"

section \<open>Lemmas\<close>

lemma b64_decode_newlines:
  "b64_decode (s @ replicate n (CHR 0x0A)) = b64_decode s"
  by (simp add: b64_decode_def)

lemma b64_alphabet_length [simp]: "length b64_alphabet = 64"
  by (simp add: b64_alphabet_def)

lemma b64_alphabet_distinct: "distinct b64_alphabet"
  by (simp add: b64_alphabet_def)

lemma b64_value_nth:
  assumes "i < 64"
  shows "b64_value (b64_alphabet ! i) = Some i"
proof -
  have d: "b64_alphabet ! j \<noteq> b64_alphabet ! i" if "j < i" for j
    using assms that b64_alphabet_distinct by (simp add: nth_eq_iff_index_eq)
  have "takeWhile (\<lambda>x. x \<noteq> b64_alphabet ! i) b64_alphabet = take i b64_alphabet"
    by (rule takeWhile_eq_take_P_nth) (use assms d in auto)
  then show ?thesis using assms by (simp add: b64_value_def)
qed

lemma b64_values_digits:
  "list_all (\<lambda>i. i < 64) is \<Longrightarrow> b64_values (map (\<lambda>i. b64_alphabet ! i) is @ cs) = map_option ((@) is) (b64_values cs)"
proof (induction "is")
  case Nil
  then show ?case by (cases "b64_values cs") simp_all
next
  case (Cons i "is")
  then show ?case by (cases "b64_values cs") (simp_all add: b64_value_nth)
qed

lemma b64_alphabet_no_newline: "c \<in> set b64_alphabet \<Longrightarrow> c \<noteq> CHR 0x0A \<and> c \<noteq> CHR 0x0D"
  by (auto simp: b64_alphabet_def)

lemma b64_encode_alphabet: "set (b64_encode bs) \<subseteq> set b64_alphabet"
  by (induction bs rule: b64_encode.induct) (auto simp: Let_def)

lemma b64_decode_values: "b64_decode (b64_encode bs) = Option.bind (b64_values (b64_encode bs)) b64_groups"
proof -
  have "filter (\<lambda>c. c \<noteq> CHR 0x0A \<and> c \<noteq> CHR 0x0D) (b64_encode bs) = b64_encode bs"
    using b64_encode_alphabet [of bs] b64_alphabet_no_newline by (intro filter_True) blast
  then show ?thesis by (simp add: b64_decode_def)
qed

text \<open>Splitting a number into digits of base 64, and into bytes, and putting it together again.\<close>

lemma digits_two: "k < (4096 :: nat) \<Longrightarrow> k div 64 mod 64 * 64 + k mod 64 = k"
  by (simp add: less_mult_imp_div_less)

lemma b64_one:
  assumes "a < (256 :: nat)"
  shows "(a * 65536 div 262144 mod 64 * 64 + a * 65536 div 4096 mod 64) div 16 = a"
proof -
  have d: "a * 65536 div 262144 = a * 16 div 64" "a * 65536 div 4096 = a * 16" by simp_all
  have e: "a * 16 div 64 mod 64 * 64 + a * 16 mod 64 = a * 16"
    by (rule digits_two) (use assms in simp)
  show ?thesis unfolding d e by simp
qed

lemma b64_two:
  assumes "a < (256 :: nat)" and "b < 256"
  shows "((a * 65536 + b * 256) div 262144 mod 64 * 64 + (a * 65536 + b * 256) div 4096 mod 64) div 16 = a"
    and "((a * 65536 + b * 256) div 4096 mod 64 * 4096 + (a * 65536 + b * 256) div 64 mod 64 * 64) div 256 mod 256 = b"
proof -
  define m where "m = a * 256 + b"
  have n: "a * 65536 + b * 256 = m * 256" by (simp add: m_def)
  have m: "m < 65536" "m div 256 = a" "m mod 256 = b" using assms by (simp_all add: m_def)
  define k where "k = m div 16"
  have k: "m * 256 div 262144 = k div 64" "m * 256 div 4096 = k" "k div 16 = a" "k < 4096"
    using m by (simp_all add: k_def div_mult2_eq [symmetric] less_mult_imp_div_less)
  then show "((a * 65536 + b * 256) div 262144 mod 64 * 64 + (a * 65536 + b * 256) div 4096 mod 64) div 16 = a"
    unfolding n using digits_two [of k] by simp
  have "m * 256 div 64 mod 64 = m mod 16 * 4" by (simp add: mult.commute mod_mult_mult1 [of 4 m 16, simplified, symmetric])
  then have "((m * 256) div 4096 mod 64 * 4096 + (m * 256) div 64 mod 64 * 64) div 256 = k mod 64 * 16 + m mod 16"
    using k by simp
  moreover have "(k mod 64 * 16 + m mod 16) = m mod 1024"
    using mod_mult2_eq [of m 16 64] by (simp add: k_def)
  moreover have "m mod 1024 mod 256 = m mod 256" by (simp add: mod_mod_cancel)
  ultimately show "((a * 65536 + b * 256) div 4096 mod 64 * 4096 + (a * 65536 + b * 256) div 64 mod 64 * 64) div 256 mod 256 = b"
    unfolding n using m(3) by simp
qed

lemma b64_three:
  assumes "n < (16777216 :: nat)"
  shows "n div 262144 mod 64 * 262144 + n div 4096 mod 64 * 4096 + n div 64 mod 64 * 64 + n mod 64 = n"
proof -
  have "n div 262144 < 64" using assms by (simp add: less_mult_imp_div_less)
  then have "n div 262144 mod 64 = n div 4096 div 64" by (simp add: div_mult2_eq [symmetric])
  then have "n div 262144 mod 64 * 64 + n div 4096 mod 64 = n div 4096" by simp
  moreover have "n div 4096 = n div 64 div 64" by (simp add: div_mult2_eq [symmetric])
  then have "n div 4096 * 64 + n div 64 mod 64 = n div 64" by simp
  moreover have "n div 64 * 64 + n mod 64 = n" by simp
  ultimately show ?thesis by linarith
qed

lemma b64_bytes:
  assumes "a < (256 :: nat)" and "b < 256" and "c < 256"
  shows "(a * 65536 + b * 256 + c) div 65536 = a" and "(a * 65536 + b * 256 + c) div 256 mod 256 = b"
    and "(a * 65536 + b * 256 + c) mod 256 = c" and "a * 65536 + b * 256 + c < 16777216"
proof -
  have n: "a * 65536 + b * 256 + c = (a * 256 + b) * 256 + c" by simp
  have d: "((a * 256 + b) * 256 + c) div 256 = a * 256 + b" using assms(3) by simp
  show "(a * 65536 + b * 256 + c) div 256 mod 256 = b" unfolding n d using assms(2) by simp
  have "x div 65536 = x div 256 div 256" for x :: nat by (simp add: div_mult2_eq [symmetric])
  then have "(a * 65536 + b * 256 + c) div 65536 = (a * 256 + b) div 256"
    unfolding n d by (simp only: d)
  then show "(a * 65536 + b * 256 + c) div 65536 = a" using assms(2) by simp
  show "(a * 65536 + b * 256 + c) mod 256 = c"
    unfolding n using mod_mult_self3 [of "a * 256 + b" 256 c] assms(3) by (simp only: mod_less)
  show "a * 65536 + b * 256 + c < 16777216" using assms by linarith
qed

lemma b64_roundtrip [simp]: "b64_decode (b64_encode bs) = Some bs"
proof -
  have "Option.bind (b64_values (b64_encode bs)) b64_groups = Some bs"
  proof (induction bs rule: b64_encode.induct)
    case (2 a)
    define x y where "x = of_char a * 65536 div 262144 mod (64 :: nat)" and "y = of_char a * 65536 div 4096 mod (64 :: nat)"
    have "b64_values (b64_encode [a]) = Some [x, y]"
      using b64_values_digits [of "[x, y]" "[]"] by (simp add: Let_def x_def y_def)
    moreover have "(x * 64 + y) div 16 = of_char a"
      unfolding x_def y_def by (rule b64_one [OF of_char_lt_256])
    ultimately show ?case by (simp del: b64_encode.simps b64_values.simps)
  next
    case (3 a b)
    define x y z where "x = (of_char a * 65536 + of_char b * 256) div 262144 mod (64 :: nat)"
      and "y = (of_char a * 65536 + of_char b * 256) div 4096 mod (64 :: nat)"
      and "z = (of_char a * 65536 + of_char b * 256) div 64 mod (64 :: nat)"
    have "b64_values (b64_encode [a, b]) = Some [x, y, z]"
      using b64_values_digits [of "[x, y, z]" "[]"] by (simp add: Let_def x_def y_def z_def)
    moreover have "(x * 64 + y) div 16 = of_char a" "(y * 4096 + z * 64) div 256 mod 256 = of_char b"
      unfolding x_def y_def z_def by (rule b64_two [OF of_char_lt_256 of_char_lt_256])+
    ultimately show ?case by (simp del: b64_encode.simps b64_values.simps)
  next
    case (4 a b c rest)
    define n where "n = (of_char a * 65536 + of_char b * 256 + of_char c :: nat)"
    have n: "n < 16777216" "char_of (n div 65536) = a" "char_of (n div 256 mod 256) = b" "char_of (n mod 256) = c"
      using b64_bytes [of "of_char a" "of_char b" "of_char c"] by (simp_all add: of_char_lt_256 n_def)
    define x y z w where "x = n div 262144 mod 64" and "y = n div 4096 mod 64" and "z = n div 64 mod 64" and "w = n mod 64"
    have "b64_values (b64_encode (a # b # c # rest)) = map_option ((@) [x, y, z, w]) (b64_values (b64_encode rest))"
      using b64_values_digits [of "[x, y, z, w]" "b64_encode rest"]
      by (simp add: Let_def n_def x_def y_def z_def w_def)
    moreover have "x * 262144 + y * 4096 + z * 64 + w = n"
      unfolding x_def y_def z_def w_def by (rule b64_three [OF n(1)])
    ultimately show ?case
      using 4 n(2-4) by (cases "b64_values (b64_encode rest)") (simp_all add: Let_def del: b64_encode.simps b64_values.simps)
  qed simp
  then show ?thesis by (simp add: b64_decode_values)
qed

text \<open>\<open>base64.StdEncoding.EncodeToString\<close>: the standard alphabet, padded; JSON encodes a byte slice with it.\<close>

definition b64_std_encode :: "bytes \<Rightarrow> string" where
  "b64_std_encode bs = map (\<lambda>c. if c = CHR ''-'' then CHR ''+'' else if c = CHR ''_'' then CHR ''/'' else c) (b64_encode bs)
     @ replicate ((3 - length bs mod 3) mod 3) (CHR ''='')"

end
