(* ===== verification/Update_Manifest.thy ===== *)
theory Update_Manifest
  imports Go_Json Go_Sha256 Go_Base64
begin

text \<open>
  Package \<open>pkg/update\<close>: signed release manifests.  The signature scheme (Ed25519 of the standard
  library) is a pair of functions, \<open>sign key message\<close> and \<open>verify key message signature\<close>, which are
  arguments of the definitions that call it.
\<close>

section \<open>Manifests\<close>

abbreviation (input) ManifestVersion :: u8 where "ManifestVersion \<equiv> 1"
abbreviation (input) MaxArtifactBytes :: u64 where "MaxArtifactBytes \<equiv> 68719476736"
abbreviation (input) PublicKeySize :: nat where "PublicKeySize \<equiv> 32"
abbreviation (input) PrivateKeySize :: nat where "PrivateKeySize \<equiv> 64"

record Manifest =
  man_Version :: u8
  man_Artifact :: string
  man_Digest :: string
  man_SizeBytes :: u64
  man_Target :: string
  man_SecurityRevision :: u64
  man_IssuedAt :: int
  man_ExpiresAt :: int
  man_KeyID :: string
  man_Signature :: string

definition validateStructure :: "Manifest \<Rightarrow> unit result" where
  "validateStructure m =
     (if man_Version m \<noteq> ManifestVersion
      then Inl (ErrMsg (''unsupported manifest version '' @ show_nat (unat (man_Version m))))
      else if length (man_Artifact m) = 0 \<or> length (man_Artifact m) > 512 \<or> length (man_Target m) = 0
         \<or> length (man_Target m) > 256 \<or> length (man_KeyID m) = 0 \<or> length (man_KeyID m) > 512
      then Inl (ErrMsg ''invalid manifest identity fields'')
      else if \<not> has_prefix (man_Digest m) ''sha256:'' \<or> length (man_Digest m) \<noteq> 71
      then Inl (ErrMsg ''invalid artifact digest'')
      else if \<not> hex_decodable (trim_prefix (man_Digest m) ''sha256:'')
      then Inl (ErrMsg ''invalid artifact digest'')
      else if man_SizeBytes m = 0 \<or> man_SizeBytes m > MaxArtifactBytes \<or> man_ExpiresAt m \<le> man_IssuedAt m
      then Inl (ErrMsg ''invalid artifact size or validity interval'')
      else Inr ())"

definition writeString :: "string \<Rightarrow> bytes" where
  "writeString v = be_bytes 4 (unat (word_of_nat (length v) :: u32)) @ v"

text \<open>A signed integer is written as its two's complement.\<close>

definition signingMessage :: "Manifest \<Rightarrow> bytes" where
  "signingMessage m =
     ''TOS-AI-UPDATE-MANIFEST'' @ [CHR 0x00] @ be_bytes 1 (unat (man_Version m))
     @ writeString (man_Artifact m) @ writeString (man_Digest m) @ be_bytes 8 (unat (man_SizeBytes m))
     @ writeString (man_Target m) @ be_bytes 8 (unat (man_SecurityRevision m))
     @ be_bytes 8 (unat (word_of_int (man_IssuedAt m) :: u64))
     @ be_bytes 8 (unat (word_of_int (man_ExpiresAt m) :: u64)) @ writeString (man_KeyID m)"

type_synonym sign_fun = "bytes \<Rightarrow> bytes \<Rightarrow> bytes"
type_synonym verify_fun = "bytes \<Rightarrow> bytes \<Rightarrow> bytes \<Rightarrow> bool"

definition Sign :: "sign_fun \<Rightarrow> Manifest \<Rightarrow> bytes \<Rightarrow> Manifest result" where
  "Sign sign m privateKey =
     (if length privateKey \<noteq> PrivateKeySize then Inl (ErrMsg ''invalid Ed25519 private key'')
      else case validateStructure m of Inl e \<Rightarrow> Inl e
      | Inr _ \<Rightarrow> Inr (m\<lparr>man_Signature := b64_encode (sign privateKey (signingMessage m))\<rparr>))"

definition VerifyInstalled :: "verify_fun \<Rightarrow> Manifest \<Rightarrow> bytes \<Rightarrow> string \<Rightarrow> u64 \<Rightarrow> unit result" where
  "VerifyInstalled verify m publicKey target currentSecurityRevision =
     (if length publicKey \<noteq> PublicKeySize then Inl (ErrMsg ''invalid Ed25519 public key'')
      else case validateStructure m of Inl e \<Rightarrow> Inl e | Inr _ \<Rightarrow>
      if man_Target m \<noteq> target then Inl (ErrMsg ''artifact target mismatch'')
      else if man_SecurityRevision m < currentSecurityRevision
      then Inl (ErrMsg ''security revision rollback rejected'')
      else case b64_decode (man_Signature m) of
        None \<Rightarrow> Inl (ErrMsg ''manifest signature verification failed'')
      | Some signature \<Rightarrow>
          if \<not> verify publicKey (signingMessage m) signature
          then Inl (ErrMsg ''manifest signature verification failed'') else Inr ())"

text \<open>\<open>time.UnixMilli\<close> of an integer is that many milliseconds; instants are nanoseconds.\<close>

definition manifest_Verify :: "verify_fun \<Rightarrow> Manifest \<Rightarrow> bytes \<Rightarrow> string \<Rightarrow> u64 \<Rightarrow> instant \<Rightarrow> unit result" where
  "manifest_Verify verify m publicKey target currentSecurityRevision now =
     (case VerifyInstalled verify m publicKey target currentSecurityRevision of Inl e \<Rightarrow> Inl e | Inr _ \<Rightarrow>
      if man_IssuedAt m * 1000000 > now + 120000000000 \<or> \<not> man_ExpiresAt m * 1000000 > now
      then Inl (ErrMsg ''manifest is outside its validity window'') else Inr ())"

text \<open>A reader delivers bytes and then ends or fails; a limited copy sees the failure only when it
  gets that far.\<close>

definition VerifyArtifact :: "Manifest \<Rightarrow> bytes \<Rightarrow> bool \<Rightarrow> unit result" where
  "VerifyArtifact m data fails =
     (case validateStructure m of Inl e \<Rightarrow> Inl e | Inr _ \<Rightarrow>
      if man_SizeBytes m > MaxArtifactBytes then Inl (ErrMsg ''artifact exceeds hard size limit'')
      else
        let limit = unat (man_SizeBytes m) + 1; written = take limit data in
        if fails \<and> length data < limit then Inl ErrOs
        else if length written \<noteq> unat (man_SizeBytes m) then Inl (ErrMsg ''artifact size mismatch'')
        else if sha256_digest written \<noteq> man_Digest m then Inl (ErrMsg ''artifact digest mismatch'')
        else Inr ())"

definition json_Manifest :: "Manifest \<Rightarrow> string" where
  "json_Manifest m = json_object
     [(''version'', show_nat (unat (man_Version m))), (''artifact'', json_string (man_Artifact m)),
      (''digest'', json_string (man_Digest m)), (''sizeBytes'', json_u64 (man_SizeBytes m)),
      (''target'', json_string (man_Target m)), (''securityRevision'', json_u64 (man_SecurityRevision m)),
      (''issuedAt'', show_int (man_IssuedAt m)), (''expiresAt'', show_int (man_ExpiresAt m)),
      (''keyId'', json_string (man_KeyID m)), (''signature'', json_string (man_Signature m))]"

section \<open>Lemmas\<close>

lemma validateStructure_bounds:
  assumes "validateStructure m = Inr ()"
  shows "man_Version m = 1" and "length (man_Artifact m) \<le> 512" and "length (man_Digest m) = 71"
    and "length (man_Target m) \<le> 256" and "length (man_KeyID m) \<le> 512"
    and "0 < man_SizeBytes m" and "man_IssuedAt m < man_ExpiresAt m"
  using assms by (auto simp: validateStructure_def word_neq_0_conv split: if_splits)

lemma VerifyArtifact_ok:
  "VerifyArtifact m data fails = Inr () \<longleftrightarrow>
     validateStructure m = Inr () \<and> \<not> fails \<and> length data = unat (man_SizeBytes m) \<and> sha256_digest data = man_Digest m"
proof -
  have "validateStructure m = Inr () \<Longrightarrow> \<not> man_SizeBytes m > MaxArtifactBytes"
    by (auto simp: validateStructure_def split: if_splits)
  then show ?thesis
    by (auto simp: VerifyArtifact_def Let_def split: sum.splits if_splits)
qed

lemma VerifyInstalled_mono:
  "VerifyInstalled verify m key target r = Inr () \<Longrightarrow> r' \<le> r \<Longrightarrow> VerifyInstalled verify m key target r' = Inr ()"
  by (auto simp: VerifyInstalled_def split: if_splits sum.splits option.splits)

lemma VerifyInstalled_revision:
  "VerifyInstalled verify m key target r = Inr () \<Longrightarrow> r \<le> man_SecurityRevision m"
  by (auto simp: VerifyInstalled_def not_less split: if_splits sum.splits option.splits)

lemma VerifyInstalled_own_revision:
  "VerifyInstalled verify m key target r = Inr () \<Longrightarrow>
     VerifyInstalled verify m key target (man_SecurityRevision m) = Inr ()"
  by (auto simp: VerifyInstalled_def split: if_splits sum.splits option.splits)

lemma writeString_inject:
  assumes "length v \<le> 512" and "length v' \<le> 512" and "writeString v @ r = writeString v' @ r'"
  shows "v = v' \<and> r = r'"
proof -
  have n: "unat (word_of_nat (length x) :: u32) = length x" if "length x \<le> 512" for x :: string
    using that by (simp add: unat_of_nat)
  have "be_bytes 4 (length v) = be_bytes 4 (length v')" and rest: "v @ r = v' @ r'"
    using assms by (simp_all add: writeString_def n append_eq_append_conv)
  then have "length v = length v'"
    using assms(1,2) by (intro be_bytes_inject [of "length v" 4]) auto
  with rest show ?thesis by simp
qed

lemma be_bytes_app_inject:
  assumes "be_bytes n a @ r = be_bytes n b @ r'" and "a < 256 ^ n" and "b < 256 ^ n"
  shows "a = b \<and> r = r'"
  using assms be_bytes_inject [of a n b] by simp

lemma unat_u64_lt: "unat (w :: u64) < 256 ^ 8"
  using unsigned_less [of w] by simp

lemma word_of_int64_inject:
  assumes "in_int64 i" and "in_int64 j" and "(word_of_int i :: u64) = word_of_int j"
  shows "i = j"
proof -
  have "i mod 18446744073709551616 = j mod 18446744073709551616"
    using assms(3) by (simp add: word_of_int_eq_iff take_bit_eq_mod)
  then have "18446744073709551616 dvd i - j"
    by (simp add: mod_eq_dvd_iff)
  then obtain k where k: "i - j = 18446744073709551616 * k"
    by (elim dvdE)
  with assms(1,2) have "k < 1" and "- 1 < k"
    unfolding in_int64_def by linarith+
  with k show ?thesis by simp
qed

lemma signingMessage_signature [simp]: "signingMessage (m\<lparr>man_Signature := s\<rparr>) = signingMessage m"
  by (simp add: signingMessage_def)

lemma validateStructure_signature [simp]: "validateStructure (m\<lparr>man_Signature := s\<rparr>) = validateStructure m"
  by (simp add: validateStructure_def)

lemma VerifyArtifact_signature [simp]:
  "VerifyArtifact (m\<lparr>man_Signature := s\<rparr>) data fails = VerifyArtifact m data fails"
  by (cases "validateStructure m") (auto simp: VerifyArtifact_def Let_def min_def)

lemma manifest_Verify_installed:
  "manifest_Verify verify m key target r now = Inr () \<Longrightarrow> VerifyInstalled verify m key target r = Inr ()"
  by (auto simp: manifest_Verify_def split: sum.splits)

lemma manifest_Verify_newlines:
  "manifest_Verify verify (m\<lparr>man_Signature := man_Signature m @ replicate n (CHR 0x0A)\<rparr>) key target r now
     = manifest_Verify verify m key target r now"
proof -
  let ?m = "m\<lparr>man_Signature := man_Signature m @ replicate n (CHR 0x0A)\<rparr>"
  have "VerifyInstalled verify ?m key target r = VerifyInstalled verify m key target r"
    by (cases "validateStructure m"; cases "b64_decode (man_Signature m)")
      (simp_all add: VerifyInstalled_def b64_decode_newlines)
  then show ?thesis
    by (cases "VerifyInstalled verify m key target r") (simp_all add: manifest_Verify_def)
qed

lemma length_json_string_ge: "length s \<le> length (json_string s)"
proof (induction s)
  case (Cons c s)
  then show ?case using length_json_escape [of c] by (simp add: json_string_def)
qed simp

lemma length_json_Manifest_ge: "length (man_Signature m) \<le> length (json_Manifest m)"
  using length_json_string_ge [of "man_Signature m"]
  by (simp add: json_Manifest_def json_object_def json_field_def)

section \<open>What a signature covers\<close>

text \<open>C31. A signature binds every field of a manifest: the signed messages of two structurally valid
  manifests (with validity instants in the range of \<open>int64\<close>) are equal only when the manifests agree
  on everything but the signature itself.\<close>

theorem signingMessage_injective:
  assumes "validateStructure m = Inr ()" and "validateStructure m' = Inr ()"
    and "in_int64 (man_IssuedAt m)" and "in_int64 (man_ExpiresAt m)"
    and "in_int64 (man_IssuedAt m')" and "in_int64 (man_ExpiresAt m')"
    and "signingMessage m = signingMessage m'"
  shows "m' = m\<lparr>man_Signature := man_Signature m'\<rparr>"
proof -
  note b = validateStructure_bounds [OF assms(1)] validateStructure_bounds [OF assms(2)]
  have v: "man_Version m = man_Version m'" using b by simp
  have e1: "writeString (man_Artifact m) @ writeString (man_Digest m) @ be_bytes 8 (unat (man_SizeBytes m))
     @ writeString (man_Target m) @ be_bytes 8 (unat (man_SecurityRevision m))
     @ be_bytes 8 (unat (word_of_int (man_IssuedAt m) :: u64))
     @ be_bytes 8 (unat (word_of_int (man_ExpiresAt m) :: u64)) @ writeString (man_KeyID m)
     = writeString (man_Artifact m') @ writeString (man_Digest m') @ be_bytes 8 (unat (man_SizeBytes m'))
     @ writeString (man_Target m') @ be_bytes 8 (unat (man_SecurityRevision m'))
     @ be_bytes 8 (unat (word_of_int (man_IssuedAt m') :: u64))
     @ be_bytes 8 (unat (word_of_int (man_ExpiresAt m') :: u64)) @ writeString (man_KeyID m')"
    using assms(7) v by (simp add: signingMessage_def)
  from writeString_inject [OF _ _ e1] b have a: "man_Artifact m = man_Artifact m'" and e2: "writeString (man_Digest m) @ be_bytes 8 (unat (man_SizeBytes m))
     @ writeString (man_Target m) @ be_bytes 8 (unat (man_SecurityRevision m))
     @ be_bytes 8 (unat (word_of_int (man_IssuedAt m) :: u64))
     @ be_bytes 8 (unat (word_of_int (man_ExpiresAt m) :: u64)) @ writeString (man_KeyID m)
     = writeString (man_Digest m') @ be_bytes 8 (unat (man_SizeBytes m'))
     @ writeString (man_Target m') @ be_bytes 8 (unat (man_SecurityRevision m'))
     @ be_bytes 8 (unat (word_of_int (man_IssuedAt m') :: u64))
     @ be_bytes 8 (unat (word_of_int (man_ExpiresAt m') :: u64)) @ writeString (man_KeyID m')"
    by simp_all
  have d: "man_Digest m = man_Digest m'" and e3: "be_bytes 8 (unat (man_SizeBytes m)) @ writeString (man_Target m) @ be_bytes 8 (unat (man_SecurityRevision m))
     @ be_bytes 8 (unat (word_of_int (man_IssuedAt m) :: u64))
     @ be_bytes 8 (unat (word_of_int (man_ExpiresAt m) :: u64)) @ writeString (man_KeyID m)
     = be_bytes 8 (unat (man_SizeBytes m')) @ writeString (man_Target m') @ be_bytes 8 (unat (man_SecurityRevision m'))
     @ be_bytes 8 (unat (word_of_int (man_IssuedAt m') :: u64))
     @ be_bytes 8 (unat (word_of_int (man_ExpiresAt m') :: u64)) @ writeString (man_KeyID m')"
    using writeString_inject [OF _ _ e2] b by simp_all
  note e4 = be_bytes_app_inject [OF e3 unat_u64_lt unat_u64_lt]
  have t: "man_Target m = man_Target m'" and e5: "be_bytes 8 (unat (man_SecurityRevision m))
     @ be_bytes 8 (unat (word_of_int (man_IssuedAt m) :: u64))
     @ be_bytes 8 (unat (word_of_int (man_ExpiresAt m) :: u64)) @ writeString (man_KeyID m)
     = be_bytes 8 (unat (man_SecurityRevision m')) @ be_bytes 8 (unat (word_of_int (man_IssuedAt m') :: u64))
     @ be_bytes 8 (unat (word_of_int (man_ExpiresAt m') :: u64)) @ writeString (man_KeyID m')"
    using writeString_inject [OF _ _ conjunct2 [OF e4]] b by simp_all
  note e6 = be_bytes_app_inject [OF e5 unat_u64_lt unat_u64_lt]
  note e7 = be_bytes_app_inject [OF conjunct2 [OF e6] unat_u64_lt unat_u64_lt]
  note e8 = be_bytes_app_inject [OF conjunct2 [OF e7] unat_u64_lt unat_u64_lt]
  have i: "man_IssuedAt m = man_IssuedAt m'" and x: "man_ExpiresAt m = man_ExpiresAt m'"
    using e7 e8 by (auto intro!: word_of_int64_inject assms(3-6) dest: unsigned_word_eqI)
  have k: "man_KeyID m = man_KeyID m'"
    using writeString_inject [of "man_KeyID m" "man_KeyID m'" "[]" "[]"] conjunct2 [OF e8] b by simp
  have s: "man_SizeBytes m = man_SizeBytes m'" and r: "man_SecurityRevision m = man_SecurityRevision m'"
    using e4 e6 by (blast intro: unsigned_word_eqI)+
  show ?thesis using v a d s t r i x k by (cases m; cases m') simp
qed

definition demo_manifest :: Manifest where
  "demo_manifest = \<lparr>man_Version = 1, man_Artifact = ''agent'', man_Digest = ''sha256:'' @ replicate 64 (CHR ''a''),
     man_SizeBytes = 3, man_Target = ''linux'', man_SecurityRevision = 7, man_IssuedAt = 1000,
     man_ExpiresAt = 2000, man_KeyID = ''release'', man_Signature = []\<rparr>"

lemma demo_manifest_valid: "validateStructure demo_manifest = Inr ()"
  by (simp add: validateStructure_def demo_manifest_def has_prefix_def trim_prefix_def hex_decodable_def
      list_all_iff is_lower_hex_def)

lemma demo_manifest_interval: "in_int64 (man_IssuedAt demo_manifest)" "in_int64 (man_ExpiresAt demo_manifest)"
  by (simp_all add: demo_manifest_def in_int64_def)

theorem signingMessage_injective_witness:
  "validateStructure demo_manifest = Inr () \<and>
   demo_manifest\<lparr>man_Signature := ''AA''\<rparr> = demo_manifest\<lparr>man_Signature := man_Signature (demo_manifest\<lparr>man_Signature := ''AA''\<rparr>)\<rparr>"
  using signingMessage_injective [of demo_manifest "demo_manifest\<lparr>man_Signature := ''AA''\<rparr>"]
    demo_manifest_valid demo_manifest_interval by simp

text \<open>What \<open>Sign\<close> produces, \<open>Verify\<close> accepts: within the validity window, on the target and at a
  security revision not above the manifest's, for a public key under which the signature scheme accepts
  the private key's signatures.\<close>

theorem Sign_then_Verify:
  assumes "Sign sign m privateKey = Inr m'"
    and "\<forall>message. verify publicKey message (sign privateKey message)"
    and "length publicKey = PublicKeySize" and "man_Target m = target" and "revision \<le> man_SecurityRevision m"
    and "man_IssuedAt m * 1000000 \<le> now + 120000000000" and "now < man_ExpiresAt m * 1000000"
  shows "manifest_Verify verify m' publicKey target revision now = Inr ()"
proof -
  have v: "validateStructure m = Inr ()"
    and m': "m' = m\<lparr>man_Signature := b64_encode (sign privateKey (signingMessage m))\<rparr>"
    using assms(1) by (auto simp: Sign_def split: if_splits sum.splits)
  have "VerifyInstalled verify m' publicKey target revision = Inr ()"
    using assms(2-5) v unfolding m' VerifyInstalled_def by (simp add: not_less)
  then show ?thesis
    using assms(6,7) by (simp add: manifest_Verify_def m')
qed

theorem Sign_then_Verify_witness:
  "\<exists>m'. Sign (\<lambda>key message. key @ message) demo_manifest (replicate 64 (CHR ''s'')) = Inr m'
     \<and> manifest_Verify (\<lambda>key message signature. signature = replicate 64 (CHR ''s'') @ message) m'
         (replicate 32 (CHR ''p'')) ''linux'' 7 1500000000 = Inr ()"
proof -
  let ?m = "demo_manifest\<lparr>man_Signature := b64_encode (replicate 64 (CHR ''s'') @ signingMessage demo_manifest)\<rparr>"
  have s: "Sign (\<lambda>key message. key @ message) demo_manifest (replicate 64 (CHR ''s'')) = Inr ?m"
    by (simp add: Sign_def demo_manifest_valid)
  have "man_Target demo_manifest = ''linux''" "man_SecurityRevision demo_manifest = 7"
    "man_IssuedAt demo_manifest = 1000" "man_ExpiresAt demo_manifest = 2000"
    by (simp_all add: demo_manifest_def)
  with Sign_then_Verify [OF s, of "\<lambda>key message signature. signature = replicate 64 (CHR ''s'') @ message"
      "replicate 32 (CHR ''p'')" "''linux''" 7 1500000000] s show ?thesis
    by auto
qed

end
