(* ===== verification/Software_Update.thy ===== *)
theory Software_Update
  imports Update_Manifest Dir_Lock
begin

text \<open>
  Package \<open>pkg/softwareupdate\<close>: two release slots and the state file that says which of them is
  active, known good, pending.

  The root directory holds one file of the model, \<open>state.json\<close>; each slot directory holds a manifest
  and an artifact, which are the entries named \<open>a\<close> and \<open>b\<close> of two directories of the model.  Temporary
  files are never read and are not entries; a left-over temporary file makes the exclusive create of
  the next one fail, which is a value of \<open>io_open\<close>.  The mutex makes every exported method atomic.
\<close>

abbreviation (input) slot_a :: string where "slot_a \<equiv> ''a''"
abbreviation (input) slot_b :: string where "slot_b \<equiv> ''b''"
abbreviation (input) stateName :: string where "stateName \<equiv> ''state.json''"
abbreviation (input) maxStateBytes :: nat where "maxStateBytes \<equiv> 4096"
abbreviation (input) maxManifestBytes :: nat where "maxManifestBytes \<equiv> 16384"

definition validSlots :: "string \<Rightarrow> bool" where
  "validSlots slot \<longleftrightarrow> slot = slot_a \<or> slot = slot_b"

record Config =
  cfg_Root :: string
  cfg_Target :: string
  cfg_PublicKeys :: "(string \<times> bytes) list"

record Status =
  sta_ActiveSlot :: string
  sta_KnownGoodSlot :: string
  sta_PendingSlot :: string
  sta_AwaitingHealth :: bool
  sta_BootAttempted :: bool
  sta_SecurityRevision :: u64

record persistentState =
  ps_Version :: int
  ps_Active :: string
  ps_KnownGood :: string
  ps_Pending :: string
  ps_Previous :: string
  ps_AwaitingHealth :: bool
  ps_BootAttempted :: bool
  ps_SecurityRevision :: u64

record Manager =
  mgr_target :: string
  mgr_publicKeys :: "string \<Rightarrow> bytes option"
  mgr_ownership :: "Lock option"
  mgr_state :: persistentState
  mgr_closed :: bool
  mgr_closeErr :: "unit result"

record slot_store =
  st_root :: "persistentState fs"
  st_manifest :: "Manifest fs"
  st_artifact :: "bytes fs"

section \<open>State file\<close>

definition validateState :: "persistentState \<Rightarrow> unit result" where
  "validateState s =
     (if ps_Version s \<noteq> 1 then Inl (ErrMsg ''invalid software update state version'')
      else if list_ex (\<lambda>slot. slot \<noteq> [] \<and> \<not> validSlots slot)
                [ps_Active s, ps_KnownGood s, ps_Pending s, ps_Previous s]
      then Inl (ErrMsg ''invalid software update slot state'')
      else if ps_Pending s \<noteq> [] \<and> ps_Pending s = ps_Active s
         \<or> ps_KnownGood s \<noteq> [] \<and> ps_Active s = []
         \<or> ps_AwaitingHealth s \<and> ps_Active s = []
         \<or> \<not> ps_AwaitingHealth s \<and> (ps_Previous s \<noteq> [] \<or> ps_BootAttempted s)
      then Inl (ErrMsg ''inconsistent software update transition'')
      else Inr ())"

fun referenced_slots :: "string list \<Rightarrow> string list \<Rightarrow> string list" where
  "referenced_slots seen [] = []"
| "referenced_slots seen (slot # slots) =
     (if validSlots slot \<and> slot \<notin> set seen then slot # referenced_slots (slot # seen) slots
      else referenced_slots seen slots)"

definition uniqueReferencedSlots :: "persistentState \<Rightarrow> string list" where
  "uniqueReferencedSlots s = referenced_slots [] [ps_Active s, ps_KnownGood s, ps_Pending s, ps_Previous s]"

definition json_persistentState :: "persistentState \<Rightarrow> string" where
  "json_persistentState s = json_object
     ([(''version'', show_int (ps_Version s))]
      @ omit_if (ps_Active s = []) ''active'' (json_string (ps_Active s))
      @ omit_if (ps_KnownGood s = []) ''knownGood'' (json_string (ps_KnownGood s))
      @ omit_if (ps_Pending s = []) ''pending'' (json_string (ps_Pending s))
      @ omit_if (ps_Previous s = []) ''previous'' (json_string (ps_Previous s))
      @ omit_if (\<not> ps_AwaitingHealth s) ''awaitingHealth'' (json_bool (ps_AwaitingHealth s))
      @ omit_if (\<not> ps_BootAttempted s) ''bootAttempted'' (json_bool (ps_BootAttempted s))
      @ [(''securityRevision'', json_u64 (ps_SecurityRevision s))])"

text \<open>\<open>errors.Join\<close> of the write, sync and close errors is one \<open>ErrOs\<close>.\<close>

definition writeAtomic :: "io \<Rightarrow> nat \<Rightarrow> string \<Rightarrow> 'c \<Rightarrow> nat \<Rightarrow> 'c fs \<Rightarrow> unit result \<times> 'c fs" where
  "writeAtomic w mode p c len f =
     (if \<not> io_open w then (Inl (ErrMsg ''create atomic software update file''), f)
      else if \<not> io_write w \<or> \<not> io_sync w \<or> \<not> io_close w then (Inl ErrOs, f)
      else if \<not> io_rename w then (Inl (ErrMsg ''commit atomic software update file''), f)
      else
        let f' = fs_put p (node_sync (node_write c len (new_node mode))) f
        in if \<not> io_chmod w then (Inl (ErrMsg ''protect software update file''), f') else (Inr (), f'))"

definition update_syncDirectory :: "io \<Rightarrow> unit result" where
  "update_syncDirectory w =
     (if \<not> io_diropen w then Inl (ErrMsg ''open software update directory'')
      else if \<not> io_dirsync w then Inl (ErrMsg ''sync software update directory'') else Inr ())"

definition storeState :: "io \<Rightarrow> persistentState \<Rightarrow> persistentState fs \<Rightarrow> unit result \<times> persistentState fs" where
  "storeState w s f =
     (case validateState s of Inl e \<Rightarrow> (Inl e, f) | Inr _ \<Rightarrow>
      case writeAtomic w mode_0600 stateName s (length (json_persistentState s)) f of
        (Inl e, f') \<Rightarrow> (Inl e, f')
      | (Inr _, f') \<Rightarrow>
          (case update_syncDirectory w of Inl e \<Rightarrow> (Inl e, f') | Inr _ \<Rightarrow> (Inr (), fs_dirsync f')))"

definition readPrivateFile :: "io \<Rightarrow> nat \<Rightarrow> nat \<Rightarrow> string \<Rightarrow> 'c fs \<Rightarrow> 'c option result" where
  "readPrivateFile w maximum mode p f =
     (case fs_live f p of
        None \<Rightarrow> Inl ErrNotExist
      | Some n \<Rightarrow>
          if node_type n \<noteq> RegularFile \<or> node_perm n \<noteq> mode \<or> \<not> node_owned n \<or> node_size n > maximum
          then Inl (ErrMsg ''invalid private software update file'')
          else if \<not> io_open w then Inl ErrOs
          else if \<not> io_read w then Inl (ErrMsg ''read bounded software update file'')
          else Inr (node_data n))"

definition requirePrivateDirectory :: "unit node option \<Rightarrow> unit result" where
  "requirePrivateDirectory info =
     (case info of
        None \<Rightarrow> Inl (ErrMsg ''software update directory is not private'')
      | Some n \<Rightarrow>
          if node_type n \<noteq> DirectoryFile \<or> node_perm n \<noteq> mode_0700 \<or> \<not> node_owned n
          then Inl (ErrMsg ''software update directory is not private'') else Inr ())"

section \<open>Slots\<close>

text \<open>Syncing the directory of one slot makes its manifest and its artifact durable.\<close>

definition sync_entry :: "string \<Rightarrow> 'c fs \<Rightarrow> 'c fs" where
  "sync_entry p f = f\<lparr>fs_disk := (fs_disk f)(p := fs_live f p)\<rparr>"

definition sync_slot :: "string \<Rightarrow> slot_store \<Rightarrow> slot_store" where
  "sync_slot slot st = st\<lparr>st_manifest := sync_entry slot (st_manifest st),
     st_artifact := sync_entry slot (st_artifact st)\<rparr>"

definition readManifest :: "io \<Rightarrow> string \<Rightarrow> slot_store \<Rightarrow> Manifest result" where
  "readManifest w slot st =
     (if \<not> validSlots slot then Inl (ErrMsg ''invalid software update slot'')
      else case readPrivateFile w maxManifestBytes mode_0600 slot (st_manifest st) of
        Inl e \<Rightarrow> Inl (ErrMsg ''read installed software manifest'')
      | Inr None \<Rightarrow> Inl (ErrMsg ''decode installed software manifest'')
      | Inr (Some m) \<Rightarrow> Inr m)"

text \<open>A key that is not in the map is Go's nil slice.\<close>

definition key_of :: "(string \<Rightarrow> bytes option) \<Rightarrow> string \<Rightarrow> bytes" where
  "key_of keys keyID = (case keys keyID of None \<Rightarrow> [] | Some k \<Rightarrow> k)"

text \<open>An artifact whose content was lost in a crash is \<open>None\<close>: some bytes, which do not have the digest.\<close>

definition verifyInstalledSlot :: "verify_fun \<Rightarrow> (io \<times> io) \<Rightarrow> (string \<Rightarrow> bytes option) \<Rightarrow> string \<Rightarrow> string
    \<Rightarrow> u64 \<Rightarrow> slot_store \<Rightarrow> unit result" where
  "verifyInstalledSlot verify ws keys target slot revision st =
     (case readManifest (fst ws) slot st of Inl e \<Rightarrow> Inl e | Inr m \<Rightarrow>
      case VerifyInstalled verify m (key_of keys (man_KeyID m)) target revision of
        Inl e \<Rightarrow> Inl (ErrMsg ''installed software manifest failed verification'')
      | Inr _ \<Rightarrow>
      case fs_live (st_artifact st) slot of
        None \<Rightarrow> Inl (ErrMsg ''invalid installed software artifact'')
      | Some n \<Rightarrow>
          if node_type n \<noteq> RegularFile then Inl (ErrMsg ''invalid installed software artifact'')
          else if \<not> io_open (snd ws) then Inl (ErrMsg ''open installed software artifact'')
          else if node_perm n \<noteq> mode_0500 \<or> \<not> node_owned n \<or> (word_of_nat (node_size n) :: u64) \<noteq> man_SizeBytes m
          then Inl (ErrMsg ''invalid installed software artifact'')
          else (case node_data n of
              None \<Rightarrow> Inl (ErrMsg ''installed software artifact failed verification'')
            | Some data \<Rightarrow>
                (case VerifyArtifact m data (\<not> io_read (snd ws)) of
                   Inl e \<Rightarrow> Inl (ErrMsg ''installed software artifact failed verification'')
                 | Inr _ \<Rightarrow> Inr ())))"

section \<open>Opening\<close>

definition initialState :: persistentState where
  "initialState = \<lparr>ps_Version = 1, ps_Active = [], ps_KnownGood = [], ps_Pending = [], ps_Previous = [],
     ps_AwaitingHealth = False, ps_BootAttempted = False, ps_SecurityRevision = 0\<rparr>"

fun verify_slots :: "(string \<Rightarrow> unit result) \<Rightarrow> string list \<Rightarrow> unit result" where
  "verify_slots check [] = Inr ()"
| "verify_slots check (slot # slots) = (case check slot of Inl e \<Rightarrow> Inl e | Inr _ \<Rightarrow> verify_slots check slots)"

text \<open>The state \<open>loadAndRecover\<close> continues with after it has read and verified \<open>s\<close>.\<close>

definition recovered :: "persistentState \<Rightarrow> persistentState option" where
  "recovered s =
     (if ps_AwaitingHealth s \<and> \<not> ps_BootAttempted s then Some (s\<lparr>ps_BootAttempted := True\<rparr>)
      else if ps_AwaitingHealth s
      then Some (s\<lparr>ps_Active := (if validSlots (ps_KnownGood s) then ps_KnownGood s else []),
             ps_Previous := [], ps_AwaitingHealth := False, ps_BootAttempted := False\<rparr>)
      else None)"

definition loadAndRecover :: "verify_fun \<Rightarrow> io \<Rightarrow> io \<Rightarrow> (string \<Rightarrow> io \<times> io) \<Rightarrow> Manager \<Rightarrow> slot_store
    \<Rightarrow> Manager result \<times> slot_store" where
  "loadAndRecover verify wr w ws m st =
     (case readPrivateFile wr maxStateBytes mode_0600 stateName (st_root st) of
        Inl ErrNotExist \<Rightarrow>
          (case storeState w (mgr_state m) (st_root st) of
             (Inl e, f) \<Rightarrow> (Inl e, st\<lparr>st_root := f\<rparr>)
           | (Inr _, f) \<Rightarrow> (Inr m, st\<lparr>st_root := f\<rparr>))
      | Inl _ \<Rightarrow> (Inl (ErrMsg ''read software update state''), st)
      | Inr None \<Rightarrow> (Inl (ErrMsg ''invalid software update state''), st)
      | Inr (Some s) \<Rightarrow>
          if validateState s \<noteq> Inr () then (Inl (ErrMsg ''invalid software update state''), st)
          else (case verify_slots (\<lambda>slot. verifyInstalledSlot verify (ws slot) (mgr_publicKeys m) (mgr_target m)
                    slot (ps_SecurityRevision s) st) (uniqueReferencedSlots s) of
              Inl e \<Rightarrow> (Inl e, st)
            | Inr _ \<Rightarrow>
                (case recovered s of
                   None \<Rightarrow> (Inr (m\<lparr>mgr_state := s\<rparr>), st)
                 | Some s' \<Rightarrow>
                     (case storeState w s' (st_root st) of
                        (Inl e, f) \<Rightarrow> (Inl e, st\<lparr>st_root := f\<rparr>)
                      | (Inr _, f) \<Rightarrow> (Inr (m\<lparr>mgr_state := s'\<rparr>), st\<lparr>st_root := f\<rparr>)))))"

text \<open>What \<open>Open\<close> meets: the directories, the lock, and the outcomes of its reads and of its write.\<close>

record open_env =
  oe_mkdir :: bool
  oe_info :: "unit node option"
  oe_slot_mkdir :: "string \<Rightarrow> bool"
  oe_slot_info :: "string \<Rightarrow> unit node option"
  oe_lock :: lock_obs
  oe_inode :: nat
  oe_fd :: nat
  oe_read :: io
  oe_store :: io
  oe_slots :: "string \<Rightarrow> io \<times> io"

definition trust_root_ok :: "(string \<times> bytes) list \<Rightarrow> bool" where
  "trust_root_ok keys \<longleftrightarrow>
     list_all (\<lambda>(keyID, key). keyID \<noteq> [] \<and> length keyID \<le> 512 \<and> length key = PublicKeySize) keys"

fun open_slots :: "open_env \<Rightarrow> string list \<Rightarrow> unit result" where
  "open_slots env [] = Inr ()"
| "open_slots env (slot # slots) =
     (if \<not> oe_slot_mkdir env slot then Inl (ErrMsg ''create software update slot'')
      else case requirePrivateDirectory (oe_slot_info env slot) of Inl e \<Rightarrow> Inl e
      | Inr _ \<Rightarrow> open_slots env slots)"

definition new_manager :: "Config \<Rightarrow> Lock \<Rightarrow> Manager" where
  "new_manager config l = \<lparr>mgr_target = cfg_Target config, mgr_publicKeys = map_of (cfg_PublicKeys config),
     mgr_ownership = Some l, mgr_state = initialState, mgr_closed = False, mgr_closeErr = Inr ()\<rparr>"

definition update_Open :: "verify_fun \<Rightarrow> open_env \<Rightarrow> Config \<Rightarrow> kernel \<Rightarrow> slot_store
    \<Rightarrow> Manager result \<times> kernel \<times> slot_store" where
  "update_Open verify env config k st =
     (if \<not> is_abs (cfg_Root config) \<or> path_clean (cfg_Root config) \<noteq> cfg_Root config \<or> cfg_Target config = []
         \<or> length (cfg_Target config) > 256 \<or> cfg_PublicKeys config = []
      then (Inl (ErrMsg ''invalid software update configuration''), k, st)
      else if \<not> trust_root_ok (cfg_PublicKeys config)
      then (Inl (ErrMsg ''invalid software update trust root''), k, st)
      else if \<not> oe_mkdir env then (Inl (ErrMsg ''create software update root''), k, st)
      else case requirePrivateDirectory (oe_info env) of Inl e \<Rightarrow> (Inl e, k, st) | Inr _ \<Rightarrow>
      case Acquire (cfg_Root config) ''.software-update.lock'' (oe_lock env) (oe_inode env) (oe_fd env) k of
        (Inl e, k') \<Rightarrow> (Inl (ErrMsg ''software update root is already owned''), k', st)
      | (Inr l, k') \<Rightarrow>
          (case open_slots env [slot_a, slot_b] of
             Inl e \<Rightarrow> (Inl e, snd (snd (Lock_Close True True l k')), st)
           | Inr _ \<Rightarrow>
               (case loadAndRecover verify (oe_read env) (oe_store env) (oe_slots env) (new_manager config l) st of
                  (Inl e, st') \<Rightarrow> (Inl e, snd (snd (Lock_Close True True l k')), st')
                | (Inr m, st') \<Rightarrow> (Inr m, k', st'))))"

section \<open>Transitions\<close>

text \<open>
  The outcomes of the system calls of \<open>Stage\<close>: those on the artifact, those on the manifest and its
  slot directory, those on the state file; and whether the context has ended when the copy is done.
  The reader gives \<open>data\<close> and then fails or not; a context that ends during the copy and a failing
  write to the temporary file both surface as a failing read.  \<open>Artifact\<close> is \<open>None\<close> for a nil reader.
\<close>

record stage_io =
  sio_artifact :: io
  sio_manifest :: io
  sio_state :: io
  sio_cancelled :: bool

definition stage_slot :: "persistentState \<Rightarrow> string" where
  "stage_slot s = (if ps_Active s = slot_a then slot_b else slot_a)"

definition commit_artifact :: "io \<Rightarrow> string \<Rightarrow> bytes \<Rightarrow> bytes fs \<Rightarrow> unit result \<times> bytes fs" where
  "commit_artifact w slot data f =
     (if \<not> io_rename w then (Inl (ErrMsg ''commit staged software artifact''), f)
      else
        let n = node_sync (node_write data (length data) (new_node mode_0600))
        in if \<not> io_chmod w then (Inl (ErrMsg ''protect staged software artifact''), fs_put slot n f)
           else (Inr (), fs_put slot (n\<lparr>node_perm := mode_0500\<rparr>) f))"

text \<open>The part of \<open>Stage\<close> after the checks, which touches one slot and then the state file.\<close>

definition install_slot :: "stage_io \<Rightarrow> Manager \<Rightarrow> Manifest \<Rightarrow> bytes \<Rightarrow> slot_store
    \<Rightarrow> string result \<times> Manager \<times> slot_store" where
  "install_slot w m manifest data st =
     (let slot = stage_slot (mgr_state m) in
      case commit_artifact (sio_artifact w) slot data (st_artifact st) of
        (Inl e, fa) \<Rightarrow> (Inl e, m, st\<lparr>st_artifact := fa\<rparr>)
      | (Inr _, fa) \<Rightarrow>
      case writeAtomic (sio_manifest w) mode_0600 slot manifest (length (json_Manifest manifest)) (st_manifest st) of
        (Inl e, fm) \<Rightarrow> (Inl e, m, st\<lparr>st_artifact := fa, st_manifest := fm\<rparr>)
      | (Inr _, fm) \<Rightarrow>
      let st1 = st\<lparr>st_artifact := fa, st_manifest := fm\<rparr> in
      case update_syncDirectory (sio_manifest w) of Inl e \<Rightarrow> (Inl e, m, st1)
      | Inr _ \<Rightarrow>
      let st2 = sync_slot slot st1; s' = (mgr_state m)\<lparr>ps_Pending := slot\<rparr> in
      case storeState (sio_state w) s' (st_root st2) of
        (Inl e, f) \<Rightarrow> (Inl e, m, st2\<lparr>st_root := f\<rparr>)
      | (Inr _, f) \<Rightarrow> (Inr slot, m\<lparr>mgr_state := s'\<rparr>, st2\<lparr>st_root := f\<rparr>))"

definition Stage :: "verify_fun \<Rightarrow> stage_io \<Rightarrow> Manager \<Rightarrow> Manifest \<Rightarrow> (bytes \<times> bool) option \<Rightarrow> instant
    \<Rightarrow> slot_store \<Rightarrow> string result \<times> Manager \<times> slot_store" where
  "Stage verify w m manifest artifact now st =
     (case artifact of None \<Rightarrow> (Inl (ErrMsg ''invalid software update stage request''), m, st)
      | Some (data, fails) \<Rightarrow>
      if mgr_closed m then (Inl (ErrMsg ''software update manager is closed''), m, st)
      else if ps_Pending (mgr_state m) \<noteq> [] \<or> ps_AwaitingHealth (mgr_state m)
      then (Inl (ErrMsg ''software update transition already pending''), m, st)
      else let key = key_of (mgr_publicKeys m) (man_KeyID manifest) in
      if length key \<noteq> PublicKeySize then (Inl (ErrMsg ''software update signing key is not trusted''), m, st)
      else case manifest_Verify verify manifest key (mgr_target m) (ps_SecurityRevision (mgr_state m)) now of
        Inl e \<Rightarrow> (Inl (wrap_error ''verify software update manifest: '' e), m, st)
      | Inr _ \<Rightarrow>
      if \<not> io_open (sio_artifact w) then (Inl (ErrMsg ''create staged software artifact''), m, st)
      else case VerifyArtifact manifest data fails of Inl e \<Rightarrow> (Inl e, m, st)
      | Inr _ \<Rightarrow>
      if \<not> io_sync (sio_artifact w) \<or> \<not> io_close (sio_artifact w) then (Inl ErrOs, m, st)
      else if sio_cancelled w then (Inl ErrContext, m, st)
      else install_slot w m manifest data st)"

text \<open>The ending the three remaining transitions share: store the next state, then adopt it.\<close>

definition adopt :: "io \<Rightarrow> persistentState \<Rightarrow> Manager \<Rightarrow> slot_store \<Rightarrow> unit result \<times> Manager \<times> slot_store" where
  "adopt w s m st =
     (case storeState w s (st_root st) of
        (Inl e, f) \<Rightarrow> (Inl e, m, st\<lparr>st_root := f\<rparr>)
      | (Inr _, f) \<Rightarrow> (Inr (), m\<lparr>mgr_state := s\<rparr>, st\<lparr>st_root := f\<rparr>))"

definition activated :: "persistentState \<Rightarrow> persistentState" where
  "activated s = s\<lparr>ps_Previous := ps_Active s, ps_Active := ps_Pending s, ps_Pending := [],
     ps_AwaitingHealth := True, ps_BootAttempted := False\<rparr>"

definition ActivatePending :: "io \<Rightarrow> Manager \<Rightarrow> slot_store \<Rightarrow> unit result \<times> Manager \<times> slot_store" where
  "ActivatePending w m st =
     (if mgr_closed m \<or> \<not> validSlots (ps_Pending (mgr_state m)) \<or> ps_AwaitingHealth (mgr_state m)
      then (Inl (ErrMsg ''no software update is ready for activation''), m, st)
      else adopt w (activated (mgr_state m)) m st)"

definition confirmed :: "Manifest \<Rightarrow> persistentState \<Rightarrow> persistentState" where
  "confirmed manifest s = s\<lparr>ps_KnownGood := ps_Active s, ps_Previous := [], ps_AwaitingHealth := False,
     ps_BootAttempted := False,
     ps_SecurityRevision := (if man_SecurityRevision manifest > ps_SecurityRevision s
       then man_SecurityRevision manifest else ps_SecurityRevision s)\<rparr>"

definition ConfirmHealthy :: "io \<Rightarrow> io \<Rightarrow> Manager \<Rightarrow> slot_store \<Rightarrow> unit result \<times> Manager \<times> slot_store" where
  "ConfirmHealthy wr w m st =
     (if mgr_closed m \<or> \<not> ps_AwaitingHealth (mgr_state m) \<or> \<not> ps_BootAttempted (mgr_state m)
         \<or> \<not> validSlots (ps_Active (mgr_state m))
      then (Inl (ErrMsg ''no activated software update awaits health confirmation''), m, st)
      else case readManifest wr (ps_Active (mgr_state m)) st of
        Inl e \<Rightarrow> (Inl e, m, st)
      | Inr manifest \<Rightarrow> adopt w (confirmed manifest (mgr_state m)) m st)"

definition rolled_back :: "persistentState \<Rightarrow> persistentState" where
  "rolled_back s = s\<lparr>ps_Active := ps_KnownGood s, ps_Pending := [], ps_Previous := [],
     ps_AwaitingHealth := False, ps_BootAttempted := False\<rparr>"

definition Rollback :: "io \<Rightarrow> Manager \<Rightarrow> slot_store \<Rightarrow> unit result \<times> Manager \<times> slot_store" where
  "Rollback w m st =
     (if mgr_closed m \<or> \<not> validSlots (ps_KnownGood (mgr_state m))
         \<or> \<not> ps_AwaitingHealth (mgr_state m) \<and> ps_Active (mgr_state m) = ps_KnownGood (mgr_state m)
      then (Inl (ErrMsg ''no known-good software rollback is available''), m, st)
      else adopt w (rolled_back (mgr_state m)) m st)"

definition manager_Status :: "Manager option \<Rightarrow> Status result" where
  "manager_Status mo = (case mo of None \<Rightarrow> Inl (ErrMsg ''invalid software update manager'')
     | Some m \<Rightarrow>
         if mgr_closed m then Inl (ErrMsg ''software update manager is closed'')
         else let s = mgr_state m in
           Inr \<lparr>sta_ActiveSlot = ps_Active s, sta_KnownGoodSlot = ps_KnownGood s, sta_PendingSlot = ps_Pending s,
             sta_AwaitingHealth = ps_AwaitingHealth s, sta_BootAttempted = ps_BootAttempted s,
             sta_SecurityRevision = ps_SecurityRevision s\<rparr>)"

text \<open>\<open>closeOnce\<close> has run exactly when \<open>closed\<close> is set.\<close>

definition manager_Close :: "bool \<Rightarrow> bool \<Rightarrow> Manager \<Rightarrow> kernel \<Rightarrow> unit result \<times> Manager \<times> kernel" where
  "manager_Close u c m k =
     (if mgr_closed m then (mgr_closeErr m, m, k)
      else case mgr_ownership m of
        None \<Rightarrow> (mgr_closeErr m, m\<lparr>mgr_closed := True\<rparr>, k)
      | Some l \<Rightarrow> (case Lock_Close u c l k of
          (r, l', k') \<Rightarrow> (r, m\<lparr>mgr_closed := True, mgr_ownership := Some l', mgr_closeErr := r\<rparr>, k')))"

section \<open>The system over its whole life\<close>

text \<open>
  At most one manager is open on a root (the directory lock, theory \<open>Dir_Lock\<close>), so the system is the
  store with the open manager, if there is one.  A step is an opening, successful or not, an exported
  method with any outcome of its system calls, a close, or a crash.  The predicate \<open>ok\<close> restricts the
  outcomes of the calls on the state file and \<open>fits\<close> the manifests that are staged.
\<close>

record update_system =
  us_manager :: "Manager option"
  us_store :: slot_store

type_synonym crash_choice = "string \<Rightarrow> bool \<times> bool"

definition store_crash :: "crash_choice \<Rightarrow> crash_choice \<Rightarrow> crash_choice \<Rightarrow> slot_store \<Rightarrow> slot_store" where
  "store_crash c1 c2 c3 st = \<lparr>st_root = fs_crash c1 (st_root st), st_manifest = fs_crash c2 (st_manifest st),
     st_artifact = fs_crash c3 (st_artifact st)\<rparr>"

inductive update_step :: "verify_fun \<Rightarrow> Config \<Rightarrow> (io \<Rightarrow> bool) \<Rightarrow> (Manifest \<Rightarrow> bool)
    \<Rightarrow> update_system \<Rightarrow> update_system \<Rightarrow> bool"
  for verify config ok fits where
  up_open: "us_manager s = None \<Longrightarrow> ok (oe_store env) \<Longrightarrow>
    update_Open verify env config k (us_store s) = (r, k', st') \<Longrightarrow>
    update_step verify config ok fits s
      \<lparr>us_manager = (case r of Inl _ \<Rightarrow> None | Inr m \<Rightarrow> Some m), us_store = st'\<rparr>"
| up_stage: "us_manager s = Some m \<Longrightarrow> ok (sio_state w) \<Longrightarrow> fits manifest \<Longrightarrow>
    Stage verify w m manifest artifact now (us_store s) = (r1, m', st') \<Longrightarrow>
    update_step verify config ok fits s \<lparr>us_manager = Some m', us_store = st'\<rparr>"
| up_activate: "us_manager s = Some m \<Longrightarrow> ok w1 \<Longrightarrow> ActivatePending w1 m (us_store s) = (r2, m', st') \<Longrightarrow>
    update_step verify config ok fits s \<lparr>us_manager = Some m', us_store = st'\<rparr>"
| up_confirm: "us_manager s = Some m \<Longrightarrow> ok w1 \<Longrightarrow> ConfirmHealthy wr w1 m (us_store s) = (r2, m', st') \<Longrightarrow>
    update_step verify config ok fits s \<lparr>us_manager = Some m', us_store = st'\<rparr>"
| up_rollback: "us_manager s = Some m \<Longrightarrow> ok w1 \<Longrightarrow> Rollback w1 m (us_store s) = (r2, m', st') \<Longrightarrow>
    update_step verify config ok fits s \<lparr>us_manager = Some m', us_store = st'\<rparr>"
| up_close: "us_manager s = Some m \<Longrightarrow> update_step verify config ok fits s (s\<lparr>us_manager := None\<rparr>)"
| up_crash: "update_step verify config ok fits s \<lparr>us_manager = None, us_store = store_crash c1 c2 c3 (us_store s)\<rparr>"

definition update_init :: "update_system \<Rightarrow> bool" where
  "update_init s \<longleftrightarrow> us_manager s = None \<and>
     us_store s = \<lparr>st_root = fs_empty, st_manifest = fs_empty, st_artifact = fs_empty\<rparr>"

subsection \<open>The states a manager is ever in\<close>

definition slot_inv :: "persistentState \<Rightarrow> bool" where
  "slot_inv s \<longleftrightarrow> validateState s = Inr () \<and>
     (if ps_AwaitingHealth s then ps_Pending s = [] \<and> ps_Active s \<noteq> ps_KnownGood s \<and> ps_Previous s = ps_KnownGood s
      else ps_Active s = ps_KnownGood s)"

lemma validateState_ok:
  "validateState s = Inr () \<longleftrightarrow> ps_Version s = 1
     \<and> (\<forall>slot \<in> {ps_Active s, ps_KnownGood s, ps_Pending s, ps_Previous s}. slot = [] \<or> validSlots slot)
     \<and> (ps_Pending s = [] \<or> ps_Pending s \<noteq> ps_Active s) \<and> (ps_KnownGood s = [] \<or> ps_Active s \<noteq> [])
     \<and> (if ps_AwaitingHealth s then ps_Active s \<noteq> [] else ps_Previous s = [] \<and> \<not> ps_BootAttempted s)"
  by (auto simp: validateState_def)

lemma validSlots_empty [simp]: "\<not> validSlots []"
  by (simp add: validSlots_def)

lemma validSlots_stage [simp]: "validSlots (stage_slot s)"
  by (simp add: validSlots_def stage_slot_def)

lemma stage_slot_other [simp]: "stage_slot s \<noteq> []" "stage_slot s \<noteq> ps_Active s"
  by (auto simp: stage_slot_def)

lemmas slot_inv_unfold = slot_inv_def validateState_ok

lemma slot_inv_initial [simp]: "slot_inv initialState"
  by (simp add: slot_inv_unfold initialState_def)

lemma slot_inv_valid: "slot_inv s \<Longrightarrow> validateState s = Inr ()"
  by (simp add: slot_inv_def)

lemma slot_inv_staged:
  assumes "slot_inv s" and "ps_Pending s = []" and "\<not> ps_AwaitingHealth s"
  shows "slot_inv (s\<lparr>ps_Pending := stage_slot s\<rparr>)"
  using assms stage_slot_other(2) [of s] by (simp add: slot_inv_unfold del: stage_slot_other(2))

lemma slot_inv_activated:
  assumes "slot_inv s" and "validSlots (ps_Pending s)" and "\<not> ps_AwaitingHealth s"
  shows "slot_inv (activated s)"
proof -
  have "ps_Pending s \<noteq> []" using assms(2) by auto
  then show ?thesis using assms by (auto simp: slot_inv_unfold activated_def)
qed

lemma slot_inv_confirmed:
  assumes "slot_inv s" and "ps_AwaitingHealth s"
  shows "slot_inv (confirmed manifest s)"
  using assms by (auto simp: slot_inv_unfold confirmed_def)

lemma slot_inv_rolled_back:
  assumes "slot_inv s" and "validSlots (ps_KnownGood s)"
  shows "slot_inv (rolled_back s)"
  using assms by (auto simp: slot_inv_unfold rolled_back_def)

lemma slot_inv_recovered:
  assumes "slot_inv s" and "recovered s = Some s'"
  shows "slot_inv s'"
proof (cases "ps_BootAttempted s")
  case True
  then have "ps_AwaitingHealth s" and "ps_KnownGood s = [] \<or> validSlots (ps_KnownGood s)"
    using assms by (auto simp: slot_inv_unfold recovered_def split: if_splits)
  then have "s' = s\<lparr>ps_Active := ps_KnownGood s, ps_Previous := [], ps_AwaitingHealth := False, ps_BootAttempted := False\<rparr>"
    using assms(2) True by (auto simp: recovered_def)
  then show ?thesis using assms(1) by (auto simp: slot_inv_unfold split: if_splits)
next
  case False
  then have "ps_AwaitingHealth s" and "s' = s\<lparr>ps_BootAttempted := True\<rparr>"
    using assms(2) by (simp_all add: recovered_def split: if_splits)
  then show ?thesis using assms(1) by (auto simp: slot_inv_unfold)
qed

lemmas slot_inv_intros =
  slot_inv_staged slot_inv_activated slot_inv_confirmed slot_inv_rolled_back slot_inv_recovered

text \<open>The state file as a write leaves it.\<close>

definition state_node :: "persistentState \<Rightarrow> persistentState node" where
  "state_node s = node_sync (node_write s (length (json_persistentState s)) (new_node mode_0600))"

lemma storeState_cases:
  assumes "storeState w s f = (r, f')"
  obtains (kept) e where "r = Inl e" and "f' = f"
    | (replaced) e where "r = Inl e" and "io_rename w" and "\<not> (io_chmod w \<and> io_diropen w \<and> io_dirsync w)"
        and "f' = fs_put stateName (state_node s) f"
    | (stored) "r = Inr ()" and "f' = fs_dirsync (fs_put stateName (state_node s) f)" and "validateState s = Inr ()"
proof (cases "validateState s")
  case (Inl e)
  then have "r = Inl e" and "f' = f" using assms by (auto simp: storeState_def)
  then show ?thesis by (rule kept)
next
  case (Inr u)
  note unfolded = storeState_def writeAtomic_def update_syncDirectory_def state_node_def Let_def
  show ?thesis
  proof (cases "io_open w \<and> io_write w \<and> io_sync w \<and> io_close w \<and> io_rename w")
    case False
    then have "(\<exists>e. r = Inl e) \<and> f' = f" using assms Inr by (auto simp: unfolded split: if_splits)
    then show ?thesis using kept by blast
  next
    case True
    then have "(\<exists>e. r = Inl e) \<and> \<not> (io_chmod w \<and> io_diropen w \<and> io_dirsync w) \<and> f' = fs_put stateName (state_node s) f
        \<or> r = Inr () \<and> f' = fs_dirsync (fs_put stateName (state_node s) f)"
      using assms Inr by (auto simp: unfolded split: if_splits)
    then show ?thesis
      using True Inr replaced stored by (metis (full_types) old.unit.exhaust)
  qed
qed

subsection \<open>Which transition each operation makes\<close>

datatype update_event = EvStage string | EvActivate | EvConfirm u64 | EvRollback | EvRestart

inductive next_state :: "persistentState \<Rightarrow> update_event \<Rightarrow> persistentState \<Rightarrow> bool" where
  ns_stage: "ps_Pending s = [] \<Longrightarrow> \<not> ps_AwaitingHealth s \<Longrightarrow>
    next_state s (EvStage (stage_slot s)) (s\<lparr>ps_Pending := stage_slot s\<rparr>)"
| ns_activate: "validSlots (ps_Pending s) \<Longrightarrow> \<not> ps_AwaitingHealth s \<Longrightarrow> next_state s EvActivate (activated s)"
| ns_confirm: "ps_AwaitingHealth s \<Longrightarrow> ps_BootAttempted s \<Longrightarrow>
    next_state s (EvConfirm (man_SecurityRevision manifest)) (confirmed manifest s)"
| ns_rollback: "validSlots (ps_KnownGood s) \<Longrightarrow> ps_AwaitingHealth s \<or> ps_Active s \<noteq> ps_KnownGood s \<Longrightarrow>
    next_state s EvRollback (rolled_back s)"
| ns_restart: "recovered s = Some s' \<Longrightarrow> next_state s EvRestart s'"

lemma next_state_inv: "next_state s ev s' \<Longrightarrow> slot_inv s \<Longrightarrow> slot_inv s'"
  by (induction rule: next_state.induct) (auto intro: slot_inv_intros)

text \<open>An operation on an open manager stores the next state and adopts it when that succeeded.\<close>

definition stores :: "io \<Rightarrow> persistentState \<Rightarrow> Manager \<Rightarrow> slot_store \<Rightarrow> Manager \<Rightarrow> slot_store \<Rightarrow> bool" where
  "stores w s m st m' st' \<longleftrightarrow>
     (\<exists>r f. storeState w s (st_root st) = (r, f) \<and> st_root st' = f
        \<and> m' = (if r = Inr () then m\<lparr>mgr_state := s\<rparr> else m))"

definition same_slots :: "slot_store \<Rightarrow> slot_store \<Rightarrow> bool" where
  "same_slots st st' \<longleftrightarrow> st_manifest st' = st_manifest st \<and> st_artifact st' = st_artifact st"

lemma adopt_stores:
  assumes "adopt w s m st = (r, m', st')"
  shows "stores w s m st m' st'" and "same_slots st st'"
proof -
  obtain r1 f where "storeState w s (st_root st) = (r1, f)" by fastforce
  then show "stores w s m st m' st'" and "same_slots st st'"
    using assms by (cases r1; auto simp: adopt_def stores_def same_slots_def)+
qed

lemma ActivatePending_cases:
  assumes "ActivatePending w m st = (r, m', st')"
  obtains "m' = m" and "st' = st"
  | "next_state (mgr_state m) EvActivate (activated (mgr_state m))"
      and "stores w (activated (mgr_state m)) m st m' st'" and "same_slots st st'"
  using assms adopt_stores by (auto simp: ActivatePending_def intro: ns_activate split: if_splits)

lemma ConfirmHealthy_cases:
  assumes "ConfirmHealthy wr w m st = (r, m', st')"
  obtains "m' = m" and "st' = st"
  | manifest where "next_state (mgr_state m) (EvConfirm (man_SecurityRevision manifest)) (confirmed manifest (mgr_state m))"
      and "readManifest wr (ps_Active (mgr_state m)) st = Inr manifest"
      and "stores w (confirmed manifest (mgr_state m)) m st m' st'" and "same_slots st st'"
proof (cases "m' = m \<and> st' = st")
  case False
  then obtain manifest where "ps_AwaitingHealth (mgr_state m)" and "ps_BootAttempted (mgr_state m)"
      and "readManifest wr (ps_Active (mgr_state m)) st = Inr manifest"
      and "adopt w (confirmed manifest (mgr_state m)) m st = (r, m', st')"
    using assms by (auto simp: ConfirmHealthy_def split: if_splits sum.splits)
  then show ?thesis
    using that(2) ns_confirm adopt_stores by metis
qed (use that(1) in blast)

lemma Rollback_cases:
  assumes "Rollback w m st = (r, m', st')"
  obtains "m' = m" and "st' = st"
  | "next_state (mgr_state m) EvRollback (rolled_back (mgr_state m))"
      and "stores w (rolled_back (mgr_state m)) m st m' st'" and "same_slots st st'"
  using assms adopt_stores by (auto simp: Rollback_def intro: ns_rollback split: if_splits)

definition only_slot :: "string \<Rightarrow> slot_store \<Rightarrow> slot_store \<Rightarrow> bool" where
  "only_slot slot st st' \<longleftrightarrow> (\<forall>p. p \<noteq> slot \<longrightarrow>
     fs_live (st_manifest st') p = fs_live (st_manifest st) p \<and> fs_disk (st_manifest st') p = fs_disk (st_manifest st) p \<and>
     fs_live (st_artifact st') p = fs_live (st_artifact st) p \<and> fs_disk (st_artifact st') p = fs_disk (st_artifact st) p)"

definition manifest_node :: "Manifest \<Rightarrow> Manifest node" where
  "manifest_node m = node_sync (node_write m (length (json_Manifest m)) (new_node mode_0600))"

definition artifact_node :: "bytes \<Rightarrow> bytes node" where
  "artifact_node data = (node_sync (node_write data (length data) (new_node mode_0600)))\<lparr>node_perm := mode_0500\<rparr>"

definition installed :: "string \<Rightarrow> Manifest \<Rightarrow> bytes \<Rightarrow> slot_store \<Rightarrow> slot_store" where
  "installed slot m data st = sync_slot slot (st\<lparr>st_artifact := fs_put slot (artifact_node data) (st_artifact st),
     st_manifest := fs_put slot (manifest_node m) (st_manifest st)\<rparr>)"

lemma sync_entry_simps [simp]:
  "fs_live (sync_entry p f) = fs_live f" "fs_disk (sync_entry p f) = (fs_disk f)(p := fs_live f p)"
  by (simp_all add: sync_entry_def)

lemma sync_slot_simps [simp]:
  "st_root (sync_slot slot st) = st_root st"
  "st_manifest (sync_slot slot st) = sync_entry slot (st_manifest st)"
  "st_artifact (sync_slot slot st) = sync_entry slot (st_artifact st)"
  by (simp_all add: sync_slot_def)

lemma writeAtomic_cases:
  assumes "writeAtomic w mode p c len f = (r, f')"
  shows "f' = f \<and> r \<noteq> Inr () \<or> f' = fs_put p (node_sync (node_write c len (new_node mode))) f"
  using assms by (auto simp: writeAtomic_def Let_def split: if_splits)

lemma commit_artifact_cases:
  assumes "commit_artifact w slot data f = (r, f')"
  shows "f' = f \<and> r \<noteq> Inr () \<or> r \<noteq> Inr () \<and> (\<exists>n. f' = fs_put slot n f) \<or> f' = fs_put slot (artifact_node data) f"
  using assms by (auto simp: commit_artifact_def artifact_node_def Let_def split: if_splits)

lemma install_slot_cases:
  assumes "install_slot w m manifest data st = (r, m', st')"
  obtains (failed) e where "r = Inl e" and "m' = m" and "st_root st' = st_root st" and "only_slot (stage_slot (mgr_state m)) st st'"
  | (completed) r' f where "storeState (sio_state w) ((mgr_state m)\<lparr>ps_Pending := stage_slot (mgr_state m)\<rparr>) (st_root st) = (r', f)"
      and "st' = (installed (stage_slot (mgr_state m)) manifest data st)\<lparr>st_root := f\<rparr>"
      and "m' = (if r' = Inr () then m\<lparr>mgr_state := (mgr_state m)\<lparr>ps_Pending := stage_slot (mgr_state m)\<rparr>\<rparr> else m)"
      and "r = (case r' of Inl e \<Rightarrow> Inl e | Inr _ \<Rightarrow> Inr (stage_slot (mgr_state m)))"
proof -
  define slot where "slot = stage_slot (mgr_state m)"
  obtain ra fa where a: "commit_artifact (sio_artifact w) slot data (st_artifact st) = (ra, fa)" by fastforce
  obtain rm fm where b: "writeAtomic (sio_manifest w) mode_0600 slot manifest
      (length (json_Manifest manifest)) (st_manifest st) = (rm, fm)" by fastforce
  note ca = commit_artifact_cases [OF a] and cb = writeAtomic_cases [OF b]
  have oa: "fs_live fa p = fs_live (st_artifact st) p \<and> fs_disk fa p = fs_disk (st_artifact st) p" if "p \<noteq> slot" for p
    using ca that by auto
  have ob: "fs_live fm p = fs_live (st_manifest st) p \<and> fs_disk fm p = fs_disk (st_manifest st) p" if "p \<noteq> slot" for p
    using cb that by auto
  show thesis
  proof (cases "ra = Inr () \<and> rm = Inr () \<and> update_syncDirectory (sio_manifest w) = Inr ()")
    case False
    then have "\<exists>e. r = Inl e" and "m' = m" and "st_root st' = st_root st" and "only_slot slot st st'"
      using assms a b oa ob unfolding install_slot_def Let_def only_slot_def slot_def [symmetric]
      by (auto split: sum.splits)
    then show ?thesis using failed slot_def by blast
  next
    case True
    then have fa: "fa = fs_put slot (artifact_node data) (st_artifact st)"
      and fm: "fm = fs_put slot (manifest_node manifest) (st_manifest st)"
      using ca cb by (simp_all add: manifest_node_def)
    obtain r' f where s: "storeState (sio_state w) ((mgr_state m)\<lparr>ps_Pending := slot\<rparr>) (st_root st) = (r', f)" by fastforce
    have "st' = (installed slot manifest data st)\<lparr>st_root := f\<rparr>"
      and "m' = (if r' = Inr () then m\<lparr>mgr_state := (mgr_state m)\<lparr>ps_Pending := slot\<rparr>\<rparr> else m)"
      and "r = (case r' of Inl e \<Rightarrow> Inl e | Inr _ \<Rightarrow> Inr slot)"
      using assms a b s fa fm True unfolding install_slot_def Let_def slot_def [symmetric] installed_def
      by (auto split: sum.splits)
    with s show ?thesis using completed slot_def by blast
  qed
qed

lemma Stage_cases:
  assumes "Stage verify w m manifest artifact now st = (r, m', st')"
  obtains (refused) e where "r = Inl e" and "m' = m" and "st' = st"
  | (installing) data where "artifact = Some (data, False)" and "\<not> mgr_closed m"
      and "ps_Pending (mgr_state m) = []" and "\<not> ps_AwaitingHealth (mgr_state m)"
      and "manifest_Verify verify manifest (key_of (mgr_publicKeys m) (man_KeyID manifest)) (mgr_target m)
             (ps_SecurityRevision (mgr_state m)) now = Inr ()"
      and "VerifyArtifact manifest data False = Inr ()"
      and "install_slot w m manifest data st = (r, m', st')"
      and "length (key_of (mgr_publicKeys m) (man_KeyID manifest)) = PublicKeySize"
      and "io_open (sio_artifact w) \<and> io_sync (sio_artifact w) \<and> io_close (sio_artifact w) \<and> \<not> sio_cancelled w"
proof (cases "(\<exists>e. r = Inl e) \<and> m' = m \<and> st' = st")
  case False
  then obtain data fails where d: "artifact = Some (data, fails)"
    using assms by (cases artifact) (auto simp: Stage_def)
  let ?v = "manifest_Verify verify manifest (key_of (mgr_publicKeys m) (man_KeyID manifest)) (mgr_target m)
             (ps_SecurityRevision (mgr_state m)) now"
  have g: "\<not> mgr_closed m" "ps_Pending (mgr_state m) = []" "\<not> ps_AwaitingHealth (mgr_state m)"
    using False assms d by (auto simp: Stage_def split: if_splits)
  have v: "?v = Inr ()" and a: "VerifyArtifact manifest data fails = Inr ()"
    using False assms d g by (auto simp: Stage_def Let_def split: if_splits sum.splits)
  have i: "install_slot w m manifest data st = (r, m', st')"
    and k: "length (key_of (mgr_publicKeys m) (man_KeyID manifest)) = PublicKeySize"
    and f: "io_open (sio_artifact w) \<and> io_sync (sio_artifact w) \<and> io_close (sio_artifact w) \<and> \<not> sio_cancelled w"
    using False assms d g v a by (auto simp: Stage_def Let_def split: if_splits)
  have "\<not> fails" and "VerifyArtifact manifest data False = Inr ()"
    using a by (simp_all add: VerifyArtifact_ok)
  then show ?thesis using installing d g v i k f by blast
qed (use refused in blast)

lemma Stage_installs:
  assumes "\<not> mgr_closed m" and "ps_Pending (mgr_state m) = []" and "\<not> ps_AwaitingHealth (mgr_state m)"
    and "manifest_Verify verify manifest (key_of (mgr_publicKeys m) (man_KeyID manifest)) (mgr_target m)
             (ps_SecurityRevision (mgr_state m)) now = Inr ()"
    and "VerifyArtifact manifest data False = Inr ()"
    and "length (key_of (mgr_publicKeys m) (man_KeyID manifest)) = PublicKeySize"
    and "io_open (sio_artifact w) \<and> io_sync (sio_artifact w) \<and> io_close (sio_artifact w) \<and> \<not> sio_cancelled w"
  shows "Stage verify w m manifest (Some (data, False)) now st = install_slot w m manifest data st"
  using assms by (simp add: Stage_def Let_def)

subsection \<open>What every fault leaves true\<close>

text \<open>Whatever fails, every state file that running processes see or a crash can bring back, and the
  state of the open manager, satisfy \<^const>\<open>slot_inv\<close>.\<close>

definition state_files_ok :: "persistentState fs \<Rightarrow> bool" where
  "state_files_ok f \<longleftrightarrow> (\<forall>n. fs_live f stateName = Some n \<or> fs_disk f stateName = Some n \<longrightarrow>
     (\<exists>s. n = state_node s \<and> slot_inv s))"

definition update_inv :: "update_system \<Rightarrow> bool" where
  "update_inv s \<longleftrightarrow> state_files_ok (st_root (us_store s)) \<and>
     (\<forall>m. us_manager s = Some m \<longrightarrow> slot_inv (mgr_state m))"

lemma state_node_simps [simp]:
  "node_data (state_node s) = Some s" "node_synced (state_node s)" "node_type (state_node s) = RegularFile"
  "node_perm (state_node s) = mode_0600" "node_owned (state_node s)"
  "node_size (state_node s) = length (json_persistentState s)"
  by (simp_all add: state_node_def)

lemma storeState_files_ok:
  assumes "storeState w s f = (r, f')" and "slot_inv s" and "state_files_ok f"
  shows "state_files_ok f'"
  using assms(1)
proof (cases rule: storeState_cases)
  case kept
  then show ?thesis using assms(3) by simp
next
  case replaced
  then show ?thesis using assms(2,3) by (auto simp: state_files_ok_def)
next
  case stored
  then show ?thesis using assms(2) by (auto simp: state_files_ok_def)
qed

lemma stores_inv:
  assumes "stores w s m st m' st'" and "slot_inv s" and "slot_inv (mgr_state m)" and "state_files_ok (st_root st)"
  shows "state_files_ok (st_root st')" and "slot_inv (mgr_state m')"
  using assms storeState_files_ok by (auto simp: stores_def)

lemma state_files_ok_crash:
  assumes "state_files_ok f"
  shows "state_files_ok (fs_crash c f)"
proof -
  have "\<exists>s. n = state_node s \<and> slot_inv s" if g: "crash_map c f stateName = Some n" for n
  proof -
    from g obtain k where "fs_live f stateName = Some k \<or> fs_disk f stateName = Some k"
        and n: "n = crash_node (snd (c stateName)) k"
      by (rule crash_map_cases)
    with assms obtain s where "k = state_node s" and "slot_inv s"
      unfolding state_files_ok_def by blast
    with n show ?thesis by (auto simp: crash_node_synced)
  qed
  then show ?thesis by (simp add: state_files_ok_def)
qed

lemma loadAndRecover_cases:
  assumes "loadAndRecover verify wr w ws m st = (r, st')"
  obtains (failed) e where "r = Inl e" and "st' = st"
  | (first) r' f where "fs_live (st_root st) stateName = None" and "storeState w (mgr_state m) (st_root st) = (r', f)"
      and "st' = st\<lparr>st_root := f\<rparr>" and "r = (case r' of Inl e \<Rightarrow> Inl e | Inr _ \<Rightarrow> Inr m)"
  | (loaded) n s where "fs_live (st_root st) stateName = Some n" and "node_data n = Some s"
      and "recovered s = None" and "r = Inr (m\<lparr>mgr_state := s\<rparr>)" and "st' = st"
  | (recovering) n s s' r' f where "fs_live (st_root st) stateName = Some n" and "node_data n = Some s"
      and "recovered s = Some s'" and "storeState w s' (st_root st) = (r', f)" and "st' = st\<lparr>st_root := f\<rparr>"
      and "r = (case r' of Inl e \<Rightarrow> Inl e | Inr _ \<Rightarrow> Inr (m\<lparr>mgr_state := s'\<rparr>))"
proof (cases "readPrivateFile wr maxStateBytes mode_0600 stateName (st_root st)")
  case (Inl e)
  obtain r' f where s: "storeState w (mgr_state m) (st_root st) = (r', f)" by fastforce
  show ?thesis
  proof (cases "e = ErrNotExist")
    case True
    then have "fs_live (st_root st) stateName = None"
      using Inl by (auto simp: readPrivateFile_def split: option.splits if_splits)
    moreover have "st' = st\<lparr>st_root := f\<rparr>" and "r = (case r' of Inl e \<Rightarrow> Inl e | Inr _ \<Rightarrow> Inr m)"
      using assms Inl True s by (auto simp: loadAndRecover_def split: sum.splits)
    ultimately show ?thesis using first s by blast
  next
    case False
    then show ?thesis
      using assms Inl failed by (cases e) (auto simp: loadAndRecover_def)
  qed
next
  case (Inr d)
  then obtain n where n: "fs_live (st_root st) stateName = Some n" "d = node_data n"
    by (auto simp: readPrivateFile_def split: option.splits if_splits)
  show ?thesis
  proof (cases "(\<exists>e. r = Inl e) \<and> st' = st")
    case True
    then show ?thesis using failed by blast
  next
    case False
    then obtain s where s: "node_data n = Some s" and v: "validateState s = Inr ()"
        and slots: "verify_slots (\<lambda>slot. verifyInstalledSlot verify (ws slot) (mgr_publicKeys m) (mgr_target m)
                    slot (ps_SecurityRevision s) st) (uniqueReferencedSlots s) = Inr ()"
      using assms Inr n by (auto simp: loadAndRecover_def split: option.splits if_splits sum.splits)
    show ?thesis
    proof (cases "recovered s")
      case None
      then show ?thesis
        using loaded assms Inr n s v slots by (auto simp: loadAndRecover_def)
    next
      case (Some s')
      obtain r' f where f: "storeState w s' (st_root st) = (r', f)" by fastforce
      have "st' = st\<lparr>st_root := f\<rparr>" and "r = (case r' of Inl e \<Rightarrow> Inl e | Inr _ \<Rightarrow> Inr (m\<lparr>mgr_state := s'\<rparr>))"
        using Some f assms Inr n s v slots by (auto simp: loadAndRecover_def split: sum.splits)
      then show ?thesis using recovering n(1) s Some f by blast
    qed
  qed
qed

lemma update_Open_cases:
  assumes "update_Open verify env config k st = (r, k', st')"
  obtains (refused) e where "r = Inl e" and "st' = st"
  | (opened) l where "loadAndRecover verify (oe_read env) (oe_store env) (oe_slots env) (new_manager config l) st = (r, st')"
proof (cases "(\<exists>e. r = Inl e) \<and> st' = st")
  case False
  then obtain l k1 where "loadAndRecover verify (oe_read env) (oe_store env) (oe_slots env) (new_manager config l) st = (r, st')"
    using assms unfolding update_Open_def
    by (auto split: if_splits sum.splits prod.splits)
  then show ?thesis using opened by blast
qed (use refused in blast)

lemma install_slot_root:
  assumes "install_slot w m manifest data st = (r, m', st')"
  shows "m' = m \<and> st_root st' = st_root st \<or>
    stores (sio_state w) ((mgr_state m)\<lparr>ps_Pending := stage_slot (mgr_state m)\<rparr>) m st m' st'"
  using assms by (cases rule: install_slot_cases) (auto simp: stores_def)

lemma update_inv_operation:
  assumes "update_inv s" and "us_manager s = Some m" and "next_state (mgr_state m) ev s'"
    and "stores w s' m (us_store s) m' st'"
  shows "update_inv \<lparr>us_manager = Some m', us_store = st'\<rparr>"
proof -
  have "slot_inv (mgr_state m)" and "state_files_ok (st_root (us_store s))"
    using assms(1,2) by (simp_all add: update_inv_def)
  then show ?thesis
    using stores_inv [OF assms(4) next_state_inv [OF assms(3)]] by (simp add: update_inv_def)
qed

lemma update_inv_open:
  assumes "update_inv s" and "update_Open verify env config k (us_store s) = (r, k', st')"
  shows "update_inv \<lparr>us_manager = (case r of Inl _ \<Rightarrow> None | Inr m \<Rightarrow> Some m), us_store = st'\<rparr>"
  using assms(2)
proof (cases rule: update_Open_cases)
  case (refused e)
  then show ?thesis using assms(1) by (simp add: update_inv_def)
next
  case (opened l)
  have files: "state_files_ok (st_root (us_store s))"
    using assms(1) by (simp add: update_inv_def)
  from opened show ?thesis
  proof (cases rule: loadAndRecover_cases)
    case (failed e)
    then show ?thesis using assms(1) by (simp add: update_inv_def)
  next
    case (first r' f)
    then show ?thesis
      using storeState_files_ok [OF first(2) _ files] by (cases r') (simp_all add: update_inv_def new_manager_def)
  next
    case (loaded n s0)
    then have "slot_inv s0" using files by (auto simp: state_files_ok_def)
    then show ?thesis using loaded files by (simp add: update_inv_def)
  next
    case (recovering n s0 s1 r' f)
    then have "slot_inv s1"
      using files slot_inv_recovered by (auto simp: state_files_ok_def)
    then show ?thesis
      using storeState_files_ok [OF recovering(4) _ files] recovering by (cases r') (simp_all add: update_inv_def)
  qed
qed

lemma update_inv_step: "update_step verify config ok fits s t \<Longrightarrow> update_inv s \<Longrightarrow> update_inv t"
proof (induction rule: update_step.induct)
  case (up_open s env k r k' st')
  then show ?case using update_inv_open by blast
next
  case (up_stage s m w manifest artifact now r1 m' st')
  from up_stage(4) show ?case
  proof (cases rule: Stage_cases)
    case refused
    then show ?thesis using up_stage by (simp add: update_inv_def)
  next
    case (installing data)
    from install_slot_root [OF installing(7)] show ?thesis
    proof
      assume "m' = m \<and> st_root st' = st_root (us_store s)"
      then show ?thesis using up_stage(1,5) by (simp add: update_inv_def)
    next
      assume "stores (sio_state w) ((mgr_state m)\<lparr>ps_Pending := stage_slot (mgr_state m)\<rparr>) m (us_store s) m' st'"
      with ns_stage [OF installing(3,4)] show ?thesis
        by (rule update_inv_operation [OF up_stage(5,1)])
    qed
  qed
next
  case (up_activate s m w1 r2 m' st')
  from up_activate(3) show ?case
  proof (cases rule: ActivatePending_cases)
    case 1
    then show ?thesis using up_activate(1,4) by (simp add: update_inv_def)
  next
    case 2
    then show ?thesis using update_inv_operation [OF up_activate(4,1)] by blast
  qed
next
  case (up_confirm s m w1 wr r2 m' st')
  from up_confirm(3) show ?case
  proof (cases rule: ConfirmHealthy_cases)
    case 1
    then show ?thesis using up_confirm(1,4) by (simp add: update_inv_def)
  next
    case 2
    then show ?thesis using update_inv_operation [OF up_confirm(4,1)] by blast
  qed
next
  case (up_rollback s m w1 r2 m' st')
  from up_rollback(3) show ?case
  proof (cases rule: Rollback_cases)
    case 1
    then show ?thesis using up_rollback(1,4) by (simp add: update_inv_def)
  next
    case 2
    then show ?thesis using update_inv_operation [OF up_rollback(4,1)] by blast
  qed
next
  case (up_close s m)
  then show ?case by (simp add: update_inv_def)
next
  case (up_crash s c1 c2 c3)
  then show ?case using state_files_ok_crash by (simp add: update_inv_def store_crash_def)
qed

lemma update_inv_init: "update_init s \<Longrightarrow> update_inv s"
  by (simp add: update_init_def update_inv_def state_files_ok_def)

interpretation upd: invariant_system update_init "update_step verify config ok fits" update_inv
  for verify config ok fits
  using update_inv_init update_inv_step by unfold_locales blast+

section \<open>The running release is never overwritten\<close>

lemma install_slot_only:
  "install_slot w m manifest data st = (r, m', st') \<Longrightarrow> only_slot (stage_slot (mgr_state m)) st st'"
  by (cases rule: install_slot_cases) (auto simp: only_slot_def installed_def)

lemma stage_slot_unused:
  assumes "slot_inv s" and "\<not> ps_AwaitingHealth s" and "ps_Pending s = []"
  shows "stage_slot s \<notin> {ps_Active s, ps_KnownGood s, ps_Pending s, ps_Previous s}"
  using assms stage_slot_other [of s] by (auto simp: slot_inv_unfold)

definition demo_config :: Config where
  "demo_config = \<lparr>cfg_Root = ''/var/lib/tos'', cfg_Target = ''linux'',
     cfg_PublicKeys = [(''release'', replicate 32 (CHR ''k''))]\<rparr>"

definition demo_env :: open_env where
  "demo_env = \<lparr>oe_mkdir = True, oe_info = Some demo_directory, oe_slot_mkdir = (\<lambda>_. True),
     oe_slot_info = (\<lambda>_. Some demo_directory), oe_lock = demo_obs, oe_inode = 7, oe_fd = 3,
     oe_read = io_ok, oe_store = io_ok, oe_slots = (\<lambda>_. (io_ok, io_ok))\<rparr>"

definition demo_lock :: Lock where
  "demo_lock = \<lparr>lk_file = Some (7, 3), lk_closed = False\<rparr>"

lemma demo_acquire:
  "Acquire ''/var/lib/tos'' ''.software-update.lock'' demo_obs 7 3 demo_kernel =
     (Inr demo_lock, demo_kernel\<lparr>krn_holder := [7 \<mapsto> 3]\<rparr>)"
  by (simp add: Acquire_def openAndLock_def valid_lock_name_def is_abs_def has_prefix_def path_base_def
      demo_obs_def demo_kernel_def demo_directory_def demo_lock_def Let_def)

lemma storeState_ok:
  "validateState s = Inr () \<Longrightarrow> storeState io_ok s f = (Inr (), fs_dirsync (fs_put stateName (state_node s) f))"
  by (simp add: storeState_def writeAtomic_def update_syncDirectory_def state_node_def Let_def)

lemma demo_open_with:
  assumes "loadAndRecover verify io_ok io_ok (\<lambda>_. (io_ok, io_ok)) (new_manager demo_config demo_lock) st = (Inr m, st')"
  shows "update_Open verify demo_env demo_config demo_kernel st =
     (Inr m, demo_kernel\<lparr>krn_holder := [7 \<mapsto> 3]\<rparr>, st')"
proof -
  have "path_clean ''/var/lib/tos'' = ''/var/lib/tos''" by code_simp
  then show ?thesis
    using assms
    by (simp add: update_Open_def demo_config_def demo_env_def trust_root_ok_def is_abs_def has_prefix_def
        requirePrivateDirectory_def demo_directory_def demo_acquire)
qed

end
