(* ===== verification/Update_Recovery.thy ===== *)
theory Update_Recovery
  imports Software_Update
begin

text \<open>
  What the update manager promises over its whole life: it never touches the running release, it
  refines an abstract release cycle, the security revision never goes down, and whatever it leaves
  behind it can open again.  The last three hold as long as nothing fails after the state file has been
  renamed into place (\<open>commits\<close>); what happens otherwise is shown at the end.
\<close>

section \<open>The abstract release cycle\<close>

text \<open>
  A machine runs a good release or none (\<open>Steady\<close>); a candidate may be staged beside it, and then be
  tried, before and after its first boot.  A trial ends with the candidate confirmed or with the good
  release again.  The number is the security revision.
\<close>

datatype release_cycle =
    Steady "string option"
  | Staged "string option" string
  | Trial "string option" string bool

fun spec_step :: "release_cycle \<times> u64 \<Rightarrow> update_event \<Rightarrow> (release_cycle \<times> u64) option" where
  "spec_step (Steady g, v) (EvStage c) = (if g = Some c then None else Some (Staged g c, v))"
| "spec_step (Staged g c, v) EvActivate = Some (Trial g c False, v)"
| "spec_step (Trial g c True, v) (EvConfirm u) = Some (Steady (Some c), max v u)"
| "spec_step (Trial (Some g) c b, v) EvRollback = Some (Steady (Some g), v)"
| "spec_step (Trial g c False, v) EvRestart = Some (Trial g c True, v)"
| "spec_step (Trial g c True, v) EvRestart = Some (Steady g, v)"
| "spec_step _ _ = None"

definition slot_option :: "string \<Rightarrow> string option" where
  "slot_option slot = (if slot = [] then None else Some slot)"

definition release_abs :: "persistentState \<Rightarrow> release_cycle \<times> u64" where
  "release_abs s =
     (if ps_AwaitingHealth s then Trial (slot_option (ps_KnownGood s)) (ps_Active s) (ps_BootAttempted s)
      else if ps_Pending s = [] then Steady (slot_option (ps_KnownGood s))
      else Staged (slot_option (ps_KnownGood s)) (ps_Pending s), ps_SecurityRevision s)"

lemma next_state_refines:
  assumes "next_state s ev s'" and "slot_inv s"
  shows "spec_step (release_abs s) ev = Some (release_abs s')"
  using assms
proof (induction rule: next_state.induct)
  case (ns_stage s)
  then show ?case
    using stage_slot_other [of s] by (auto simp: release_abs_def slot_option_def slot_inv_unfold)
next
  case (ns_activate s)
  then have "ps_Pending s \<noteq> []" by auto
  with ns_activate show ?case
    by (auto simp: release_abs_def activated_def)
next
  case (ns_confirm s manifest)
  then have "ps_Active s \<noteq> []" and "ps_Pending s = []" by (auto simp: slot_inv_unfold)
  with ns_confirm show ?case
    by (auto simp: release_abs_def confirmed_def slot_option_def max_def)
next
  case (ns_rollback s)
  then have "ps_AwaitingHealth s" and "ps_KnownGood s \<noteq> []" by (auto simp: slot_inv_unfold split: if_splits)
  then show ?case
    by (simp add: release_abs_def rolled_back_def slot_option_def)
next
  case (ns_restart s s')
  then have "ps_AwaitingHealth s" and "ps_Pending s = []"
    by (auto simp: recovered_def slot_inv_unfold split: if_splits)
  with ns_restart(1) show ?case
    by (auto simp: release_abs_def recovered_def split: if_splits)
qed

section \<open>What the directory holds\<close>

text \<open>No call on the state file fails once it has been renamed into place.\<close>

definition commits :: "io \<Rightarrow> bool" where
  "commits w \<longleftrightarrow> (io_rename w \<longrightarrow> io_chmod w \<and> io_diropen w \<and> io_dirsync w)"

text \<open>The manifests \<open>readManifest\<close> can read back.\<close>

definition loadable :: "Manifest \<Rightarrow> bool" where
  "loadable m \<longleftrightarrow> length (json_Manifest m) \<le> maxManifestBytes"

text \<open>The state a running or a later process finds; a missing file is the initial state.\<close>

definition state_of :: "slot_store \<Rightarrow> persistentState" where
  "state_of st = (case fs_live (st_root st) stateName of None \<Rightarrow> initialState
     | Some n \<Rightarrow> (case node_data n of None \<Rightarrow> initialState | Some s \<Rightarrow> s))"

definition slot_good :: "verify_fun \<Rightarrow> Config \<Rightarrow> u64 \<Rightarrow> string \<Rightarrow> slot_store \<Rightarrow> bool" where
  "slot_good verify config revision slot st \<longleftrightarrow> (\<exists>m data.
     durable (st_manifest st) slot (manifest_node m) \<and> loadable m
     \<and> VerifyInstalled verify m (key_of (map_of (cfg_PublicKeys config)) (man_KeyID m)) (cfg_Target config) revision = Inr ()
     \<and> durable (st_artifact st) slot (artifact_node data) \<and> VerifyArtifact m data False = Inr ())"

definition slots_good :: "verify_fun \<Rightarrow> Config \<Rightarrow> persistentState \<Rightarrow> slot_store \<Rightarrow> bool" where
  "slots_good verify config s st \<longleftrightarrow>
     (\<forall>slot. slot \<in> {ps_Active s, ps_KnownGood s, ps_Pending s, ps_Previous s} \<longrightarrow> slot \<noteq> [] \<longrightarrow>
        slot_good verify config (ps_SecurityRevision s) slot st)"

definition commit_inv :: "verify_fun \<Rightarrow> Config \<Rightarrow> update_system \<Rightarrow> bool" where
  "commit_inv verify config s \<longleftrightarrow> update_inv s
     \<and> fs_disk (st_root (us_store s)) stateName = fs_live (st_root (us_store s)) stateName
     \<and> slots_good verify config (state_of (us_store s)) (us_store s)
     \<and> (\<forall>m. us_manager s = Some m \<longrightarrow> fs_live (st_root (us_store s)) stateName = Some (state_node (mgr_state m))
          \<and> mgr_publicKeys m = map_of (cfg_PublicKeys config) \<and> mgr_target m = cfg_Target config)"

lemma state_of_node: "fs_live (st_root st) stateName = Some (state_node s) \<Longrightarrow> state_of st = s"
  by (simp add: state_of_def)

lemma slot_good_cong:
  assumes "slot_good verify config v slot st" and "only_slot p st st'" and "slot \<noteq> p"
  shows "slot_good verify config v slot st'"
  using assms unfolding slot_good_def only_slot_def durable_def by simp

lemma slots_good_cong:
  assumes "slots_good verify config s st" and "only_slot p st st'"
    and "p \<notin> {ps_Active s, ps_KnownGood s, ps_Pending s, ps_Previous s}"
  shows "slots_good verify config s st'"
  unfolding slots_good_def
proof (intro allI impI)
  fix slot
  assume "slot \<in> {ps_Active s, ps_KnownGood s, ps_Pending s, ps_Previous s}" and "slot \<noteq> []"
  then show "slot_good verify config (ps_SecurityRevision s) slot st'"
    using assms(1,3) slot_good_cong [OF _ assms(2)] unfolding slots_good_def by blast
qed

lemma slots_good_same:
  "slots_good verify config s st \<Longrightarrow> same_slots st st' \<Longrightarrow> slots_good verify config s st'"
  unfolding slots_good_def slot_good_def same_slots_def by metis

lemma slots_good_subset:
  assumes "slots_good verify config s st" and "ps_SecurityRevision s' = ps_SecurityRevision s"
    and "{ps_Active s', ps_KnownGood s', ps_Pending s', ps_Previous s'}
       \<subseteq> insert [] {ps_Active s, ps_KnownGood s, ps_Pending s, ps_Previous s}"
  shows "slots_good verify config s' st"
  unfolding slots_good_def assms(2) using assms(1,3) unfolding slots_good_def by blast

lemma slots_good_initial [simp]: "slots_good verify config initialState st"
  by (simp add: slots_good_def initialState_def)

text \<open>Every transition but staging keeps the slots the new state refers to in order.\<close>

lemma slots_good_activated: "slots_good verify config s st \<Longrightarrow> slots_good verify config (activated s) st"
  by (erule slots_good_subset) (auto simp: activated_def)

lemma slots_good_rolled_back: "slots_good verify config s st \<Longrightarrow> slots_good verify config (rolled_back s) st"
  by (erule slots_good_subset) (auto simp: rolled_back_def)

lemma slots_good_recovered:
  "slots_good verify config s st \<Longrightarrow> recovered s = Some s' \<Longrightarrow> slots_good verify config s' st"
  by (erule slots_good_subset) (auto simp: recovered_def split: if_splits)

lemma readManifest_good:
  assumes "readManifest w slot st = Inr manifest" and "slot_good verify config v slot st"
  shows "slot_good verify config (if man_SecurityRevision manifest > v then man_SecurityRevision manifest else v) slot st"
proof -
  obtain m data where g: "durable (st_manifest st) slot (manifest_node m)" "loadable m"
     "VerifyInstalled verify m (key_of (map_of (cfg_PublicKeys config)) (man_KeyID m)) (cfg_Target config) v = Inr ()"
     "durable (st_artifact st) slot (artifact_node data)" "VerifyArtifact m data False = Inr ()"
    using assms(2) unfolding slot_good_def by blast
  have "manifest = m"
    using assms(1) durable_live [OF g(1)]
    by (auto simp: readManifest_def readPrivateFile_def manifest_node_def split: if_splits sum.splits option.splits)
  then show ?thesis
    using g VerifyInstalled_own_revision [OF g(3)] unfolding slot_good_def by auto
qed

lemma slots_good_confirmed:
  assumes "slots_good verify config s st" and "slot_inv s" and "ps_AwaitingHealth s"
    and "readManifest w (ps_Active s) st = Inr manifest"
  shows "slots_good verify config (confirmed manifest s) st"
proof -
  have a: "ps_Active s \<noteq> []" "ps_Pending s = []"
    using assms(2,3) by (auto simp: slot_inv_unfold)
  then have "slot_good verify config (ps_SecurityRevision s) (ps_Active s) st"
    using assms(1) by (simp add: slots_good_def)
  from readManifest_good [OF assms(4) this] show ?thesis
    using a by (auto simp: slots_good_def confirmed_def)
qed

lemma slots_good_installed:
  assumes "slots_good verify config s st" and "slot_inv s" and "\<not> ps_AwaitingHealth s" and "ps_Pending s = []"
    and "VerifyInstalled verify m (key_of (map_of (cfg_PublicKeys config)) (man_KeyID m)) (cfg_Target config)
           (ps_SecurityRevision s) = Inr ()"
    and "VerifyArtifact m data False = Inr ()" and "loadable m"
  shows "slots_good verify config (s\<lparr>ps_Pending := stage_slot s\<rparr>) ((installed (stage_slot s) m data st)\<lparr>st_root := f\<rparr>)"
proof -
  let ?st = "(installed (stage_slot s) m data st)\<lparr>st_root := f\<rparr>"
  have "slot_good verify config (ps_SecurityRevision s) (stage_slot s) ?st"
    unfolding slot_good_def using assms(5-7)
    by (intro exI [of _ m] exI [of _ data])
      (simp add: installed_def durable_def manifest_node_def artifact_node_def)
  moreover have "only_slot (stage_slot s) st ?st"
    by (simp add: only_slot_def installed_def)
  then have "slots_good verify config s ?st"
    using slots_good_cong [OF assms(1)] stage_slot_unused [OF assms(2-4)] by blast
  ultimately show ?thesis
    by (auto simp: slots_good_def)
qed

lemma state_of_inv: "state_files_ok (st_root st) \<Longrightarrow> slot_inv (state_of st)"
  by (cases "fs_live (st_root st) stateName") (auto simp: state_of_def state_files_ok_def)

lemma next_state_revision: "next_state s ev s' \<Longrightarrow> ps_SecurityRevision s \<le> ps_SecurityRevision s'"
  by (induction rule: next_state.induct)
    (auto simp: activated_def confirmed_def rolled_back_def recovered_def split: if_splits)

section \<open>Steps\<close>

definition advances :: "slot_store \<Rightarrow> slot_store \<Rightarrow> bool" where
  "advances st st' \<longleftrightarrow> state_of st' = state_of st \<or> (\<exists>ev. next_state (state_of st) ev (state_of st'))"

lemma storeState_commits:
  assumes "storeState w s f = (r, f')" and "commits w"
  shows "(\<exists>e. r = Inl e) \<and> f' = f \<or> r = Inr () \<and> f' = fs_dirsync (fs_put stateName (state_node s) f)"
  using assms(1) by (cases rule: storeState_cases) (use assms(2) in \<open>auto simp: commits_def\<close>)

lemma commit_operation:
  assumes "commit_inv verify config s" and "us_manager s = Some m" and "next_state (mgr_state m) ev s'"
    and "stores w s' m (us_store s) m' st'" and "commits w"
    and "slots_good verify config (mgr_state m) st'" and "slots_good verify config s' st'"
  shows "commit_inv verify config \<lparr>us_manager = Some m', us_store = st'\<rparr> \<and> advances (us_store s) st'"
proof -
  have inv: "update_inv \<lparr>us_manager = Some m', us_store = st'\<rparr>"
    using assms(1) update_inv_operation [OF _ assms(2-4)] by (simp add: commit_inv_def)
  have sf: "fs_live (st_root (us_store s)) stateName = Some (state_node (mgr_state m))"
    and disk: "fs_disk (st_root (us_store s)) stateName = fs_live (st_root (us_store s)) stateName"
    and conf: "mgr_publicKeys m = map_of (cfg_PublicKeys config)" "mgr_target m = cfg_Target config"
    using assms(1,2) by (simp_all add: commit_inv_def)
  obtain r f where st: "storeState w s' (st_root (us_store s)) = (r, f)" "st_root st' = f"
      "m' = (if r = Inr () then m\<lparr>mgr_state := s'\<rparr> else m)"
    using assms(4) unfolding stores_def by blast
  from storeState_commits [OF st(1) assms(5)] show ?thesis
  proof
    assume k: "(\<exists>e. r = Inl e) \<and> f = st_root (us_store s)"
    then have "fs_live (st_root st') stateName = Some (state_node (mgr_state m))" and "m' = m"
      using st sf by auto
    then show ?thesis
      using inv conf assms(6) sf disk k st(2) state_of_node [of st'] state_of_node [of "us_store s"]
      by (simp add: commit_inv_def advances_def)
  next
    assume k: "r = Inr () \<and> f = fs_dirsync (fs_put stateName (state_node s') (st_root (us_store s)))"
    then have "fs_live (st_root st') stateName = Some (state_node s')"
      and "fs_disk (st_root st') stateName = Some (state_node s')" and "m' = m\<lparr>mgr_state := s'\<rparr>"
      using st by auto
    then show ?thesis
      using inv conf assms(3,7) sf state_of_node [of st'] state_of_node [of "us_store s"]
      by (auto simp: commit_inv_def advances_def)
  qed
qed

lemma commit_unchanged:
  assumes "commit_inv verify config s" and "us_manager s = Some m" and "st_root st' = st_root (us_store s)"
    and "slots_good verify config (mgr_state m) st'"
  shows "commit_inv verify config \<lparr>us_manager = Some m, us_store = st'\<rparr> \<and> advances (us_store s) st'"
proof -
  have sf: "fs_live (st_root (us_store s)) stateName = Some (state_node (mgr_state m))"
    using assms(1,2) by (simp add: commit_inv_def)
  then have "state_of st' = mgr_state m" and "state_of (us_store s) = mgr_state m"
    using assms(3) state_of_node by simp_all
  then show ?thesis
    using assms by (simp add: commit_inv_def update_inv_def advances_def)
qed

lemma commit_stage:
  assumes "commit_inv verify config s" and "us_manager s = Some m" and "commits (sio_state w)" and "loadable manifest"
    and "Stage verify w m manifest artifact now (us_store s) = (r, m', st')"
  shows "commit_inv verify config \<lparr>us_manager = Some m', us_store = st'\<rparr> \<and> advances (us_store s) st'"
proof -
  have state: "state_of (us_store s) = mgr_state m" and inv: "slot_inv (mgr_state m)"
    and conf: "mgr_publicKeys m = map_of (cfg_PublicKeys config)" "mgr_target m = cfg_Target config"
    using assms(1,2) state_of_node by (simp_all add: commit_inv_def update_inv_def)
  then have good: "slots_good verify config (mgr_state m) (us_store s)"
    using assms(1) by (simp add: commit_inv_def)
  from assms(5) show ?thesis
  proof (cases rule: Stage_cases)
    case refused
    then show ?thesis using commit_unchanged [OF assms(1,2)] good by simp
  next
    case (installing data)
    note keep = slots_good_cong [OF good install_slot_only [OF installing(7)]
        stage_slot_unused [OF inv installing(4,3)]]
    from installing(7) show ?thesis
    proof (cases rule: install_slot_cases)
      case failed
      then show ?thesis using commit_unchanged [OF assms(1,2)] keep by simp
    next
      case (completed r' f)
      have "slots_good verify config ((mgr_state m)\<lparr>ps_Pending := stage_slot (mgr_state m)\<rparr>) st'"
        unfolding completed(2) using installing(5,6) conf assms(4)
        by (intro slots_good_installed good inv installing(3,4)) (auto dest: manifest_Verify_installed)
      moreover have "stores (sio_state w) ((mgr_state m)\<lparr>ps_Pending := stage_slot (mgr_state m)\<rparr>) m (us_store s) m' st'"
        using completed by (auto simp: stores_def)
      ultimately show ?thesis
        using commit_operation [OF assms(1,2) ns_stage [OF installing(3,4)]] assms(3) keep by blast
    qed
  qed
qed

lemma commit_open:
  assumes "commit_inv verify config s" and "commits (oe_store env)"
    and "update_Open verify env config k (us_store s) = (r, k', st')"
  shows "commit_inv verify config \<lparr>us_manager = (case r of Inl _ \<Rightarrow> None | Inr m \<Rightarrow> Some m), us_store = st'\<rparr>
    \<and> advances (us_store s) st'"
proof -
  let ?t = "\<lparr>us_manager = (case r of Inl _ \<Rightarrow> None | Inr m \<Rightarrow> Some m), us_store = st'\<rparr>"
  have inv: "update_inv ?t" and files: "state_files_ok (st_root (us_store s))"
    and disk: "fs_disk (st_root (us_store s)) stateName = fs_live (st_root (us_store s)) stateName"
    and good: "slots_good verify config (state_of (us_store s)) (us_store s)"
    using assms(1) update_inv_open [OF _ assms(3)] by (simp_all add: commit_inv_def update_inv_def)
  have unchanged: ?thesis if "st' = us_store s" and "\<exists>e. r = Inl e"
    using that inv disk good by (auto simp: commit_inv_def advances_def)
  from assms(3) show ?thesis
  proof (cases rule: update_Open_cases)
    case refused
    then show ?thesis using unchanged by blast
  next
    case (opened l)
    let ?m = "new_manager config l"
    have conf: "mgr_publicKeys ?m = map_of (cfg_PublicKeys config)" "mgr_target ?m = cfg_Target config"
      "mgr_state ?m = initialState"
      by (simp_all add: new_manager_def)
    from opened show ?thesis
    proof (cases rule: loadAndRecover_cases)
      case failed
      then show ?thesis using unchanged by blast
    next
      case (first r' f)
      have z: "state_of (us_store s) = initialState" using first(1) by (simp add: state_of_def)
      from storeState_commits [OF first(2) assms(2)] show ?thesis
      proof
        assume "(\<exists>e. r' = Inl e) \<and> f = st_root (us_store s)"
        then show ?thesis using unchanged first(3,4) by auto
      next
        assume "r' = Inr () \<and> f = fs_dirsync (fs_put stateName (state_node (mgr_state ?m)) (st_root (us_store s)))"
        then have "fs_live (st_root st') stateName = Some (state_node initialState)" "r = Inr ?m"
          and "fs_disk (st_root st') stateName = Some (state_node initialState)"
          using first(3,4) conf by simp_all
        then show ?thesis
          using inv conf z state_of_node [of st'] by (simp add: commit_inv_def advances_def)
      qed
    next
      case (loaded n s0)
      then have n: "fs_live (st_root (us_store s)) stateName = Some (state_node s0)"
        using files by (auto simp: state_files_ok_def)
      then show ?thesis
        using loaded inv conf disk good state_of_node [OF n] by (simp add: commit_inv_def advances_def)
    next
      case (recovering n s0 s1 r' f)
      then have n: "fs_live (st_root (us_store s)) stateName = Some (state_node s0)"
        using files by (auto simp: state_files_ok_def)
      note s0 = state_of_node [OF n]
      from storeState_commits [OF recovering(4) assms(2)] show ?thesis
      proof
        assume "(\<exists>e. r' = Inl e) \<and> f = st_root (us_store s)"
        then show ?thesis using unchanged recovering(5,6) by auto
      next
        assume "r' = Inr () \<and> f = fs_dirsync (fs_put stateName (state_node s1) (st_root (us_store s)))"
        then have l: "fs_live (st_root st') stateName = Some (state_node s1)" "r = Inr (?m\<lparr>mgr_state := s1\<rparr>)"
          and d: "fs_disk (st_root st') stateName = Some (state_node s1)" and same: "same_slots (us_store s) st'"
          using recovering(5,6) by (simp_all add: same_slots_def)
        have "slots_good verify config s1 st'"
          using slots_good_same [OF slots_good_recovered same] good recovering(3) s0 by simp
        then show ?thesis
          using inv conf l d s0 state_of_node [OF l(1)] ns_restart [OF recovering(3)]
          by (auto simp: commit_inv_def advances_def)
      qed
    qed
  qed
qed

lemma commit_inv_manager:
  assumes "commit_inv verify config s" and "us_manager s = Some m"
  shows "slots_good verify config (mgr_state m) (us_store s)" and "slot_inv (mgr_state m)"
proof -
  have "state_of (us_store s) = mgr_state m"
    using assms state_of_node by (simp add: commit_inv_def)
  then show "slots_good verify config (mgr_state m) (us_store s)" and "slot_inv (mgr_state m)"
    using assms by (simp_all add: commit_inv_def update_inv_def)
qed

lemma slot_good_crash:
  "slot_good verify config v slot st \<Longrightarrow> slot_good verify config v slot (store_crash c1 c2 c3 st)"
  unfolding slot_good_def store_crash_def by (auto dest: durable_crash)

lemma slots_good_crash:
  "slots_good verify config s0 st \<Longrightarrow> slots_good verify config s0 (store_crash c1 c2 c3 st)"
  unfolding slots_good_def by (simp add: slot_good_crash)

lemma commit_crash:
  assumes "commit_inv verify config s"
  shows "commit_inv verify config \<lparr>us_manager = None, us_store = store_crash c1 c2 c3 (us_store s)\<rparr>
    \<and> advances (us_store s) (store_crash c1 c2 c3 (us_store s))"
proof -
  let ?st = "store_crash c1 c2 c3 (us_store s)"
  have inv: "update_inv s" and disk: "fs_disk (st_root (us_store s)) stateName = fs_live (st_root (us_store s)) stateName"
    and good: "slots_good verify config (state_of (us_store s)) (us_store s)"
    using assms by (simp_all add: commit_inv_def)
  have live: "fs_live (st_root ?st) stateName = fs_live (st_root (us_store s)) stateName"
  proof (cases "fs_live (st_root (us_store s)) stateName")
    case None
    then show ?thesis using disk by (simp add: store_crash_def crash_map_def)
  next
    case (Some n)
    then have "node_synced n"
      using inv unfolding update_inv_def state_files_ok_def by (metis state_node_simps(2))
    then show ?thesis using Some disk by (simp add: store_crash_def crash_map_def crash_node_synced)
  qed
  then have "state_of ?st = state_of (us_store s)" by (simp add: state_of_def)
  moreover have "slots_good verify config (state_of (us_store s)) ?st"
    using good slots_good_crash by blast
  moreover have "fs_disk (st_root ?st) stateName = fs_live (st_root ?st) stateName"
    by (simp add: store_crash_def)
  ultimately show ?thesis
    using update_inv_step [OF up_crash inv] by (simp add: commit_inv_def advances_def)
qed

lemma commit_step:
  assumes "update_step verify config commits loadable s t" and "commit_inv verify config s"
  shows "commit_inv verify config t \<and> advances (us_store s) (us_store t)"
  using assms
proof (induction rule: update_step.induct)
  case (up_open s env k r k' st')
  then show ?case using commit_open by simp
next
  case (up_stage s m w manifest artifact now r1 m' st')
  then show ?case using commit_stage by simp
next
  case (up_activate s m w1 r2 m' st')
  have good: "slots_good verify config (mgr_state m) (us_store s)"
    using commit_inv_manager [OF up_activate(4,1)] by simp
  from up_activate(3) show ?case
  proof (cases rule: ActivatePending_cases)
    case 1
    then show ?thesis using commit_unchanged [OF up_activate(4,1)] good by simp
  next
    case 2
    then show ?thesis
      using commit_operation [OF up_activate(4,1) 2(1,2) up_activate(2)] good slots_good_same slots_good_activated
      by simp
  qed
next
  case (up_confirm s m w1 wr r2 m' st')
  have good: "slots_good verify config (mgr_state m) (us_store s)" and inv: "slot_inv (mgr_state m)"
    using commit_inv_manager [OF up_confirm(4,1)] by simp_all
  from up_confirm(3) show ?case
  proof (cases rule: ConfirmHealthy_cases)
    case 1
    then show ?thesis using commit_unchanged [OF up_confirm(4,1)] good by simp
  next
    case (2 manifest)
    then have "ps_AwaitingHealth (mgr_state m)" by (auto elim: next_state.cases)
    then have "slots_good verify config (confirmed manifest (mgr_state m)) (us_store s)"
      using slots_good_confirmed [OF good inv] 2(2) by blast
    then show ?thesis
      using commit_operation [OF up_confirm(4,1) 2(1,3) up_confirm(2)] good slots_good_same 2(4) by simp
  qed
next
  case (up_rollback s m w1 r2 m' st')
  have good: "slots_good verify config (mgr_state m) (us_store s)"
    using commit_inv_manager [OF up_rollback(4,1)] by simp
  from up_rollback(3) show ?case
  proof (cases rule: Rollback_cases)
    case 1
    then show ?thesis using commit_unchanged [OF up_rollback(4,1)] good by simp
  next
    case 2
    then show ?thesis
      using commit_operation [OF up_rollback(4,1) 2(1,2) up_rollback(2)] good slots_good_same slots_good_rolled_back
      by simp
  qed
next
  case (up_close s m)
  then show ?case by (simp add: commit_inv_def update_inv_def advances_def)
next
  case (up_crash s c1 c2 c3)
  then show ?case using commit_crash by simp
qed

interpretation committed: invariant_system update_init "update_step verify config commits loadable" "commit_inv verify config"
  for verify config
proof
  show "commit_inv verify config s" if g: "update_init s" for s
    using g update_inv_init [OF g]
    by (simp add: commit_inv_def update_init_def state_of_def)
  show "commit_inv verify config s \<Longrightarrow> update_step verify config commits loadable s t \<Longrightarrow> commit_inv verify config t" for s t
    using commit_step by blast
qed

section \<open>Opening again\<close>

lemma validSlots_length: "validSlots slot \<Longrightarrow> length slot = 1"
  by (auto simp: validSlots_def)

lemma state_json_fits:
  assumes "slot_inv s"
  shows "length (json_persistentState s) \<le> maxStateBytes"
proof -
  have v: "ps_Version s = 1"
    using assms by (simp add: slot_inv_unfold)
  have slot: "length x \<le> 1" if "x \<in> {ps_Active s, ps_KnownGood s, ps_Pending s, ps_Previous s}" for x
  proof -
    have "x = [] \<or> validSlots x"
      using assms that unfolding slot_inv_unfold by blast
    then show ?thesis using validSlots_length by fastforce
  qed
  have js: "length (json_string x) \<le> 20" if "x \<in> {ps_Active s, ps_KnownGood s, ps_Pending s, ps_Previous s}" for x
    using length_json_string_le [of x] slot [OF that] by linarith
  have jb: "length (json_bool b) \<le> 20" for b by (simp add: json_bool_def)
  have one: "length (show_int 1) \<le> 20" by code_simp
  define kvs where "kvs = [(''version'', show_int (ps_Version s))]
      @ omit_if (ps_Active s = []) ''active'' (json_string (ps_Active s))
      @ omit_if (ps_KnownGood s = []) ''knownGood'' (json_string (ps_KnownGood s))
      @ omit_if (ps_Pending s = []) ''pending'' (json_string (ps_Pending s))
      @ omit_if (ps_Previous s = []) ''previous'' (json_string (ps_Previous s))
      @ omit_if (\<not> ps_AwaitingHealth s) ''awaitingHealth'' (json_bool (ps_AwaitingHealth s))
      @ omit_if (\<not> ps_BootAttempted s) ''bootAttempted'' (json_bool (ps_BootAttempted s))
      @ [(''securityRevision'', json_u64 (ps_SecurityRevision s))]"
  have "list_all (\<lambda>(k, v). length k \<le> 16 \<and> length v \<le> 20) kvs"
    unfolding kvs_def omit_if_def v by (simp add: js jb one length_json_u64)
  from length_json_object_uniform [OF this] have "length (json_object kvs) \<le> 2 + length kvs * 120"
    by simp
  moreover have "length kvs \<le> 8" by (simp add: kvs_def omit_if_def)
  ultimately show ?thesis
    by (simp add: json_persistentState_def kvs_def)
qed

lemma referenced_slots_set:
  "set (referenced_slots seen slots) = {slot \<in> set slots. validSlots slot \<and> slot \<notin> set seen}"
  by (induction seen slots rule: referenced_slots.induct) auto

lemma verify_slots_ok: "(\<And>slot. slot \<in> set slots \<Longrightarrow> check slot = Inr ()) \<Longrightarrow> verify_slots check slots = Inr ()"
  by (induction slots) simp_all

lemma slot_good_verifies:
  assumes "slot_good verify config v slot st" and "validSlots slot"
  shows "verifyInstalledSlot verify (io_ok, io_ok) (map_of (cfg_PublicKeys config)) (cfg_Target config) slot v st = Inr ()"
proof -
  obtain m data where g: "durable (st_manifest st) slot (manifest_node m)" "loadable m"
     "VerifyInstalled verify m (key_of (map_of (cfg_PublicKeys config)) (man_KeyID m)) (cfg_Target config) v = Inr ()"
     "durable (st_artifact st) slot (artifact_node data)" "VerifyArtifact m data False = Inr ()"
    using assms(1) unfolding slot_good_def by blast
  have "readManifest io_ok slot st = Inr m"
    using assms(2) g(2) durable_live [OF g(1)]
    by (simp add: readManifest_def readPrivateFile_def manifest_node_def loadable_def)
  moreover have "(word_of_nat (length data) :: u64) = man_SizeBytes m"
    using g(5) by (simp add: VerifyArtifact_ok)
  ultimately show ?thesis
    using g(3,5) durable_live [OF g(4)] by (simp add: verifyInstalledSlot_def artifact_node_def)
qed

lemma loadAndRecover_succeeds:
  assumes "commit_inv verify config s" and "us_manager s = None"
    and "m = new_manager config l"
  shows "\<exists>st'. loadAndRecover verify io_ok io_ok (\<lambda>_. (io_ok, io_ok)) m (us_store s) =
    (Inr (m\<lparr>mgr_state := (case recovered (state_of (us_store s)) of None \<Rightarrow> state_of (us_store s) | Some s' \<Rightarrow> s')\<rparr>), st')"
proof (cases "fs_live (st_root (us_store s)) stateName")
  case None
  moreover have "recovered initialState = None" by (simp add: recovered_def initialState_def)
  moreover have "m\<lparr>mgr_state := initialState\<rparr> = m" and "mgr_state m = initialState"
    using assms(3) by (simp_all add: new_manager_def)
  ultimately show ?thesis
    by (simp add: loadAndRecover_def readPrivateFile_def state_of_def storeState_ok slot_inv_valid)
next
  case (Some n)
  obtain s0 where n: "n = state_node s0" and inv: "slot_inv s0"
    using assms(1) Some unfolding commit_inv_def update_inv_def state_files_ok_def by blast
  have s0: "state_of (us_store s) = s0" using Some n state_of_node by simp
  have good: "slots_good verify config s0 (us_store s)"
    using assms(1) s0 by (simp add: commit_inv_def)
  have "verify_slots (\<lambda>slot. verifyInstalledSlot verify (io_ok, io_ok) (mgr_publicKeys m) (mgr_target m)
            slot (ps_SecurityRevision s0) (us_store s)) (uniqueReferencedSlots s0) = Inr ()"
  proof (rule verify_slots_ok)
    fix slot
    assume "slot \<in> set (uniqueReferencedSlots s0)"
    then have four: "slot \<in> {ps_Active s0, ps_KnownGood s0, ps_Pending s0, ps_Previous s0}" and v: "validSlots slot"
      unfolding uniqueReferencedSlots_def referenced_slots_set by simp_all
    from v have "slot \<noteq> []" using validSlots_empty by metis
    then have "slot_good verify config (ps_SecurityRevision s0) slot (us_store s)"
      using good four unfolding slots_good_def by metis
    from slot_good_verifies [OF this v] show "verifyInstalledSlot verify (io_ok, io_ok) (mgr_publicKeys m) (mgr_target m)
            slot (ps_SecurityRevision s0) (us_store s) = Inr ()"
      using assms(3) by (simp add: new_manager_def)
  qed
  then show ?thesis
    using Some n s0 inv state_json_fits [OF inv] slot_inv_valid [OF inv]
      storeState_ok [OF slot_inv_valid [OF slot_inv_recovered [OF inv]]]
    by (simp add: loadAndRecover_def readPrivateFile_def split: option.split)
qed

end
