(* ===== verification/Update_Life.thy ===== *)
theory Update_Life
  imports Update_Recovery
begin

text \<open>
  The properties of the update manager over its whole life, with a concrete life to apply them to: a
  release is staged, activated, booted and confirmed, and a second one is staged beside it.
\<close>

section \<open>A life\<close>

definition demo_verify :: verify_fun where
  "demo_verify key message signature \<longleftrightarrow> length key = 32 \<and> length signature = 3"

definition demo_release :: "u64 \<Rightarrow> bytes \<Rightarrow> Manifest" where
  "demo_release v data = \<lparr>man_Version = 1, man_Artifact = ''agent'', man_Digest = sha256_digest data,
     man_SizeBytes = word_of_nat (length data), man_Target = ''linux'', man_SecurityRevision = v,
     man_IssuedAt = 1000, man_ExpiresAt = 2000, man_KeyID = ''release'', man_Signature = ''AAAA''\<rparr>"

definition demo_now :: instant where
  "demo_now = 1500000000"

definition demo_sio :: stage_io where
  "demo_sio = \<lparr>sio_artifact = io_ok, sio_manifest = io_ok, sio_state = io_ok, sio_cancelled = False\<rparr>"

lemma commits_ok [simp]: "commits io_ok"
  by (simp add: commits_def)

lemma demo_key: "key_of (map_of (cfg_PublicKeys demo_config)) ''release'' = replicate 32 (CHR ''k'')"
  by (simp add: key_of_def demo_config_def)

lemma demo_release_fields [simp]:
  "man_KeyID (demo_release v data) = ''release''" "man_Target (demo_release v data) = ''linux''"
  "man_SecurityRevision (demo_release v data) = v" "man_SizeBytes (demo_release v data) = word_of_nat (length data)"
  "man_Digest (demo_release v data) = sha256_digest data"
  by (simp_all add: demo_release_def)

lemma sha256_digest_decodable:
  "has_prefix (sha256_digest data) ''sha256:''" "hex_decodable (trim_prefix (sha256_digest data) ''sha256:'')"
proof -
  obtain h where "sha256_digest data = ''sha256:'' @ h" "length h = 64" "list_all is_lower_hex h"
    using sha256_digest_pattern [of data] unfolding hex64_after_decompose by blast
  then show "has_prefix (sha256_digest data) ''sha256:''"
    and "hex_decodable (trim_prefix (sha256_digest data) ''sha256:'')"
    by (auto simp: has_prefix_def trim_prefix_def hex_decodable_def list_all_iff)
qed

lemma demo_release_valid:
  assumes "0 < length data" and "length data \<le> 1000"
  shows "validateStructure (demo_release v data) = Inr ()"
proof -
  have n: "unat (word_of_nat (length data) :: u64) = length data"
    using assms by (simp add: unat_of_nat)
  then have "(word_of_nat (length data) :: u64) \<noteq> 0" and "\<not> (word_of_nat (length data) :: u64) > MaxArtifactBytes"
    using assms by (auto simp: word_less_nat_alt dest: arg_cong [of _ _ unat])
  then show ?thesis
    by (simp add: validateStructure_def demo_release_def sha256_digest_decodable)
qed

lemma demo_release_loadable: "loadable (demo_release v data)"
proof -
  have s: "length (json_string x) \<le> 500" if "length x \<le> 71" for x
    using length_json_string_le [of x] that by linarith
  have d: "length (show_nat k) \<le> 500" if "k < 10 ^ 4" for k
    using length_show_nat_le [OF that] by simp
  have n: "length (show_int 1000) \<le> 500" "length (show_int 2000) \<le> 500" "length (show_nat (Suc 0)) \<le> 500"
    by (simp_all add: show_int_def d)
  have u: "length (json_u64 x) \<le> 500" for x
    using length_json_u64 [of x] by linarith
  show ?thesis
    unfolding loadable_def json_Manifest_def demo_release_def
    by (rule order_trans [OF length_json_object_uniform [of 16 500]]) (simp_all add: s n u)
qed

lemma demo_release_verifies:
  assumes "0 < length data" and "length data \<le> 1000" and "r \<le> v"
  shows "manifest_Verify demo_verify (demo_release v data) (replicate 32 (CHR ''k'')) ''linux'' r demo_now = Inr ()"
    and "VerifyArtifact (demo_release v data) data False = Inr ()"
proof -
  have "b64_value (CHR ''A'') = Some 0"
    by (simp add: b64_value_def b64_alphabet_def)
  then have "b64_values ''AAAA'' = Some [0, 0, 0, 0]"
    by simp
  then have "b64_decode ''AAAA'' = b64_groups [0, 0, 0, 0]"
    by (simp add: b64_decode_def del: b64_values.simps b64_groups.simps)
  then have sig: "b64_decode (man_Signature (demo_release v data)) = Some (replicate 3 (char_of (0 :: nat)))"
    by (simp add: demo_release_def numeral_3_eq_3)
  have "man_IssuedAt (demo_release v data) = 1000" "man_ExpiresAt (demo_release v data) = 2000"
    by (simp_all add: demo_release_def)
  with sig show "manifest_Verify demo_verify (demo_release v data) (replicate 32 (CHR ''k'')) ''linux'' r demo_now = Inr ()"
    using demo_release_valid [OF assms(1,2), of v] assms(3)
    by (simp add: manifest_Verify_def VerifyInstalled_def demo_verify_def demo_now_def)
  show "VerifyArtifact (demo_release v data) data False = Inr ()"
    using demo_release_valid [OF assms(1,2), of v] assms by (simp add: VerifyArtifact_ok unat_of_nat)
qed

lemma demo_stage:
  assumes "mgr_publicKeys m = map_of (cfg_PublicKeys demo_config)" and "mgr_target m = ''linux''" and "\<not> mgr_closed m"
    and "slot_inv (mgr_state m)" and "ps_Pending (mgr_state m) = []" and "\<not> ps_AwaitingHealth (mgr_state m)"
    and "ps_SecurityRevision (mgr_state m) \<le> v" and "0 < length data" and "length data \<le> 1000"
  shows "Stage demo_verify demo_sio m (demo_release v data) (Some (data, False)) demo_now st =
    (Inr (stage_slot (mgr_state m)), m\<lparr>mgr_state := (mgr_state m)\<lparr>ps_Pending := stage_slot (mgr_state m)\<rparr>\<rparr>,
     (installed (stage_slot (mgr_state m)) (demo_release v data) data st)
       \<lparr>st_root := fs_dirsync (fs_put stateName (state_node ((mgr_state m)\<lparr>ps_Pending := stage_slot (mgr_state m)\<rparr>)) (st_root st))\<rparr>)"
proof -
  have "install_slot demo_sio m (demo_release v data) data st =
    (Inr (stage_slot (mgr_state m)), m\<lparr>mgr_state := (mgr_state m)\<lparr>ps_Pending := stage_slot (mgr_state m)\<rparr>\<rparr>,
     (installed (stage_slot (mgr_state m)) (demo_release v data) data st)
       \<lparr>st_root := fs_dirsync (fs_put stateName (state_node ((mgr_state m)\<lparr>ps_Pending := stage_slot (mgr_state m)\<rparr>)) (st_root st))\<rparr>)"
    using storeState_ok [OF slot_inv_valid [OF slot_inv_staged [OF assms(4-6)]]]
    by (simp add: install_slot_def Let_def commit_artifact_def writeAtomic_def update_syncDirectory_def demo_sio_def
        installed_def artifact_node_def manifest_node_def)
  then show ?thesis
    using assms demo_release_verifies [OF assms(8,9,7)] demo_key
    by (simp add: Stage_def Let_def demo_sio_def)
qed

abbreviation (input) demo_step :: "update_system \<Rightarrow> update_system \<Rightarrow> bool" where
  "demo_step \<equiv> update_step demo_verify demo_config commits loadable"

text \<open>A manager on the demonstration's root that is open with the given state.\<close>

definition demo_at :: "persistentState \<Rightarrow> update_system \<Rightarrow> bool" where
  "demo_at s sys \<longleftrightarrow> reach update_init demo_step sys \<and> (\<exists>m. us_manager sys = Some m \<and> mgr_state m = s
     \<and> mgr_publicKeys m = map_of (cfg_PublicKeys demo_config) \<and> mgr_target m = ''linux'' \<and> \<not> mgr_closed m)"

lemma demo_opening:
  assumes "reach update_init demo_step sys" and "us_manager sys = None"
  shows "\<exists>sys'. demo_step sys sys' \<and>
    demo_at (case recovered (state_of (us_store sys)) of None \<Rightarrow> state_of (us_store sys) | Some s' \<Rightarrow> s') sys'"
proof -
  let ?m = "new_manager demo_config demo_lock"
  let ?s = "case recovered (state_of (us_store sys)) of None \<Rightarrow> state_of (us_store sys) | Some s' \<Rightarrow> s'"
  obtain st' where "loadAndRecover demo_verify io_ok io_ok (\<lambda>_. (io_ok, io_ok)) ?m (us_store sys) = (Inr (?m\<lparr>mgr_state := ?s\<rparr>), st')"
    using loadAndRecover_succeeds [OF committed.reach_inv [OF assms(1)] assms(2)] by blast
  then have "update_Open demo_verify demo_env demo_config demo_kernel (us_store sys) =
      (Inr (?m\<lparr>mgr_state := ?s\<rparr>), demo_kernel\<lparr>krn_holder := [7 \<mapsto> 3]\<rparr>, st')"
    by (rule demo_open_with)
  from up_open [OF assms(2) _ this, of commits loadable] have
    "demo_step sys \<lparr>us_manager = Some (?m\<lparr>mgr_state := ?s\<rparr>), us_store = st'\<rparr>"
    by (simp add: demo_env_def)
  with reach_step [OF assms(1) this] show ?thesis
    unfolding demo_at_def by (force simp: new_manager_def demo_config_def)
qed

lemma demo_atI:
  assumes "demo_at s sys" and "us_manager sys = Some m"
    and "demo_step sys \<lparr>us_manager = Some (m\<lparr>mgr_state := s'\<rparr>), us_store = st'\<rparr>"
  shows "demo_at s' \<lparr>us_manager = Some (m\<lparr>mgr_state := s'\<rparr>), us_store = st'\<rparr>"
  using assms reach_step [where step = demo_step] unfolding demo_at_def by auto

lemma demo_at_good:
  assumes "demo_at s sys"
  shows "slot_inv s" and "slots_good demo_verify demo_config s (us_store sys)" and "state_of (us_store sys) = s"
proof -
  obtain m where m: "us_manager sys = Some m" "mgr_state m = s" and r: "reach update_init demo_step sys"
    using assms unfolding demo_at_def by blast
  note inv = committed.reach_inv [OF r]
  show "slot_inv s" and "slots_good demo_verify demo_config s (us_store sys)"
    using commit_inv_manager [OF inv m(1)] m(2) by simp_all
  have "fs_live (st_root (us_store sys)) stateName = Some (state_node s)"
    using inv m by (simp add: commit_inv_def)
  then show "state_of (us_store sys) = s" by (rule state_of_node)
qed

lemma demo_staging:
  assumes "demo_at s sys" and "ps_Pending s = []" and "\<not> ps_AwaitingHealth s" and "ps_SecurityRevision s \<le> v"
    and "0 < length (data :: bytes)" and "length data \<le> 1000"
  shows "\<exists>sys'. demo_step sys sys' \<and> demo_at (s\<lparr>ps_Pending := stage_slot s\<rparr>) sys'"
proof -
  obtain m where m: "us_manager sys = Some m" "mgr_state m = s" "\<not> mgr_closed m" "mgr_target m = ''linux''"
      "mgr_publicKeys m = map_of (cfg_PublicKeys demo_config)"
    using assms(1) unfolding demo_at_def by blast
  have "demo_step sys \<lparr>us_manager = Some (m\<lparr>mgr_state := s\<lparr>ps_Pending := stage_slot s\<rparr>\<rparr>),
      us_store = (installed (stage_slot s) (demo_release v data) data (us_store sys))
       \<lparr>st_root := fs_dirsync (fs_put stateName (state_node (s\<lparr>ps_Pending := stage_slot s\<rparr>)) (st_root (us_store sys)))\<rparr>\<rparr>"
    by (rule up_stage [OF m(1) _ _ demo_stage [OF m(5,4,3), of v data "us_store sys", unfolded m(2)]])
      (use assms(2-6) demo_at_good(1) [OF assms(1)] in \<open>simp_all add: demo_sio_def demo_release_loadable\<close>)
  from this demo_atI [OF assms(1) m(1) this] show ?thesis by blast
qed

lemma adopt_ok:
  "slot_inv s' \<Longrightarrow> adopt io_ok s' m st = (Inr (), m\<lparr>mgr_state := s'\<rparr>,
     st\<lparr>st_root := fs_dirsync (fs_put stateName (state_node s') (st_root st))\<rparr>)"
  by (simp add: adopt_def storeState_ok slot_inv_valid)

lemma demo_activating:
  assumes "demo_at s sys" and "validSlots (ps_Pending s)" and "\<not> ps_AwaitingHealth s"
  shows "\<exists>sys'. demo_step sys sys' \<and> demo_at (activated s) sys'"
proof -
  obtain m where m: "us_manager sys = Some m" "mgr_state m = s" "\<not> mgr_closed m"
    using assms(1) unfolding demo_at_def by blast
  have "ActivatePending io_ok m (us_store sys) = (Inr (), m\<lparr>mgr_state := activated s\<rparr>,
      (us_store sys)\<lparr>st_root := fs_dirsync (fs_put stateName (state_node (activated s)) (st_root (us_store sys)))\<rparr>)"
    using m assms(2,3) slot_inv_activated [OF demo_at_good(1) [OF assms(1)] assms(2,3)]
    by (simp add: ActivatePending_def adopt_ok)
  note step = up_activate [where ok = commits and fits = loadable and verify = demo_verify and config = demo_config, OF m(1) commits_ok this]
  from step demo_atI [OF assms(1) m(1) step] show ?thesis by blast
qed

lemma demo_confirming:
  assumes "demo_at s sys" and "ps_AwaitingHealth s" and "ps_BootAttempted s"
  shows "\<exists>sys' manifest. demo_step sys sys' \<and> demo_at (confirmed manifest s) sys'"
proof -
  obtain m where m: "us_manager sys = Some m" "mgr_state m = s" "\<not> mgr_closed m"
    using assms(1) unfolding demo_at_def by blast
  note good = demo_at_good [OF assms(1)]
  have v: "validSlots (ps_Active s)" and ne: "ps_Active s \<noteq> []"
    using good(1) assms(2) by (auto simp: slot_inv_unfold)
  then have "slot_good demo_verify demo_config (ps_SecurityRevision s) (ps_Active s) (us_store sys)"
    using good(2) by (simp add: slots_good_def)
  then obtain manifest where d: "durable (st_manifest (us_store sys)) (ps_Active s) (manifest_node manifest)" "loadable manifest"
    unfolding slot_good_def by blast
  have "readManifest io_ok (ps_Active s) (us_store sys) = Inr manifest"
    using v d(2) durable_live [OF d(1)]
    by (simp add: readManifest_def readPrivateFile_def manifest_node_def loadable_def)
  then have "ConfirmHealthy io_ok io_ok m (us_store sys) = (Inr (), m\<lparr>mgr_state := confirmed manifest s\<rparr>,
      (us_store sys)\<lparr>st_root := fs_dirsync (fs_put stateName (state_node (confirmed manifest s)) (st_root (us_store sys)))\<rparr>)"
    using m assms(2,3) v slot_inv_confirmed [OF good(1) assms(2)]
    by (simp add: ConfirmHealthy_def adopt_ok)
  note step = up_confirm [where ok = commits and fits = loadable and verify = demo_verify and config = demo_config, OF m(1) commits_ok this]
  from step demo_atI [OF assms(1) m(1) step] show ?thesis by blast
qed

lemma demo_closing:
  assumes "demo_at s sys"
  shows "\<exists>sys'. demo_step sys sys' \<and> reach update_init demo_step sys' \<and> us_manager sys' = None \<and> state_of (us_store sys') = s"
proof -
  obtain m where m: "us_manager sys = Some m" and r: "reach update_init demo_step sys"
    using assms unfolding demo_at_def by blast
  note step = up_close [OF m, of demo_verify demo_config commits loadable]
  show ?thesis
    using step reach_step [OF r step] demo_at_good(3) [OF assms] by (intro exI [of _ "sys\<lparr>us_manager := None\<rparr>"]) simp
qed

text \<open>Release \<open>a\<close> is staged, activated, booted in a new process and confirmed.\<close>

lemma demo_life:
  "\<exists>sys0 sys s. demo_at initialState sys0 \<and> demo_step\<^sup>*\<^sup>* sys0 sys \<and> demo_at s sys \<and> ps_Active s = slot_a \<and> ps_KnownGood s = slot_a
     \<and> ps_Pending s = [] \<and> \<not> ps_AwaitingHealth s"
proof -
  let ?i = "\<lparr>us_manager = None, us_store = \<lparr>st_root = fs_empty, st_manifest = fs_empty, st_artifact = fs_empty\<rparr>\<rparr>"
  have "reach update_init demo_step ?i" by (rule reach_init) (simp add: update_init_def)
  from demo_opening [OF this] obtain sys0 where s0: "demo_at initialState sys0"
    by (auto simp: state_of_def recovered_def initialState_def)
  obtain sys1 where s1: "demo_step sys0 sys1" "demo_at (initialState\<lparr>ps_Pending := slot_a\<rparr>) sys1"
    using demo_staging [OF s0, of 7 "''abc''"] by (auto simp: initialState_def stage_slot_def)
  let ?s1 = "initialState\<lparr>ps_Pending := slot_a\<rparr>"
  obtain sys2 where s2: "demo_step sys1 sys2" "demo_at (activated ?s1) sys2"
    using demo_activating [OF s1(2)] by (auto simp: initialState_def validSlots_def)
  obtain sys3 where s3: "demo_step sys2 sys3" "reach update_init demo_step sys3" "us_manager sys3 = None"
      "state_of (us_store sys3) = activated ?s1"
    using demo_closing [OF s2(2)] by blast
  let ?s4 = "(activated ?s1)\<lparr>ps_BootAttempted := True\<rparr>"
  have "recovered (activated ?s1) = Some ?s4"
    by (simp add: recovered_def activated_def)
  then obtain sys4 where s4: "demo_step sys3 sys4" "demo_at ?s4 sys4"
    using demo_opening [OF s3(2,3)] s3(4) by auto
  have "ps_AwaitingHealth ?s4" "ps_BootAttempted ?s4" by (simp_all add: activated_def)
  then obtain sys5 manifest where s5: "demo_step sys4 sys5" "demo_at (confirmed manifest ?s4) sys5"
    using demo_confirming [OF s4(2)] by blast
  have "demo_step\<^sup>*\<^sup>* sys0 sys5"
    using s1(1) s2(1) s3(1) s4(1) s5(1) by (meson rtranclp.rtrancl_into_rtrancl rtranclp.rtrancl_refl)
  moreover have "ps_Active (confirmed manifest ?s4) = slot_a" "ps_KnownGood (confirmed manifest ?s4) = slot_a"
    "ps_Pending (confirmed manifest ?s4) = []" "\<not> ps_AwaitingHealth (confirmed manifest ?s4)"
    by (simp_all add: confirmed_def activated_def initialState_def)
  ultimately show ?thesis
    using s0 s5(2) by blast
qed

section \<open>The running release is never overwritten\<close>

text \<open>Whatever system calls fail, however a process crashed before and whatever release is offered,
  staging changes no file, live or on the disk, of the active slot or of the known-good slot.\<close>

theorem Stage_keeps_running_release:
  assumes "reach update_init (update_step verify config ok fits) s" and "us_manager s = Some m"
    and "Stage verify w m manifest artifact now (us_store s) = (r, m', st')"
    and "slot = ps_Active (mgr_state m) \<or> slot = ps_KnownGood (mgr_state m)"
  shows "fs_live (st_manifest st') slot = fs_live (st_manifest (us_store s)) slot
    \<and> fs_disk (st_manifest st') slot = fs_disk (st_manifest (us_store s)) slot
    \<and> fs_live (st_artifact st') slot = fs_live (st_artifact (us_store s)) slot
    \<and> fs_disk (st_artifact st') slot = fs_disk (st_artifact (us_store s)) slot"
proof -
  have inv: "slot_inv (mgr_state m)"
    using upd.reach_inv [OF assms(1)] assms(2) by (simp add: update_inv_def)
  have "st' = us_store s \<or> slot \<noteq> stage_slot (mgr_state m) \<and> only_slot (stage_slot (mgr_state m)) (us_store s) st'"
    using assms(3)
  proof (cases rule: Stage_cases)
    case (installing data)
    then show ?thesis
      using install_slot_only [OF installing(7)] stage_slot_unused [OF inv installing(4,3)] assms(4) by auto
  qed simp
  then show ?thesis
    unfolding only_slot_def by auto
qed

theorem Stage_keeps_running_release_witness:
  "\<exists>(sys :: update_system) m m' st'. us_manager sys = Some m \<and> ps_Active (mgr_state m) = slot_a
     \<and> Stage demo_verify demo_sio m (demo_release (-1) ''next'') (Some (''next'', False)) demo_now (us_store sys)
       = (Inr slot_b, m', st')
     \<and> fs_live (st_artifact st') slot_a = fs_live (st_artifact (us_store sys)) slot_a"
proof -
  obtain sys s where d: "demo_at s sys" "ps_Active s = slot_a" "ps_Pending s = []" "\<not> ps_AwaitingHealth s"
    using demo_life by blast
  then obtain m where m: "us_manager sys = Some m" "mgr_state m = s" "\<not> mgr_closed m" "mgr_target m = ''linux''"
      "mgr_publicKeys m = map_of (cfg_PublicKeys demo_config)" and r: "reach update_init demo_step sys"
    unfolding demo_at_def by blast
  have "stage_slot s = slot_b" using d(2) by (simp add: stage_slot_def)
  then obtain m' st' where st: "Stage demo_verify demo_sio m (demo_release (-1) ''next'') (Some (''next'', False)) demo_now (us_store sys)
      = (Inr slot_b, m', st')"
    using demo_stage [OF m(5,4,3), of "-1" "''next''" "us_store sys"] d demo_at_good(1) [OF d(1)] m(2) by simp
  from Stage_keeps_running_release [OF r m(1) st, of slot_a] show ?thesis
    using m(1,2) d(2) st by (intro exI [of _ sys] exI [of _ m] exI [of _ m'] exI [of _ st']) simp
qed

section \<open>Refinement of the release cycle\<close>



section \<open>The security revision\<close>

text \<open>The security revision on the disk never goes down, over any number of updates, rollbacks,
  restarts and crashes, under the same condition on the state file.\<close>

theorem security_revision_monotone:
  assumes "reach update_init (update_step verify config commits loadable) s"
    and "(update_step verify config commits loadable)\<^sup>*\<^sup>* s t"
  shows "ps_SecurityRevision (state_of (us_store s)) \<le> ps_SecurityRevision (state_of (us_store t))"
proof -
  have "commit_inv verify config s" by (rule committed.reach_inv [OF assms(1)])
  with assms(2) have "commit_inv verify config t \<and>
      ps_SecurityRevision (state_of (us_store s)) \<le> ps_SecurityRevision (state_of (us_store t))"
  proof (induction rule: rtranclp_induct)
    case (step y z)
    then have y: "commit_inv verify config y" by blast
    note c = commit_step [OF step(2) y]
    have "ps_SecurityRevision (state_of (us_store y)) \<le> ps_SecurityRevision (state_of (us_store z))"
      using c next_state_revision unfolding advances_def by auto
    then show ?case using c step by force
  qed simp
  then show ?thesis by blast
qed

theorem security_revision_monotone_witness:
  "\<exists>(s :: update_system) (t :: update_system). ps_Active (state_of (us_store s)) = [] \<and> ps_Active (state_of (us_store t)) = slot_a
     \<and> ps_SecurityRevision (state_of (us_store s)) \<le> ps_SecurityRevision (state_of (us_store t))"
proof -
  obtain s t p where d: "demo_at initialState s" "demo_step\<^sup>*\<^sup>* s t" "demo_at p t" "ps_Active p = slot_a"
    using demo_life by blast
  have "reach update_init demo_step s" using d(1) by (simp add: demo_at_def)
  from security_revision_monotone [OF this d(2)] show ?thesis
    using demo_at_good(3) [OF d(1)] demo_at_good(3) [OF d(3)] d(4)
    by (intro exI [of _ s] exI [of _ t]) (simp add: initialState_def)
qed

section \<open>What is left behind can be opened\<close>

text \<open>A manager can always be opened again on what earlier ones left behind, however they ended:
  the state file is readable and every slot it refers to verifies.  A trial that was never booted
  becomes the boot attempt; one that was booted and not confirmed goes back to the good release; any
  other state is found as it was.\<close>

theorem Open_succeeds_again:
  assumes "reach update_init (update_step verify config commits loadable) s" and "us_manager s = None"
    and "is_abs (cfg_Root config)" and "path_clean (cfg_Root config) = cfg_Root config"
    and "cfg_Target config \<noteq> []" and "length (cfg_Target config) \<le> 256"
    and "cfg_PublicKeys config \<noteq> []" and "trust_root_ok (cfg_PublicKeys config)"
    and "oe_mkdir env" and "requirePrivateDirectory (oe_info env) = Inr ()"
    and "Acquire (cfg_Root config) ''.software-update.lock'' (oe_lock env) (oe_inode env) (oe_fd env) k = (Inr l, k')"
    and "open_slots env [slot_a, slot_b] = Inr ()"
    and "oe_read env = io_ok" and "oe_store env = io_ok" and "oe_slots env = (\<lambda>_. (io_ok, io_ok))"
  shows "\<exists>m st'. update_Open verify env config k (us_store s) = (Inr m, k', st')
    \<and> mgr_state m = (case recovered (state_of (us_store s)) of None \<Rightarrow> state_of (us_store s) | Some s' \<Rightarrow> s')"
proof -
  obtain st' where "loadAndRecover verify io_ok io_ok (\<lambda>_. (io_ok, io_ok)) (new_manager config l) (us_store s) =
    (Inr ((new_manager config l)\<lparr>mgr_state :=
       (case recovered (state_of (us_store s)) of None \<Rightarrow> state_of (us_store s) | Some s' \<Rightarrow> s')\<rparr>), st')"
    using loadAndRecover_succeeds [OF committed.reach_inv [OF assms(1)] assms(2) refl] by blast
  then show ?thesis
    using assms(3-15) by (simp add: update_Open_def)
qed

theorem Open_succeeds_again_witness:
  "\<exists>(s :: update_system) m k' st'. ps_Active (state_of (us_store s)) = slot_a
     \<and> update_Open demo_verify demo_env demo_config demo_kernel (us_store s) = (Inr m, k', st')
     \<and> mgr_state m = state_of (us_store s)"
proof -
  obtain sys p where d: "demo_at p sys" "ps_Active p = slot_a" "\<not> ps_AwaitingHealth p"
    using demo_life by blast
  obtain s where s: "reach update_init demo_step s" "us_manager s = None" "state_of (us_store s) = p"
    using demo_closing [OF d(1)] by blast
  have c: "path_clean ''/var/lib/tos'' = ''/var/lib/tos''" by code_simp
  have "\<exists>m st'. update_Open demo_verify demo_env demo_config demo_kernel (us_store s)
        = (Inr m, demo_kernel\<lparr>krn_holder := [7 \<mapsto> 3]\<rparr>, st')
      \<and> mgr_state m = (case recovered (state_of (us_store s)) of None \<Rightarrow> state_of (us_store s) | Some s' \<Rightarrow> s')"
    by (rule Open_succeeds_again [OF s(1,2)])
      (simp_all add: demo_config_def demo_env_def trust_root_ok_def is_abs_def has_prefix_def c
        requirePrivateDirectory_def demo_directory_def demo_acquire)
  then show ?thesis
    using d(2,3) s(3) by (auto simp: recovered_def)
qed

section \<open>What cannot be opened again\<close>

text \<open>The manifest with line feeds added to its signature, which the decoder skips.\<close>

definition padded :: "Manifest \<Rightarrow> Manifest" where
  "padded m = m\<lparr>man_Signature := man_Signature m @ replicate 16385 (CHR 0x0A)\<rparr>"

lemma padded_not_loadable: "length (json_Manifest (padded m)) > maxManifestBytes"
  using length_json_Manifest_ge [of "padded m"] by (simp add: padded_def)

lemma padded_verifies:
  "manifest_Verify verify (padded m) key target r now = manifest_Verify verify m key target r now"
  "VerifyArtifact (padded m) data fails = VerifyArtifact m data fails"
  "man_KeyID (padded m) = man_KeyID m"
  unfolding padded_def by (simp_all only: manifest_Verify_newlines VerifyArtifact_signature) simp

lemma install_slot_other_manifest:
  assumes "install_slot w m manifest data st = (Inr slot, m', st')"
  shows "\<exists>f. storeState (sio_state w) ((mgr_state m)\<lparr>ps_Pending := slot\<rparr>) (st_root st) = (Inr (), f)
    \<and> install_slot w m manifest' data st = (Inr slot, m', (installed slot manifest' data st)\<lparr>st_root := f\<rparr>)
    \<and> slot = stage_slot (mgr_state m)"
  using assms
  by (auto simp: install_slot_def Let_def writeAtomic_def commit_artifact_def installed_def manifest_node_def
      artifact_node_def split: sum.splits prod.splits if_splits)

lemma Stage_other_manifest:
  assumes "Stage verify w m manifest artifact now st = (Inr slot, m', st')"
    and "\<And>key target r. manifest_Verify verify manifest' key target r now = manifest_Verify verify manifest key target r now"
    and "\<And>data fails. VerifyArtifact manifest' data fails = VerifyArtifact manifest data fails"
    and "man_KeyID manifest' = man_KeyID manifest"
  shows "\<exists>data f. storeState (sio_state w) ((mgr_state m)\<lparr>ps_Pending := slot\<rparr>) (st_root st) = (Inr (), f)
    \<and> Stage verify w m manifest' artifact now st = (Inr slot, m', (installed slot manifest' data st)\<lparr>st_root := f\<rparr>)
    \<and> slot = stage_slot (mgr_state m)"
proof -
  from assms(1) show ?thesis
  proof (cases rule: Stage_cases)
    case (installing data)
    then have "Stage verify w m manifest' artifact now st = install_slot w m manifest' data st"
      using Stage_installs [of m verify manifest' now data w st] assms(2-4) by simp
    then show ?thesis
      using install_slot_other_manifest [OF installing(7), of manifest'] by metis
  qed simp
qed

lemma verify_slots_fail:
  assumes "check slot = Inl e"
  shows "slot \<in> set slots \<Longrightarrow> \<exists>e'. verify_slots check slots = Inl e'"
proof (induction slots)
  case (Cons a slots)
  then show ?case using assms by (cases "check a") auto
qed simp

text \<open>No environment opens a directory whose state file refers to a slot that does not verify.\<close>

lemma bad_slot_blocks_open:
  assumes "fs_live (st_root st) stateName = Some (state_node s)" and "slot \<in> set (uniqueReferencedSlots s)"
    and "\<And>ws keys target r. \<exists>e. verifyInstalledSlot verify ws keys target slot r st = Inl e"
  shows "\<exists>e k' st'. update_Open verify env config k st = (Inl e, k', st')"
proof -
  have load: "\<exists>e. loadAndRecover verify wr w ws m st = (Inl e, st)" for wr w ws m
  proof -
    let ?check = "\<lambda>slot. verifyInstalledSlot verify (ws slot) (mgr_publicKeys m) (mgr_target m)
                    slot (ps_SecurityRevision s) st"
    obtain e where "?check slot = Inl e"
      using assms(3) by blast
    from verify_slots_fail [of ?check, OF this assms(2)]
    obtain e' where "verify_slots ?check (uniqueReferencedSlots s) = Inl e'"
      by blast
    then show ?thesis
      using assms(1) by (simp add: loadAndRecover_def readPrivateFile_def)
  qed
  obtain r k' st' where o: "update_Open verify env config k st = (r, k', st')" by (metis prod_cases3)
  then have "\<exists>e. r = Inl e"
  proof (cases rule: update_Open_cases)
    case (opened l)
    then show ?thesis using load by (metis prod.inject)
  qed simp
  with o show ?thesis by blast
qed



text \<open>Two outcomes: the directory sync after the rename of the state file fails; the manifest file
  cannot be created.\<close>

definition sync_fails :: stage_io where
  "sync_fails = demo_sio\<lparr>sio_state := io_ok\<lparr>io_dirsync := False\<rparr>\<rparr>"

definition create_fails :: stage_io where
  "create_fails = demo_sio\<lparr>sio_manifest := io_ok\<lparr>io_open := False\<rparr>\<rparr>"

definition stageable :: "verify_fun \<Rightarrow> Manager \<Rightarrow> instant \<Rightarrow> Manifest \<Rightarrow> bytes \<Rightarrow> bool" where
  "stageable verify m now manifest data \<longleftrightarrow>
     manifest_Verify verify manifest (key_of (mgr_publicKeys m) (man_KeyID manifest)) (mgr_target m)
             (ps_SecurityRevision (mgr_state m)) now = Inr ()
     \<and> VerifyArtifact manifest data False = Inr ()
     \<and> length (key_of (mgr_publicKeys m) (man_KeyID manifest)) = PublicKeySize"

text \<open>When the directory sync of the state file fails, \<open>Stage\<close> reports an error and the manager
  keeps its old state, but the file in place already names the slot.  Staging another release then
  overwrites that slot; if it stops after the artifact, no environment opens a manager on the
  directory again.\<close>

theorem restage_after_failed_sync_blocks_open:
  assumes "slot_inv (mgr_state m)" and "\<not> mgr_closed m" and "ps_Pending (mgr_state m) = []"
    and "\<not> ps_AwaitingHealth (mgr_state m)"
    and "stageable verify m now manifest1 data1" and "stageable verify m now manifest2 data2"
    and "length data1 \<noteq> length data2"
  shows "\<exists>e1 st1 e2 st2. Stage verify sync_fails m manifest1 (Some (data1, False)) now st = (Inl e1, m, st1)
    \<and> Stage verify create_fails m manifest2 (Some (data2, False)) now st1 = (Inl e2, m, st2)
    \<and> (\<forall>env config k. \<exists>e k' st3. update_Open verify env config k st2 = (Inl e, k', st3))"
proof -
  let ?slot = "stage_slot (mgr_state m)"
  let ?s = "(mgr_state m)\<lparr>ps_Pending := ?slot\<rparr>"
  let ?f = "fs_put stateName (state_node ?s) (st_root st)"
  let ?st1 = "(installed ?slot manifest1 data1 st)\<lparr>st_root := ?f\<rparr>"
  let ?st2 = "?st1\<lparr>st_artifact := fs_put ?slot (artifact_node data2) (st_artifact ?st1)\<rparr>"
  have "storeState (io_ok\<lparr>io_dirsync := False\<rparr>) ?s (st_root st) = (Inl (ErrMsg ''sync software update directory''), ?f)"
    using slot_inv_valid [OF slot_inv_staged [OF assms(1,3,4)]]
    by (simp add: storeState_def writeAtomic_def update_syncDirectory_def state_node_def Let_def)
  then have "install_slot sync_fails m manifest1 data1 st = (Inl (ErrMsg ''sync software update directory''), m, ?st1)"
    by (simp add: install_slot_def Let_def commit_artifact_def writeAtomic_def update_syncDirectory_def sync_fails_def
        demo_sio_def installed_def artifact_node_def manifest_node_def)
  then have one: "Stage verify sync_fails m manifest1 (Some (data1, False)) now st = (Inl (ErrMsg ''sync software update directory''), m, ?st1)"
    using Stage_installs [OF assms(2-4)] assms(5) by (simp add: stageable_def sync_fails_def demo_sio_def)
  have "install_slot create_fails m manifest2 data2 ?st1 = (Inl (ErrMsg ''create atomic software update file''), m, ?st2)"
    by (simp add: install_slot_def Let_def commit_artifact_def writeAtomic_def create_fails_def demo_sio_def
        artifact_node_def)
  then have two: "Stage verify create_fails m manifest2 (Some (data2, False)) now ?st1 = (Inl (ErrMsg ''create atomic software update file''), m, ?st2)"
    using Stage_installs [OF assms(2-4)] assms(6) by (simp add: stageable_def create_fails_def demo_sio_def)
  have live: "fs_live (st_root ?st2) stateName = Some (state_node ?s)" by simp
  have ref: "?slot \<in> set (uniqueReferencedSlots ?s)"
    by (simp add: uniqueReferencedSlots_def referenced_slots_set)
  have "man_SizeBytes manifest1 \<noteq> word_of_nat (length data2)"
    using assms(5-7) by (auto simp: stageable_def VerifyArtifact_ok)
  then have "\<exists>e. verifyInstalledSlot verify ws keys target ?slot r ?st2 = Inl e" for ws keys target r
    by (auto simp: verifyInstalledSlot_def readManifest_def readPrivateFile_def installed_def manifest_node_def
        artifact_node_def split: sum.splits)
  from bad_slot_blocks_open [OF live ref this] one two show ?thesis by blast
qed

theorem restage_after_failed_sync_blocks_open_witness:
  "\<exists>(m :: Manager) st e1 st1 e2 st2.
     Stage demo_verify sync_fails m (demo_release 7 ''abc'') (Some (''abc'', False)) demo_now st = (Inl e1, m, st1)
    \<and> Stage demo_verify create_fails m (demo_release 8 ''next'') (Some (''next'', False)) demo_now st1 = (Inl e2, m, st2)
    \<and> (\<forall>env config k. \<exists>e k' st3. update_Open demo_verify env config k st2 = (Inl e, k', st3))"
proof -
  let ?m = "new_manager demo_config demo_lock"
  have state: "mgr_state ?m = initialState" by (simp add: new_manager_def)
  have m: "slot_inv (mgr_state ?m)" "\<not> mgr_closed ?m" "ps_Pending (mgr_state ?m) = []" "\<not> ps_AwaitingHealth (mgr_state ?m)"
    unfolding state by (simp_all add: new_manager_def) (simp_all add: initialState_def)
  have "mgr_publicKeys ?m = map_of (cfg_PublicKeys demo_config)" "mgr_target ?m = ''linux''"
    "ps_SecurityRevision (mgr_state ?m) = 0"
    by (simp_all add: new_manager_def demo_config_def initialState_def)
  then have "stageable demo_verify ?m demo_now (demo_release 7 ''abc'') ''abc''"
    "stageable demo_verify ?m demo_now (demo_release 8 ''next'') ''next''"
    using demo_key demo_release_verifies [of "''abc''" 0 7] demo_release_verifies [of "''next''" 0 8]
    by (simp_all add: stageable_def)
  from restage_after_failed_sync_blocks_open [OF m this] show ?thesis
    by (intro exI [of _ ?m]) simp
qed

end
