(* ===== verification/Private_Ingress.thy ===== *)
theory Private_Ingress
  imports Commerce_Plan Contracts Go_Base64
begin

text \<open>
  Package \<open>pkg/privateingress\<close>: private content handed to a receiver for one agreement.  A challenge
  record is created per handoff; an authorised upload is decrypted, stored as an immutable object and
  recorded as accepted; an authorised deletion removes the object.

  The protocol library is not part of this repository: what the package calls of it is the record
  \<open>handoff_library\<close>, an argument of the definitions.  The library's structs carry the fields this
  package reads and, as \<open>rest\<close>, whatever else is in them.  The model's directory is the store's
  directory; challenge records are kept decoded, and their encoded size is the library record's
  \<open>hl_record_size\<close>, since it depends on the encoding of the library's structs.
\<close>

section \<open>Data\<close>

record PrivateHandoffChallengeBody =
  hcb_HandoffID :: string
  hcb_AgreementBodyDigest :: string
  hcb_ObligationID :: string
  hcb_SenderAgentID :: string
  hcb_ReceiverAgentID :: string
  hcb_IngressInstanceID :: string
  hcb_ReceiverEncryptionPublicKey :: string
  hcb_RetentionPolicyDigest :: string
  hcb_DeleteNotAfterUnix :: u64
  hcb_rest :: bytes

record SignedPrivateHandoffChallenge =
  shc_Body :: PrivateHandoffChallengeBody
  shc_rest :: bytes

record PrivateContentManifest =
  pcm_ContentDigest :: string
  pcm_rest :: bytes

record PrivateHandoffAuthorizationBody =
  hab_ChallengeDigest :: string
  hab_Manifest :: PrivateContentManifest
  hab_CiphertextDigest :: string
  hab_CiphertextBytes :: u64
  hab_SenderDisclosureActionID :: string
  hab_rest :: bytes

record SignedPrivateHandoffAuthorization =
  sha_Body :: PrivateHandoffAuthorizationBody
  sha_rest :: bytes

record AcceptedPrivateContentRecord =
  acc_SchemaVersion :: nat
  acc_HandoffID :: string
  acc_ChallengeDigest :: string
  acc_AuthorizationDigest :: string
  acc_UploadActionID :: string
  acc_SenderDisclosureActionID :: string
  acc_ContentDigest :: string
  acc_ContentManifestDigest :: string
  acc_PlaintextBytes :: u64
  acc_ImmutableObjectDigest :: string
  acc_RetentionPolicyDigest :: string
  acc_AcceptedAtUnix :: u64
  acc_DeleteNotAfterUnix :: u64

record HandoffAction =
  hac_ActionKind :: string
  hac_OwnerID :: string
  hac_AgentID :: string
  hac_StableActionID :: string
  hac_rest :: bytes

type_synonym HandoffFence = bytes

record ActionResolution =
  res_StableActionID :: string
  res_ExactRequestDigest :: string
  res_Terminal :: bool
  res_SinkReference :: string
  res_EvidenceRefs :: "string list"
  res_StateRevision :: nat

record challengeRecord =
  chr_Schema :: string
  chr_Challenge :: SignedPrivateHandoffChallenge
  chr_EncryptionPrivateKey :: string
  chr_Accepted :: "AcceptedPrivateContentRecord option"
  chr_AuthorizationDigest :: string
  chr_DeletionActionID :: string
  chr_DeletionRequestDigest :: string
  chr_DeletionState :: string
  chr_DeletedAtUnix :: u64

record UploadRequest =
  upr_ChallengeDigest :: string
  upr_Authorization :: SignedPrivateHandoffAuthorization
  upr_CiphertextDigest :: string
  upr_CiphertextBytes :: u64

record DeleteRequest =
  dlr_HandoffID :: string
  dlr_AgreementBodyDigest :: string
  dlr_ObligationID :: string
  dlr_ContentManifestDigest :: string
  dlr_RetentionPolicyDigest :: string

text \<open>
  The functions of the library.  A digest function returns a string together with its error, because
  some callers ignore the error and compare the string.
\<close>

record handoff_library =
  hl_VerifyWriterFence :: "HandoffFence \<Rightarrow> instant \<Rightarrow> string \<Rightarrow> unit result"
  hl_ConfirmCurrentWriterFence :: "HandoffFence \<Rightarrow> instant \<Rightarrow> unit result"
  hl_VerifyAuthorizedAction :: "HandoffAction \<Rightarrow> sem_fields \<Rightarrow> bytes \<Rightarrow> HandoffFence \<Rightarrow> instant \<Rightarrow> unit result"
  hl_SignPrivateHandoffChallenge :: "PrivateHandoffChallengeBody \<Rightarrow> bytes \<Rightarrow> SignedPrivateHandoffChallenge result"
  hl_PrivateHandoffChallengeDigest :: "PrivateHandoffChallengeBody \<Rightarrow> string \<times> go_error option"
  hl_DigestManifest :: "PrivateContentManifest \<Rightarrow> string result"
  hl_MarshalUpload :: "UploadRequest \<Rightarrow> bytes result"
  hl_MarshalDelete :: "DeleteRequest \<Rightarrow> bytes result"
  hl_PrivateHandoffAuthorizationDigest :: "PrivateHandoffAuthorizationBody \<Rightarrow> string result"
  hl_OpenPrivateContent :: "SignedPrivateHandoffChallenge \<Rightarrow> SignedPrivateHandoffAuthorization \<Rightarrow> bytes
    \<Rightarrow> bytes \<Rightarrow> instant \<Rightarrow> bytes result"
  hl_SignPrivateHandoffAcknowledgement :: "AcceptedPrivateContentRecord \<Rightarrow> string \<Rightarrow> bytes \<Rightarrow> bytes result"
  hl_ExactRequestDigest :: "bytes \<Rightarrow> string \<times> go_error option"
  hl_record_size :: "challengeRecord \<Rightarrow> nat"

record IngressStore =
  igs_directory :: string
  igs_lock :: "Lock option"
  igs_receiverAgent :: string
  igs_signingKey :: bytes

datatype ingress_file = ChallengeFile challengeRecord | ObjectFile bytes

abbreviation (input) challenge_schema :: string where "challenge_schema \<equiv> ''tos.ai.private-ingress-challenge.v1''"

section \<open>Files\<close>

text \<open>Besides the calls of \<open>io\<close>, closing the directory handle and reading random bytes can fail.\<close>

record ingress_io = io +
  io_dirclose :: bool
  io_random :: bool

definition canonicalDigest :: "string \<Rightarrow> bool" where
  "canonicalDigest v =
     (if length v \<noteq> 71 \<or> take 7 v \<noteq> ''sha256:'' then False
      else list_all (\<lambda>c. CHR ''0'' \<le> c \<and> c \<le> CHR ''9'' \<or> CHR ''a'' \<le> c \<and> c \<le> CHR ''f'') (drop 7 v))"

definition challengePath :: "string \<Rightarrow> string" where
  "challengePath handoffID = ''challenge-'' @ hex_encode (sha256 handoffID) @ ''.json''"

definition objectPath :: "string \<Rightarrow> string" where
  "objectPath digest = ''object-'' @ drop 7 digest @ ''.bin''"

definition syncPrivateDirectory :: "ingress_io \<Rightarrow> 'c fs \<Rightarrow> unit result \<times> 'c fs" where
  "syncPrivateDirectory w f =
     (if \<not> io_diropen w then (Inl ErrOs, f)
      else if \<not> io_dirsync w then (Inl ErrOs, f)
      else if \<not> io_dirclose w then (Inl ErrOs, fs_dirsync f)
      else (Inr (), fs_dirsync f))"

definition createPrivate :: "ingress_io \<Rightarrow> string \<Rightarrow> 'c \<Rightarrow> nat \<Rightarrow> 'c fs \<Rightarrow> unit result \<times> 'c fs" where
  "createPrivate w p c len f =
     (if fs_live f p \<noteq> None then (Inl ErrExist, f)
      else if \<not> io_open w then (Inl ErrOs, f)
      else if \<not> io_write w then (Inl ErrOs, fs_put p (new_node mode_0600) f)
      else
        let n = node_write c len (new_node mode_0600)
        in if \<not> io_sync w then (Inl ErrOs, fs_put p n f)
           else if \<not> io_close w then (Inl ErrOs, fs_put p (node_sync n) f)
           else syncPrivateDirectory w (fs_put p (node_sync n) f))"

definition replacePrivate :: "ingress_io \<Rightarrow> string \<Rightarrow> 'c \<Rightarrow> nat \<Rightarrow> 'c fs \<Rightarrow> unit result \<times> 'c fs" where
  "replacePrivate w p c len f =
     (if \<not> io_random w then (Inl ErrOs, f)
      else if \<not> io_open w then (Inl ErrOs, f)
      else if \<not> io_write w \<or> \<not> io_sync w then (Inl ErrOs, f)
      else if \<not> io_close w then (Inl ErrOs, f)
      else if \<not> io_rename w then (Inl ErrOs, f)
      else syncPrivateDirectory w (fs_put p (node_sync (node_write c len (new_node mode_0600))) f))"

definition readChallenge :: "ingress_io \<Rightarrow> string \<Rightarrow> ingress_file fs \<Rightarrow> challengeRecord result" where
  "readChallenge w p f =
     (case fs_live f p of
        None \<Rightarrow> Inl ErrNotExist
      | Some n \<Rightarrow>
          if node_type n \<noteq> RegularFile \<or> node_perm n \<noteq> mode_0600 \<or> node_size n = 0 \<or> node_size n > 1048576
          then Inl (ErrMsg ''private ingress challenge record is invalid'')
          else if \<not> io_read w then Inl ErrOs
          else (case node_data n of
              Some (ChallengeFile r) \<Rightarrow>
                if chr_Schema r \<noteq> challenge_schema
                then Inl (ErrMsg ''private ingress challenge record is malformed'') else Inr r
            | _ \<Rightarrow> Inl (ErrMsg ''private ingress challenge record is malformed'')))"

definition challenge_name :: "string \<Rightarrow> bool" where
  "challenge_name name \<longleftrightarrow> length name = 79 \<and> take 10 name = ''challenge-'' \<and> drop 74 name = ''.json''"

text \<open>
  \<open>findChallenge\<close> walks the sorted entries of the directory; \<open>None\<close> when \<open>ReadDir\<close> fails.  An entry's
  type is that of the file, a missing file (removed in between) is none.
\<close>

fun find_in :: "handoff_library \<Rightarrow> (string \<Rightarrow> ingress_io) \<Rightarrow> string \<Rightarrow> ingress_file fs \<Rightarrow> string list
    \<Rightarrow> (string \<times> challengeRecord) result" where
  "find_in lib ws challengeDigest f [] = Inl ErrNotExist"
| "find_in lib ws challengeDigest f (name # names) =
     (if map_option node_type (fs_live f name) = Some RegularFile \<and> challenge_name name then
        (case readChallenge (ws name) name f of
           Inl e \<Rightarrow> find_in lib ws challengeDigest f names
         | Inr r \<Rightarrow>
             if hl_PrivateHandoffChallengeDigest lib (shc_Body (chr_Challenge r)) = (challengeDigest, None)
             then Inr (name, r) else find_in lib ws challengeDigest f names)
      else find_in lib ws challengeDigest f names)"

definition findChallenge :: "handoff_library \<Rightarrow> (string \<Rightarrow> ingress_io) \<Rightarrow> string list option \<Rightarrow> string
    \<Rightarrow> ingress_file fs \<Rightarrow> (string \<times> challengeRecord) result" where
  "findChallenge lib ws entries challengeDigest f =
     (case entries of None \<Rightarrow> Inl ErrOs
      | Some names \<Rightarrow>
          if length names > 10000 then Inl (ErrMsg ''private ingress challenge index exceeds bound'')
          else find_in lib ws challengeDigest f names)"

section \<open>Opening and closing\<close>

definition ingress_Open :: "string \<Rightarrow> string \<Rightarrow> bytes \<Rightarrow> bool \<Rightarrow> bool \<Rightarrow> unit node option \<Rightarrow> lock_obs \<Rightarrow> nat \<Rightarrow> nat
    \<Rightarrow> kernel \<Rightarrow> IngressStore result \<times> kernel" where
  "ingress_Open directory receiverAgentID signingKey authorities mkdir_ok info obs i fd k =
     (if \<not> is_abs directory \<or> path_clean directory \<noteq> directory \<or> receiverAgentID = [] \<or> length signingKey \<noteq> 64
         \<or> \<not> authorities
      then (Inl (ErrMsg ''private ingress configuration is invalid''), k)
      else if \<not> mkdir_ok then (Inl ErrOs, k)
      else case info of
        None \<Rightarrow> (Inl (ErrMsg ''private ingress directory must be owner-private''), k)
      | Some n \<Rightarrow>
          if node_type n \<noteq> DirectoryFile \<or> node_perm n \<noteq> mode_0700
          then (Inl (ErrMsg ''private ingress directory must be owner-private''), k)
          else (case Acquire directory ''.private-ingress.lock'' obs i fd k of
              (Inl e, k') \<Rightarrow> (Inl (ErrMsg ''private ingress is already owned''), k')
            | (Inr l, k') \<Rightarrow> (Inr \<lparr>igs_directory = directory, igs_lock = Some l, igs_receiverAgent = receiverAgentID,
                igs_signingKey = signingKey\<rparr>, k')))"

definition ingress_Close :: "bool \<Rightarrow> bool \<Rightarrow> IngressStore \<Rightarrow> kernel \<Rightarrow> unit result \<times> IngressStore \<times> kernel" where
  "ingress_Close u c store k =
     (case igs_lock store of
        None \<Rightarrow> (Inr (), store, k)
      | Some l \<Rightarrow> (case Lock_Close u c l k of
          (r, l', k') \<Rightarrow> (r, store\<lparr>igs_signingKey := map (\<lambda>_. CHR 0x00) (igs_signingKey store), igs_lock := None\<rparr>, k')))"

section \<open>Challenges\<close>

text \<open>\<open>key\<close> is the outcome of generating an encryption key: the private and the public bytes.\<close>

definition IssueChallenge :: "handoff_library \<Rightarrow> (bytes \<times> bytes) result \<Rightarrow> ingress_io \<Rightarrow> ingress_io \<Rightarrow> ingress_io
    \<Rightarrow> IngressStore \<Rightarrow> PrivateHandoffChallengeBody \<Rightarrow> ingress_file fs
    \<Rightarrow> SignedPrivateHandoffChallenge result \<times> ingress_file fs" where
  "IssueChallenge lib key w1 w w2 store body f =
     (if igs_lock store = None \<or> hcb_ReceiverAgentID body \<noteq> igs_receiverAgent store \<or> hcb_IngressInstanceID body = []
      then (Inl (ErrMsg ''private ingress challenge is invalid''), f)
      else
        let p = challengePath (hcb_HandoffID body) in
        case readChallenge w1 p f of
          Inr existing \<Rightarrow>
            let body' = body\<lparr>hcb_ReceiverEncryptionPublicKey :=
                  hcb_ReceiverEncryptionPublicKey (shc_Body (chr_Challenge existing))\<rparr> in
            (case hl_SignPrivateHandoffChallenge lib body' (igs_signingKey store) of
               Inr candidate \<Rightarrow>
                 if fst (hl_PrivateHandoffChallengeDigest lib (shc_Body candidate))
                    = fst (hl_PrivateHandoffChallengeDigest lib (shc_Body (chr_Challenge existing)))
                 then (Inr (chr_Challenge existing), f)
                 else (Inl (ErrMsg ''handoff ID conflicts with an existing challenge''), f)
             | Inl _ \<Rightarrow> (Inl (ErrMsg ''handoff ID conflicts with an existing challenge''), f))
        | Inl e \<Rightarrow>
            if e \<noteq> ErrNotExist then (Inl e, f)
            else (case key of Inl e \<Rightarrow> (Inl e, f) | Inr (private_key, public_key) \<Rightarrow>
              let body' = body\<lparr>hcb_ReceiverEncryptionPublicKey := b64_encode public_key\<rparr> in
              (case hl_SignPrivateHandoffChallenge lib body' (igs_signingKey store) of
                 Inl e \<Rightarrow> (Inl e, f)
               | Inr challenge \<Rightarrow>
                   (case hl_PrivateHandoffChallengeDigest lib body' of
                      (_, Some e) \<Rightarrow> (Inl e, f)
                    | (digest, None) \<Rightarrow>
                        let r = \<lparr>chr_Schema = challenge_schema, chr_Challenge = challenge,
                              chr_EncryptionPrivateKey = b64_encode private_key, chr_Accepted = None,
                              chr_AuthorizationDigest = [], chr_DeletionActionID = [], chr_DeletionRequestDigest = [],
                              chr_DeletionState = [], chr_DeletedAtUnix = 0\<rparr>
                        in (case createPrivate w p (ChallengeFile r) (hl_record_size lib r) f of
                              (Inr _, f') \<Rightarrow> (Inr challenge, f')
                            | (Inl e, f') \<Rightarrow>
                                (case readChallenge w2 p f' of
                                   Inr existing \<Rightarrow>
                                     if fst (hl_PrivateHandoffChallengeDigest lib (shc_Body (chr_Challenge existing))) = digest
                                     then (Inr (chr_Challenge existing), f') else (Inl e, f')
                                 | Inl _ \<Rightarrow> (Inl e, f')))))))"

definition UploadAuthorizationMaterial :: "handoff_library \<Rightarrow> string \<Rightarrow> string \<Rightarrow> SignedPrivateHandoffChallenge
    \<Rightarrow> SignedPrivateHandoffAuthorization \<Rightarrow> (bytes \<times> sem_fields) result" where
  "UploadAuthorizationMaterial lib ownerID agentID challenge authorization =
     (case hl_PrivateHandoffChallengeDigest lib (shc_Body challenge) of
        (_, Some e) \<Rightarrow> Inl e
      | (challengeDigest, None) \<Rightarrow>
          (case hl_DigestManifest lib (hab_Manifest (sha_Body authorization)) of
             Inl e \<Rightarrow> Inl e
           | Inr manifestDigest \<Rightarrow>
               (case hl_MarshalUpload lib \<lparr>upr_ChallengeDigest = challengeDigest, upr_Authorization = authorization,
                       upr_CiphertextDigest = hab_CiphertextDigest (sha_Body authorization),
                       upr_CiphertextBytes = hab_CiphertextBytes (sha_Body authorization)\<rparr> of
                  Inl e \<Rightarrow> Inl e
                | Inr canonical \<Rightarrow> Inr (canonical,
                    [(''owner_id'', SemID ownerID), (''agent_id'', SemID agentID),
                     (''agreement_body_digest'', SemDigest32 (hcb_AgreementBodyDigest (shc_Body challenge))),
                     (''obligation_id'', SemID (hcb_ObligationID (shc_Body challenge))),
                     (''handoff_id'', SemID (hcb_HandoffID (shc_Body challenge))),
                     (''sender_id'', SemID (hcb_SenderAgentID (shc_Body challenge))),
                     (''receiver_id'', SemID (hcb_ReceiverAgentID (shc_Body challenge))),
                     (''content_manifest_digest'', SemDigest32 manifestDigest)]))))"

section \<open>Accepting\<close>

text \<open>The record \<open>Accept\<close> stores and returns.\<close>

definition accepted_record :: "challengeRecord \<Rightarrow> string \<Rightarrow> string \<Rightarrow> HandoffAction
    \<Rightarrow> SignedPrivateHandoffAuthorization \<Rightarrow> string \<Rightarrow> bytes \<Rightarrow> instant \<Rightarrow> AcceptedPrivateContentRecord" where
  "accepted_record r challengeDigest authorizationDigest action authorization manifestDigest plaintext now =
     \<lparr>acc_SchemaVersion = 1, acc_HandoffID = hcb_HandoffID (shc_Body (chr_Challenge r)),
      acc_ChallengeDigest = challengeDigest, acc_AuthorizationDigest = authorizationDigest,
      acc_UploadActionID = hac_StableActionID action,
      acc_SenderDisclosureActionID = hab_SenderDisclosureActionID (sha_Body authorization),
      acc_ContentDigest = pcm_ContentDigest (hab_Manifest (sha_Body authorization)),
      acc_ContentManifestDigest = manifestDigest, acc_PlaintextBytes = word_of_nat (length plaintext),
      acc_ImmutableObjectDigest = pcm_ContentDigest (hab_Manifest (sha_Body authorization)),
      acc_RetentionPolicyDigest = hcb_RetentionPolicyDigest (shc_Body (chr_Challenge r)),
      acc_AcceptedAtUnix = unix_u64 now,
      acc_DeleteNotAfterUnix = hcb_DeleteNotAfterUnix (shc_Body (chr_Challenge r))\<rparr>"

text \<open>Storing the object: a create that fails is forgiven when the file holds the same bytes.\<close>

definition storeObject :: "ingress_io \<Rightarrow> string \<Rightarrow> bytes \<Rightarrow> ingress_file fs \<Rightarrow> unit result \<times> ingress_file fs" where
  "storeObject w p plaintext f =
     (case createPrivate w p (ObjectFile plaintext) (length plaintext) f of
        (Inr _, f') \<Rightarrow> (Inr (), f')
      | (Inl e, f') \<Rightarrow>
          if \<not> io_read w \<or> map_option node_data (fs_live f' p) \<noteq> Some (Some (ObjectFile plaintext))
          then (Inl (ErrMsg ''immutable private object conflicts with accepted bytes''), f')
          else (Inr (), f'))"

definition Accept :: "handoff_library \<Rightarrow> (string \<Rightarrow> ingress_io) \<Rightarrow> string list option \<Rightarrow> ingress_io \<Rightarrow> ingress_io
    \<Rightarrow> IngressStore \<Rightarrow> string \<Rightarrow> SignedPrivateHandoffAuthorization \<Rightarrow> bytes \<Rightarrow> HandoffAction \<Rightarrow> HandoffFence \<Rightarrow> instant
    \<Rightarrow> ingress_file fs \<Rightarrow> AcceptedPrivateContentRecord result \<times> ingress_file fs" where
  "Accept lib ws entries wo wr store challengeDigest authorization ciphertext action fence now f =
     (if igs_lock store = None \<or> hac_ActionKind action \<noteq> ''content.upload'' \<or> \<not> canonicalDigest challengeDigest
      then (Inl (ErrMsg ''private ingress upload is invalid''), f)
      else case hl_VerifyWriterFence lib fence now ''content.upload'' of Inl e \<Rightarrow> (Inl e, f) | Inr _ \<Rightarrow>
      case hl_ConfirmCurrentWriterFence lib fence now of Inl e \<Rightarrow> (Inl e, f) | Inr _ \<Rightarrow>
      case findChallenge lib ws entries challengeDigest f of Inl e \<Rightarrow> (Inl e, f) | Inr (p, r) \<Rightarrow>
      (case UploadAuthorizationMaterial lib (hac_OwnerID action) (hac_AgentID action) (chr_Challenge r) authorization of
         Inl e \<Rightarrow> (Inl (ErrMsg ''private upload is not the exact authorized action''), f)
       | Inr (canonical, sem) \<Rightarrow>
      if hab_ChallengeDigest (sha_Body authorization) \<noteq> challengeDigest
         \<or> hl_VerifyAuthorizedAction lib action sem canonical fence now \<noteq> Inr ()
      then (Inl (ErrMsg ''private upload is not the exact authorized action''), f)
      else case hl_PrivateHandoffAuthorizationDigest lib (sha_Body authorization) of Inl e \<Rightarrow> (Inl e, f)
      | Inr authorizationDigest \<Rightarrow>
      (case chr_Accepted r of
         Some a \<Rightarrow>
           if chr_AuthorizationDigest r = authorizationDigest \<and> acc_UploadActionID a = hac_StableActionID action
           then (Inr a, f)
           else (Inl (ErrMsg ''private ingress challenge already accepted conflicting bytes''), f)
       | None \<Rightarrow>
      (case b64_decode (chr_EncryptionPrivateKey r) of
         None \<Rightarrow> (Inl (ErrMsg ''private ingress challenge key is invalid''), f)
       | Some privateRaw \<Rightarrow>
      if length privateRaw \<noteq> 32 then (Inl (ErrMsg ''private ingress challenge key is invalid''), f)
      else case hl_OpenPrivateContent lib (chr_Challenge r) authorization ciphertext privateRaw now of
        Inl e \<Rightarrow> (Inl e, f)
      | Inr plaintext \<Rightarrow>
      let objectDigest = pcm_ContentDigest (hab_Manifest (sha_Body authorization)) in
      (case storeObject wo (objectPath objectDigest) plaintext f of
         (Inl e, f1) \<Rightarrow> (Inl e, f1)
       | (Inr _, f1) \<Rightarrow>
      (case hl_DigestManifest lib (hab_Manifest (sha_Body authorization)) of
         Inl e \<Rightarrow> (Inl e, f1)
       | Inr manifestDigest \<Rightarrow>
      let a = accepted_record r challengeDigest authorizationDigest action authorization manifestDigest plaintext now;
          r' = r\<lparr>chr_Accepted := Some a, chr_AuthorizationDigest := authorizationDigest, chr_EncryptionPrivateKey := []\<rparr>
      in (case replacePrivate wr p (ChallengeFile r') (hl_record_size lib r') f1 of
            (Inl e, f2) \<Rightarrow> (Inl e, f2)
          | (Inr _, f2) \<Rightarrow> (Inr a, f2))))))))"

section \<open>Reading back\<close>

text \<open>
  \<open>same\<close> tells whether the opened file is the one \<open>Lstat\<close> saw and \<open>seek\<close> whether seeking works; the
  result is the content of the open file.  A conversion to \<open>int64\<close> wraps: the limit of the copy is
  the signed value of the word, and a negative limit copies nothing.
\<close>

definition openAccepted :: "io \<Rightarrow> bool \<Rightarrow> bool \<Rightarrow> AcceptedPrivateContentRecord \<Rightarrow> ingress_file fs \<Rightarrow> bytes result" where
  "openAccepted w same seek a f =
     (if \<not> canonicalDigest (acc_ContentDigest a) \<or> acc_ImmutableObjectDigest a \<noteq> acc_ContentDigest a
      then Inl (ErrMsg ''accepted private content record is invalid'')
      else case fs_live f (objectPath (acc_ContentDigest a)) of
        None \<Rightarrow> Inl (ErrMsg ''accepted private content object is unavailable'')
      | Some n \<Rightarrow>
          if node_type n \<noteq> RegularFile \<or> (word_of_nat (node_size n) :: u64) \<noteq> acc_PlaintextBytes a
          then Inl (ErrMsg ''accepted private content object is unavailable'')
          else if \<not> io_open w then Inl ErrOs
          else if \<not> same then Inl (ErrMsg ''accepted private content object changed during open'')
          else if \<not> io_read w then Inl ErrOs
          else (case node_data n of
              Some (ObjectFile data) \<Rightarrow>
                if sha256_digest (take (nat (int64_of (acc_PlaintextBytes a + 1))) data) \<noteq> acc_ContentDigest a
                then Inl (ErrMsg ''accepted private content digest changed'')
                else if \<not> seek then Inl ErrOs else Inr data
            | _ \<Rightarrow> Inl (ErrMsg ''accepted private content digest changed'')))"

definition Acknowledge :: "handoff_library \<Rightarrow> io \<Rightarrow> bool \<Rightarrow> bool \<Rightarrow> IngressStore \<Rightarrow> AcceptedPrivateContentRecord
    \<Rightarrow> ingress_file fs \<Rightarrow> bytes result" where
  "Acknowledge lib w same seek store a f =
     (if igs_lock store = None then Inl (ErrMsg ''private ingress is unavailable'')
      else case openAccepted w same seek a f of Inl e \<Rightarrow> Inl e
      | Inr _ \<Rightarrow> hl_SignPrivateHandoffAcknowledgement lib a (igs_receiverAgent store) (igs_signingKey store))"

section \<open>Deleting\<close>

definition DeleteAuthorizationMaterial :: "handoff_library \<Rightarrow> string \<Rightarrow> string \<Rightarrow> SignedPrivateHandoffChallenge
    \<Rightarrow> AcceptedPrivateContentRecord \<Rightarrow> (bytes \<times> sem_fields) result" where
  "DeleteAuthorizationMaterial lib ownerID agentID challenge accepted =
     (case hl_MarshalDelete lib \<lparr>dlr_HandoffID = hcb_HandoffID (shc_Body challenge),
             dlr_AgreementBodyDigest = hcb_AgreementBodyDigest (shc_Body challenge),
             dlr_ObligationID = hcb_ObligationID (shc_Body challenge),
             dlr_ContentManifestDigest = acc_ContentManifestDigest accepted,
             dlr_RetentionPolicyDigest = acc_RetentionPolicyDigest accepted\<rparr> of
        Inl e \<Rightarrow> Inl e
      | Inr canonical \<Rightarrow> Inr (canonical,
          [(''owner_id'', SemID ownerID), (''agent_id'', SemID agentID),
           (''agreement_body_digest'', SemDigest32 (hcb_AgreementBodyDigest (shc_Body challenge))),
           (''obligation_id'', SemID (hcb_ObligationID (shc_Body challenge))),
           (''handoff_id'', SemID (hcb_HandoffID (shc_Body challenge))),
           (''content_manifest_digest'', SemDigest32 (acc_ContentManifestDigest accepted)),
           (''retention_policy_digest'', SemDigest32 (acc_RetentionPolicyDigest accepted))]))"

definition deletion_resolution :: "HandoffAction \<Rightarrow> string \<Rightarrow> string \<Rightarrow> AcceptedPrivateContentRecord \<Rightarrow> ActionResolution" where
  "deletion_resolution action requestDigest challengeDigest a =
     \<lparr>res_StableActionID = hac_StableActionID action, res_ExactRequestDigest = requestDigest, res_Terminal = True,
      res_SinkReference = ''private-ingress:'' @ challengeDigest, res_EvidenceRefs = [acc_ContentDigest a],
      res_StateRevision = 2\<rparr>"

text \<open>
  The second half of \<open>Delete\<close>, after the deletion has been journalled: remove the object, sync the
  directory, record the deletion.  \<open>io_remove\<close> is the outcome of removing a file that is there; the
  result of closing the directory is ignored.
\<close>

definition eraseObject :: "handoff_library \<Rightarrow> ingress_io \<Rightarrow> ingress_io \<Rightarrow> string \<Rightarrow> challengeRecord
    \<Rightarrow> AcceptedPrivateContentRecord \<Rightarrow> instant \<Rightarrow> ingress_file fs \<Rightarrow> unit result \<times> ingress_file fs" where
  "eraseObject lib wd w2 p r a now f =
     (let q = objectPath (acc_ContentDigest a) in
      if fs_live f q \<noteq> None \<and> \<not> io_remove wd then (Inl ErrOs, f)
      else
        let f1 = fs_remove q f in
        if \<not> io_diropen wd \<or> \<not> io_dirsync wd then (Inl ErrOs, f1)
        else
          let r' = r\<lparr>chr_DeletionState := ''deleted'', chr_DeletedAtUnix := unix_u64 now\<rparr>
          in replacePrivate w2 p (ChallengeFile r') (hl_record_size lib r') (fs_dirsync f1))"

text \<open>The deletion of an authorised request: journal it, unless it already is, then erase.\<close>

definition performDeletion :: "handoff_library \<Rightarrow> ingress_io \<Rightarrow> ingress_io \<Rightarrow> ingress_io \<Rightarrow> string \<Rightarrow> challengeRecord
    \<Rightarrow> AcceptedPrivateContentRecord \<Rightarrow> HandoffAction \<Rightarrow> string \<Rightarrow> string \<Rightarrow> instant \<Rightarrow> ingress_file fs
    \<Rightarrow> ActionResolution result \<times> ingress_file fs" where
  "performDeletion lib w1 wd w2 p r a action requestDigest challengeDigest now f =
     (let r1 = (if chr_DeletionState r = [] then r\<lparr>chr_DeletionActionID := hac_StableActionID action,
                  chr_DeletionRequestDigest := requestDigest, chr_DeletionState := ''deleting''\<rparr> else r);
          journalled = (if chr_DeletionState r = [] then replacePrivate w1 p (ChallengeFile r1) (hl_record_size lib r1) f
                        else (Inr (), f))
      in (case journalled of
            (Inl e, f1) \<Rightarrow> (Inl e, f1)
          | (Inr _, f1) \<Rightarrow>
              (case eraseObject lib wd w2 p r1 a now f1 of
                 (Inl e, f2) \<Rightarrow> (Inl e, f2)
               | (Inr _, f2) \<Rightarrow> (Inr (deletion_resolution action requestDigest challengeDigest a), f2))))"

definition Delete :: "handoff_library \<Rightarrow> (string \<Rightarrow> ingress_io) \<Rightarrow> string list option \<Rightarrow> ingress_io \<Rightarrow> ingress_io
    \<Rightarrow> ingress_io \<Rightarrow> IngressStore \<Rightarrow> string \<Rightarrow> HandoffAction \<Rightarrow> HandoffFence \<Rightarrow> instant
    \<Rightarrow> ingress_file fs \<Rightarrow> ActionResolution result \<times> ingress_file fs" where
  "Delete lib ws entries w1 wd w2 store challengeDigest action fence now f =
     (if igs_lock store = None \<or> hac_ActionKind action \<noteq> ''content.delete'' \<or> \<not> canonicalDigest challengeDigest
      then (Inl (ErrMsg ''private content deletion is invalid''), f)
      else case hl_VerifyWriterFence lib fence now ''content.delete'' of Inl e \<Rightarrow> (Inl e, f) | Inr _ \<Rightarrow>
      case hl_ConfirmCurrentWriterFence lib fence now of Inl e \<Rightarrow> (Inl e, f) | Inr _ \<Rightarrow>
      case findChallenge lib ws entries challengeDigest f of
        Inl e \<Rightarrow> (Inl (ErrMsg ''accepted private content was not found''), f)
      | Inr (p, r) \<Rightarrow>
      (case chr_Accepted r of None \<Rightarrow> (Inl (ErrMsg ''accepted private content was not found''), f)
       | Some a \<Rightarrow>
      (case DeleteAuthorizationMaterial lib (hac_OwnerID action) (hac_AgentID action) (chr_Challenge r) a of
         Inl e \<Rightarrow> (Inl (ErrMsg ''private deletion is not the exact authorized action''), f)
       | Inr (canonical, sem) \<Rightarrow>
      if hl_VerifyAuthorizedAction lib action sem canonical fence now \<noteq> Inr ()
      then (Inl (ErrMsg ''private deletion is not the exact authorized action''), f)
      else
        let requestDigest = fst (hl_ExactRequestDigest lib canonical) in
        if chr_DeletionActionID r \<noteq> [] \<and>
           (chr_DeletionActionID r \<noteq> hac_StableActionID action \<or> chr_DeletionRequestDigest r \<noteq> requestDigest)
        then (Inl (ErrMsg ''private content has a conflicting deletion action''), f)
        else if chr_DeletionState r = ''deleted''
        then (Inr (deletion_resolution action requestDigest challengeDigest a), f)
        else performDeletion lib w1 wd w2 p r a action requestDigest challengeDigest now f)))"

section \<open>The life of a store\<close>

text \<open>Every operation, with any arguments and any outcome of its system calls, and crashes.\<close>

inductive ingress_step :: "handoff_library \<Rightarrow> ingress_file fs \<Rightarrow> ingress_file fs \<Rightarrow> bool" for lib where
  in_issue: "IssueChallenge lib key w1 w w2 store body f = (r1, f') \<Longrightarrow> ingress_step lib f f'"
| in_accept: "Accept lib ws entries wo wr store cd authorization ciphertext action fence now f = (r2, f')
    \<Longrightarrow> ingress_step lib f f'"
| in_delete: "Delete lib ws entries w1 wd w2 store cd action fence now f = (r3, f') \<Longrightarrow> ingress_step lib f f'"
| in_crash: "ingress_step lib f (fs_crash ch f)"

text \<open>What an operation does to one name: nothing, or making its entry durable.\<close>

definition kept :: "string \<Rightarrow> 'c fs \<Rightarrow> 'c fs \<Rightarrow> bool" where
  "kept p f f' \<longleftrightarrow> fs_live f' p = fs_live f p \<and> (fs_disk f' p = fs_disk f p \<or> fs_disk f' p = fs_live f p)"

lemma kept_refl [simp]: "kept p f f"
  by (simp add: kept_def)

lemma kept_trans: "kept p f g \<Longrightarrow> kept p g h \<Longrightarrow> kept p f h"
  by (auto simp: kept_def)

lemma syncPrivateDirectory_cases:
  assumes "syncPrivateDirectory w f = (r, f')"
  shows "(f' = f \<and> r \<noteq> Inr ()) \<or> f' = fs_dirsync f"
  using assms by (auto simp: syncPrivateDirectory_def split: if_splits)

lemma createPrivate_cases:
  assumes "createPrivate w q c len f = (r, f')"
  obtains (unchanged) "f' = f" and "r \<noteq> Inr ()"
  | (left) n where "f' = fs_put q n f" and "r \<noteq> Inr ()" and "fs_live f q = None"
      and "n = new_node mode_0600 \<or> n = node_write c len (new_node mode_0600) \<or> n = node_sync (node_write c len (new_node mode_0600))"
  | (created) "f' = fs_dirsync (fs_put q (node_sync (node_write c len (new_node mode_0600))) f)" and "fs_live f q = None"
  using assms syncPrivateDirectory_cases [of w "fs_put q (node_sync (node_write c len (new_node mode_0600))) f" r f']
  unfolding createPrivate_def Let_def by (simp split: if_splits) blast+

lemma replacePrivate_cases:
  assumes "replacePrivate w q c len f = (r, f')"
  obtains (unchanged) "f' = f" and "r \<noteq> Inr ()"
  | (renamed) "f' = fs_put q (node_sync (node_write c len (new_node mode_0600))) f" and "r \<noteq> Inr ()"
  | (replaced) "f' = fs_dirsync (fs_put q (node_sync (node_write c len (new_node mode_0600))) f)"
  using assms syncPrivateDirectory_cases [of w "fs_put q (node_sync (node_write c len (new_node mode_0600))) f" r f']
  unfolding replacePrivate_def by (simp split: if_splits) blast+

lemma createPrivate_kept:
  assumes "createPrivate w q c len f = (r, f')" and "fs_live f p \<noteq> None"
  shows "kept p f f'"
  using assms(1) by (cases rule: createPrivate_cases) (use assms(2) in \<open>auto simp: kept_def\<close>)

lemma replacePrivate_kept:
  assumes "replacePrivate w q c len f = (r, f')" and "q \<noteq> p"
  shows "kept p f f'"
  using assms(1) by (cases rule: replacePrivate_cases) (use assms(2) in \<open>auto simp: kept_def\<close>)

lemma storeObject_kept:
  assumes "storeObject w q plaintext f = (r, f')" and "fs_live f p \<noteq> None"
  shows "kept p f f'"
proof -
  obtain r1 f1 where c: "createPrivate w q (ObjectFile plaintext) (length plaintext) f = (r1, f1)" by fastforce
  then have "f' = f1" using assms(1) by (auto simp: storeObject_def split: sum.splits if_splits)
  then show ?thesis using createPrivate_kept [OF c assms(2)] by simp
qed

lemma findChallenge_Inr:
  assumes "findChallenge lib ws entries cd f = Inr (p, r)"
  shows "challenge_name p" and "readChallenge (ws p) p f = Inr r"
    and "hl_PrivateHandoffChallengeDigest lib (shc_Body (chr_Challenge r)) = (cd, None)"
proof -
  have "find_in lib ws cd f names = Inr (p, r) \<Longrightarrow> challenge_name p \<and> readChallenge (ws p) p f = Inr r
      \<and> hl_PrivateHandoffChallengeDigest lib (shc_Body (chr_Challenge r)) = (cd, None)" for names
    by (induction names) (auto split: if_splits sum.splits)
  then show "challenge_name p" and "readChallenge (ws p) p f = Inr r"
    and "hl_PrivateHandoffChallengeDigest lib (shc_Body (chr_Challenge r)) = (cd, None)"
    using assms by (auto simp: findChallenge_def split: option.splits if_splits)
qed

lemma readChallenge_Inr:
  assumes "readChallenge w p f = Inr r"
  obtains n where "fs_live f p = Some n" and "node_data n = Some (ChallengeFile r)" and "chr_Schema r = challenge_schema"
  using assms by (auto simp: readChallenge_def split: option.splits if_splits ingress_file.splits)

lemma challenge_not_object: "challenge_name p \<Longrightarrow> objectPath d \<noteq> p"
  by (auto simp: challenge_name_def objectPath_def)

section \<open>Accepted content is final\<close>

text \<open>An accepted record is the same for running processes and on the disk.\<close>

definition acc_node :: "AcceptedPrivateContentRecord \<Rightarrow> ingress_file node \<Rightarrow> bool" where
  "acc_node a n \<longleftrightarrow> node_synced n \<and> (\<exists>r. node_data n = Some (ChallengeFile r) \<and> chr_Accepted r = Some a)"

definition accepted_at :: "ingress_file fs \<Rightarrow> string \<Rightarrow> AcceptedPrivateContentRecord \<Rightarrow> bool" where
  "accepted_at f p a \<longleftrightarrow> challenge_name p \<and> (\<exists>n. fs_live f p = Some n \<and> acc_node a n) \<and> (\<exists>n. fs_disk f p = Some n \<and> acc_node a n)"

lemma accepted_kept: "accepted_at f p a \<Longrightarrow> kept p f f' \<Longrightarrow> accepted_at f' p a"
  by (auto simp: accepted_at_def kept_def)

lemma accepted_live: "accepted_at f p a \<Longrightarrow> fs_live f p \<noteq> None"
  by (auto simp: accepted_at_def)

lemma accepted_read:
  assumes "accepted_at f p a" and "readChallenge w p f = Inr r"
  shows "chr_Accepted r = Some a"
  using assms(2) by (rule readChallenge_Inr) (use assms(1) in \<open>auto simp: accepted_at_def acc_node_def\<close>)

lemma accepted_replace:
  assumes "accepted_at f p a" and "replacePrivate w p (ChallengeFile r) len f = (res, f')" and "chr_Accepted r = Some a"
  shows "accepted_at f' p a"
  using assms(2) by (cases rule: replacePrivate_cases) (use assms(1,3) in \<open>auto simp: accepted_at_def acc_node_def\<close>)

lemma accepted_crash:
  assumes "accepted_at f p a"
  shows "accepted_at (fs_crash ch f) p a"
proof -
  obtain n m where "fs_live f p = Some n" "acc_node a n" "fs_disk f p = Some m" "acc_node a m"
    using assms unfolding accepted_at_def by blast
  then show ?thesis
    using assms by (auto simp: accepted_at_def crash_map_def acc_node_def crash_node_synced)
qed

lemma issue_kept:
  assumes "IssueChallenge lib key w1 w w2 store body f = (r, f')" and "fs_live f p \<noteq> None"
  shows "kept p f f'"
proof -
  have "f' = f \<or> (\<exists>q c len r1. createPrivate w q c len f = (r1, f'))"
    using assms(1) unfolding IssueChallenge_def Let_def
    by (auto split: if_splits sum.splits prod.splits option.splits)
  then show ?thesis using createPrivate_kept [OF _ assms(2)] by auto
qed

text \<open>
  What a call of \<open>Accept\<close> that changes the directory has done: found a record that has accepted
  nothing, opened the content and stored the object, and perhaps replaced the record.
\<close>

lemma Accept_cases:
  assumes "Accept lib ws entries wo wr store cd authorization ciphertext action fence now f = (res, f')"
  obtains (unchanged) e where "res = Inl e" and "f' = f"
  | (replayed) p r a where "findChallenge lib ws entries cd f = Inr (p, r)" and "chr_Accepted r = Some a"
      and "res = Inr a" and "f' = f"
  | (failed) p r plaintext r1 e where "findChallenge lib ws entries cd f = Inr (p, r)" and "chr_Accepted r = None"
      and "storeObject wo (objectPath (pcm_ContentDigest (hab_Manifest (sha_Body authorization)))) plaintext f = (r1, f')"
      and "res = Inl e"
  | (storing) p r key plaintext f1 r2 ad md where "findChallenge lib ws entries cd f = Inr (p, r)" and "chr_Accepted r = None"
      and "b64_decode (chr_EncryptionPrivateKey r) = Some key" and "length key = 32"
      and "hl_OpenPrivateContent lib (chr_Challenge r) authorization ciphertext key now = Inr plaintext"
      and "storeObject wo (objectPath (pcm_ContentDigest (hab_Manifest (sha_Body authorization)))) plaintext f = (Inr (), f1)"
      and "replacePrivate wr p (ChallengeFile (r\<lparr>chr_Accepted := Some (accepted_record r cd ad action authorization md plaintext now),
             chr_AuthorizationDigest := ad, chr_EncryptionPrivateKey := []\<rparr>))
             (hl_record_size lib (r\<lparr>chr_Accepted := Some (accepted_record r cd ad action authorization md plaintext now),
             chr_AuthorizationDigest := ad, chr_EncryptionPrivateKey := []\<rparr>)) f1 = (r2, f')"
      and "res = (case r2 of Inl e \<Rightarrow> Inl e | Inr _ \<Rightarrow> Inr (accepted_record r cd ad action authorization md plaintext now))"
proof (cases "(\<exists>e. res = Inl e) \<and> f' = f")
  case True
  then show ?thesis using unchanged by blast
next
  case False
  let ?q = "objectPath (pcm_ContentDigest (hab_Manifest (sha_Body authorization)))"
  obtain p r where find: "findChallenge lib ws entries cd f = Inr (p, r)"
    using assms False unfolding Accept_def by (auto split: if_splits sum.splits)
  obtain ad where ad: "hl_PrivateHandoffAuthorizationDigest lib (sha_Body authorization) = Inr ad"
    using assms False find unfolding Accept_def by (auto split: if_splits sum.splits)
  show ?thesis
  proof (cases "chr_Accepted r")
    case (Some a)
    then have "res = Inr a \<and> f' = f"
      using assms False find ad unfolding Accept_def by (auto split: if_splits sum.splits)
    then show ?thesis using replayed find Some by blast
  next
    case None
    obtain key plaintext where k: "b64_decode (chr_EncryptionPrivateKey r) = Some key" "length key = 32"
        "hl_OpenPrivateContent lib (chr_Challenge r) authorization ciphertext key now = Inr plaintext"
      using assms False find ad None unfolding Accept_def by (auto split: if_splits sum.splits option.splits)
    obtain r1 f1 where st: "storeObject wo ?q plaintext f = (r1, f1)" by fastforce
    show ?thesis
    proof (cases "r1 = Inr () \<and> (\<exists>md. hl_DigestManifest lib (hab_Manifest (sha_Body authorization)) = Inr md)")
      case False2: False
      then have "(\<exists>e. res = Inl e) \<and> f' = f1"
        using assms \<open>\<not> ((\<exists>e. res = Inl e) \<and> f' = f)\<close> find ad None k st unfolding Accept_def Let_def
        by (cases r1) (auto split: if_splits sum.splits)
      then show ?thesis using failed find None st by blast
    next
      case True
      then obtain md where md: "hl_DigestManifest lib (hab_Manifest (sha_Body authorization)) = Inr md" and r1: "r1 = Inr ()"
        by blast
      let ?a = "accepted_record r cd ad action authorization md plaintext now"
      let ?r = "r\<lparr>chr_Accepted := Some ?a, chr_AuthorizationDigest := ad, chr_EncryptionPrivateKey := []\<rparr>"
      obtain r2 f2 where rp: "replacePrivate wr p (ChallengeFile ?r) (hl_record_size lib ?r) f1 = (r2, f2)" by fastforce
      have "f' = f2 \<and> res = (case r2 of Inl e \<Rightarrow> Inl e | Inr _ \<Rightarrow> Inr ?a)"
        using assms False find ad None k st md r1 rp unfolding Accept_def Let_def
        by (auto split: if_splits sum.splits)
      then show ?thesis using storing [OF find None k] st r1 rp by blast
    qed
  qed
qed

lemma Accept_keeps:
  assumes "Accept lib ws entries wo wr store cd authorization ciphertext action fence now f = (res, f')"
    and "accepted_at f p a"
  shows "accepted_at f' p a"
  using assms(1)
proof (cases rule: Accept_cases)
  case (failed q r plaintext r1 e)
  show ?thesis by (rule accepted_kept [OF assms(2) storeObject_kept [OF failed(3) accepted_live [OF assms(2)]]])
next
  case (storing q r key plaintext f1 r2 ad md)
  note k1 = storeObject_kept [OF storing(6) accepted_live [OF assms(2)]]
  have "q \<noteq> p"
    using accepted_read [OF assms(2)] findChallenge_Inr(2) [OF storing(1)] storing(2) by auto
  then show ?thesis
    using accepted_kept [OF assms(2) kept_trans [OF k1 replacePrivate_kept [OF storing(7)]]] by blast
qed (use assms(2) in simp_all)

text \<open>The record \<open>Delete\<close> journals keeps what was accepted.\<close>

lemma Delete_cases:
  assumes "Delete lib ws entries w1 wd w2 store cd action fence now f = (res, f')"
  obtains (unchanged) "f' = f" and "(\<exists>e. res = Inl e) \<or> (\<exists>p r. findChallenge lib ws entries cd f = Inr (p, r) \<and> chr_DeletionState r = ''deleted'')"
  | (journalling) p r a r1 len e where "findChallenge lib ws entries cd f = Inr (p, r)" and "chr_Accepted r = Some a"
      and "chr_Accepted r1 = Some a" and "replacePrivate w1 p (ChallengeFile r1) len f = (Inl e, f')" and "res = Inl e"
  | (erasing) p r a r1 f1 rd r2 len where "findChallenge lib ws entries cd f = Inr (p, r)" and "chr_Accepted r = Some a"
      and "chr_Accepted r1 = Some a" and "chr_Schema r1 = chr_Schema r"
      and "f1 = f \<or> replacePrivate w1 p (ChallengeFile r1) len f = (Inr (), f1)"
      and "eraseObject lib wd w2 p r1 a now f1 = (r2, f')"
      and "res = (case r2 of Inl e \<Rightarrow> Inl e | Inr _ \<Rightarrow> Inr (deletion_resolution action rd cd a))"
proof (cases "f' = f \<and> ((\<exists>e. res = Inl e) \<or> (\<exists>p r. findChallenge lib ws entries cd f = Inr (p, r) \<and> chr_DeletionState r = ''deleted''))")
  case True
  then show ?thesis using unchanged by blast
next
  case False
  obtain p r where find: "findChallenge lib ws entries cd f = Inr (p, r)"
    using assms False unfolding Delete_def by (auto split: if_splits sum.splits)
  obtain a where a: "chr_Accepted r = Some a"
    using assms False find unfolding Delete_def by (auto split: if_splits sum.splits option.splits)
  obtain rd where pd: "performDeletion lib w1 wd w2 p r a action rd cd now f = (res, f')"
    using assms False find a unfolding Delete_def Let_def by (auto split: if_splits sum.splits)
  define r1 where "r1 = (if chr_DeletionState r = [] then r\<lparr>chr_DeletionActionID := hac_StableActionID action,
      chr_DeletionRequestDigest := rd, chr_DeletionState := ''deleting''\<rparr> else r)"
  have r1: "chr_Accepted r1 = Some a" "chr_Schema r1 = chr_Schema r" using a by (simp_all add: r1_def)
  obtain j f1 where j: "(if chr_DeletionState r = [] then replacePrivate w1 p (ChallengeFile r1) (hl_record_size lib r1) f
      else (Inr (), f)) = (j, f1)" by fastforce
  obtain r2 f2 where er: "eraseObject lib wd w2 p r1 a now f1 = (r2, f2)" by fastforce
  show ?thesis
  proof (cases j)
    case (Inl e)
    then have "res = Inl e \<and> f' = f1 \<and> replacePrivate w1 p (ChallengeFile r1) (hl_record_size lib r1) f = (Inl e, f1)"
      using pd j unfolding performDeletion_def Let_def r1_def [symmetric] by (auto split: if_splits)
    then show ?thesis using journalling find a r1 by blast
  next
    case (Inr u)
    then have "f1 = f \<or> replacePrivate w1 p (ChallengeFile r1) (hl_record_size lib r1) f = (Inr (), f1)"
      using j by (auto split: if_splits)
    moreover have "f' = f2 \<and> res = (case r2 of Inl e \<Rightarrow> Inl e | Inr _ \<Rightarrow> Inr (deletion_resolution action rd cd a))"
      using pd j Inr er unfolding performDeletion_def Let_def r1_def [symmetric] by (auto split: sum.splits)
    ultimately show ?thesis using erasing [OF find a r1] er by blast
  qed
qed

lemma kept_remove: "q \<noteq> p \<Longrightarrow> kept p f (fs_remove q f)"
  and kept_dirsync: "kept p f (fs_dirsync f)"
  by (simp_all add: kept_def)

lemma accepted_replace_other:
  assumes "accepted_at f p a" and "replacePrivate w q (ChallengeFile r) len f = (res, f')"
    and "q = p \<Longrightarrow> chr_Accepted r = Some a"
  shows "accepted_at f' p a"
  using accepted_replace [of f p a] accepted_kept [OF assms(1)] replacePrivate_kept [OF assms(2)] assms by metis

lemma eraseObject_keeps:
  assumes "eraseObject lib wd w2 q r b now f = (res, f')" and "accepted_at f p a"
    and "q = p \<Longrightarrow> chr_Accepted r = Some a"
  shows "accepted_at f' p a"
proof -
  let ?o = "objectPath (acc_ContentDigest b)"
  have o: "?o \<noteq> p" using assms(2) challenge_not_object by (auto simp: accepted_at_def)
  have removed: "accepted_at (fs_remove ?o f) p a" by (rule accepted_kept [OF assms(2) kept_remove [OF o]])
  have synced: "accepted_at (fs_dirsync (fs_remove ?o f)) p a" by (rule accepted_kept [OF removed kept_dirsync])
  let ?r = "r\<lparr>chr_DeletionState := ''deleted'', chr_DeletedAtUnix := unix_u64 now\<rparr>"
  have "f' = f \<or> f' = fs_remove ?o f \<or>
      replacePrivate w2 q (ChallengeFile ?r) (hl_record_size lib ?r) (fs_dirsync (fs_remove ?o f)) = (res, f')"
    using assms(1) unfolding eraseObject_def Let_def by (auto split: if_splits)
  then show ?thesis
    using assms(2,3) removed accepted_replace_other [OF synced] by fastforce
qed

lemma Delete_keeps:
  assumes "Delete lib ws entries w1 wd w2 store cd action fence now f = (res, f')" and "accepted_at f p a"
  shows "accepted_at f' p a"
  using assms(1)
proof (cases rule: Delete_cases)
  case unchanged
  then show ?thesis using assms(2) by simp
next
  case (journalling q r b r1 len e)
  then have "b = a" if "q = p"
    using that accepted_read [OF assms(2)] findChallenge_Inr(2) by fastforce
  then show ?thesis
    using accepted_replace_other [OF assms(2) journalling(4)] journalling(3) by blast
next
  case (erasing q r b r1 f1 rd r2 len)
  have ba: "q = p \<Longrightarrow> chr_Accepted r1 = Some a"
    using accepted_read [OF assms(2)] findChallenge_Inr(2) [OF erasing(1)] erasing(2,3) by auto
  then have "accepted_at f1 p a"
    using erasing(5) assms(2) accepted_replace_other [OF assms(2)] by blast
  then show ?thesis using eraseObject_keeps [OF erasing(6)] ba by blast
qed

lemma ingress_step_keeps: "ingress_step lib f f' \<Longrightarrow> accepted_at f p a \<Longrightarrow> accepted_at f' p a"
proof (induction rule: ingress_step.induct)
  case (in_issue key w1 w w2 store body f r1 f')
  show ?case
    by (rule accepted_kept [OF in_issue(2) issue_kept [OF in_issue(1) accepted_live [OF in_issue(2)]]])
next
  case in_accept
  then show ?case by (rule Accept_keeps)
next
  case in_delete
  then show ?case by (rule Delete_keeps)
next
  case in_crash
  then show ?case by (rule accepted_crash)
qed

lemma ingress_steps_keep: "(ingress_step lib)\<^sup>*\<^sup>* f f' \<Longrightarrow> accepted_at f p a \<Longrightarrow> accepted_at f' p a"
  by (induction rule: rtranclp_induct) (auto intro: ingress_step_keeps)

text \<open>The transitions that accept content for the challenge record of a path, and all others.\<close>

definition ingress_grants :: "handoff_library \<Rightarrow> ingress_file fs \<Rightarrow> string \<Rightarrow> ingress_file fs \<Rightarrow> bool" where
  "ingress_grants lib f p f' \<longleftrightarrow> (\<exists>ws entries wo wr store cd authorization ciphertext action fence now a r.
     Accept lib ws entries wo wr store cd authorization ciphertext action fence now f = (Inr a, f')
     \<and> findChallenge lib ws entries cd f = Inr (p, r) \<and> chr_Accepted r = None)"

definition ingress_spent :: "ingress_file fs \<Rightarrow> string \<Rightarrow> bool" where
  "ingress_spent f p \<longleftrightarrow> (\<exists>a. accepted_at f p a)"

lemma first_accept:
  assumes "Accept lib ws entries wo wr store cd authorization ciphertext action fence now f = (Inr a, f')"
    and "findChallenge lib ws entries cd f = Inr (p, r)" and "chr_Accepted r = None"
  shows "accepted_at f' p a"
  using assms(1)
proof (cases rule: Accept_cases)
  case (storing q r' key plaintext f1 r2 ad md)
  then have q: "q = p" using assms(2) by simp
  have ok: "r2 = Inr ()" and a: "a = accepted_record r' cd ad action authorization md plaintext now"
    using storing(8) by (auto split: sum.splits)
  from storing(7) show ?thesis
  proof (cases rule: replacePrivate_cases)
    case replaced
    then show ?thesis
      using q a findChallenge_Inr(1) [OF assms(2)] by (auto simp: accepted_at_def acc_node_def)
  qed (use ok in simp_all)
qed (use assms in auto)

interpretation ingress: at_most_once "ingress_grants lib" "ingress_step lib" ingress_spent for lib
proof
  fix f p f' q
  show "ingress_grants lib f p f' \<Longrightarrow> \<not> ingress_spent f p"
    using accepted_read findChallenge_Inr(2) unfolding ingress_grants_def ingress_spent_def by fastforce
  show "ingress_grants lib f p f' \<Longrightarrow> ingress_spent f' p"
    using first_accept unfolding ingress_grants_def ingress_spent_def by blast
  show "ingress_grants lib f p f' \<Longrightarrow> ingress_spent f q \<Longrightarrow> ingress_spent f' q"
    using Accept_keeps unfolding ingress_grants_def ingress_spent_def by blast
  show "ingress_step lib f f' \<Longrightarrow> ingress_spent f p \<Longrightarrow> ingress_spent f' p"
    using ingress_step_keeps unfolding ingress_spent_def by blast
qed

end
