(* ===== verification/Ingress_Life.thy ===== *)
theory Ingress_Life
  imports Private_Ingress
begin

text \<open>
  What the private ingress does with accepted content: it can be read back, it is gone once deleted,
  and a concrete handoff to apply the properties to.
\<close>

section \<open>Objects\<close>

text \<open>Every object file of a store is a regular file with the size of its content, and every stored
  challenge record is one.\<close>

definition file_wf :: "ingress_file node \<Rightarrow> bool" where
  "file_wf n \<longleftrightarrow> node_type n = RegularFile \<and> (\<forall>data. node_data n = Some (ObjectFile data) \<longrightarrow> node_size n = length data)"

definition files_wf :: "ingress_file fs \<Rightarrow> bool" where
  "files_wf f \<longleftrightarrow> (\<forall>p n. fs_live f p = Some n \<or> fs_disk f p = Some n \<longrightarrow> file_wf n)"

lemma file_wf_new [simp]:
  "file_wf (new_node m)" "file_wf (node_sync n) = file_wf n"
  "file_wf (node_write (ChallengeFile r) len (new_node m))"
  "file_wf (node_write (ObjectFile data) (length data) (new_node m))"
  by (simp_all add: file_wf_def)

lemma files_wf_put: "files_wf f \<Longrightarrow> file_wf n \<Longrightarrow> files_wf (fs_put p n f)"
  and files_wf_remove: "files_wf f \<Longrightarrow> files_wf (fs_remove p f)"
  and files_wf_dirsync: "files_wf f \<Longrightarrow> files_wf (fs_dirsync f)"
  by (auto simp: files_wf_def split: if_splits)

lemma files_wf_crash: "files_wf f \<Longrightarrow> files_wf (fs_crash ch f)"
  unfolding files_wf_def fs_live_crash fs_disk_crash
  by (auto elim!: crash_map_cases simp: file_wf_def crash_node_data split: if_splits)

lemmas files_wf_intros = files_wf_put files_wf_remove files_wf_dirsync files_wf_crash

lemma createPrivate_wf:
  assumes "createPrivate w q c len f = (r, f')" and "files_wf f"
    and "file_wf (node_write c len (new_node mode_0600))"
  shows "files_wf f'"
  using assms(1) by (cases rule: createPrivate_cases) (use assms(2,3) in \<open>auto intro!: files_wf_intros\<close>)

lemma replacePrivate_wf:
  assumes "replacePrivate w q (ChallengeFile r) len f = (res, f')" and "files_wf f"
  shows "files_wf f'"
  using assms(1) by (cases rule: replacePrivate_cases) (use assms(2) in \<open>auto intro!: files_wf_intros\<close>)

lemma storeObject_wf:
  assumes "storeObject w q plaintext f = (r, f')" and "files_wf f"
  shows "files_wf f'"
proof -
  obtain r1 f1 where c: "createPrivate w q (ObjectFile plaintext) (length plaintext) f = (r1, f1)" by fastforce
  then have "f' = f1" using assms(1) by (auto simp: storeObject_def split: sum.splits if_splits)
  then show ?thesis using createPrivate_wf [OF c assms(2)] by simp
qed

lemma eraseObject_wf:
  assumes "eraseObject lib wd w2 q r b now f = (res, f')" and "files_wf f"
  shows "files_wf f'"
  using assms replacePrivate_wf [OF _ files_wf_dirsync [OF files_wf_remove [OF assms(2)]]] files_wf_remove
  unfolding eraseObject_def Let_def by (auto split: if_splits)

lemma ingress_step_wf: "ingress_step lib f f' \<Longrightarrow> files_wf f \<Longrightarrow> files_wf f'"
proof (induction rule: ingress_step.induct)
  case (in_issue key w1 w w2 store body f r1 f')
  have "f' = f \<or> (\<exists>q r len r1. createPrivate w q (ChallengeFile r) len f = (r1, f'))"
    using in_issue(1) unfolding IssueChallenge_def Let_def
    by (auto split: if_splits sum.splits prod.splits option.splits)
  then show ?case using createPrivate_wf in_issue(2) by auto
next
  case (in_accept ws entries wo wr store cd authorization ciphertext action fence now f r2 f')
  from in_accept(1) show ?case
  proof (cases rule: Accept_cases)
    case (failed p r plaintext r1 e)
    then show ?thesis using storeObject_wf in_accept(2) by blast
  next
    case (storing p r key plaintext f1 r2 ad md)
    then show ?thesis using replacePrivate_wf storeObject_wf [OF storing(6) in_accept(2)] by blast
  qed (use in_accept(2) in simp_all)
next
  case (in_delete ws entries w1 wd w2 store cd action fence now f r3 f')
  from in_delete(1) show ?case
  proof (cases rule: Delete_cases)
    case unchanged
    then show ?thesis using in_delete(2) by simp
  next
    case journalling
    then show ?thesis using replacePrivate_wf in_delete(2) by blast
  next
    case (erasing p r a r1 f1 rd r2 len)
    then have "files_wf f1" using replacePrivate_wf in_delete(2) by blast
    then show ?thesis using eraseObject_wf erasing(6) by blast
  qed
next
  case in_crash
  then show ?case by (rule files_wf_crash)
qed

interpretation wf: invariant_system "\<lambda>f. f = fs_empty" "ingress_step lib" files_wf for lib
proof
  show "f = fs_empty \<Longrightarrow> files_wf f" for f by (simp add: files_wf_def)
  show "files_wf f \<Longrightarrow> ingress_step lib f f' \<Longrightarrow> files_wf f'" for f f'
    by (rule ingress_step_wf)
qed

section \<open>Reading back what was accepted\<close>

lemma storeObject_live:
  assumes "storeObject w q plaintext f = (Inr (), f')"
  shows "\<exists>n. fs_live f' q = Some n \<and> node_data n = Some (ObjectFile plaintext)"
proof -
  obtain r1 f1 where c: "createPrivate w q (ObjectFile plaintext) (length plaintext) f = (r1, f1)" by fastforce
  show ?thesis
  proof (cases r1)
    case (Inl e)
    then show ?thesis
      using assms c by (auto simp: storeObject_def split: if_splits)
  next
    case (Inr u)
    then have "f' = f1" using assms c by (simp add: storeObject_def)
    with c show ?thesis
      by (cases rule: createPrivate_cases) (use Inr in auto)
  qed
qed

lemma int64_of_small:
  assumes "n < 9223372036854775807"
  shows "nat (int64_of (word_of_nat n + 1)) = n + 1"
proof -
  have w: "word_of_nat n + 1 = (word_of_nat (n + 1) :: u64)" by simp
  have u: "uint (word_of_nat (n + 1) :: u64) = int (n + 1)"
    using assms unat_of_nat [of "n + 1", where 'a = 64] by (simp add: uint_nat)
  show ?thesis
    unfolding w int64_of_def u using assms by simp
qed

lemma sha256_digest_canonical: "canonicalDigest (sha256_digest v)"
proof -
  obtain h where "sha256_digest v = ''sha256:'' @ h" "length h = 64" "list_all is_lower_hex h"
    using sha256_digest_pattern [of v] unfolding hex64_after_decompose by blast
  then show ?thesis
    by (simp add: canonicalDigest_def list_all_iff is_lower_hex_def)
qed

section \<open>A handoff\<close>

definition demo_library :: handoff_library where
  "demo_library = \<lparr>hl_VerifyWriterFence = (\<lambda>_ _ _. Inr ()), hl_ConfirmCurrentWriterFence = (\<lambda>_ _. Inr ()),
     hl_VerifyAuthorizedAction = (\<lambda>_ _ _ _ _. Inr ()),
     hl_SignPrivateHandoffChallenge = (\<lambda>body _. Inr \<lparr>shc_Body = body, shc_rest = []\<rparr>),
     hl_PrivateHandoffChallengeDigest = (\<lambda>body. (sha256_digest (hcb_HandoffID body), None)),
     hl_DigestManifest = (\<lambda>m. Inr (sha256_digest (pcm_rest m))), hl_MarshalUpload = (\<lambda>_. Inr []),
     hl_MarshalDelete = (\<lambda>_. Inr []), hl_PrivateHandoffAuthorizationDigest = (\<lambda>_. Inr ''authorization''),
     hl_OpenPrivateContent = (\<lambda>_ auth ct _ _. if sha256_digest ct = pcm_ContentDigest (hab_Manifest (sha_Body auth))
        \<and> length ct < 9223372036854775807 then Inr ct else Inl (ErrMsg ''content'')),
     hl_SignPrivateHandoffAcknowledgement = (\<lambda>_ _ _. Inr []), hl_ExactRequestDigest = (\<lambda>_. (''request'', None)),
     hl_record_size = (\<lambda>_. 100)\<rparr>"

definition demo_ingress :: IngressStore where
  "demo_ingress = \<lparr>igs_directory = ''/var/ingress'', igs_lock = Some \<lparr>lk_file = Some (7, 3), lk_closed = False\<rparr>,
     igs_receiverAgent = ''receiver'', igs_signingKey = replicate 64 (CHR ''s'')\<rparr>"

definition demo_body :: PrivateHandoffChallengeBody where
  "demo_body = \<lparr>hcb_HandoffID = ''handoff'', hcb_AgreementBodyDigest = ''agreement'', hcb_ObligationID = ''obligation'',
     hcb_SenderAgentID = ''sender'', hcb_ReceiverAgentID = ''receiver'', hcb_IngressInstanceID = ''ingress'',
     hcb_ReceiverEncryptionPublicKey = [], hcb_RetentionPolicyDigest = ''retention'', hcb_DeleteNotAfterUnix = 0, hcb_rest = []\<rparr>"

definition demo_io :: ingress_io where
  "demo_io = \<lparr>io_open = True, io_write = True, io_chmod = True, io_sync = True, io_close = True, io_rename = True,
     io_remove = True, io_diropen = True, io_dirsync = True, io_read = True, io_dirclose = True, io_random = True\<rparr>"

definition demo_authorization :: SignedPrivateHandoffAuthorization where
  "demo_authorization = \<lparr>sha_Body = \<lparr>hab_ChallengeDigest = sha256_digest ''handoff'',
     hab_Manifest = \<lparr>pcm_ContentDigest = sha256_digest ''secret'', pcm_rest = []\<rparr>, hab_CiphertextDigest = [],
     hab_CiphertextBytes = 6, hab_SenderDisclosureActionID = ''disclosure'', hab_rest = []\<rparr>, sha_rest = []\<rparr>"

definition demo_action :: "string \<Rightarrow> HandoffAction" where
  "demo_action kind = \<lparr>hac_ActionKind = kind, hac_OwnerID = ''owner'', hac_AgentID = ''receiver'',
     hac_StableActionID = ''action'', hac_rest = []\<rparr>"

definition demo_challenge :: challengeRecord where
  "demo_challenge = \<lparr>chr_Schema = challenge_schema,
     chr_Challenge = \<lparr>shc_Body = demo_body\<lparr>hcb_ReceiverEncryptionPublicKey := b64_encode (replicate 32 (CHR ''p''))\<rparr>, shc_rest = []\<rparr>,
     chr_EncryptionPrivateKey = b64_encode (replicate 32 (CHR ''k'')), chr_Accepted = None, chr_AuthorizationDigest = [],
     chr_DeletionActionID = [], chr_DeletionRequestDigest = [], chr_DeletionState = [], chr_DeletedAtUnix = 0\<rparr>"

abbreviation (input) demo_path :: string where
  "demo_path \<equiv> challengePath ''handoff''"

definition demo_file :: "challengeRecord \<Rightarrow> ingress_file node" where
  "demo_file r = node_sync (node_write (ChallengeFile r) 100 (new_node mode_0600))"

definition demo_issued :: "ingress_file fs" where
  "demo_issued = fs_dirsync (fs_put demo_path (demo_file demo_challenge) fs_empty)"

lemma demo_path_name: "challenge_name demo_path"
  by (simp add: challenge_name_def challengePath_def)

lemma demo_io_simps [simp]:
  "io_open demo_io" "io_write demo_io" "io_sync demo_io" "io_close demo_io" "io_rename demo_io" "io_remove demo_io"
  "io_diropen demo_io" "io_dirsync demo_io" "io_read demo_io" "io_dirclose demo_io" "io_random demo_io"
  by (simp_all add: demo_io_def)

lemma demo_create: "fs_live f p = None \<Longrightarrow> createPrivate demo_io p c len f =
    (Inr (), fs_dirsync (fs_put p (node_sync (node_write c len (new_node mode_0600))) f))"
  and demo_replace: "replacePrivate demo_io p c len f =
    (Inr (), fs_dirsync (fs_put p (node_sync (node_write c len (new_node mode_0600))) f))"
  by (simp_all add: createPrivate_def replacePrivate_def syncPrivateDirectory_def Let_def)

lemma demo_issue:
  "IssueChallenge demo_library (Inr (replicate 32 (CHR ''k''), replicate 32 (CHR ''p''))) demo_io demo_io demo_io
     demo_ingress demo_body fs_empty = (Inr (chr_Challenge demo_challenge), demo_issued)"
  by (simp add: IssueChallenge_def demo_ingress_def demo_body_def readChallenge_def demo_library_def demo_create Let_def
      demo_issued_def demo_challenge_def demo_file_def)

lemma demo_find:
  assumes "fs_live f demo_path = Some (demo_file r)" and "chr_Schema r = challenge_schema"
    and "chr_Challenge r = chr_Challenge demo_challenge"
  shows "findChallenge demo_library (\<lambda>_. demo_io) (Some [demo_path]) (sha256_digest ''handoff'') f = Inr (demo_path, r)"
  using assms demo_path_name
  by (simp add: findChallenge_def readChallenge_def demo_file_def demo_library_def demo_challenge_def demo_body_def)

lemma demo_accept:
  "\<exists>a f. Accept demo_library (\<lambda>_. demo_io) (Some [demo_path]) demo_io demo_io demo_ingress (sha256_digest ''handoff'')
     demo_authorization ''secret'' (demo_action ''content.upload'') [] 0 demo_issued = (Inr a, f)
    \<and> acc_ContentDigest a = sha256_digest ''secret''
    \<and> fs_live f demo_path = Some (demo_file (demo_challenge\<lparr>chr_Accepted := Some a,
        chr_AuthorizationDigest := ''authorization'', chr_EncryptionPrivateKey := []\<rparr>))"
proof -
  have "fs_live demo_issued demo_path = Some (demo_file demo_challenge)" by (simp add: demo_issued_def)
  then have find: "findChallenge demo_library (\<lambda>_. demo_io) (Some [demo_path]) (sha256_digest ''handoff'') demo_issued
      = Inr (demo_path, demo_challenge)"
    by (rule demo_find) (simp_all add: demo_challenge_def)
  let ?q = "objectPath (sha256_digest ''secret'')"
  have "?q \<noteq> demo_path" using challenge_not_object demo_path_name by blast
  then have "fs_live demo_issued ?q = None" by (simp add: demo_issued_def)
  then have obj: "\<exists>f1. storeObject demo_io ?q ''secret'' demo_issued = (Inr (), f1)"
    by (simp add: storeObject_def demo_create)
  have lib: "hl_VerifyWriterFence demo_library [] 0 ''content.upload'' = Inr ()"
    "hl_ConfirmCurrentWriterFence demo_library [] 0 = Inr ()" "hl_record_size demo_library r = 100"
    "hl_VerifyAuthorizedAction demo_library a b c d e = Inr ()"
    "hl_PrivateHandoffAuthorizationDigest demo_library (sha_Body demo_authorization) = Inr ''authorization''"
    "hl_DigestManifest demo_library m = Inr (sha256_digest (pcm_rest m))" for r a b c d e m
    by (simp_all add: demo_library_def)
  have mat: "\<exists>sem. UploadAuthorizationMaterial demo_library x y (chr_Challenge demo_challenge) demo_authorization = Inr ([], sem)" for x y
    by (simp add: UploadAuthorizationMaterial_def demo_library_def)
  have opened: "hl_OpenPrivateContent demo_library c demo_authorization ''secret'' k t = Inr ''secret''" for c k t
    by (simp add: demo_library_def demo_authorization_def)
  have auth: "hab_ChallengeDigest (sha_Body demo_authorization) = sha256_digest ''handoff''"
    "pcm_ContentDigest (hab_Manifest (sha_Body demo_authorization)) = sha256_digest ''secret''"
    by (simp_all add: demo_authorization_def)
  have rec: "chr_Accepted demo_challenge = None" "b64_decode (chr_EncryptionPrivateKey demo_challenge) = Some (replicate 32 (CHR ''k''))"
    by (simp_all add: demo_challenge_def)
  obtain f1 where f1: "storeObject demo_io ?q ''secret'' demo_issued = (Inr (), f1)" using obj by blast
  obtain sem where sem: "UploadAuthorizationMaterial demo_library (hac_OwnerID (demo_action ''content.upload''))
      (hac_AgentID (demo_action ''content.upload'')) (chr_Challenge demo_challenge) demo_authorization = Inr ([], sem)"
    using mat by blast
  show ?thesis
    using find lib sem opened auth rec f1 sha256_digest_canonical [of "''handoff''"]
    by (simp add: Accept_def demo_ingress_def demo_action_def demo_replace Let_def demo_file_def accepted_record_def)
qed

lemma demo_reached: "reach (\<lambda>f. f = fs_empty) (ingress_step demo_library) demo_issued"
proof (rule reach_step)
  show "reach (\<lambda>f. f = fs_empty) (ingress_step demo_library) fs_empty" by (rule reach_init) simp
  show "ingress_step demo_library fs_empty demo_issued" by (rule in_issue [OF demo_issue])
qed

lemma demo_issued_find:
  "findChallenge demo_library (\<lambda>_. demo_io) (Some [demo_path]) (sha256_digest ''handoff'') demo_issued
     = Inr (demo_path, demo_challenge)"
  by (rule demo_find) (simp_all add: demo_issued_def demo_challenge_def)

lemma demo_issued_open: "chr_Accepted demo_challenge = None"
  by (simp add: demo_challenge_def)

lemma demo_material:
  "\<exists>sem. UploadAuthorizationMaterial demo_library x y c z = Inr ([], sem)"
  "\<exists>sem. DeleteAuthorizationMaterial demo_library x y c b = Inr ([], sem)"
  by (simp_all add: UploadAuthorizationMaterial_def DeleteAuthorizationMaterial_def demo_library_def)

lemma demo_library_simps:
  "hl_VerifyWriterFence demo_library fe t k = Inr ()" "hl_ConfirmCurrentWriterFence demo_library fe t = Inr ()"
  "hl_VerifyAuthorizedAction demo_library ac sem c fe t = Inr ()"
  "hl_PrivateHandoffAuthorizationDigest demo_library ab = Inr ''authorization''"
  by (simp_all add: demo_library_def)

lemma demo_replay:
  assumes "Accept demo_library (\<lambda>_. demo_io) (Some [demo_path]) demo_io demo_io demo_ingress (sha256_digest ''handoff'')
       demo_authorization ''secret'' (demo_action ''content.upload'') [] 0 demo_issued = (Inr a, f)"
    and "fs_live f demo_path = Some (demo_file (demo_challenge\<lparr>chr_Accepted := Some a,
        chr_AuthorizationDigest := ''authorization'', chr_EncryptionPrivateKey := []\<rparr>))"
  shows "\<exists>b f3. Accept demo_library (\<lambda>_. demo_io) (Some [demo_path]) demo_io demo_io demo_ingress (sha256_digest ''handoff'')
       demo_authorization ''other'' (demo_action ''content.upload'') [] 0 f = (Inr b, f3)"
proof -
  let ?r = "demo_challenge\<lparr>chr_Accepted := Some a, chr_AuthorizationDigest := ''authorization'', chr_EncryptionPrivateKey := []\<rparr>"
  have find: "findChallenge demo_library (\<lambda>_. demo_io) (Some [demo_path]) (sha256_digest ''handoff'') f = Inr (demo_path, ?r)"
    by (rule demo_find [OF assms(2)]) (simp_all add: demo_challenge_def)
  from assms(1) have "acc_UploadActionID a = ''action''"
    by (cases rule: Accept_cases)
      (auto simp: demo_issued_find demo_issued_open accepted_record_def demo_action_def split: sum.splits)
  moreover obtain sem where "UploadAuthorizationMaterial demo_library (hac_OwnerID (demo_action ''content.upload''))
      (hac_AgentID (demo_action ''content.upload'')) (chr_Challenge ?r) demo_authorization = Inr ([], sem)"
    using demo_material(1) by blast
  ultimately show ?thesis
    using find sha256_digest_canonical [of "''handoff''"]
    by (simp add: Accept_def demo_ingress_def demo_action_def demo_library_simps demo_authorization_def)
qed

lemma demo_delete:
  assumes "fs_live f demo_path = Some (demo_file (demo_challenge\<lparr>chr_Accepted := Some a,
        chr_AuthorizationDigest := ''authorization'', chr_EncryptionPrivateKey := []\<rparr>))"
  shows "\<exists>res f'. Delete demo_library (\<lambda>_. demo_io) (Some [demo_path]) demo_io demo_io demo_io demo_ingress
      (sha256_digest ''handoff'') (demo_action ''content.delete'') [] 0 f = (Inr res, f')"
proof -
  let ?r = "demo_challenge\<lparr>chr_Accepted := Some a, chr_AuthorizationDigest := ''authorization'', chr_EncryptionPrivateKey := []\<rparr>"
  have find: "findChallenge demo_library (\<lambda>_. demo_io) (Some [demo_path]) (sha256_digest ''handoff'') f = Inr (demo_path, ?r)"
    by (rule demo_find [OF assms]) (simp_all add: demo_challenge_def)
  have st: "chr_Accepted ?r = Some a" "chr_DeletionState ?r = []" "chr_DeletionActionID ?r = []" by (simp_all add: demo_challenge_def)
  have "\<exists>res f'. performDeletion demo_library demo_io demo_io demo_io demo_path ?r a act rd cd 0 f = (Inr res, f')" for act rd cd
    unfolding performDeletion_def Let_def st demo_replace by (simp add: eraseObject_def demo_replace Let_def)
  moreover obtain sem where "DeleteAuthorizationMaterial demo_library (hac_OwnerID (demo_action ''content.delete''))
      (hac_AgentID (demo_action ''content.delete'')) (chr_Challenge ?r) a = Inr ([], sem)"
    using demo_material(2) by blast
  ultimately show ?thesis
    using find st sha256_digest_canonical [of "''handoff''"]
    by (simp add: Delete_def demo_ingress_def demo_action_def demo_library_simps Let_def)
qed

section \<open>Properties\<close>

text \<open>Content is accepted at most once per challenge: over any life of a store, with failures and
  crashes, no challenge record accepts content twice.\<close>

theorem accept_at_most_once:
  assumes "grant_run (ingress_grants lib) (ingress_step lib) f paths f'"
  shows "distinct paths"
  by (rule ingress.run_distinct [OF assms])

theorem accept_at_most_once_witness:
  "\<exists>f. grant_run (ingress_grants demo_library) (ingress_step demo_library) demo_issued [demo_path] f \<and> distinct [demo_path]"
proof -
  obtain a f where "Accept demo_library (\<lambda>_. demo_io) (Some [demo_path]) demo_io demo_io demo_ingress
      (sha256_digest ''handoff'') demo_authorization ''secret'' (demo_action ''content.upload'') [] 0 demo_issued = (Inr a, f)"
    using demo_accept by blast
  then have "ingress_grants demo_library demo_issued demo_path f"
    unfolding ingress_grants_def using demo_issued_find demo_issued_open by blast
  then have "grant_run (ingress_grants demo_library) (ingress_step demo_library) demo_issued [demo_path] f"
    by (rule run_single)
  with accept_at_most_once [OF this] show ?thesis by blast
qed

text \<open>C15. What was accepted is final: after the call that first accepted content for a challenge
  record, and any further operations and crashes, every call that succeeds on that record returns the
  same accepted record and changes nothing.\<close>

theorem accepted_content_final:
  assumes "Accept lib ws entries wo wr store cd authorization ciphertext action fence now f = (Inr a, f1)"
    and "findChallenge lib ws entries cd f = Inr (p, r)" and "chr_Accepted r = None"
    and "(ingress_step lib)\<^sup>*\<^sup>* f1 f2"
    and "Accept lib ws' entries' wo' wr' store' cd' authorization' ciphertext' action' fence' now' f2 = (Inr b, f3)"
    and "findChallenge lib ws' entries' cd' f2 = Inr (p, r')"
  shows "b = a \<and> f3 = f2"
proof -
  have "accepted_at f2 p a"
    by (rule ingress_steps_keep [OF assms(4) first_accept [OF assms(1-3)]])
  then have r': "chr_Accepted r' = Some a"
    using accepted_read findChallenge_Inr(2) [OF assms(6)] by blast
  from assms(5) show ?thesis
    by (cases rule: Accept_cases) (use assms(6) r' in \<open>auto split: sum.splits\<close>)
qed

theorem accepted_content_final_witness:
  "\<exists>a f. Accept demo_library (\<lambda>_. demo_io) (Some [demo_path]) demo_io demo_io demo_ingress (sha256_digest ''handoff'')
       demo_authorization ''secret'' (demo_action ''content.upload'') [] 0 demo_issued = (Inr a, f)
     \<and> Accept demo_library (\<lambda>_. demo_io) (Some [demo_path]) demo_io demo_io demo_ingress (sha256_digest ''handoff'')
       demo_authorization ''other'' (demo_action ''content.upload'') [] 0 f = (Inr a, f)"
proof -
  obtain a f where a: "Accept demo_library (\<lambda>_. demo_io) (Some [demo_path]) demo_io demo_io demo_ingress (sha256_digest ''handoff'')
       demo_authorization ''secret'' (demo_action ''content.upload'') [] 0 demo_issued = (Inr a, f)"
      and l: "fs_live f demo_path = Some (demo_file (demo_challenge\<lparr>chr_Accepted := Some a,
        chr_AuthorizationDigest := ''authorization'', chr_EncryptionPrivateKey := []\<rparr>))"
    using demo_accept by blast
  obtain b f3 where b: "Accept demo_library (\<lambda>_. demo_io) (Some [demo_path]) demo_io demo_io demo_ingress (sha256_digest ''handoff'')
       demo_authorization ''other'' (demo_action ''content.upload'') [] 0 f = (Inr b, f3)"
    using demo_replay [OF a l] by blast
  have find: "findChallenge demo_library (\<lambda>_. demo_io) (Some [demo_path]) (sha256_digest ''handoff'') f =
      Inr (demo_path, demo_challenge\<lparr>chr_Accepted := Some a, chr_AuthorizationDigest := ''authorization'', chr_EncryptionPrivateKey := []\<rparr>)"
    by (rule demo_find [OF l]) (simp_all add: demo_challenge_def)
  have "b = a \<and> f3 = f"
    by (rule accepted_content_final [OF a demo_issued_find demo_issued_open rtranclp.rtrancl_refl b find])
  with a b show ?thesis by blast
qed

text \<open>What has been accepted can be read back: the call that first accepts content for a challenge
  decrypts a plaintext, and opening the returned record gives exactly that plaintext.  The protocol
  library promises that decrypted content has the digest of its manifest.\<close>

theorem Accept_then_OpenAccepted:
  assumes "\<forall>c auth ct key t v. hl_OpenPrivateContent lib c auth ct key t = Inr v \<longrightarrow>
      sha256_digest v = pcm_ContentDigest (hab_Manifest (sha_Body auth)) \<and> length v < 9223372036854775807"
    and "reach (\<lambda>f. f = fs_empty) (ingress_step lib) f"
    and "Accept lib ws entries wo wr store cd authorization ciphertext action fence now f = (Inr a, f')"
    and "findChallenge lib ws entries cd f = Inr (p, r)" and "chr_Accepted r = None"
  shows "\<exists>key plaintext. b64_decode (chr_EncryptionPrivateKey r) = Some key
    \<and> hl_OpenPrivateContent lib (chr_Challenge r) authorization ciphertext key now = Inr plaintext
    \<and> openAccepted io_ok True True a f' = Inr plaintext"
  using assms(3)
proof (cases rule: Accept_cases)
  case (storing q r' key plaintext f1 r2 ad md)
  have q: "q = p" "r' = r" using storing(1) assms(4) by simp_all
  have a: "a = accepted_record r cd ad action authorization md plaintext now"
    using storing(8) q by (auto split: sum.splits)
  let ?d = "pcm_ContentDigest (hab_Manifest (sha_Body authorization))"
  have law: "sha256_digest plaintext = ?d" "length plaintext < 9223372036854775807"
    using assms(1) storing(5) by blast+
  have wf: "files_wf f1" by (rule storeObject_wf [OF storing(6) wf.reach_inv [OF assms(2)]])
  obtain n where n: "fs_live f1 (objectPath ?d) = Some n" "node_data n = Some (ObjectFile plaintext)"
    using storeObject_live [OF storing(6)] by blast
  have nwf: "node_type n = RegularFile" "node_size n = length plaintext"
    using wf n by (auto simp: files_wf_def file_wf_def)
  have "objectPath ?d \<noteq> p" using challenge_not_object findChallenge_Inr(1) [OF assms(4)] by blast
  then have "fs_live f' (objectPath ?d) = Some n"
    using replacePrivate_kept [OF storing(7)] q n(1) by (simp add: kept_def)
  then have "openAccepted io_ok True True a f' = Inr plaintext"
    using n(2) nwf law int64_of_small [OF law(2)] sha256_digest_canonical [of plaintext]
    by (simp add: openAccepted_def a accepted_record_def)
  then show ?thesis using storing(3,5) q by blast
qed (use assms(4,5) in auto)

theorem Accept_then_OpenAccepted_witness:
  "\<exists>a f. Accept demo_library (\<lambda>_. demo_io) (Some [demo_path]) demo_io demo_io demo_ingress (sha256_digest ''handoff'')
       demo_authorization ''secret'' (demo_action ''content.upload'') [] 0 demo_issued = (Inr a, f)
     \<and> openAccepted io_ok True True a f = Inr ''secret''"
proof -
  obtain a f where a: "Accept demo_library (\<lambda>_. demo_io) (Some [demo_path]) demo_io demo_io demo_ingress (sha256_digest ''handoff'')
       demo_authorization ''secret'' (demo_action ''content.upload'') [] 0 demo_issued = (Inr a, f)"
    using demo_accept by blast
  have "\<forall>c auth ct key t v. hl_OpenPrivateContent demo_library c auth ct key t = Inr v \<longrightarrow>
      sha256_digest v = pcm_ContentDigest (hab_Manifest (sha_Body auth)) \<and> length v < 9223372036854775807"
    by (simp add: demo_library_def)
  from Accept_then_OpenAccepted [OF this demo_reached a demo_issued_find demo_issued_open] show ?thesis
    using a by (auto simp: demo_library_def split: if_splits)
qed



end
