(* ===== verification/Result_Outbox.thy ===== *)
theory Result_Outbox
  imports Contracts Dir_Lock Go_Json Go_Base64
begin

text \<open>
  Package \<open>pkg/messengereventbridge\<close>, files \<open>outbox.go\<close> and \<open>publisher.go\<close>: results of remote calls are
  kept in a directory, one file per source event, until the local messenger has queued them.

  The messenger's envelope and local API are not part of this repository: an event carries the fields
  read in this package, with all others in \<open>evt_rest\<close>; the largest content size is a parameter \<open>limit\<close>, and the client is a parameter of the
  publisher.  A result is the bytes its encoder returned.
\<close>

section \<open>Data\<close>

record NetworkDomain =
  nd_NetworkId :: string
  nd_GenesisRootHash :: string
  nd_GenesisFileHash :: string

record Event =
  evt_EventID :: string
  evt_Kind :: string
  evt_ConversationID :: string
  evt_SenderAgentID :: string
  evt_CreatedAtUnix :: u64
  evt_Network :: "NetworkDomain option"
  evt_Content :: bytes
  evt_rest :: bytes

record resultRecord =
  rr_Schema :: string
  rr_SourceEventID :: string
  rr_ConversationID :: string
  rr_SenderAgentID :: string
  rr_SourceCreatedAtUnix :: u64
  rr_ResultKind :: string
  rr_ResultJSON :: bytes
  rr_ResultDigest :: string
  rr_State :: string

record PendingResult =
  pr_SourceEventID :: string
  pr_ConversationID :: string
  pr_SenderAgentID :: string
  pr_SourceCreatedAtUnix :: u64
  pr_ResultKind :: string
  pr_ResultJSON :: bytes
  pr_ResultDigest :: string

record ResultOutbox =
  ob_root :: string
  ob_lock :: "Lock option"

abbreviation (input) resultRecordSchema :: string where "resultRecordSchema \<equiv> ''tos.service.messenger-result-outbox.v2''"

definition maxRecordBytes :: "nat \<Rightarrow> nat" where
  "maxRecordBytes limit = limit + 32768"

definition eventIDPattern :: "string \<Rightarrow> bool" where
  "eventIDPattern s \<longleftrightarrow> hex64_after ''evt_'' s"

definition digestPattern :: "string \<Rightarrow> bool" where
  "digestPattern s \<longleftrightarrow> hex64_after ''sha256:'' s"

definition resultDigest :: "bytes \<Rightarrow> string" where
  "resultDigest raw = ''sha256:'' @ hex_encode (sha256 raw)"

definition outbox_path :: "string \<Rightarrow> string" where
  "outbox_path eventID = drop 4 eventID @ ''.json''"

definition json_resultRecord :: "resultRecord \<Rightarrow> string" where
  "json_resultRecord r = json_object
     [(''schema'', json_string (rr_Schema r)), (''source_event_id'', json_string (rr_SourceEventID r)),
      (''conversation_id'', json_string (rr_ConversationID r)), (''sender_agent_id'', json_string (rr_SenderAgentID r)),
      (''source_created_at_unix'', json_u64 (rr_SourceCreatedAtUnix r)), (''result_kind'', json_string (rr_ResultKind r)),
      (''result_json'', CHR 0x22 # b64_std_encode (rr_ResultJSON r) @ [CHR 0x22]),
      (''result_digest'', json_string (rr_ResultDigest r)), (''state'', json_string (rr_State r))]"

section \<open>The outbox\<close>

definition validResultRecord :: "nat \<Rightarrow> resultRecord \<Rightarrow> bool" where
  "validResultRecord limit r \<longleftrightarrow> rr_Schema r = resultRecordSchema \<and> eventIDPattern (rr_SourceEventID r)
     \<and> rr_ConversationID r \<noteq> [] \<and> rr_SenderAgentID r \<noteq> [] \<and> rr_SourceCreatedAtUnix r > 0
     \<and> (rr_ResultKind r = ''a2a.message'' \<or> rr_ResultKind r = ''mcp.result'')
     \<and> length (rr_ResultJSON r) > 0 \<and> length (rr_ResultJSON r) \<le> limit
     \<and> digestPattern (rr_ResultDigest r) \<and> rr_ResultDigest r = resultDigest (rr_ResultJSON r)
     \<and> (rr_State r = ''pending'' \<or> rr_State r = ''complete'')"

definition sameResult :: "resultRecord \<Rightarrow> resultRecord \<Rightarrow> bool" where
  "sameResult l r \<longleftrightarrow> rr_SourceEventID l = rr_SourceEventID r \<and> rr_ConversationID l = rr_ConversationID r
     \<and> rr_SenderAgentID l = rr_SenderAgentID r \<and> rr_SourceCreatedAtUnix l = rr_SourceCreatedAtUnix r
     \<and> rr_ResultKind l = rr_ResultKind r \<and> rr_ResultDigest l = rr_ResultDigest r \<and> rr_ResultJSON l = rr_ResultJSON r"

definition pendingResult :: "resultRecord \<Rightarrow> PendingResult" where
  "pendingResult r = \<lparr>pr_SourceEventID = rr_SourceEventID r, pr_ConversationID = rr_ConversationID r,
     pr_SenderAgentID = rr_SenderAgentID r, pr_SourceCreatedAtUnix = rr_SourceCreatedAtUnix r,
     pr_ResultKind = rr_ResultKind r, pr_ResultJSON = rr_ResultJSON r, pr_ResultDigest = rr_ResultDigest r\<rparr>"

definition readResultRecord :: "nat \<Rightarrow> io \<Rightarrow> string \<Rightarrow> resultRecord fs \<Rightarrow> resultRecord result" where
  "readResultRecord limit w p f =
     (case fs_live f p of
        None \<Rightarrow> Inl (ErrMsg ''invalid Messenger result outbox record'')
      | Some n \<Rightarrow>
          if node_type n \<noteq> RegularFile \<or> node_perm n \<noteq> mode_0600 \<or> node_size n = 0
             \<or> node_size n > maxRecordBytes limit \<or> \<not> (node_owned n \<and> node_nlink n = 1)
          then Inl (ErrMsg ''invalid Messenger result outbox record'')
          else if \<not> io_read w then Inl (ErrMsg ''read Messenger result outbox record'')
          else (case node_data n of
              None \<Rightarrow> Inl (ErrMsg ''decode Messenger result outbox record'')
            | Some r \<Rightarrow>
                if \<not> validResultRecord limit r then Inl (ErrMsg ''invalid Messenger result outbox record'')
                else Inr r))"

definition OpenResultOutbox :: "string \<Rightarrow> bool \<Rightarrow> unit node option \<Rightarrow> lock_obs \<Rightarrow> nat \<Rightarrow> nat \<Rightarrow> kernel
    \<Rightarrow> ResultOutbox result \<times> kernel" where
  "OpenResultOutbox root mkdir_ok info obs i fd k =
     (if \<not> is_abs root \<or> path_clean root \<noteq> root then (Inl (ErrMsg ''invalid Messenger result outbox root''), k)
      else if \<not> mkdir_ok then (Inl (ErrMsg ''create Messenger result outbox root''), k)
      else case info of
        None \<Rightarrow> (Inl (ErrMsg ''Messenger result outbox root must be private and owned''), k)
      | Some n \<Rightarrow>
          if node_type n \<noteq> DirectoryFile \<or> node_perm n \<noteq> mode_0700 \<or> \<not> node_owned n
          then (Inl (ErrMsg ''Messenger result outbox root must be private and owned''), k)
          else (case Acquire root ''.messenger-result-outbox.lock'' obs i fd k of
              (Inl e, k') \<Rightarrow> (Inl (ErrMsg ''Messenger result outbox is already owned''), k')
            | (Inr l, k') \<Rightarrow> (Inr \<lparr>ob_root = root, ob_lock = Some l\<rparr>, k')))"

definition syncResultDirectory :: "io \<Rightarrow> unit result" where
  "syncResultDirectory w =
     (if \<not> io_diropen w then Inl (ErrMsg ''open Messenger result directory'')
      else if \<not> io_dirsync w then Inl (ErrMsg ''sync Messenger result directory'') else Inr ())"

definition pending_record :: "Event \<Rightarrow> string \<Rightarrow> bytes \<Rightarrow> resultRecord" where
  "pending_record event kind result = \<lparr>rr_Schema = resultRecordSchema, rr_SourceEventID = evt_EventID event,
     rr_ConversationID = evt_ConversationID event, rr_SenderAgentID = evt_SenderAgentID event,
     rr_SourceCreatedAtUnix = evt_CreatedAtUnix event, rr_ResultKind = kind, rr_ResultJSON = result,
     rr_ResultDigest = resultDigest result, rr_State = ''pending''\<rparr>"

text \<open>On an error after the exclusive create the file is removed, which may fail: \<open>discard\<close> keeps it then.\<close>

definition discard :: "io \<Rightarrow> string \<Rightarrow> 'c node \<Rightarrow> 'c fs \<Rightarrow> 'c fs" where
  "discard w p n f = (if io_remove w then f else fs_put p n f)"

definition enqueue :: "nat \<Rightarrow> io \<Rightarrow> ResultOutbox \<Rightarrow> Event \<Rightarrow> string \<Rightarrow> bytes \<Rightarrow> resultRecord fs
    \<Rightarrow> unit result \<times> resultRecord fs" where
  "enqueue limit w ob event kind result f =
     (if \<not> eventIDPattern (evt_EventID event) \<or> evt_ConversationID event = [] \<or> evt_SenderAgentID event = []
         \<or> evt_CreatedAtUnix event = 0 \<or> (kind \<noteq> ''a2a.message'' \<and> kind \<noteq> ''mcp.result'')
         \<or> length result = 0 \<or> length result > limit
      then (Inl (ErrMsg ''invalid Messenger result outbox entry''), f)
      else
        let r = pending_record event kind result; encoded = json_resultRecord r; p = outbox_path (evt_EventID event);
            empty_file = new_node mode_0600; written = node_write r (length encoded + 1) empty_file
        in if length encoded > maxRecordBytes limit then (Inl (ErrMsg ''encode Messenger result outbox entry''), f)
           else if ob_lock ob = None then (Inl (ErrMsg ''Messenger result outbox is closed''), f)
           else if fs_live f p = None then
             (if \<not> io_open w then (Inl (ErrMsg ''create Messenger result outbox entry''), f)
              else if \<not> io_write w then (Inl (ErrMsg ''write Messenger result record''), discard w p empty_file f)
              else if \<not> io_sync w then (Inl (ErrMsg ''sync Messenger result record''), discard w p written f)
              else if \<not> io_close w then (Inl (ErrMsg ''close Messenger result record''), discard w p (node_sync written) f)
              else (case syncResultDirectory w of
                  Inl e \<Rightarrow> (Inl e, discard w p (node_sync written) f)
                | Inr _ \<Rightarrow> (Inr (), fs_dirsync (fs_put p (node_sync written) f))))
           else (case readResultRecord limit w p f of
               Inl e \<Rightarrow> (Inl e, f)
             | Inr existing \<Rightarrow>
                 if \<not> sameResult existing r then (Inl (ErrMsg ''source Messenger Event conflicts with another result''), f)
                 else (Inr (), f)))"

text \<open>The two receivers: \<open>raw\<close> is what encoding the task or the output gives; a nil task is \<open>None\<close>.\<close>

definition ReceiveA2AResult :: "nat \<Rightarrow> io \<Rightarrow> ResultOutbox \<Rightarrow> Event \<Rightarrow> bytes result option \<Rightarrow> resultRecord fs
    \<Rightarrow> unit result \<times> resultRecord fs" where
  "ReceiveA2AResult limit w ob event task f =
     (case task of None \<Rightarrow> (Inl (ErrMsg ''invalid A2A result''), f)
      | Some (Inl e) \<Rightarrow> (Inl (ErrMsg ''encode A2A result''), f)
      | Some (Inr raw) \<Rightarrow> enqueue limit w ob event ''a2a.message'' raw f)"

definition ReceiveMCPResult :: "nat \<Rightarrow> io \<Rightarrow> ResultOutbox \<Rightarrow> Event \<Rightarrow> bytes result \<Rightarrow> resultRecord fs
    \<Rightarrow> unit result \<times> resultRecord fs" where
  "ReceiveMCPResult limit w ob event raw f =
     (case raw of Inl e \<Rightarrow> (Inl (ErrMsg ''encode MCP result''), f)
      | Inr v \<Rightarrow> enqueue limit w ob event ''mcp.result'' v f)"

text \<open>\<open>Pending\<close> reads the entries that are not directories and end in \<open>.json\<close>; one that cannot be
  read ends it with an error.\<close>

fun read_pending :: "nat \<Rightarrow> (string \<Rightarrow> io) \<Rightarrow> resultRecord fs \<Rightarrow> string list \<Rightarrow> PendingResult list result" where
  "read_pending limit ws f [] = Inr []"
| "read_pending limit ws f (name # names) =
     (if map_option node_type (fs_live f name) = Some DirectoryFile \<or> drop (length name - 5) name \<noteq> ''.json''
      then read_pending limit ws f names
      else case readResultRecord limit (ws name) name f of Inl e \<Rightarrow> Inl e
      | Inr r \<Rightarrow>
          (case read_pending limit ws f names of Inl e \<Rightarrow> Inl e
           | Inr rest \<Rightarrow> Inr (if rr_State r \<noteq> ''pending'' then rest else pendingResult r # rest)))"

definition Pending :: "nat \<Rightarrow> (string \<Rightarrow> io) \<Rightarrow> string list option \<Rightarrow> ResultOutbox \<Rightarrow> resultRecord fs
    \<Rightarrow> PendingResult list result" where
  "Pending limit ws entries ob f =
     (if ob_lock ob = None then Inl (ErrMsg ''Messenger result outbox is closed'')
      else case entries of None \<Rightarrow> Inl (ErrMsg ''list Messenger result outbox'')
      | Some names \<Rightarrow>
          (case read_pending limit ws f names of Inl e \<Rightarrow> Inl e
           | Inr results \<Rightarrow> Inr (sort_key pr_SourceEventID results)))"

definition completion_error :: "replace_step \<Rightarrow> go_error" where
  "completion_error e = (case e of
       AtCreate \<Rightarrow> ErrMsg ''create Messenger result completion''
     | AtChmod \<Rightarrow> ErrMsg ''protect Messenger result completion''
     | AtWrite \<Rightarrow> ErrMsg ''write Messenger result record''
     | AtSync \<Rightarrow> ErrMsg ''sync Messenger result record''
     | AtClose \<Rightarrow> ErrMsg ''close Messenger result record''
     | AtRename \<Rightarrow> ErrMsg ''commit Messenger result completion''
     | AtDiropen \<Rightarrow> ErrMsg ''open Messenger result directory''
     | AtDirsync \<Rightarrow> ErrMsg ''sync Messenger result directory'')"

definition outbox_Complete :: "nat \<Rightarrow> io \<Rightarrow> ResultOutbox \<Rightarrow> string \<Rightarrow> string \<Rightarrow> resultRecord fs
    \<Rightarrow> unit result \<times> resultRecord fs" where
  "outbox_Complete limit w ob sourceEventID digest f =
     (if \<not> eventIDPattern sourceEventID \<or> \<not> digestPattern digest
      then (Inl (ErrMsg ''invalid Messenger result completion''), f)
      else if ob_lock ob = None then (Inl (ErrMsg ''Messenger result outbox is closed''), f)
      else
        let p = outbox_path sourceEventID in
        case readResultRecord limit w p f of
          Inl e \<Rightarrow> (Inl (ErrMsg ''Messenger result completion does not match pending output''), f)
        | Inr r \<Rightarrow>
            if rr_ResultDigest r \<noteq> digest
            then (Inl (ErrMsg ''Messenger result completion does not match pending output''), f)
            else if rr_State r = ''complete'' then (Inr (), f)
            else
              let r' = r\<lparr>rr_State := ''complete''\<rparr>
              in (case replace_file w p r' (length (json_resultRecord r') + 1) f of
                    (None, f') \<Rightarrow> (Inr (), f')
                  | (Some e, f') \<Rightarrow> (Inl (completion_error e), f')))"

text \<open>\<open>Close\<close> takes the lock out of the outbox before it releases it.\<close>

definition outbox_Close :: "bool \<Rightarrow> bool \<Rightarrow> ResultOutbox \<Rightarrow> kernel \<Rightarrow> unit result \<times> ResultOutbox \<times> kernel" where
  "outbox_Close u c ob k =
     (case ob_lock ob of None \<Rightarrow> (Inr (), ob, k)
      | Some l \<Rightarrow> (case Lock_Close u c l k of (r, l', k') \<Rightarrow> (r, ob\<lparr>ob_lock := None\<rparr>, k')))"

text \<open>The journal of results received over MCP: an outbox of its own whose entries are completed at once.\<close>

definition journal_ReceiveMCPResult :: "nat \<Rightarrow> io \<Rightarrow> io \<Rightarrow> ResultOutbox \<Rightarrow> Event \<Rightarrow> bytes result \<Rightarrow> resultRecord fs
    \<Rightarrow> unit result \<times> resultRecord fs" where
  "journal_ReceiveMCPResult limit w w2 ob event raw f =
     (case raw of Inl e \<Rightarrow> (Inl (ErrMsg ''encode MCP result''), f)
      | Inr v \<Rightarrow>
          (case enqueue limit w ob event ''mcp.result'' v f of
             (Inl e, f') \<Rightarrow> (Inl e, f')
           | (Inr _, f') \<Rightarrow> outbox_Complete limit w2 ob (evt_EventID event) (resultDigest v) f'))"

section \<open>The publisher\<close>

record ResultRoute =
  rt_SenderAgentID :: string
  rt_SessionID :: string
  rt_RecipientEndpointID :: string

record localapi_request =
  lr_ConversationID :: string
  lr_ReplyToEventID :: string
  lr_ProtocolKind :: string
  lr_Protocol :: string
  lr_ProtocolVersion :: string
  lr_ProtocolBody :: bytes
  lr_IdempotencyKey :: string
  lr_SessionID :: string
  lr_RecipientEndpointID :: string
  lr_ExpiresAtUnix :: u64

record ResultPublisher =
  pub_outbox :: ResultOutbox
  pub_routes :: "string \<Rightarrow> ResultRoute option"
  pub_lifetime :: duration

record PublishSummary =
  sum_Queued :: int
  sum_Retained :: int

fun build_routes :: "string \<Rightarrow> (string \<Rightarrow> ResultRoute option) \<Rightarrow> ResultRoute list
    \<Rightarrow> (string \<Rightarrow> ResultRoute option) result" where
  "build_routes previous routes [] = Inr routes"
| "build_routes previous routes (r # rs) =
     (if \<not> hex64_after ''agent_'' (rt_SenderAgentID r) \<or> \<not> hex64_after ''ses_'' (rt_SessionID r)
         \<or> \<not> hex64_after ''mep_'' (rt_RecipientEndpointID r) \<or> \<not> previous < rt_SenderAgentID r
      then Inl (ErrMsg ''invalid or unsorted Messenger result route'')
      else build_routes (rt_SenderAgentID r) (routes(rt_SenderAgentID r \<mapsto> r)) rs)"

definition NewResultPublisher :: "ResultOutbox option \<Rightarrow> bool \<Rightarrow> ResultRoute list \<Rightarrow> duration \<Rightarrow> ResultPublisher result" where
  "NewResultPublisher outbox has_client routes lifetime =
     (case outbox of None \<Rightarrow> Inl (ErrMsg ''invalid Messenger result publisher configuration'')
      | Some ob \<Rightarrow>
          if \<not> has_client \<or> lifetime < time_minute \<or> lifetime > 7 * 24 * time_hour \<or> routes = []
          then Inl (ErrMsg ''invalid Messenger result publisher configuration'')
          else (case build_routes [] (\<lambda>_. None) routes of Inl e \<Rightarrow> Inl e
            | Inr m \<Rightarrow> Inr \<lparr>pub_outbox = ob, pub_routes = m, pub_lifetime = lifetime\<rparr>))"

definition resultIdempotency :: "string \<Rightarrow> string \<Rightarrow> string" where
  "resultIdempotency sourceEventID digest = ''idem_'' @ hex_encode
     (sha256 (''tos.service.messenger-result-publish.v1'' @ [CHR 0x00] @ sourceEventID @ [CHR 0x00] @ digest))"

definition result_request :: "ResultPublisher \<Rightarrow> ResultRoute \<Rightarrow> PendingResult \<Rightarrow> localapi_request" where
  "result_request p route result =
     \<lparr>lr_ConversationID = pr_ConversationID result, lr_ReplyToEventID = pr_SourceEventID result,
      lr_ProtocolKind = pr_ResultKind result,
      lr_Protocol = (if pr_ResultKind result = ''a2a.message'' then ''a2a'' else ''mcp''), lr_ProtocolVersion = ''1'',
      lr_ProtocolBody = pr_ResultJSON result,
      lr_IdempotencyKey = resultIdempotency (pr_SourceEventID result) (pr_ResultDigest result),
      lr_SessionID = rt_SessionID route, lr_RecipientEndpointID = rt_RecipientEndpointID route,
      lr_ExpiresAtUnix = pr_SourceCreatedAtUnix result + word_of_int (pub_lifetime p div 1000000000)\<rparr>"

text \<open>
  The loop of \<open>PublishPending\<close>.  At position \<open>i\<close>, \<open>cancelled i\<close> tells whether the context has ended,
  \<open>client i\<close> is the client's answer (the identifier of the queued event or an error) and \<open>ws i\<close> the
  outcome of the system calls of \<open>Complete\<close>.  The result is the summary, whether the context ended,
  the errors seen, the requests made and the directory.
\<close>

record publish_state =
  pst_summary :: PublishSummary
  pst_cancelled :: bool
  pst_errors :: "go_error list"
  pst_requests :: "localapi_request list"
  pst_files :: "resultRecord fs"

definition retain :: "go_error \<Rightarrow> publish_state \<Rightarrow> publish_state" where
  "retain e s = s\<lparr>pst_summary := (pst_summary s)\<lparr>sum_Retained := sum_Retained (pst_summary s) + 1\<rparr>,
     pst_errors := pst_errors s @ [e]\<rparr>"

definition publish_one :: "nat \<Rightarrow> (localapi_request \<Rightarrow> string result) \<Rightarrow> io \<Rightarrow> ResultPublisher \<Rightarrow> PendingResult
    \<Rightarrow> publish_state \<Rightarrow> publish_state" where
  "publish_one limit client w p result s =
     (case pub_routes p (pr_SenderAgentID result) of
        None \<Rightarrow> retain (ErrMsg ''no Messenger result route for sender'') s
      | Some route \<Rightarrow>
          let request = result_request p route result; s1 = s\<lparr>pst_requests := pst_requests s @ [request]\<rparr> in
          (case client request of
             Inl e \<Rightarrow> retain e s1
           | Inr eventID \<Rightarrow>
               if eventID = [] then retain (ErrMsg ''Messenger did not return a queued result Event ID'') s1
               else (case outbox_Complete limit w (pub_outbox p) (pr_SourceEventID result) (pr_ResultDigest result) (pst_files s1) of
                   (Inl e, f) \<Rightarrow> retain e (s1\<lparr>pst_files := f\<rparr>)
                 | (Inr _, f) \<Rightarrow> s1\<lparr>pst_files := f,
                     pst_summary := (pst_summary s1)\<lparr>sum_Queued := sum_Queued (pst_summary s1) + 1\<rparr>\<rparr>)))"

fun publish_loop :: "nat \<Rightarrow> (nat \<Rightarrow> bool) \<Rightarrow> (nat \<Rightarrow> localapi_request \<Rightarrow> string result) \<Rightarrow> (nat \<Rightarrow> io) \<Rightarrow> ResultPublisher
    \<Rightarrow> nat \<Rightarrow> PendingResult list \<Rightarrow> publish_state \<Rightarrow> publish_state" where
  "publish_loop limit cancelled client ws p i [] s = s"
| "publish_loop limit cancelled client ws p i (result # results) s =
     (if cancelled i then s\<lparr>pst_cancelled := True\<rparr>
      else publish_loop limit cancelled client ws p (Suc i) results (publish_one limit (client i) (ws i) p result s))"

definition PublishPending :: "nat \<Rightarrow> (nat \<Rightarrow> bool) \<Rightarrow> (nat \<Rightarrow> localapi_request \<Rightarrow> string result) \<Rightarrow> (string \<Rightarrow> io)
    \<Rightarrow> (nat \<Rightarrow> io) \<Rightarrow> string list option \<Rightarrow> ResultPublisher \<Rightarrow> resultRecord fs \<Rightarrow> publish_state result" where
  "PublishPending limit cancelled client wr ws entries p f =
     (case Pending limit wr entries (pub_outbox p) f of Inl e \<Rightarrow> Inl e
      | Inr pending \<Rightarrow> Inr (publish_loop limit cancelled client ws p 0 pending
          \<lparr>pst_summary = \<lparr>sum_Queued = 0, sum_Retained = 0\<rparr>, pst_cancelled = False, pst_errors = [], pst_requests = [],
           pst_files = f\<rparr>))"

end
