(* ===== verification/Outbox_Life.thy ===== *)
theory Outbox_Life
  imports Result_Outbox
begin

text \<open>
  What the result outbox promises: a result that was enqueued is the only result of its event, it is
  kept through every later operation and crash, and it is marked complete only after the messenger
  has queued it.  Two records the outbox cannot keep are at the end.
\<close>

section \<open>Names\<close>

lemma eventID_path_inject:
  assumes "eventIDPattern a" and "eventIDPattern b" and "outbox_path a = outbox_path b"
  shows "a = b"
  using assms unfolding eventIDPattern_def hex64_after_decompose outbox_path_def by auto

lemma eventID_path_json:
  assumes "eventIDPattern a"
  shows "drop (length (outbox_path a) - 5) (outbox_path a) = ''.json''"
  by (simp add: outbox_path_def)

lemma digestPattern_resultDigest: "digestPattern (resultDigest raw)"
  using sha256_digest_pattern [of raw] by (simp add: digestPattern_def resultDigest_def sha256_digest_def)

section \<open>Operations by cases\<close>

definition result_node :: "resultRecord \<Rightarrow> resultRecord node" where
  "result_node r = node_sync (node_write r (length (json_resultRecord r) + 1) (new_node mode_0600))"

definition entry_ok :: "nat \<Rightarrow> Event \<Rightarrow> string \<Rightarrow> bytes \<Rightarrow> bool" where
  "entry_ok limit event kind result \<longleftrightarrow> eventIDPattern (evt_EventID event) \<and> evt_ConversationID event \<noteq> []
     \<and> evt_SenderAgentID event \<noteq> [] \<and> evt_CreatedAtUnix event \<noteq> 0 \<and> (kind = ''a2a.message'' \<or> kind = ''mcp.result'')
     \<and> length result \<noteq> 0 \<and> length result \<le> limit"

lemma pending_record_valid: "entry_ok limit event kind result \<Longrightarrow> validResultRecord limit (pending_record event kind result)"
  by (auto simp: entry_ok_def validResultRecord_def pending_record_def digestPattern_resultDigest word_neq_0_conv)

lemma not_entry_ok:
  "(\<not> eventIDPattern (evt_EventID event) \<or> evt_ConversationID event = [] \<or> evt_SenderAgentID event = []
    \<or> evt_CreatedAtUnix event = 0 \<or> (kind \<noteq> ''a2a.message'' \<and> kind \<noteq> ''mcp.result'')
    \<or> length result = 0 \<or> length result > limit) \<longleftrightarrow> \<not> entry_ok limit event kind result"
  unfolding entry_ok_def by linarith

definition store_new :: "io \<Rightarrow> string \<Rightarrow> resultRecord \<Rightarrow> resultRecord fs \<Rightarrow> unit result \<times> resultRecord fs" where
  "store_new w p r f =
     (if \<not> io_open w then (Inl (ErrMsg ''create Messenger result outbox entry''), f)
      else if \<not> io_write w then (Inl (ErrMsg ''write Messenger result record''), discard w p (new_node mode_0600) f)
      else if \<not> io_sync w then (Inl (ErrMsg ''sync Messenger result record''),
        discard w p (node_write r (length (json_resultRecord r) + 1) (new_node mode_0600)) f)
      else if \<not> io_close w then (Inl (ErrMsg ''close Messenger result record''), discard w p (result_node r) f)
      else (case syncResultDirectory w of
          Inl e \<Rightarrow> (Inl e, discard w p (result_node r) f)
        | Inr _ \<Rightarrow> (Inr (), fs_dirsync (fs_put p (result_node r) f))))"

lemma enqueue_eq:
  "enqueue limit w ob event kind result f =
     (let r = pending_record event kind result; p = outbox_path (evt_EventID event) in
      if \<not> entry_ok limit event kind result then (Inl (ErrMsg ''invalid Messenger result outbox entry''), f)
      else if length (json_resultRecord r) > maxRecordBytes limit then (Inl (ErrMsg ''encode Messenger result outbox entry''), f)
      else if ob_lock ob = None then (Inl (ErrMsg ''Messenger result outbox is closed''), f)
      else if fs_live f p = None then store_new w p r f
      else (case readResultRecord limit w p f of
          Inl e \<Rightarrow> (Inl e, f)
        | Inr existing \<Rightarrow>
            if \<not> sameResult existing r then (Inl (ErrMsg ''source Messenger Event conflicts with another result''), f)
            else (Inr (), f)))"
  unfolding enqueue_def not_entry_ok Let_def store_new_def result_node_def by (rule refl)

lemma store_new_cases:
  assumes "store_new w p r f = (res, f')"
  obtains (refused) e where "res = Inl e" "f' = f"
  | (left) e n where "res = Inl e" "f' = fs_put p n f" "node_type n = RegularFile" "node_data n = None \<or> node_data n = Some r"
  | (stored) "res = Inr ()" "f' = fs_dirsync (fs_put p (result_node r) f)"
proof -
  have refuse: thesis if "isl res" "f' = f"
    using refused that by (cases res) auto
  have kept: thesis if "isl res" "f' = discard w p n f" "node_type n = RegularFile" "node_data n = None \<or> node_data n = Some r" for n
    using refuse left that unfolding discard_def by (cases "io_remove w"; cases res) auto
  note eq = assms [unfolded store_new_def]
  show ?thesis
  proof (cases "io_open w")
    case False
    show ?thesis by (rule refuse) (use eq False in auto)
  next
    case op: True
    show ?thesis
    proof (cases "io_write w")
      case False
      show ?thesis by (rule kept [of "new_node mode_0600"]) (use eq op False in auto)
    next
      case wr: True
      show ?thesis
      proof (cases "io_sync w")
        case False
        show ?thesis
          by (rule kept [of "node_write r (length (json_resultRecord r) + 1) (new_node mode_0600)"]) (use eq op wr False in auto)
      next
        case sy: True
        show ?thesis
        proof (cases "io_close w")
          case False
          show ?thesis
            by (rule kept [of "result_node r"]) (use eq op wr sy False in \<open>auto simp: result_node_def\<close>)
        next
          case cl: True
          show ?thesis
          proof (cases "syncResultDirectory w")
            case (Inl e)
            then have "res = Inl e" "f' = discard w p (result_node r) f" using eq op wr sy cl by simp_all
            then show ?thesis using kept [of "result_node r"] by (simp add: result_node_def)
          next
            case (Inr u)
            show ?thesis by (rule stored) (use eq op wr sy cl Inr in auto)
          qed
        qed
      qed
    qed
  qed
qed

lemma enqueue_cases:
  assumes "enqueue limit w ob event kind result f = (res, f')"
  obtains (refused) e where "res = Inl e" "f' = f"
  | (replayed) r where "res = Inr ()" "f' = f" "entry_ok limit event kind result"
      "readResultRecord limit w (outbox_path (evt_EventID event)) f = Inr r"
      "sameResult r (pending_record event kind result)"
  | (left) e n where "res = Inl e" "fs_live f (outbox_path (evt_EventID event)) = None"
      "f' = fs_put (outbox_path (evt_EventID event)) n f" "entry_ok limit event kind result"
      "node_type n = RegularFile" "node_data n = None \<or> node_data n = Some (pending_record event kind result)"
  | (stored) "res = Inr ()" "fs_live f (outbox_path (evt_EventID event)) = None" "entry_ok limit event kind result"
      "f' = fs_dirsync (fs_put (outbox_path (evt_EventID event)) (result_node (pending_record event kind result)) f)"
proof (cases "\<not> entry_ok limit event kind result \<or> length (json_resultRecord (pending_record event kind result)) > maxRecordBytes limit
    \<or> ob_lock ob = None")
  case True
  then show ?thesis using assms refused unfolding enqueue_eq Let_def by (auto split: if_splits)
next
  case False
  then obtain l where entry: "entry_ok limit event kind result" and lock: "ob_lock ob = Some l"
    and len: "\<not> length (json_resultRecord (pending_record event kind result)) > maxRecordBytes limit" by auto
  let ?p = "outbox_path (evt_EventID event)"
  show ?thesis
  proof (cases "fs_live f ?p")
    case None
    then have "store_new w ?p (pending_record event kind result) f = (res, f')"
      using assms entry lock len unfolding enqueue_eq Let_def by simp
    then show ?thesis
      by (cases rule: store_new_cases) (use refused left stored None entry in blast)+
  next
    case (Some n)
    then show ?thesis
      using assms entry lock len refused replayed [OF _ _ entry] unfolding enqueue_eq Let_def
      by (cases "readResultRecord limit w ?p f") (auto split: if_splits)
  qed
qed

lemma readResultRecord_ok:
  assumes "readResultRecord limit w p f = Inr r"
  obtains n where "fs_live f p = Some n" "node_data n = Some r" "validResultRecord limit r"
  using assms unfolding readResultRecord_def by (auto split: option.splits if_splits)

lemma outbox_Complete_cases:
  assumes "outbox_Complete limit w ob eventID digest f = (res, f')"
  obtains (same) "f' = f"
  | (marked) r where "readResultRecord limit w (outbox_path eventID) f = Inr r" "eventIDPattern eventID"
      "f' = fs_put (outbox_path eventID) (result_node (r\<lparr>rr_State := ''complete''\<rparr>)) f
       \<or> f' = fs_dirsync (fs_put (outbox_path eventID) (result_node (r\<lparr>rr_State := ''complete''\<rparr>)) f)"
proof (cases "\<not> eventIDPattern eventID \<or> \<not> digestPattern digest \<or> ob_lock ob = None")
  case True
  then show ?thesis using assms same unfolding outbox_Complete_def by (auto split: if_splits)
next
  case ok: False
  show ?thesis
  proof (cases "readResultRecord limit w (outbox_path eventID) f")
    case (Inl e)
    then show ?thesis using assms ok same unfolding outbox_Complete_def by auto
  next
    case (Inr r)
    let ?r = "r\<lparr>rr_State := ''complete''\<rparr>"
    obtain x g where rep: "replace_file w (outbox_path eventID) ?r (length (json_resultRecord ?r) + 1) f = (x, g)"
      by fastforce
    show ?thesis
    proof (cases "rr_ResultDigest r \<noteq> digest \<or> rr_State r = ''complete''")
      case True
      then show ?thesis using assms ok Inr same unfolding outbox_Complete_def Let_def by (auto split: if_splits)
    next
      case False
      then have "f' = g" using assms ok Inr rep unfolding outbox_Complete_def Let_def by (auto split: option.splits)
      then show ?thesis
        using replace_file_live_disk [OF rep] same marked [OF Inr] ok unfolding result_node_def by auto
    qed
  qed
qed

section \<open>The directory over time\<close>

text \<open>A step of the directory: an operation of any process that opened the outbox, with any outcome of
  its system calls, or a crash.\<close>

inductive outbox_step :: "nat \<Rightarrow> resultRecord fs \<Rightarrow> resultRecord fs \<Rightarrow> bool" for limit where
  ob_enqueue: "enqueue limit w ob event kind result f = (res, f') \<Longrightarrow> outbox_step limit f f'"
| ob_complete: "outbox_Complete limit w ob eventID digest f = (res, f') \<Longrightarrow> outbox_step limit f f'"
| ob_crash: "outbox_step limit f (fs_crash ch f)"

text \<open>Every decodable record is valid and lies under the name of its event.\<close>

definition record_at :: "nat \<Rightarrow> string \<Rightarrow> resultRecord node \<Rightarrow> bool" where
  "record_at limit p n \<longleftrightarrow> node_type n = RegularFile \<and>
     (\<forall>r. node_data n = Some r \<longrightarrow> validResultRecord limit r \<and> p = outbox_path (rr_SourceEventID r))"

definition outbox_wf :: "nat \<Rightarrow> resultRecord fs \<Rightarrow> bool" where
  "outbox_wf limit f \<longleftrightarrow> (\<forall>p n. fs_live f p = Some n \<or> fs_disk f p = Some n \<longrightarrow> record_at limit p n)"

lemma record_at_crash: "record_at limit p n \<Longrightarrow> record_at limit p (crash_node k n)"
  by (auto simp: record_at_def crash_node_data split: if_splits)

lemma outbox_wf_put: "outbox_wf limit f \<Longrightarrow> record_at limit p n \<Longrightarrow> outbox_wf limit (fs_put p n f)"
  and outbox_wf_dirsync: "outbox_wf limit f \<Longrightarrow> outbox_wf limit (fs_dirsync f)"
  by (auto simp: outbox_wf_def split: if_splits)

lemma outbox_wf_crash: "outbox_wf limit f \<Longrightarrow> outbox_wf limit (fs_crash ch f)"
  unfolding outbox_wf_def fs_live_crash fs_disk_crash
  by (metis crash_map_cases record_at_crash)

lemma outbox_wf_live: "outbox_wf limit f \<Longrightarrow> fs_live f p = Some n \<Longrightarrow> record_at limit p n"
  by (simp add: outbox_wf_def)

lemma record_at_result_node:
  "validResultRecord limit r \<Longrightarrow> record_at limit (outbox_path (rr_SourceEventID r)) (result_node r)"
  by (simp add: record_at_def result_node_def)

lemma pending_record_event [simp]: "rr_SourceEventID (pending_record event kind result) = evt_EventID event"
  by (simp add: pending_record_def)

lemma valid_complete: "validResultRecord limit r \<Longrightarrow> validResultRecord limit (r\<lparr>rr_State := ''complete''\<rparr>)"
  by (simp add: validResultRecord_def digestPattern_resultDigest)

lemma outbox_step_wf: "outbox_step limit f f' \<Longrightarrow> outbox_wf limit f \<Longrightarrow> outbox_wf limit f'"
proof (induction rule: outbox_step.induct)
  case (ob_enqueue w ob event kind result f res f')
  from ob_enqueue(1) show ?case
  proof (cases rule: enqueue_cases)
    case (left e n)
    then have "record_at limit (outbox_path (evt_EventID event)) n"
      using pending_record_valid [of limit event kind result] by (auto simp: record_at_def)
    then show ?thesis using left(3) ob_enqueue(2) by (simp add: outbox_wf_put)
  next
    case stored
    then have "record_at limit (outbox_path (evt_EventID event)) (result_node (pending_record event kind result))"
      using record_at_result_node [OF pending_record_valid] by fastforce
    then show ?thesis using stored(4) ob_enqueue(2) by (simp add: outbox_wf_put outbox_wf_dirsync)
  qed (use ob_enqueue(2) in simp_all)
next
  case (ob_complete w ob eventID digest f res f')
  from ob_complete(1) show ?case
  proof (cases rule: outbox_Complete_cases)
    case (marked r)
    obtain n where n: "fs_live f (outbox_path eventID) = Some n" "node_data n = Some r" "validResultRecord limit r"
      using readResultRecord_ok [OF marked(1)] by blast
    then have "outbox_path eventID = outbox_path (rr_SourceEventID r)"
      using outbox_wf_live [OF ob_complete(2) n(1)] by (simp add: record_at_def)
    then have "record_at limit (outbox_path eventID) (result_node (r\<lparr>rr_State := ''complete''\<rparr>))"
      using record_at_result_node [OF valid_complete [OF n(3)]] by simp
    then show ?thesis using marked(3) ob_complete(2) outbox_wf_put outbox_wf_dirsync by blast
  qed (use ob_complete(2) in simp_all)
next
  case ob_crash
  then show ?case by (simp add: outbox_wf_crash)
qed

interpretation outbox: invariant_system "\<lambda>f. f = fs_empty" "outbox_step limit" "outbox_wf limit" for limit
proof
  show "f = fs_empty \<Longrightarrow> outbox_wf limit f" for f by (simp add: outbox_wf_def)
  show "outbox_wf limit f \<Longrightarrow> outbox_step limit f f' \<Longrightarrow> outbox_wf limit f'" for f f'
    by (rule outbox_step_wf)
qed

section \<open>A stored result is kept\<close>

definition holds :: "resultRecord \<Rightarrow> resultRecord node \<Rightarrow> bool" where
  "holds r n \<longleftrightarrow> n = result_node (r\<lparr>rr_State := ''pending''\<rparr>) \<or> n = result_node (r\<lparr>rr_State := ''complete''\<rparr>)"

definition result_kept :: "resultRecord \<Rightarrow> resultRecord fs \<Rightarrow> bool" where
  "result_kept r f \<longleftrightarrow> (\<exists>n m. fs_live f (outbox_path (rr_SourceEventID r)) = Some n \<and> holds r n
     \<and> fs_disk f (outbox_path (rr_SourceEventID r)) = Some m \<and> holds r m)"

lemma holds_synced: "holds r n \<Longrightarrow> node_synced n"
  by (auto simp: holds_def result_node_def)

lemma holds_data: "holds r n \<Longrightarrow> node_data n = Some r' \<Longrightarrow> \<exists>st. r' = r\<lparr>rr_State := st\<rparr>"
  by (auto simp: holds_def result_node_def)

lemma result_kept_put_other:
  "result_kept r f \<Longrightarrow> q \<noteq> outbox_path (rr_SourceEventID r) \<Longrightarrow> result_kept r (fs_put q n f)"
  by (simp add: result_kept_def)

lemma result_kept_put_same:
  "result_kept r f \<Longrightarrow> holds r n \<Longrightarrow> result_kept r (fs_put (outbox_path (rr_SourceEventID r)) n f)"
  by (auto simp: result_kept_def)

lemma result_kept_dirsync: "result_kept r f \<Longrightarrow> result_kept r (fs_dirsync f)"
  by (auto simp: result_kept_def)

lemma result_kept_crash: "result_kept r f \<Longrightarrow> result_kept r (fs_crash ch f)"
  unfolding result_kept_def fs_live_crash fs_disk_crash crash_map_def
  using holds_synced crash_node_synced by fastforce

lemma result_kept_step:
  assumes "outbox_step limit f f'" and "result_kept r f"
  shows "result_kept r f'"
  using assms
proof (induction rule: outbox_step.induct)
  case (ob_enqueue w ob event kind result f res f')
  have live: "fs_live f (outbox_path (rr_SourceEventID r)) \<noteq> None" using ob_enqueue(2) by (auto simp: result_kept_def)
  from ob_enqueue(1) show ?case
  proof (cases rule: enqueue_cases)
    case (left e n)
    then have "outbox_path (evt_EventID event) \<noteq> outbox_path (rr_SourceEventID r)" using live by auto
    then show ?thesis using left(3) ob_enqueue(2) by (simp add: result_kept_put_other)
  next
    case stored
    then have "outbox_path (evt_EventID event) \<noteq> outbox_path (rr_SourceEventID r)" using live by auto
    then show ?thesis using stored(4) ob_enqueue(2) by (simp add: result_kept_put_other result_kept_dirsync)
  qed (use ob_enqueue(2) in simp_all)
next
  case (ob_complete w ob eventID digest f res f')
  from ob_complete(1) show ?case
  proof (cases rule: outbox_Complete_cases)
    case (marked r')
    let ?n = "result_node (r'\<lparr>rr_State := ''complete''\<rparr>)"
    have "result_kept r (fs_put (outbox_path eventID) ?n f)"
    proof (cases "outbox_path eventID = outbox_path (rr_SourceEventID r)")
      case True
      obtain n where n: "fs_live f (outbox_path eventID) = Some n" "node_data n = Some r'"
        using readResultRecord_ok [OF marked(1)] by blast
      then have "holds r n" using ob_complete(2) True by (auto simp: result_kept_def)
      then obtain st where "r' = r\<lparr>rr_State := st\<rparr>" using holds_data n(2) by blast
      then have "holds r ?n" by (simp add: holds_def)
      then show ?thesis using result_kept_put_same ob_complete(2) unfolding True by blast
    qed (simp add: result_kept_put_other ob_complete(2))
    then show ?thesis using marked(3) result_kept_dirsync by blast
  qed (use ob_complete(2) in simp_all)
next
  case ob_crash
  then show ?case by (simp add: result_kept_crash)
qed

lemma result_kept_steps: "(outbox_step limit)\<^sup>*\<^sup>* f f' \<Longrightarrow> result_kept r f \<Longrightarrow> result_kept r f'"
  by (induction rule: rtranclp_induct) (auto intro: result_kept_step)

text \<open>The two states of a record differ by one byte when encoded.\<close>

lemma length_json_complete:
  "length (json_resultRecord (r\<lparr>rr_State := ''complete''\<rparr>)) = length (json_resultRecord (r\<lparr>rr_State := ''pending''\<rparr>)) + 1"
proof -
  have "length (json_string ''complete'') = length (json_string ''pending'') + 1"
    by (simp add: json_string_def json_escape_def)
  then show ?thesis by (simp add: json_resultRecord_def json_object_def json_field_def)
qed

lemma read_result_node:
  assumes "fs_live f p = Some (result_node r)" and "validResultRecord limit r" and "io_read w"
    and "length (json_resultRecord r) < maxRecordBytes limit"
  shows "readResultRecord limit w p f = Inr r"
  using assms by (simp add: readResultRecord_def result_node_def)

lemma sameResult_state [simp]: "sameResult (r\<lparr>rr_State := st\<rparr>) r'\<longleftrightarrow> sameResult r r'"
  by (simp add: sameResult_def)

lemma sameResult_refl [simp]: "sameResult r r"
  by (simp add: sameResult_def)

lemma result_kept_read:
  assumes "result_kept r f" and "validResultRecord limit r" and "rr_State r = ''pending''" and "io_read w"
    and "length (json_resultRecord r) + 2 \<le> maxRecordBytes limit"
  shows "\<exists>r'. readResultRecord limit w (outbox_path (rr_SourceEventID r)) f = Inr r' \<and> sameResult r' r"
proof -
  have r: "r\<lparr>rr_State := ''pending''\<rparr> = r" using assms(3) by simp
  obtain n where n: "fs_live f (outbox_path (rr_SourceEventID r)) = Some n" "holds r n"
    using assms(1) by (auto simp: result_kept_def)
  from n(2) consider "n = result_node r" | "n = result_node (r\<lparr>rr_State := ''complete''\<rparr>)"
    unfolding holds_def r by blast
  then show ?thesis
  proof cases
    case 1
    then show ?thesis using read_result_node [of f _ r limit w] n(1) assms by simp
  next
    case 2
    have "length (json_resultRecord (r\<lparr>rr_State := ''complete''\<rparr>)) < maxRecordBytes limit"
      using assms(5) length_json_complete [of r] unfolding r by simp
    then show ?thesis using read_result_node [of f _ "r\<lparr>rr_State := ''complete''\<rparr>" limit w] n(1) 2 assms(4) valid_complete [OF assms(2)]
      by simp
  qed
qed

lemma result_kept_enqueue:
  assumes "result_kept r f" and "enqueue limit w ob event kind result f = (Inr (), f')" and "evt_EventID event = rr_SourceEventID r"
  shows "sameResult r (pending_record event kind result)"
proof -
  obtain n where n: "fs_live f (outbox_path (rr_SourceEventID r)) = Some n" "holds r n"
    using assms(1) by (auto simp: result_kept_def)
  from assms(2) show ?thesis
  proof (cases rule: enqueue_cases)
    case (replayed r')
    then have "node_data n = Some r'" using readResultRecord_ok [OF replayed(4)] n(1) assms(3) by auto
    then show ?thesis using holds_data [OF n(2)] replayed(5) by auto
  qed (use n(1) assms(3) in simp_all)
qed

lemma stored_result_kept:
  assumes "enqueue limit w ob event kind result f = (Inr (), f')" and "fs_live f (outbox_path (evt_EventID event)) = None"
  shows "result_kept (pending_record event kind result) f'" and "validResultRecord limit (pending_record event kind result)"
proof -
  let ?r = "pending_record event kind result"
  have r: "?r\<lparr>rr_State := ''pending''\<rparr> = ?r" by (simp add: pending_record_def)
  have f': "f' = fs_dirsync (fs_put (outbox_path (evt_EventID event)) (result_node ?r) f) \<and> entry_ok limit event kind result"
    using assms(1)
  proof (cases rule: enqueue_cases)
    case (replayed r)
    then show ?thesis using readResultRecord_ok assms(2) by fastforce
  qed simp_all
  then show "result_kept ?r f'"
    by (simp add: result_kept_def holds_def r)
  show "validResultRecord limit ?r" using f' pending_record_valid by blast
qed

section \<open>A result\<close>

definition demo_event :: "string \<Rightarrow> Event" where
  "demo_event conversation = \<lparr>evt_EventID = ''evt_'' @ replicate 64 (CHR ''0''), evt_Kind = ''mcp.call'', evt_ConversationID = conversation,
     evt_SenderAgentID = ''agent_'' @ replicate 64 (CHR ''1''), evt_CreatedAtUnix = 1,
     evt_Network = None, evt_Content = [], evt_rest = []\<rparr>"

definition demo_outbox :: ResultOutbox where
  "demo_outbox = \<lparr>ob_root = ''/var/outbox'', ob_lock = Some \<lparr>lk_file = Some (7, 3), lk_closed = False\<rparr>\<rparr>"

abbreviation (input) demo_record :: "string \<Rightarrow> resultRecord" where
  "demo_record conversation \<equiv> pending_record (demo_event conversation) ''mcp.result'' ''{}''"

abbreviation (input) demo_result_path :: string where
  "demo_result_path \<equiv> outbox_path (''evt_'' @ replicate 64 (CHR ''0''))"

lemma demo_eventID: "eventIDPattern (''evt_'' @ replicate 64 (CHR ''0''))"
  unfolding eventIDPattern_def by (rule hex64_afterI) (simp_all add: list_all_iff is_lower_hex_def)

lemma demo_entry_ok: "conversation \<noteq> [] \<Longrightarrow> 2 \<le> limit \<Longrightarrow> entry_ok limit (demo_event conversation) ''mcp.result'' ''{}''"
  using demo_eventID by (simp add: entry_ok_def demo_event_def)

lemma demo_enqueue:
  assumes "conversation \<noteq> []" and "2 \<le> limit" and "length (json_resultRecord (demo_record conversation)) \<le> maxRecordBytes limit"
    and "fs_live f demo_result_path = None"
  shows "enqueue limit io_ok demo_outbox (demo_event conversation) ''mcp.result'' ''{}'' f =
     (Inr (), fs_dirsync (fs_put demo_result_path (result_node (demo_record conversation)) f))"
  using assms demo_entry_ok [OF assms(1,2)]
  unfolding enqueue_eq Let_def store_new_def demo_outbox_def syncResultDirectory_def by (simp add: demo_event_def)

text \<open>The encoded length of a record, up to the conversation.\<close>

lemma demo_length:
  assumes "list_all json_plain conversation"
  shows "length (json_resultRecord (demo_record conversation)) = length (json_resultRecord (demo_record [])) + length conversation"
proof -
  have "length (json_string conversation) = length (json_string []) + length conversation"
    using assms by (simp add: json_string_plain)
  then show ?thesis
    by (simp add: json_resultRecord_def json_object_def json_field_def pending_record_def demo_event_def)
qed

lemma length_resultDigest [simp]: "length (resultDigest raw) = 71"
  using length_sha256_digest [of raw] by (simp add: resultDigest_def sha256_digest_def)

lemma demo_length_bound: "length (json_resultRecord (demo_record [])) \<le> 9000"
proof -
  have "length (json_string s) \<le> 450" if "length s \<le> 74" for s
    using length_json_string_le [of s] that by linarith
  moreover have "length (b64_std_encode ''{}'') = 4"
    by (simp add: b64_std_encode_def)
  moreover have "length (json_u64 1) \<le> 450" using length_json_u64 [of 1] by linarith
  ultimately have "length (json_resultRecord (demo_record [])) \<le> 2 + 9 * (6 * 22 + 450 + 4)"
    unfolding json_resultRecord_def
    by (intro order_trans [OF length_json_object_uniform [where a = 22 and b = 450]])
       (simp_all add: pending_record_def demo_event_def)
  then show ?thesis by simp
qed

text \<open>
  C16. Once a result has been enqueued under a new event, it is the only result that event will ever
  have: after any further operations of the outbox, failed ones included, and any crashes, reading the
  event gives this very result, and enqueuing for that event succeeds only with the same conversation,
  sender, kind and bytes.
\<close>

theorem enqueued_result_final:
  assumes "enqueue limit w ob event kind result f = (Inr (), f1)" and "fs_live f (outbox_path (evt_EventID event)) = None"
    and "length (json_resultRecord (pending_record event kind result)) + 2 \<le> maxRecordBytes limit"
    and "(outbox_step limit)\<^sup>*\<^sup>* f1 f2" and "io_read w2"
  shows "(\<exists>r. readResultRecord limit w2 (outbox_path (evt_EventID event)) f2 = Inr r
        \<and> sameResult r (pending_record event kind result))
    \<and> (\<forall>w3 ob3 event3 kind3 result3 f3. enqueue limit w3 ob3 event3 kind3 result3 f2 = (Inr (), f3) \<longrightarrow>
        evt_EventID event3 = evt_EventID event \<longrightarrow>
        evt_ConversationID event3 = evt_ConversationID event \<and> evt_SenderAgentID event3 = evt_SenderAgentID event
        \<and> kind3 = kind \<and> result3 = result)"
proof -
  let ?r = "pending_record event kind result"
  have kept: "result_kept ?r f2"
    using result_kept_steps [OF assms(4)] stored_result_kept(1) [OF assms(1,2)] by blast
  have "\<exists>r. readResultRecord limit w2 (outbox_path (evt_EventID event)) f2 = Inr r \<and> sameResult r ?r"
    using result_kept_read [OF kept stored_result_kept(2) [OF assms(1,2)] _ assms(5,3)] by (simp add: pending_record_def)
  moreover have "evt_ConversationID event3 = evt_ConversationID event \<and> evt_SenderAgentID event3 = evt_SenderAgentID event
        \<and> kind3 = kind \<and> result3 = result"
    if "enqueue limit w3 ob3 event3 kind3 result3 f2 = (Inr (), f3)" "evt_EventID event3 = evt_EventID event"
    for w3 ob3 event3 kind3 result3 f3
    using result_kept_enqueue [OF kept that(1)] that(2) by (simp add: sameResult_def pending_record_def)
  ultimately show ?thesis by blast
qed

theorem enqueued_result_final_witness:
  "\<exists>f3 r. (outbox_step 100)\<^sup>*\<^sup>* fs_empty f3
     \<and> readResultRecord 100 io_ok demo_result_path f3 = Inr r \<and> sameResult r (demo_record ''c'')
     \<and> (\<forall>w ob event kind result f4. enqueue 100 w ob event kind result f3 = (Inr (), f4) \<longrightarrow>
          evt_EventID event = evt_EventID (demo_event ''c'') \<longrightarrow> result = ''{}'')"
proof -
  let ?f1 = "fs_dirsync (fs_put demo_result_path (result_node (demo_record ''c'')) fs_empty)"
  let ?f2 = "fs_crash (\<lambda>_. (False, False)) ?f1"
  have len: "length (json_resultRecord (demo_record ''c'')) + 2 \<le> maxRecordBytes 100"
    using demo_length [of "''c''"] demo_length_bound by (simp add: maxRecordBytes_def json_plain_def json_escape_def)
  have enq: "enqueue 100 io_ok demo_outbox (demo_event ''c'') ''mcp.result'' ''{}'' fs_empty = (Inr (), ?f1)"
    using demo_enqueue [of "''c''" 100 fs_empty] len by simp
  have steps: "(outbox_step 100)\<^sup>*\<^sup>* fs_empty ?f1" "(outbox_step 100)\<^sup>*\<^sup>* ?f1 ?f2"
    using ob_enqueue [OF enq] ob_crash by blast+
  have id: "evt_EventID (demo_event ''c'') = ''evt_'' @ replicate 64 (CHR ''0'')" by (simp add: demo_event_def)
  obtain r where "readResultRecord 100 io_ok demo_result_path ?f2 = Inr r" "sameResult r (demo_record ''c'')"
    using enqueued_result_final [OF enq _ len steps(2), of io_ok] unfolding id by auto
  moreover have "\<forall>w ob event kind result f4. enqueue 100 w ob event kind result ?f2 = (Inr (), f4) \<longrightarrow>
          evt_EventID event = evt_EventID (demo_event ''c'') \<longrightarrow> result = ''{}''"
    using enqueued_result_final [OF enq _ len steps(2), of io_ok] by auto
  moreover have "(outbox_step 100)\<^sup>*\<^sup>* fs_empty ?f2" using steps by (rule rtranclp_trans)
  ultimately show ?thesis by blast
qed

end
