(* ===== verification/Outbox_Publish.thy ===== *)
theory Outbox_Publish
  imports Outbox_Life
begin

text \<open>
  The publisher over the outbox: a pending record is marked complete only when the messenger has
  answered with the identifier of the event it queued for exactly that record, and a run in which the
  messenger answers leaves nothing pending.
\<close>

section \<open>What Pending returns\<close>

definition listed :: "resultRecord fs \<Rightarrow> string \<Rightarrow> bool" where
  "listed f name \<longleftrightarrow> \<not> (map_option node_type (fs_live f name) = Some DirectoryFile \<or> drop (length name - 5) name \<noteq> ''.json'')"

lemma read_pending_Cons:
  "read_pending limit ws f (name # names) =
     (if \<not> listed f name then read_pending limit ws f names
      else case readResultRecord limit (ws name) name f of Inl e \<Rightarrow> Inl e
      | Inr r \<Rightarrow>
          (case read_pending limit ws f names of Inl e \<Rightarrow> Inl e
           | Inr rest \<Rightarrow> Inr (if rr_State r \<noteq> ''pending'' then rest else pendingResult r # rest)))"
  unfolding read_pending.simps listed_def not_not by (rule refl)

lemma read_pending_Cons_cases:
  assumes "read_pending limit ws f (name # names) = Inr rs"
  obtains (skipped) "\<not> listed f name" "read_pending limit ws f names = Inr rs"
  | (taken) r rest where "listed f name" "readResultRecord limit (ws name) name f = Inr r"
      "read_pending limit ws f names = Inr rest" "rs = (if rr_State r \<noteq> ''pending'' then rest else pendingResult r # rest)"
  using assms unfolding read_pending_Cons
  by (cases "listed f name"; cases "readResultRecord limit (ws name) name f"; cases "read_pending limit ws f names")
    simp_all

lemma read_pending_sound:
  assumes "read_pending limit ws f names = Inr rs" and "result \<in> set rs"
  shows "\<exists>name n r. name \<in> set names \<and> fs_live f name = Some n \<and> node_data n = Some r \<and> validResultRecord limit r
     \<and> rr_State r = ''pending'' \<and> result = pendingResult r"
  using assms
proof (induction names arbitrary: rs)
  case (Cons name names)
  from Cons.prems(1) show ?case
  proof (cases rule: read_pending_Cons_cases)
    case skipped
    then show ?thesis using Cons.IH Cons.prems(2) by fastforce
  next
    case r: (taken r rest)
    show ?thesis
    proof (cases "result \<in> set rest")
      case True
      then show ?thesis using Cons.IH [OF r(3)] by fastforce
    next
      case False
      then have "rr_State r = ''pending''" "result = pendingResult r" using r(4) Cons.prems(2) by (auto split: if_splits)
      then show ?thesis using readResultRecord_ok [OF r(2)] by (metis list.set_intros(1))
    qed
  qed
qed simp

lemma Pending_sound:
  assumes "Pending limit ws (Some names) ob f = Inr rs" and "result \<in> set rs"
  shows "\<exists>name n r. name \<in> set names \<and> fs_live f name = Some n \<and> node_data n = Some r \<and> validResultRecord limit r
     \<and> rr_State r = ''pending'' \<and> result = pendingResult r"
  using assms read_pending_sound by (auto simp: Pending_def split: if_splits sum.splits)

lemma outbox_Complete_live:
  assumes "outbox_Complete limit w ob eventID digest f = (res, f')" and "q \<noteq> outbox_path eventID"
  shows "fs_live f' q = fs_live f q"
  using assms(1) by (cases rule: outbox_Complete_cases) (use assms(2) in auto)

section \<open>One round of publishing\<close>

text \<open>The messenger has queued an event for the record.\<close>

definition acknowledged :: "(nat \<Rightarrow> localapi_request \<Rightarrow> string result) \<Rightarrow> ResultPublisher \<Rightarrow> publish_state \<Rightarrow> resultRecord \<Rightarrow> bool" where
  "acknowledged client p s r \<longleftrightarrow> (\<exists>i route id. pub_routes p (rr_SenderAgentID r) = Some route
     \<and> client i (result_request p route (pendingResult r)) = Inr id \<and> id \<noteq> []
     \<and> result_request p route (pendingResult r) \<in> set (pst_requests s))"

lemma publish_one_requests: "set (pst_requests s) \<subseteq> set (pst_requests (publish_one limit client w p result s))"
  by (auto simp: publish_one_def retain_def Let_def split: option.splits sum.splits prod.splits)

lemma publish_one_cases:
  obtains (untouched) "pst_files (publish_one limit client w p result s) = pst_files s"
  | (queued) route id res f where "pub_routes p (pr_SenderAgentID result) = Some route"
      "client (result_request p route result) = Inr id" "id \<noteq> []"
      "result_request p route result \<in> set (pst_requests (publish_one limit client w p result s))"
      "outbox_Complete limit w (pub_outbox p) (pr_SourceEventID result) (pr_ResultDigest result) (pst_files s) = (res, f)"
      "pst_files (publish_one limit client w p result s) = f"
proof (cases "pub_routes p (pr_SenderAgentID result)")
  case None
  then show ?thesis using untouched by (simp add: publish_one_def retain_def)
next
  case (Some route)
  show ?thesis
  proof (cases "client (result_request p route result)")
    case (Inl e)
    then show ?thesis using untouched Some by (simp add: publish_one_def retain_def Let_def)
  next
    case (Inr id)
    obtain res f where c: "outbox_Complete limit w (pub_outbox p) (pr_SourceEventID result) (pr_ResultDigest result) (pst_files s) = (res, f)"
      by fastforce
    show ?thesis
    proof (cases "id = []")
      case True
      then show ?thesis using untouched Some Inr by (simp add: publish_one_def retain_def Let_def)
    next
      case False
      show ?thesis
        by (rule queued [OF Some Inr False _ c])
          (use Some Inr False c in \<open>simp_all add: publish_one_def retain_def Let_def split: sum.splits\<close>)
    qed
  qed
qed

definition touched_only_if_acknowledged ::
    "(nat \<Rightarrow> localapi_request \<Rightarrow> string result) \<Rightarrow> ResultPublisher \<Rightarrow> resultRecord fs \<Rightarrow> publish_state \<Rightarrow> bool" where
  "touched_only_if_acknowledged client p f s \<longleftrightarrow> (\<forall>name n r. fs_live f name = Some n \<longrightarrow> node_data n = Some r \<longrightarrow>
     fs_live (pst_files s) name = Some n \<or> acknowledged client p s r)"

lemma publish_one_touched:
  assumes "touched_only_if_acknowledged client p f s" and "outbox_wf limit f"
    and "fs_live f name0 = Some n0" "node_data n0 = Some r0"
  shows "touched_only_if_acknowledged client p f (publish_one limit (client i) w p (pendingResult r0) s)"
proof -
  let ?s = "publish_one limit (client i) w p (pendingResult r0) s"
  have at: "name0 = outbox_path (rr_SourceEventID r0)"
    using outbox_wf_live [OF assms(2,3)] assms(4) by (simp add: record_at_def)
  have mono: "acknowledged client p s r \<Longrightarrow> acknowledged client p ?s r" for r
    unfolding acknowledged_def using publish_one_requests by blast
  have "fs_live (pst_files ?s) name = Some n \<or> acknowledged client p ?s r"
    if n: "fs_live f name = Some n" "node_data n = Some r" for name n r
  proof (cases rule: publish_one_cases [of limit "client i" w p "pendingResult r0" s])
    case untouched
    then show ?thesis using assms(1) n mono unfolding touched_only_if_acknowledged_def by metis
  next
    case (queued route id res f')
    show ?thesis
    proof (cases "name = name0")
      case True
      then have "r = r0" using n assms(3,4) by simp
      then show ?thesis using queued(1-4) unfolding acknowledged_def by (auto simp: pendingResult_def)
    next
      case False
      then have "fs_live (pst_files ?s) name = fs_live (pst_files s) name"
        using outbox_Complete_live [OF queued(5)] queued(6) at by (simp add: pendingResult_def)
      then show ?thesis using assms(1) n mono unfolding touched_only_if_acknowledged_def by metis
    qed
  qed
  then show ?thesis unfolding touched_only_if_acknowledged_def by blast
qed

lemma publish_loop_touched:
  assumes "outbox_wf limit f" and "touched_only_if_acknowledged client p f s"
    and "\<forall>result \<in> set results. \<exists>name n r. fs_live f name = Some n \<and> node_data n = Some r \<and> result = pendingResult r"
  shows "touched_only_if_acknowledged client p f (publish_loop limit cancelled client ws p i results s)"
  using assms(2,3)
proof (induction results arbitrary: i s)
  case (Cons result results)
  obtain name n r where "fs_live f name = Some n" "node_data n = Some r" "result = pendingResult r"
    using Cons.prems(2) by auto
  then have "touched_only_if_acknowledged client p f (publish_one limit (client i) (ws i) p result s)"
    using publish_one_touched [OF Cons.prems(1) assms(1)] by blast
  moreover have "touched_only_if_acknowledged client p f (s\<lparr>pst_cancelled := True\<rparr>)"
    using Cons.prems(1) by (simp add: touched_only_if_acknowledged_def acknowledged_def)
  ultimately show ?case using Cons.IH Cons.prems(2) by simp
qed simp

text \<open>
  C22. A stored result is never dropped by the publisher.  In every state the outbox can reach, crashes
  included, a round of publishing leaves each record's file exactly as it was unless the messenger was
  sent a request carrying that record's bytes, conversation and source event, to the route of its
  sender, and answered with the identifier of the event it queued.
\<close>

theorem complete_only_after_queued:
  assumes "reach (\<lambda>f. f = fs_empty) (outbox_step limit) f"
    and "PublishPending limit cancelled client wr ws entries p f = Inr s"
    and "fs_live f name = Some n" "node_data n = Some r" "fs_live (pst_files s) name \<noteq> Some n"
  shows "\<exists>i route id request. pub_routes p (rr_SenderAgentID r) = Some route \<and> request \<in> set (pst_requests s)
     \<and> client i request = Inr id \<and> id \<noteq> []
     \<and> lr_ProtocolBody request = rr_ResultJSON r \<and> lr_ProtocolKind request = rr_ResultKind r
     \<and> lr_ConversationID request = rr_ConversationID r \<and> lr_ReplyToEventID request = rr_SourceEventID r
     \<and> lr_SessionID request = rt_SessionID route \<and> lr_RecipientEndpointID request = rt_RecipientEndpointID route"
proof -
  have wf: "outbox_wf limit f" using assms(1) by (rule outbox.reach_inv)
  let ?init = "\<lparr>pst_summary = \<lparr>sum_Queued = 0, sum_Retained = 0\<rparr>, pst_cancelled = False, pst_errors = [], pst_requests = [], pst_files = f\<rparr>"
  obtain pending where pending: "Pending limit wr entries (pub_outbox p) f = Inr pending"
    "s = publish_loop limit cancelled client ws p 0 pending ?init"
    using assms(2) by (auto simp: PublishPending_def split: sum.splits)
  obtain names where names: "entries = Some names"
    using pending(1) by (auto simp: Pending_def split: if_splits option.splits)
  have start: "touched_only_if_acknowledged client p f ?init" by (simp add: touched_only_if_acknowledged_def)
  have "\<forall>result \<in> set pending. \<exists>name n r. fs_live f name = Some n \<and> node_data n = Some r \<and> result = pendingResult r"
    using Pending_sound pending(1) unfolding names by blast
  from publish_loop_touched [OF wf start this] have "touched_only_if_acknowledged client p f s"
    using pending(2) by simp
  then have "acknowledged client p s r"
    using assms(3-5) unfolding touched_only_if_acknowledged_def by blast
  then obtain i route id where "pub_routes p (rr_SenderAgentID r) = Some route"
    "client i (result_request p route (pendingResult r)) = Inr id" "id \<noteq> []"
    "result_request p route (pendingResult r) \<in> set (pst_requests s)"
    unfolding acknowledged_def by blast
  then show ?thesis
    by (intro exI [of _ i] exI [of _ route] exI [of _ id] exI [of _ "result_request p route (pendingResult r)"])
       (simp add: result_request_def pendingResult_def)
qed

section \<open>A round in which the messenger answers\<close>

text \<open>The directory after the results in \<open>R\<close> have been marked complete.\<close>

definition mark :: "PendingResult set \<Rightarrow> resultRecord node \<Rightarrow> resultRecord node" where
  "mark R n = (case node_data n of None \<Rightarrow> n
     | Some r \<Rightarrow> if rr_State r = ''pending'' \<and> pendingResult r \<in> R then result_node (r\<lparr>rr_State := ''complete''\<rparr>) else n)"

definition marked_files :: "PendingResult set \<Rightarrow> resultRecord fs \<Rightarrow> resultRecord fs \<Rightarrow> bool" where
  "marked_files R f g \<longleftrightarrow> fs_live g = (\<lambda>q. map_option (mark R) (fs_live f q))"

definition pending_at :: "nat \<Rightarrow> resultRecord fs \<Rightarrow> PendingResult \<Rightarrow> string \<Rightarrow> resultRecord \<Rightarrow> bool" where
  "pending_at limit f result name r \<longleftrightarrow> readResultRecord limit io_ok name f = Inr r \<and> rr_State r = ''pending''
     \<and> result = pendingResult r"

lemma readResultRecord_cong:
  "fs_live f p = fs_live g p \<Longrightarrow> io_read w = io_read v \<Longrightarrow> readResultRecord limit w p f = readResultRecord limit v p g"
  by (cases "fs_live g p") (simp_all add: readResultRecord_def)

lemma readResultRecord_io: "readResultRecord limit w p f = Inr r \<Longrightarrow> io_read w"
  by (auto simp: readResultRecord_def split: option.splits if_splits)

lemma readResultRecord_io_ok: "readResultRecord limit w p f = Inr r \<Longrightarrow> readResultRecord limit io_ok p f = Inr r"
  using readResultRecord_cong [of f p f w io_ok limit] readResultRecord_io [of limit w p f r] by simp

lemma pending_at_name:
  assumes "outbox_wf limit f" and "pending_at limit f result name r"
  shows "name = outbox_path (pr_SourceEventID result)" and "eventIDPattern (pr_SourceEventID result)"
    and "digestPattern (pr_ResultDigest result)"
proof -
  obtain n where "fs_live f name = Some n" "node_data n = Some r" "validResultRecord limit r"
    using assms(2) readResultRecord_ok unfolding pending_at_def by blast
  then have "record_at limit name n" using assms(1) outbox_wf_live by blast
  then show "name = outbox_path (pr_SourceEventID result)" "eventIDPattern (pr_SourceEventID result)" "digestPattern (pr_ResultDigest result)"
    using \<open>node_data n = Some r\<close> assms(2) by (auto simp: record_at_def pending_at_def pendingResult_def validResultRecord_def)
qed

lemma read_pending_at:
  assumes "read_pending limit ws f names = Inr rs" and "result \<in> set rs"
  shows "\<exists>name r. name \<in> set names \<and> pending_at limit f result name r"
  using assms
proof (induction names arbitrary: rs)
  case (Cons name names)
  from Cons.prems(1) show ?case
  proof (cases rule: read_pending_Cons_cases)
    case skipped
    then show ?thesis using Cons.IH Cons.prems(2) by fastforce
  next
    case r: (taken r rest)
    show ?thesis
    proof (cases "result \<in> set rest")
      case True
      then show ?thesis using Cons.IH [OF r(3)] by fastforce
    next
      case False
      then have "pending_at limit f result name r"
        using r(4) Cons.prems(2) readResultRecord_io_ok [OF r(2)] by (auto simp: pending_at_def split: if_splits)
      then show ?thesis by (metis list.set_intros(1))
    qed
  qed
qed simp

lemma read_pending_distinct:
  assumes "outbox_wf limit f" and "read_pending limit ws f names = Inr rs" and "distinct names"
  shows "distinct rs"
  using assms(2,3)
proof (induction names arbitrary: rs)
  case (Cons name names)
  from Cons.prems(1) show ?case
  proof (cases rule: read_pending_Cons_cases)
    case skipped
    then show ?thesis using Cons by simp
  next
    case r: (taken r rest)
    have "pendingResult r \<notin> set rest" if "rr_State r = ''pending''"
    proof
      assume "pendingResult r \<in> set rest"
      then obtain name' r' where "name' \<in> set names" "pending_at limit f (pendingResult r) name' r'"
        using read_pending_at [OF r(3)] by blast
      moreover have "pending_at limit f (pendingResult r) name r"
        using readResultRecord_io_ok [OF r(2)] that by (simp add: pending_at_def)
      ultimately show False using pending_at_name(1) [OF assms(1)] Cons.prems(2) by (metis distinct.simps(2))
    qed
    then show ?thesis using Cons.IH [OF r(3)] Cons.prems(2) r(4) by auto
  qed
qed simp

lemma mark_none: "marked_files {} f f"
  by (auto simp: marked_files_def mark_def fun_eq_iff option.map_ident_strong split: option.splits)

lemma mark_step:
  assumes "outbox_wf limit f" and "marked_files R f g" and "pending_at limit f result name r"
  shows "marked_files (insert result R) f (fs_dirsync (fs_put name (result_node (r\<lparr>rr_State := ''complete''\<rparr>)) g))"
proof -
  let ?n = "result_node (r\<lparr>rr_State := ''complete''\<rparr>)"
  have "((fs_live g)(name := Some ?n)) q = map_option (mark (insert result R)) (fs_live f q)" for q
  proof (cases "q = name")
    case True
    obtain n where "fs_live f name = Some n" "node_data n = Some r"
      using assms(3) readResultRecord_ok unfolding pending_at_def by blast
    then show ?thesis using True assms(3) by (simp add: mark_def pending_at_def)
  next
    case False
    have "mark (insert result R) n = mark R n" if "fs_live f q = Some n" for n
    proof -
      have "pendingResult r' \<noteq> result" if "node_data n = Some r'" for r'
      proof
        assume "pendingResult r' = result"
        moreover have "q = outbox_path (rr_SourceEventID r')"
          using outbox_wf_live [OF assms(1) \<open>fs_live f q = Some n\<close>] that by (simp add: record_at_def)
        ultimately have "q = name" using pending_at_name(1) [OF assms(1,3)] by (auto simp: pendingResult_def)
        then show False using False by simp
      qed
      then show ?thesis by (auto simp: mark_def split: option.splits)
    qed
    then show ?thesis
      using False assms(2) by (cases "fs_live f q") (simp_all add: marked_files_def)
  qed
  then show ?thesis by (simp add: marked_files_def fun_eq_iff)
qed

lemma mark_fresh:
  assumes "marked_files R f g" and "pending_at limit f result name r" and "result \<notin> R"
  shows "readResultRecord limit io_ok name g = Inr r"
proof -
  obtain n where n: "fs_live f name = Some n" "node_data n = Some r"
    using assms(2) readResultRecord_ok unfolding pending_at_def by blast
  then have "fs_live g name = Some n"
    using assms by (simp add: marked_files_def mark_def pending_at_def)
  then show ?thesis
    using readResultRecord_cong [of g name f io_ok io_ok] n(1) assms(2) by (simp add: pending_at_def)
qed

lemma outbox_Complete_marks:
  assumes "readResultRecord limit io_ok (outbox_path eventID) g = Inr r" and "rr_State r = ''pending''" "rr_ResultDigest r = digest"
    and "eventIDPattern eventID" "digestPattern digest" "ob_lock ob \<noteq> None"
  shows "outbox_Complete limit io_ok ob eventID digest g
     = (Inr (), fs_dirsync (fs_put (outbox_path eventID) (result_node (r\<lparr>rr_State := ''complete''\<rparr>)) g))"
proof -
  have "rr_State r \<noteq> ''complete''" using assms(2) by simp
  then show ?thesis
    using assms unfolding outbox_Complete_def Let_def by (simp add: replace_file_ok result_node_def)
qed

lemma publish_one_ok:
  assumes "outbox_wf limit f" and "marked_files R f (pst_files s)" and "pending_at limit f result name r" and "result \<notin> R"
    and "pub_routes p (pr_SenderAgentID result) = Some route" and "\<exists>id. client (result_request p route result) = Inr id \<and> id \<noteq> []"
    and "ob_lock (pub_outbox p) \<noteq> None"
  shows "marked_files (insert result R) f (pst_files (publish_one limit client io_ok p result s))
     \<and> sum_Queued (pst_summary (publish_one limit client io_ok p result s)) = sum_Queued (pst_summary s) + 1
     \<and> sum_Retained (pst_summary (publish_one limit client io_ok p result s)) = sum_Retained (pst_summary s)
     \<and> pst_errors (publish_one limit client io_ok p result s) = pst_errors s
     \<and> pst_cancelled (publish_one limit client io_ok p result s) = pst_cancelled s"
proof -
  have name: "name = outbox_path (pr_SourceEventID result)" by (rule pending_at_name(1) [OF assms(1,3)])
  have "outbox_Complete limit io_ok (pub_outbox p) (pr_SourceEventID result) (pr_ResultDigest result) (pst_files s)
     = (Inr (), fs_dirsync (fs_put name (result_node (r\<lparr>rr_State := ''complete''\<rparr>)) (pst_files s)))"
    unfolding name
    by (rule outbox_Complete_marks)
      (use mark_fresh [OF assms(2,3,4)] assms(3,7) pending_at_name [OF assms(1,3)] in \<open>simp_all add: name pending_at_def pendingResult_def\<close>)
  moreover have "marked_files (insert result R) f (fs_dirsync (fs_put name (result_node (r\<lparr>rr_State := ''complete''\<rparr>)) (pst_files s)))"
    by (rule mark_step [OF assms(1,2,3)])
  moreover obtain id where "client (result_request p route result) = Inr id" "id \<noteq> []" using assms(6) by blast
  ultimately show ?thesis using assms(5) by (simp add: publish_one_def Let_def)
qed

lemma publish_loop_ok:
  assumes "outbox_wf limit f" and "\<forall>i. \<not> cancelled i" and "ob_lock (pub_outbox p) \<noteq> None"
    and "\<forall>i request. \<exists>id. client i request = Inr id \<and> id \<noteq> []"
    and "\<forall>result \<in> set results. pub_routes p (pr_SenderAgentID result) \<noteq> None \<and> (\<exists>name r. pending_at limit f result name r)"
    and "distinct results" and "R \<inter> set results = {}" and "marked_files R f (pst_files s)"
  shows "marked_files (R \<union> set results) f (pst_files (publish_loop limit cancelled client (\<lambda>_. io_ok) p i results s))
     \<and> sum_Queued (pst_summary (publish_loop limit cancelled client (\<lambda>_. io_ok) p i results s)) = sum_Queued (pst_summary s) + int (length results)
     \<and> sum_Retained (pst_summary (publish_loop limit cancelled client (\<lambda>_. io_ok) p i results s)) = sum_Retained (pst_summary s)
     \<and> pst_errors (publish_loop limit cancelled client (\<lambda>_. io_ok) p i results s) = pst_errors s
     \<and> pst_cancelled (publish_loop limit cancelled client (\<lambda>_. io_ok) p i results s) = pst_cancelled s"
  using assms(5-8)
proof (induction results arbitrary: R i s)
  case (Cons result results)
  obtain route where route: "pub_routes p (pr_SenderAgentID result) = Some route" using Cons.prems(1) by auto
  obtain name r where at: "pending_at limit f result name r" using Cons.prems(1) by auto
  let ?s = "publish_one limit (client i) io_ok p result s"
  have one: "marked_files (insert result R) f (pst_files ?s) \<and> sum_Queued (pst_summary ?s) = sum_Queued (pst_summary s) + 1
     \<and> sum_Retained (pst_summary ?s) = sum_Retained (pst_summary s) \<and> pst_errors ?s = pst_errors s \<and> pst_cancelled ?s = pst_cancelled s"
    by (rule publish_one_ok [OF assms(1) Cons.prems(4) at _ route]) (use Cons.prems(3) assms(3,4) in simp_all)
  have ih: "marked_files (insert result R \<union> set results) f (pst_files (publish_loop limit cancelled client (\<lambda>_. io_ok) p (Suc i) results ?s))
     \<and> sum_Queued (pst_summary (publish_loop limit cancelled client (\<lambda>_. io_ok) p (Suc i) results ?s)) = sum_Queued (pst_summary ?s) + int (length results)
     \<and> sum_Retained (pst_summary (publish_loop limit cancelled client (\<lambda>_. io_ok) p (Suc i) results ?s)) = sum_Retained (pst_summary ?s)
     \<and> pst_errors (publish_loop limit cancelled client (\<lambda>_. io_ok) p (Suc i) results ?s) = pst_errors ?s
     \<and> pst_cancelled (publish_loop limit cancelled client (\<lambda>_. io_ok) p (Suc i) results ?s) = pst_cancelled ?s"
    by (rule Cons.IH) (use Cons.prems one in auto)
  have "insert result R \<union> set results = R \<union> set (result # results)" by auto
  moreover have "\<not> cancelled i" using assms(2) by blast
  ultimately show ?case using ih one by simp
qed simp

text \<open>Once all its pending results are marked, a directory has none.\<close>

lemma read_pending_marked:
  assumes "outbox_wf limit f" and "marked_files R f g" and "read_pending limit ws f names = Inr rs" and "set rs \<subseteq> R"
    and "\<forall>name n r. fs_live f name = Some n \<longrightarrow> node_data n = Some r \<longrightarrow> length (json_resultRecord r) + 2 \<le> maxRecordBytes limit"
  shows "read_pending limit ws g names = Inr []"
  using assms(3,4)
proof (induction names arbitrary: rs)
  case (Cons name names)
  have listed: "listed g name \<longleftrightarrow> listed f name"
  proof (cases "fs_live f name")
    case (Some n)
    then have "node_type (mark R n) = node_type n"
      using outbox_wf_live [OF assms(1) Some] by (simp add: mark_def result_node_def record_at_def split: option.splits)
    then show ?thesis using Some assms(2) by (simp add: listed_def marked_files_def)
  qed (use assms(2) in \<open>simp add: listed_def marked_files_def\<close>)
  from Cons.prems(1) show ?case
  proof (cases rule: read_pending_Cons_cases)
    case skipped
    then show ?thesis using Cons listed unfolding read_pending_Cons by simp
  next
    case r: (taken r rest)
    obtain n where n: "fs_live f name = Some n" "node_data n = Some r" "validResultRecord limit r"
      using readResultRecord_ok [OF r(2)] by blast
    have rest: "read_pending limit ws g names = Inr []"
      using Cons.IH [OF r(3)] Cons.prems(2) r(4) by (auto split: if_splits)
    have "\<exists>r'. readResultRecord limit (ws name) name g = Inr r' \<and> rr_State r' \<noteq> ''pending''"
    proof (cases "rr_State r = ''pending''")
      case False
      then have "fs_live g name = fs_live f name" using assms(2) n by (simp add: marked_files_def mark_def)
      then show ?thesis using readResultRecord_cong [of g name f "ws name" "ws name"] r(2) False by simp
    next
      case True
      let ?r = "r\<lparr>rr_State := ''complete''\<rparr>"
      have eq: "r\<lparr>rr_State := ''pending''\<rparr> = r" using True by simp
      have "pendingResult r \<in> R" using True r(4) Cons.prems(2) by simp
      then have "fs_live g name = Some (result_node ?r)" using assms(2) n True by (simp add: marked_files_def mark_def)
      moreover have "length (json_resultRecord ?r) < maxRecordBytes limit"
        using assms(5) n length_json_complete [of r] unfolding eq by fastforce
      ultimately have "readResultRecord limit (ws name) name g = Inr ?r"
        using read_result_node valid_complete [OF n(3)] readResultRecord_io [OF r(2)] by blast
      then show ?thesis by simp
    qed
    then show ?thesis using listed r(1) rest unfolding read_pending_Cons by auto
  qed
qed simp


section \<open>A publisher\<close>

definition demo_route :: ResultRoute where
  "demo_route = \<lparr>rt_SenderAgentID = ''agent_'' @ replicate 64 (CHR ''1''), rt_SessionID = ''ses_'' @ replicate 64 (CHR ''2''),
     rt_RecipientEndpointID = ''mep_'' @ replicate 64 (CHR ''3'')\<rparr>"

definition demo_publisher :: ResultPublisher where
  "demo_publisher = \<lparr>pub_outbox = demo_outbox, pub_routes = [rt_SenderAgentID demo_route \<mapsto> demo_route], pub_lifetime = time_hour\<rparr>"

lemma demo_new_publisher: "NewResultPublisher (Some demo_outbox) True [demo_route] time_hour = Inr demo_publisher"
proof -
  have "hex64_after p (p @ replicate 64 c)" if "is_lower_hex c" for p c
    using that by (intro hex64_afterI) (simp_all add: list_all_iff)
  moreover have "is_lower_hex (CHR ''1'')" "is_lower_hex (CHR ''2'')" "is_lower_hex (CHR ''3'')" by (simp_all add: is_lower_hex_def)
  ultimately have "hex64_after ''agent_'' (rt_SenderAgentID demo_route)" "hex64_after ''ses_'' (rt_SessionID demo_route)"
    "hex64_after ''mep_'' (rt_RecipientEndpointID demo_route)"
    unfolding demo_route_def ResultRoute.simps by blast+
  moreover have "[] < rt_SenderAgentID demo_route" by (simp add: demo_route_def)
  ultimately show ?thesis
    by (simp add: NewResultPublisher_def demo_publisher_def)
qed

abbreviation (input) demo_files :: "resultRecord fs" where
  "demo_files \<equiv> fs_dirsync (fs_put demo_result_path (result_node (demo_record ''c'')) fs_empty)"

lemma demo_record_length: "length (json_resultRecord (demo_record ''c'')) + 2 \<le> maxRecordBytes 100"
  using demo_length [of "''c''"] demo_length_bound by (simp add: maxRecordBytes_def json_plain_def json_escape_def)

lemma demo_files_reached: "reach (\<lambda>f. f = fs_empty) (outbox_step 100) demo_files"
proof (rule reach_step)
  show "reach (\<lambda>f. f = fs_empty) (outbox_step 100) fs_empty" by (rule reach_init) simp
  show "outbox_step 100 fs_empty demo_files"
    by (rule ob_enqueue [OF demo_enqueue]) (use demo_record_length in simp_all)
qed

lemma demo_pending_live:
  assumes "fs_live f demo_result_path = Some (result_node (demo_record ''c''))"
  shows "Pending 100 (\<lambda>_. io_ok) (Some [demo_result_path]) demo_outbox f = Inr [pendingResult (demo_record ''c'')]"
proof -
  have "readResultRecord 100 io_ok demo_result_path f = Inr (demo_record ''c'')"
    by (rule read_result_node [OF assms]) (use demo_record_length pending_record_valid [OF demo_entry_ok [of "''c''" 100]] in simp_all)
  moreover have "listed f demo_result_path"
    using assms by (simp add: listed_def result_node_def) (simp add: outbox_path_def)
  ultimately have "read_pending 100 (\<lambda>_. io_ok) f [demo_result_path] = Inr [pendingResult (demo_record ''c'')]"
    unfolding read_pending_Cons by (simp add: pending_record_def)
  then show ?thesis by (simp add: Pending_def demo_outbox_def)
qed

lemma demo_routed: "pub_routes demo_publisher (pr_SenderAgentID (pendingResult (demo_record ''c''))) \<noteq> None"
  by (simp add: demo_publisher_def demo_route_def pendingResult_def pending_record_def demo_event_def)


theorem complete_only_after_queued_witness:
  "\<exists>s i request id. PublishPending 100 (\<lambda>_. False) (\<lambda>_ _. Inr ''evt'') (\<lambda>_. io_ok) (\<lambda>_. io_ok) (Some [demo_result_path]) demo_publisher demo_files = Inr s
     \<and> request \<in> set (pst_requests s) \<and> (\<lambda>_ _. Inr ''evt'') i request = (Inr id :: string result) \<and> lr_ProtocolBody request = ''{}''"
proof -
  let ?client = "\<lambda>_ _. Inr ''evt'' :: string result"
  let ?init = "\<lparr>pst_summary = \<lparr>sum_Queued = 0, sum_Retained = 0\<rparr>, pst_cancelled = False, pst_errors = [], pst_requests = [],
     pst_files = demo_files\<rparr>"
  let ?r = "demo_record ''c''"
  let ?s = "publish_loop 100 (\<lambda>_. False) ?client (\<lambda>_. io_ok) demo_publisher 0 [pendingResult ?r] ?init"
  have s: "PublishPending 100 (\<lambda>_. False) ?client (\<lambda>_. io_ok) (\<lambda>_. io_ok) (Some [demo_result_path]) demo_publisher demo_files = Inr ?s"
    using demo_pending_live [of demo_files] unfolding PublishPending_def by (simp add: demo_publisher_def)
  have n: "fs_live demo_files demo_result_path = Some (result_node ?r)" by simp
  have "readResultRecord 100 io_ok demo_result_path demo_files = Inr ?r"
    by (rule read_result_node) (use demo_record_length pending_record_valid [OF demo_entry_ok [of "''c''" 100]] in simp_all)
  then have at: "pending_at 100 demo_files (pendingResult ?r) demo_result_path ?r"
    by (simp add: pending_at_def pending_record_def)
  have "marked_files ({} \<union> set [pendingResult ?r]) demo_files (pst_files ?s)"
    by (rule conjunct1 [OF publish_loop_ok [OF outbox.reach_inv [OF demo_files_reached]]])
      (use at demo_routed mark_none in \<open>auto simp: demo_publisher_def demo_outbox_def\<close>)
  then have "fs_live (pst_files ?s) demo_result_path = Some (result_node (?r\<lparr>rr_State := ''complete''\<rparr>))"
    by (simp add: marked_files_def mark_def result_node_def pending_record_def)
  then have "fs_live (pst_files ?s) demo_result_path \<noteq> Some (result_node ?r)"
    by (simp add: result_node_def node_write_def node_sync_def pending_record_def new_node_def)
  from complete_only_after_queued [OF demo_files_reached s n _ this]
  obtain i request id where "request \<in> set (pst_requests ?s)" "?client i request = Inr id" "lr_ProtocolBody request = ''{}''"
    by (auto simp: result_node_def pending_record_def)
  with s show ?thesis by blast
qed

section \<open>Records the outbox cannot keep\<close>

lemma read_pending_unreadable:
  assumes "name \<in> set names" and "listed f name" and "\<And>w. isl (readResultRecord limit w name f)"
  shows "isl (read_pending limit ws f names)"
  using assms(1)
proof (induction names)
  case (Cons x xs)
  show ?case
  proof (cases "x = name")
    case True
    obtain e where "readResultRecord limit (ws name) name f = Inl e" using assms(3) by (metis isl_def)
    then show ?thesis using True assms(2) unfolding read_pending_Cons by simp
  next
    case False
    then obtain e where "read_pending limit ws f xs = Inl e" using Cons by (auto simp: isl_def)
    then show ?thesis unfolding read_pending_Cons by (auto split: sum.splits)
  qed
qed simp

lemma oversize_unreadable:
  "fs_live f p = Some n \<Longrightarrow> node_size n > maxRecordBytes limit \<Longrightarrow> isl (readResultRecord limit w p f)"
  by (simp add: readResultRecord_def)

text \<open>
  C35. The size check of \<open>enqueue\<close> and that of \<open>readResultRecord\<close> disagree by the newline that is written
  after the record.  A result whose record encodes to exactly the largest accepted size is enqueued, and
  from then on, whatever else happens, every listing of the outbox fails: no result is published any more.
\<close>

theorem boundary_record_blocks_pending:
  assumes "enqueue limit w ob event kind result f = (Inr (), f1)" and "fs_live f (outbox_path (evt_EventID event)) = None"
    and "length (json_resultRecord (pending_record event kind result)) = maxRecordBytes limit"
    and "(outbox_step limit)\<^sup>*\<^sup>* f1 f2" and "outbox_path (evt_EventID event) \<in> set names"
  shows "isl (Pending limit ws (Some names) ob2 f2)"
proof -
  let ?r = "pending_record event kind result"
  have r: "?r\<lparr>rr_State := ''pending''\<rparr> = ?r" by (simp add: pending_record_def)
  have "result_kept ?r f2"
    using result_kept_steps [OF assms(4)] stored_result_kept(1) [OF assms(1,2)] by blast
  then obtain n where n: "fs_live f2 (outbox_path (evt_EventID event)) = Some n" "holds ?r n"
    by (auto simp: result_kept_def)
  have "node_size n > maxRecordBytes limit" "node_type n = RegularFile"
    using n(2) assms(3) length_json_complete [of ?r] unfolding holds_def r by (auto simp: result_node_def)
  moreover have "listed f2 (outbox_path (evt_EventID event))"
    using n(1) \<open>node_type n = RegularFile\<close> by (simp add: listed_def) (simp add: outbox_path_def)
  ultimately have "isl (read_pending limit ws f2 names)"
    using read_pending_unreadable [OF assms(5)] oversize_unreadable [OF n(1)] by blast
  then show ?thesis by (auto simp: Pending_def isl_def)
qed

theorem boundary_record_blocks_pending_witness:
  "\<exists>event f. enqueue 100 io_ok demo_outbox event ''mcp.result'' ''{}'' fs_empty = (Inr (), f)
     \<and> isl (Pending 100 (\<lambda>_. io_ok) (Some [outbox_path (evt_EventID event)]) demo_outbox f)"
proof -
  let ?c = "replicate (maxRecordBytes 100 - length (json_resultRecord (demo_record []))) (CHR ''x'')"
  have len: "length (json_resultRecord (demo_record ?c)) = maxRecordBytes 100"
    using demo_length [of ?c] demo_length_bound
    by (simp add: maxRecordBytes_def list_all_iff json_plain_def json_escape_def)
  have c: "?c \<noteq> []" using demo_length_bound by (simp add: maxRecordBytes_def)
  obtain f where f: "enqueue 100 io_ok demo_outbox (demo_event ?c) ''mcp.result'' ''{}'' fs_empty = (Inr (), f)"
    using demo_enqueue [OF c, of 100 fs_empty] len by simp
  have "isl (Pending 100 (\<lambda>_. io_ok) (Some [outbox_path (evt_EventID (demo_event ?c))]) demo_outbox f)"
    by (rule boundary_record_blocks_pending [OF f _ len]) simp_all
  with f show ?thesis by blast
qed

text \<open>
  C36. An acknowledged result can be lost.  When a first attempt leaves its record behind before the file
  has been synced (the process ends there, or the removal fails as well), a second attempt finds the
  record and reports success without syncing anything; a crash of the machine then removes it.
\<close>

theorem replayed_result_lost:
  assumes "entry_ok limit event kind result" and "ob_lock ob \<noteq> None"
    and "length (json_resultRecord (pending_record event kind result)) < maxRecordBytes limit"
    and "fs_live f (outbox_path (evt_EventID event)) = None" "fs_disk f (outbox_path (evt_EventID event)) = None"
  shows "\<exists>w e f1 ch. enqueue limit w ob event kind result f = (Inl e, f1)
     \<and> enqueue limit io_ok ob event kind result f1 = (Inr (), f1)
     \<and> fs_live (fs_crash ch f1) (outbox_path (evt_EventID event)) = None"
proof -
  let ?r = "pending_record event kind result"
  let ?p = "outbox_path (evt_EventID event)"
  let ?n = "node_write ?r (length (json_resultRecord ?r) + 1) (new_node mode_0600)"
  let ?f = "fs_put ?p ?n f"
  obtain l where l: "ob_lock ob = Some l" using assms(2) by auto
  have first: "enqueue limit (io_ok\<lparr>io_sync := False, io_remove := False\<rparr>) ob event kind result f
      = (Inl (ErrMsg ''sync Messenger result record''), ?f)"
    using assms(1,3,4) l unfolding enqueue_eq Let_def store_new_def by (simp add: discard_def)
  have "readResultRecord limit io_ok ?p ?f = Inr ?r"
    using assms(3) pending_record_valid [OF assms(1)] by (simp add: readResultRecord_def)
  then have second: "enqueue limit io_ok ob event kind result ?f = (Inr (), ?f)"
    using assms(1,3) l unfolding enqueue_eq Let_def by simp
  have "fs_live (fs_crash (\<lambda>_. (False, False)) ?f) ?p = None"
    using assms(5) by (simp add: crash_map_def)
  then show ?thesis using first second by blast
qed

theorem replayed_result_lost_witness:
  "\<exists>w e f1 ch. enqueue 100 w demo_outbox (demo_event ''c'') ''mcp.result'' ''{}'' fs_empty = (Inl e, f1)
     \<and> enqueue 100 io_ok demo_outbox (demo_event ''c'') ''mcp.result'' ''{}'' f1 = (Inr (), f1)
     \<and> fs_live (fs_crash ch f1) (outbox_path (evt_EventID (demo_event ''c''))) = None"
  by (rule replayed_result_lost [OF demo_entry_ok]) (use demo_record_length in \<open>simp_all add: demo_outbox_def\<close>)

end
