(* ===== verification/Event_Server.thy ===== *)
theory Event_Server
  imports Outbox_Life
begin

text \<open>
  Package \<open>pkg/messengereventbridge\<close>, files \<open>server.go\<close>, \<open>execution_handlers.go\<close> and \<open>unix.go\<close>: events of
  the local messenger are checked and authorized, handed to the execution side, and answered only once
  the result is in the outbox.

  The messenger's envelope and payload codecs are the functions of \<open>messenger_library\<close>.  Handlers,
  executors and result receivers act on a state of their own, a type variable: what they do to it is
  what they return.
\<close>

section \<open>Data\<close>

record protocol_body =
  pb_Protocol :: string
  pb_Version :: string
  pb_Body :: bytes

datatype Payload = A2AMessage protocol_body | MCPCall protocol_body | MCPResult protocol_body | OtherPayload

record messenger_library =
  ml_MaxContentBytes :: nat
  ml_DecodeEventJSON :: "bytes \<Rightarrow> Event result"
  ml_EncodeEventJSON :: "Event \<Rightarrow> bytes result"
  ml_payload_Decode :: "string \<Rightarrow> bytes \<Rightarrow> Payload result"

record http_request =
  hr_Method :: string
  hr_ContentType :: string
  hr_Body :: bytes
  hr_read_ok :: bool

record http_response =
  hs_Status :: nat
  hs_Text :: string

type_synonym 's event_handler = "Event \<Rightarrow> protocol_body \<Rightarrow> 's \<Rightarrow> unit result \<times> 's"

record 's MCPHandler =
  mh_HandleMCPCall :: "'s event_handler"
  mh_HandleMCPResult :: "'s event_handler"

record 's Server =
  sv_authorizer :: "Event \<Rightarrow> unit result"
  sv_a2a :: "'s event_handler option"
  sv_mcp :: "'s MCPHandler option"

abbreviation (input) EventContentType :: string where
  "EventContentType \<equiv> ''application/vnd.tos.messaging.event.v2+json''"

definition MaxRequestBytes :: "messenger_library \<Rightarrow> nat" where
  "MaxRequestBytes lib = ml_MaxContentBytes lib + 32768"

section \<open>The server\<close>

definition server_New :: "(Event \<Rightarrow> unit result) option \<Rightarrow> 's event_handler option \<Rightarrow> 's MCPHandler option \<Rightarrow> 's Server result" where
  "server_New authorizer a2a mcp =
     (case authorizer of None \<Rightarrow> Inl (ErrMsg ''invalid Messenger protocol event consumer configuration'')
      | Some az \<Rightarrow>
          if a2a = None \<and> mcp = None then Inl (ErrMsg ''invalid Messenger protocol event consumer configuration'')
          else Inr \<lparr>sv_authorizer = az, sv_a2a = a2a, sv_mcp = mcp\<rparr>)"

fun contains :: "string list \<Rightarrow> string \<Rightarrow> bool" where
  "contains [] v = False"
| "contains (candidate # candidates) v = (if candidate = v then True else contains candidates v)"

text \<open>\<open>http.Error\<close> writes the status and the text; \<open>decode\<close> has answered the request when it fails.\<close>

definition http_error :: "string \<Rightarrow> nat \<Rightarrow> http_response" where
  "http_error text status = \<lparr>hs_Status = status, hs_Text = text\<rparr>"

definition server_decode :: "messenger_library \<Rightarrow> 's Server \<Rightarrow> http_request \<Rightarrow> string list \<Rightarrow> http_response + (Event \<times> Payload)" where
  "server_decode lib s request kinds =
     (if hr_Method request \<noteq> ''POST'' \<or> hr_ContentType request \<noteq> EventContentType
      then Inl (http_error ''invalid Messenger event request'' 415)
      else
        let raw = hr_Body request in
        if \<not> hr_read_ok request \<or> length raw > MaxRequestBytes lib \<or> length raw = 0
        then Inl (http_error ''invalid Messenger event body'' 413)
        else case ml_DecodeEventJSON lib raw of
          Inl e \<Rightarrow> Inl (http_error ''invalid Messenger event'' 422)
        | Inr event \<Rightarrow>
            if \<not> contains kinds (evt_Kind event) then Inl (http_error ''invalid Messenger event'' 422)
            else if ml_EncodeEventJSON lib event \<noteq> Inr raw then Inl (http_error ''non-canonical Messenger event'' 422)
            else (case ml_payload_Decode lib (evt_Kind event) (evt_Content event) of
                Inl e \<Rightarrow> Inl (http_error ''invalid Messenger protocol payload'' 422)
              | Inr body \<Rightarrow>
                  (case sv_authorizer s event of
                     Inl e \<Rightarrow> Inl (http_error ''Messenger event unauthorized'' 403)
                   | Inr _ \<Rightarrow> Inr (event, body))))"

definition receiveA2A :: "messenger_library \<Rightarrow> 's Server \<Rightarrow> http_request \<Rightarrow> 's \<Rightarrow> http_response \<times> 's" where
  "receiveA2A lib s request st =
     (case sv_a2a s of None \<Rightarrow> (http_error ''A2A consumer unavailable'' 503, st)
      | Some HandleA2A \<Rightarrow>
          (case server_decode lib s request [''a2a.message''] of
             Inl response \<Rightarrow> (response, st)
           | Inr (event, body) \<Rightarrow>
               (case body of
                  A2AMessage typed \<Rightarrow>
                    (case HandleA2A event typed st of
                       (Inl e, st') \<Rightarrow> (http_error ''A2A consumer failed'' 503, st')
                     | (Inr _, st') \<Rightarrow> (\<lparr>hs_Status = 202, hs_Text = []\<rparr>, st'))
                | _ \<Rightarrow> (http_error ''invalid A2A event'' 422, st))))"

definition receiveMCP :: "messenger_library \<Rightarrow> 's Server \<Rightarrow> http_request \<Rightarrow> 's \<Rightarrow> http_response \<times> 's" where
  "receiveMCP lib s request st =
     (case sv_mcp s of None \<Rightarrow> (http_error ''MCP consumer unavailable'' 503, st)
      | Some h \<Rightarrow>
          (case server_decode lib s request [''mcp.call'', ''mcp.result''] of
             Inl response \<Rightarrow> (response, st)
           | Inr (event, body) \<Rightarrow>
               let finish = (\<lambda>r. case r of (Inl e, st') \<Rightarrow> (http_error ''MCP consumer failed'' 503, st')
                                  | (Inr _, st') \<Rightarrow> (\<lparr>hs_Status = 202, hs_Text = []\<rparr>, st'))
               in (case body of
                     MCPCall typed \<Rightarrow> finish (mh_HandleMCPCall h event typed st)
                   | MCPResult typed \<Rightarrow> finish (mh_HandleMCPResult h event typed st)
                   | _ \<Rightarrow> (http_error ''invalid MCP event'' 422, st))))"

section \<open>The static policy\<close>

record StaticPolicy =
  sp_networkID :: string
  sp_genesisRoot :: string
  sp_genesisFile :: string
  sp_senders :: "string list"
  sp_conversations :: "string list"

text \<open>The loop of \<open>strictSet\<close> with the value before the current one, and \<open>sort.StringsAreSorted\<close>.\<close>

fun strict_from :: "string option \<Rightarrow> string list \<Rightarrow> bool" where
  "strict_from previous [] = True"
| "strict_from previous (v # vs) =
     (if v = [] \<or> (case previous of None \<Rightarrow> False | Some p \<Rightarrow> p \<ge> v) then False else strict_from (Some v) vs)"

definition strictSet :: "string list \<Rightarrow> bool" where
  "strictSet vals = (if vals = [] then False else if \<not> strict_from None vals then False else sorted vals)"

definition sortedContains :: "string list \<Rightarrow> string \<Rightarrow> bool" where
  "sortedContains vals v =
     (let index = search_strings vals v 0 (length vals) in index < length vals \<and> vals ! index = v)"

definition NewStaticPolicy :: "NetworkDomain option \<Rightarrow> string list \<Rightarrow> string list \<Rightarrow> StaticPolicy result" where
  "NewStaticPolicy network senders conversations =
     (case network of None \<Rightarrow> Inl (ErrMsg ''invalid Messenger event static policy'')
      | Some n \<Rightarrow>
          if nd_NetworkId n = [] \<or> nd_GenesisRootHash n = [] \<or> nd_GenesisFileHash n = []
             \<or> \<not> strictSet senders \<or> \<not> strictSet conversations
          then Inl (ErrMsg ''invalid Messenger event static policy'')
          else Inr \<lparr>sp_networkID = nd_NetworkId n, sp_genesisRoot = nd_GenesisRootHash n, sp_genesisFile = nd_GenesisFileHash n,
                    sp_senders = senders, sp_conversations = conversations\<rparr>)"

definition AuthorizeMessengerEvent :: "StaticPolicy \<Rightarrow> Event \<Rightarrow> unit result" where
  "AuthorizeMessengerEvent p event =
     (case evt_Network event of None \<Rightarrow> Inl (ErrMsg ''Messenger Event is outside the static policy'')
      | Some n \<Rightarrow>
          if nd_NetworkId n \<noteq> sp_networkID p \<or> nd_GenesisRootHash n \<noteq> sp_genesisRoot p \<or> nd_GenesisFileHash n \<noteq> sp_genesisFile p
             \<or> \<not> sortedContains (sp_senders p) (evt_SenderAgentID event)
             \<or> \<not> sortedContains (sp_conversations p) (evt_ConversationID event)
          then Inl (ErrMsg ''Messenger Event is outside the static policy'')
          else Inr ())"

section \<open>Execution handlers\<close>

text \<open>
  \<open>decodeStrictJSON\<close> decodes one value and refuses anything but blanks after it.  The decoder of the
  destination's type is a parameter: it returns the value and the rest of the input.
\<close>

definition json_blank :: "char \<Rightarrow> bool" where
  "json_blank c \<longleftrightarrow> c = CHR 0x20 \<or> c = CHR 0x09 \<or> c = CHR 0x0A \<or> c = CHR 0x0D"

definition decodeStrictJSON :: "nat \<Rightarrow> (bytes \<Rightarrow> ('a \<times> bytes) result) \<Rightarrow> bytes \<Rightarrow> 'a result" where
  "decodeStrictJSON limit dec raw =
     (if length raw = 0 \<or> length raw > limit then Inl (ErrMsg ''protocol JSON is outside its bound'')
      else case dec raw of Inl e \<Rightarrow> Inl e
      | Inr (v, rest) \<Rightarrow> if \<not> list_all json_blank rest then Inl (ErrMsg ''protocol JSON has trailing content'') else Inr v)"

record ('req, 'task, 's) A2AExecutionHandler =
  ah_executor :: "'req \<Rightarrow> 's \<Rightarrow> 'task option result \<times> 's"
  ah_results :: "Event \<Rightarrow> 'task \<Rightarrow> 's \<Rightarrow> unit result \<times> 's"

definition NewA2AExecutionHandler :: "('req \<Rightarrow> 's \<Rightarrow> 'task option result \<times> 's) option \<Rightarrow> (Event \<Rightarrow> 'task \<Rightarrow> 's \<Rightarrow> unit result \<times> 's) option
    \<Rightarrow> ('req, 'task, 's) A2AExecutionHandler result" where
  "NewA2AExecutionHandler executor results =
     (case (executor, results) of
        (Some x, Some r) \<Rightarrow> Inr \<lparr>ah_executor = x, ah_results = r\<rparr>
      | _ \<Rightarrow> Inl (ErrMsg ''invalid A2A Messenger execution handler''))"

definition HandleA2A :: "nat \<Rightarrow> (bytes \<Rightarrow> ('req \<times> bytes) result) \<Rightarrow> ('req, 'task, 's) A2AExecutionHandler \<Rightarrow> Event \<Rightarrow> protocol_body
    \<Rightarrow> 's \<Rightarrow> unit result \<times> 's" where
  "HandleA2A limit dec h event body st =
     (if pb_Protocol body \<noteq> ''a2a'' \<or> pb_Version body \<noteq> ''1'' then (Inl (ErrMsg ''invalid A2A Messenger execution event''), st)
      else case decodeStrictJSON limit dec (pb_Body body) of
        Inl e \<Rightarrow> (Inl (ErrMsg ''invalid A2A Messenger request body''), st)
      | Inr request \<Rightarrow>
          (case ah_executor h request st of
             (Inl e, st') \<Rightarrow> (Inl (ErrMsg ''A2A Messenger execution failed''), st')
           | (Inr None, st') \<Rightarrow> (Inl (ErrMsg ''A2A Messenger execution failed''), st')
           | (Inr (Some task), st') \<Rightarrow>
               (case ah_results h event task st' of
                  (Inl e, st'') \<Rightarrow> (Inl (ErrMsg ''A2A Messenger result was not committed''), st'')
                | (Inr _, st'') \<Rightarrow> (Inr (), st''))))"

record ('input, 'outp, 's) MCPExecutionHandler =
  xh_executor :: "'input \<Rightarrow> 's \<Rightarrow> 'outp result \<times> 's"
  xh_outboundResults :: "Event \<Rightarrow> 'outp \<Rightarrow> 's \<Rightarrow> unit result \<times> 's"
  xh_inboundResults :: "Event \<Rightarrow> 'outp \<Rightarrow> 's \<Rightarrow> unit result \<times> 's"

definition NewMCPExecutionHandlerSplit :: "('input \<Rightarrow> 's \<Rightarrow> 'outp result \<times> 's) option \<Rightarrow> (Event \<Rightarrow> 'outp \<Rightarrow> 's \<Rightarrow> unit result \<times> 's) option
    \<Rightarrow> (Event \<Rightarrow> 'outp \<Rightarrow> 's \<Rightarrow> unit result \<times> 's) option \<Rightarrow> ('input, 'outp, 's) MCPExecutionHandler result" where
  "NewMCPExecutionHandlerSplit executor outboundResults inboundResults =
     (case (executor, outboundResults, inboundResults) of
        (Some x, Some out, Some inb) \<Rightarrow> Inr \<lparr>xh_executor = x, xh_outboundResults = out, xh_inboundResults = inb\<rparr>
      | _ \<Rightarrow> Inl (ErrMsg ''invalid MCP Messenger execution handler''))"

definition NewMCPExecutionHandler :: "('input \<Rightarrow> 's \<Rightarrow> 'outp result \<times> 's) option \<Rightarrow> (Event \<Rightarrow> 'outp \<Rightarrow> 's \<Rightarrow> unit result \<times> 's) option
    \<Rightarrow> ('input, 'outp, 's) MCPExecutionHandler result" where
  "NewMCPExecutionHandler executor results = NewMCPExecutionHandlerSplit executor results results"

definition HandleMCPCall :: "nat \<Rightarrow> (bytes \<Rightarrow> ('input \<times> bytes) result) \<Rightarrow> ('input, 'outp, 's) MCPExecutionHandler \<Rightarrow> 's event_handler" where
  "HandleMCPCall limit dec h event body st =
     (if pb_Protocol body \<noteq> ''mcp'' \<or> pb_Version body \<noteq> ''1'' then (Inl (ErrMsg ''invalid MCP Messenger call event''), st)
      else case decodeStrictJSON limit dec (pb_Body body) of
        Inl e \<Rightarrow> (Inl (ErrMsg ''invalid MCP Messenger call body''), st)
      | Inr input \<Rightarrow>
          (case xh_executor h input st of
             (Inl e, st') \<Rightarrow> (Inl (ErrMsg ''MCP Messenger execution failed''), st')
           | (Inr outp, st') \<Rightarrow>
               (case xh_outboundResults h event outp st' of
                  (Inl e, st'') \<Rightarrow> (Inl (ErrMsg ''MCP Messenger result was not committed''), st'')
                | (Inr _, st'') \<Rightarrow> (Inr (), st''))))"

definition HandleMCPResult :: "nat \<Rightarrow> (bytes \<Rightarrow> ('outp \<times> bytes) result) \<Rightarrow> ('input, 'outp, 's) MCPExecutionHandler \<Rightarrow> 's event_handler" where
  "HandleMCPResult limit dec h event body st =
     (if pb_Protocol body \<noteq> ''mcp'' \<or> pb_Version body \<noteq> ''1'' then (Inl (ErrMsg ''invalid MCP Messenger result event''), st)
      else case decodeStrictJSON limit dec (pb_Body body) of
        Inl e \<Rightarrow> (Inl (ErrMsg ''invalid MCP Messenger result body''), st)
      | Inr outp \<Rightarrow>
          (case xh_inboundResults h event outp st of
             (Inl e, st') \<Rightarrow> (Inl (ErrMsg ''MCP Messenger result was not committed''), st')
           | (Inr _, st') \<Rightarrow> (Inr (), st')))"

section \<open>The policy decides membership\<close>

lemma sortedContains_iff: "sorted vals \<Longrightarrow> sortedContains vals v \<longleftrightarrow> v \<in> set vals"
  using search_strings_member by (simp add: sortedContains_def Let_def)

lemma strictSet_sorted: "strictSet vals \<Longrightarrow> sorted vals"
  by (auto simp: strictSet_def split: if_splits)

text \<open>
  The static policy admits exactly the events of its network whose sender and conversation are
  listed: the search by halving in the configured lists, which the constructor has checked to be
  sorted, finds every listed value and nothing else.
\<close>

theorem static_policy_exact:
  assumes "NewStaticPolicy (Some network) senders conversations = Inr policy"
  shows "AuthorizeMessengerEvent policy event = Inr () \<longleftrightarrow>
     (\<exists>n. evt_Network event = Some n \<and> nd_NetworkId n = nd_NetworkId network
        \<and> nd_GenesisRootHash n = nd_GenesisRootHash network \<and> nd_GenesisFileHash n = nd_GenesisFileHash network)
     \<and> evt_SenderAgentID event \<in> set senders \<and> evt_ConversationID event \<in> set conversations"
proof -
  have p: "strictSet senders" "strictSet conversations" "sp_senders policy = senders" "sp_conversations policy = conversations"
    "sp_networkID policy = nd_NetworkId network" "sp_genesisRoot policy = nd_GenesisRootHash network"
    "sp_genesisFile policy = nd_GenesisFileHash network"
    using assms by (auto simp: NewStaticPolicy_def split: if_splits)
  have "sortedContains senders x \<longleftrightarrow> x \<in> set senders" "sortedContains conversations x \<longleftrightarrow> x \<in> set conversations" for x
    using p(1,2) sortedContains_iff strictSet_sorted by blast+
  then show ?thesis
    unfolding AuthorizeMessengerEvent_def p(3-7) by (cases "evt_Network event") auto
qed

definition demo_network :: NetworkDomain where
  "demo_network = \<lparr>nd_NetworkId = ''net'', nd_GenesisRootHash = ''root'', nd_GenesisFileHash = ''file''\<rparr>"

lemma demo_sets: "strictSet [''a'', ''b'']" "strictSet [''c'']"
  by (simp_all add: strictSet_def)

theorem static_policy_exact_witness:
  "\<exists>policy. NewStaticPolicy (Some demo_network) [''a'', ''b''] [''c''] = Inr policy
     \<and> AuthorizeMessengerEvent policy (demo_event ''c''\<lparr>evt_SenderAgentID := ''b'', evt_Network := Some demo_network\<rparr>) = Inr ()
     \<and> AuthorizeMessengerEvent policy (demo_event ''c''\<lparr>evt_SenderAgentID := ''x'', evt_Network := Some demo_network\<rparr>) \<noteq> Inr ()"
proof -
  obtain policy where p: "NewStaticPolicy (Some demo_network) [''a'', ''b''] [''c''] = Inr policy"
    using demo_sets by (simp add: NewStaticPolicy_def demo_network_def)
  show ?thesis
    using p static_policy_exact [OF p, of "demo_event ''c''\<lparr>evt_SenderAgentID := ''b'', evt_Network := Some demo_network\<rparr>"]
      static_policy_exact [OF p, of "demo_event ''c''\<lparr>evt_SenderAgentID := ''x'', evt_Network := Some demo_network\<rparr>"]
    by (simp add: demo_event_def)
qed

section \<open>No effect without authorization\<close>

lemma contains_iff: "contains kinds k \<longleftrightarrow> k \<in> set kinds"
  by (induction kinds) auto

lemma server_decode_ok:
  assumes "server_decode lib s request kinds = Inr (event, body)"
  shows "hr_Method request = ''POST''" "hr_ContentType request = EventContentType" "hr_Body request \<noteq> []"
    "length (hr_Body request) \<le> MaxRequestBytes lib" "ml_DecodeEventJSON lib (hr_Body request) = Inr event"
    "ml_EncodeEventJSON lib event = Inr (hr_Body request)" "evt_Kind event \<in> set kinds"
    "ml_payload_Decode lib (evt_Kind event) (evt_Content event) = Inr body" "sv_authorizer s event = Inr ()"
  using assms unfolding server_decode_def Let_def by (auto simp: contains_iff split: if_splits sum.splits)

lemma receiveA2A_cases:
  assumes "receiveA2A lib s request st = (response, st')"
  obtains (answered) "st' = st" "hs_Status response \<noteq> 202"
  | (handled) h event typed r where "sv_a2a s = Some h" "server_decode lib s request [''a2a.message''] = Inr (event, A2AMessage typed)"
      "h event typed st = (r, st')" "hs_Status response = 202 \<longleftrightarrow> r = Inr ()"
proof (cases "sv_a2a s")
  case None
  then show ?thesis using assms answered by (auto simp: receiveA2A_def http_error_def)
next
  case (Some h)
  show ?thesis
  proof (cases "server_decode lib s request [''a2a.message'']")
    case (Inl resp)
    moreover have "hs_Status resp \<noteq> 202"
      using Inl unfolding server_decode_def Let_def by (auto simp: http_error_def split: if_splits sum.splits)
    ultimately show ?thesis using assms Some answered by (auto simp: receiveA2A_def)
  next
    case (Inr eb)
    obtain event body where eb: "eb = (event, body)" by (cases eb)
    show ?thesis
    proof (cases body)
      case (A2AMessage typed)
      obtain r st2 where "h event typed st = (r, st2)" by fastforce
      then show ?thesis
        using assms Some Inr eb A2AMessage handled [of h event typed r]
        by (cases r) (auto simp: receiveA2A_def http_error_def)
    qed (use assms Some Inr eb answered in \<open>auto simp: receiveA2A_def http_error_def\<close>)
  qed
qed

lemma receiveMCP_cases:
  assumes "receiveMCP lib s request st = (response, st')"
  obtains (answered) "st' = st" "hs_Status response \<noteq> 202"
  | (called) h event typed r where "sv_mcp s = Some h" "server_decode lib s request [''mcp.call'', ''mcp.result''] = Inr (event, MCPCall typed)"
      "mh_HandleMCPCall h event typed st = (r, st')" "hs_Status response = 202 \<longleftrightarrow> r = Inr ()"
  | (returned) h event typed r where "sv_mcp s = Some h" "server_decode lib s request [''mcp.call'', ''mcp.result''] = Inr (event, MCPResult typed)"
      "mh_HandleMCPResult h event typed st = (r, st')" "hs_Status response = 202 \<longleftrightarrow> r = Inr ()"
proof (cases "sv_mcp s")
  case None
  then show ?thesis using assms answered by (auto simp: receiveMCP_def http_error_def)
next
  case (Some h)
  show ?thesis
  proof (cases "server_decode lib s request [''mcp.call'', ''mcp.result'']")
    case (Inl resp)
    moreover have "hs_Status resp \<noteq> 202"
      using Inl unfolding server_decode_def Let_def by (auto simp: http_error_def split: if_splits sum.splits)
    ultimately show ?thesis using assms Some answered by (auto simp: receiveMCP_def)
  next
    case (Inr eb)
    obtain event body where eb: "eb = (event, body)" by (cases eb)
    show ?thesis
    proof (cases body)
      case (MCPCall typed)
      obtain r st2 where "mh_HandleMCPCall h event typed st = (r, st2)" by fastforce
      then show ?thesis
        using assms Some Inr eb MCPCall called [of h event typed r]
        by (cases r) (auto simp: receiveMCP_def http_error_def)
    next
      case (MCPResult typed)
      obtain r st2 where "mh_HandleMCPResult h event typed st = (r, st2)" by fastforce
      then show ?thesis
        using assms Some Inr eb MCPResult returned [of h event typed r]
        by (cases r) (auto simp: receiveMCP_def http_error_def)
    qed (use assms Some Inr eb answered in \<open>auto simp: receiveMCP_def http_error_def\<close>)
  qed
qed

text \<open>
  C12. No request has an effect before it is authorized.  If either endpoint changes the state behind
  its handlers, or answers 202, then the request body is the canonical encoding, within the size bound,
  of an event of the endpoint's own kinds, and the authorizer has accepted that event.
\<close>

theorem effect_only_if_authorized:
  assumes "receiveA2A lib s request st = (response, st') \<and> kinds = {''a2a.message''}
      \<or> receiveMCP lib s request st = (response, st') \<and> kinds = {''mcp.call'', ''mcp.result''}"
    and "st' \<noteq> st \<or> hs_Status response = 202"
  shows "\<exists>event. ml_DecodeEventJSON lib (hr_Body request) = Inr event \<and> ml_EncodeEventJSON lib event = Inr (hr_Body request)
     \<and> length (hr_Body request) \<le> MaxRequestBytes lib \<and> evt_Kind event \<in> kinds \<and> sv_authorizer s event = Inr ()"
  using assms(1)
proof
  assume a: "receiveA2A lib s request st = (response, st') \<and> kinds = {''a2a.message''}"
  then have "receiveA2A lib s request st = (response, st')" by blast
  then show ?thesis
  proof (cases rule: receiveA2A_cases)
    case (handled h event typed r)
    then show ?thesis using server_decode_ok [OF handled(2)] a by auto
  qed (use assms(2) in blast)
next
  assume a: "receiveMCP lib s request st = (response, st') \<and> kinds = {''mcp.call'', ''mcp.result''}"
  then have "receiveMCP lib s request st = (response, st')" by blast
  then show ?thesis
  proof (cases rule: receiveMCP_cases)
    case (called h event typed r)
    then show ?thesis using server_decode_ok [OF called(2)] a by auto
  next
    case (returned h event typed r)
    then show ?thesis using server_decode_ok [OF returned(2)] a by auto
  qed (use assms(2) in blast)
qed

section \<open>The result before the answer\<close>

text \<open>The execution side of the worker: the executor acts on its own state, and the results go to the outbox.\<close>

definition beside_outbox :: "('req \<Rightarrow> 'e \<Rightarrow> 'task result \<times> 'e) \<Rightarrow> 'req \<Rightarrow> 'e \<times> resultRecord fs \<Rightarrow> 'task result \<times> ('e \<times> resultRecord fs)" where
  "beside_outbox exec request st = (case exec request (fst st) of (r, e) \<Rightarrow> (r, (e, snd st)))"

definition to_outbox :: "nat \<Rightarrow> io \<Rightarrow> ResultOutbox \<Rightarrow> ('task \<Rightarrow> bytes result) \<Rightarrow> Event \<Rightarrow> 'task \<Rightarrow> 'e \<times> resultRecord fs
    \<Rightarrow> unit result \<times> ('e \<times> resultRecord fs)" where
  "to_outbox limit w ob marshal event task st =
     (case ReceiveA2AResult limit w ob event (Some (marshal task)) (snd st) of (r, f) \<Rightarrow> (r, (fst st, f)))"

lemma enqueue_stores:
  assumes "enqueue limit w ob event kind result f = (Inr (), f')"
  shows "\<exists>n r. fs_live f' (outbox_path (evt_EventID event)) = Some n \<and> node_data n = Some r \<and> sameResult r (pending_record event kind result)"
  using assms
proof (cases rule: enqueue_cases)
  case (replayed r)
  then show ?thesis using readResultRecord_ok [OF replayed(4)] by blast
next
  case stored
  then show ?thesis by (simp add: result_node_def)
qed simp_all

lemma result_kept_live:
  assumes "result_kept r f"
  shows "\<exists>n r'. fs_live f (outbox_path (rr_SourceEventID r)) = Some n \<and> node_data n = Some r' \<and> sameResult r' r"
  using assms by (auto simp: result_kept_def holds_def result_node_def)

lemma HandleA2A_ok:
  assumes "HandleA2A limit dec \<lparr>ah_executor = beside_outbox exec, ah_results = to_outbox limit w ob marshal\<rparr> event body (e, f) = (Inr (), (e', f'))"
  shows "\<exists>request task raw. decodeStrictJSON limit dec (pb_Body body) = Inr request \<and> exec request e = (Inr (Some task), e')
     \<and> marshal task = Inr raw \<and> enqueue limit w ob event ''a2a.message'' raw f = (Inr (), f')"
proof -
  note h = assms [unfolded HandleA2A_def A2AExecutionHandler.select_convs]
  obtain request where d: "decodeStrictJSON limit dec (pb_Body body) = Inr request"
    using h by (auto split: if_splits sum.splits)
  obtain r e1 where x: "exec request e = (r, e1)" by fastforce
  have h1: "(case beside_outbox exec request (e, f) of (Inl e, st') \<Rightarrow> (Inl (ErrMsg ''A2A Messenger execution failed''), st')
      | (Inr None, st') \<Rightarrow> (Inl (ErrMsg ''A2A Messenger execution failed''), st')
      | (Inr (Some task), st') \<Rightarrow>
          (case to_outbox limit w ob marshal event task st' of
             (Inl e, st'') \<Rightarrow> (Inl (ErrMsg ''A2A Messenger result was not committed''), st'')
           | (Inr _, st'') \<Rightarrow> (Inr (), st''))) = (Inr (), (e', f'))"
    using h d by (auto split: if_splits)
  then obtain task where t: "r = Inr (Some task)"
    using x unfolding beside_outbox_def by (cases r) (auto split: option.splits)
  obtain r2 f2 where s: "ReceiveA2AResult limit w ob event (Some (marshal task)) f = (r2, f2)" by fastforce
  have "r2 = Inr ()" "e1 = e'" "f2 = f'"
    using h1 x t s unfolding beside_outbox_def to_outbox_def by (cases r2; simp)+
  moreover obtain raw where "marshal task = Inr raw"
    using s \<open>r2 = Inr ()\<close> by (cases "marshal task") (auto simp: ReceiveA2AResult_def)
  ultimately show ?thesis using d x t s by (auto simp: ReceiveA2AResult_def)
qed

text \<open>
  C24. A 202 answer means the result is in the outbox.  When the A2A endpoint accepts a request, the
  event was authorized, the executor has run and returned a task, and the outbox holds that task's
  encoding as the result of this event.  If the event had no record before, the record stays through every
  later operation of the outbox and every crash.
\<close>

theorem accepted_event_stored:
  assumes "receiveA2A lib s request (e, f) = (response, (e', f'))" and "hs_Status response = 202"
    and "sv_a2a s = Some (HandleA2A limit dec \<lparr>ah_executor = beside_outbox exec, ah_results = to_outbox limit w ob marshal\<rparr>)"
  shows "\<exists>event body req task raw n r. ml_DecodeEventJSON lib (hr_Body request) = Inr event \<and> sv_authorizer s event = Inr ()
     \<and> ml_payload_Decode lib ''a2a.message'' (evt_Content event) = Inr (A2AMessage body)
     \<and> decodeStrictJSON limit dec (pb_Body body) = Inr req \<and> exec req e = (Inr (Some task), e') \<and> marshal task = Inr raw
     \<and> fs_live f' (outbox_path (evt_EventID event)) = Some n \<and> node_data n = Some r
     \<and> sameResult r (pending_record event ''a2a.message'' raw)
     \<and> (fs_live f (outbox_path (evt_EventID event)) = None \<longrightarrow>
          (\<forall>f2. (outbox_step limit)\<^sup>*\<^sup>* f' f2 \<longrightarrow> (\<exists>n r. fs_live f2 (outbox_path (evt_EventID event)) = Some n
             \<and> node_data n = Some r \<and> sameResult r (pending_record event ''a2a.message'' raw))))"
  using assms(1)
proof (cases rule: receiveA2A_cases)
  case (handled h event typed r)
  note d = server_decode_ok [OF handled(2)]
  have kind: "evt_Kind event = ''a2a.message''" using d(7) by simp
  have "HandleA2A limit dec \<lparr>ah_executor = beside_outbox exec, ah_results = to_outbox limit w ob marshal\<rparr> event typed (e, f) = (Inr (), (e', f'))"
    using handled assms(2,3) by simp
  from HandleA2A_ok [OF this]
  obtain req task raw where x: "decodeStrictJSON limit dec (pb_Body typed) = Inr req" "exec req e = (Inr (Some task), e')"
    "marshal task = Inr raw" "enqueue limit w ob event ''a2a.message'' raw f = (Inr (), f')" by blast
  obtain n r' where st: "fs_live f' (outbox_path (evt_EventID event)) = Some n" "node_data n = Some r'"
    "sameResult r' (pending_record event ''a2a.message'' raw)"
    using enqueue_stores [OF x(4)] by blast
  have "\<exists>n r. fs_live f2 (outbox_path (evt_EventID event)) = Some n \<and> node_data n = Some r
      \<and> sameResult r (pending_record event ''a2a.message'' raw)"
    if "fs_live f (outbox_path (evt_EventID event)) = None" "(outbox_step limit)\<^sup>*\<^sup>* f' f2" for f2
    using result_kept_live [OF result_kept_steps [OF that(2) stored_result_kept(1) [OF x(4) that(1)]]] by simp
  then show ?thesis using d(5,8,9) kind x(1-3) st by metis
qed (use assms(2) in simp)

definition demo_accepted :: Event where
  "demo_accepted = (demo_event ''c'')\<lparr>evt_Kind := ''a2a.message''\<rparr>"

definition demo_messenger :: messenger_library where
  "demo_messenger = \<lparr>ml_MaxContentBytes = 100, ml_DecodeEventJSON = (\<lambda>_. Inr demo_accepted), ml_EncodeEventJSON = (\<lambda>_. Inr ''event''),
     ml_payload_Decode = (\<lambda>_ _. Inr (A2AMessage \<lparr>pb_Protocol = ''a2a'', pb_Version = ''1'', pb_Body = ''run''\<rparr>))\<rparr>"

definition demo_handler :: "(nat \<times> resultRecord fs) event_handler" where
  "demo_handler = HandleA2A 100 (\<lambda>raw. Inr (raw, [])) \<lparr>ah_executor = beside_outbox (\<lambda>_ n. (Inr (Some ''{}''), n + 1)),
     ah_results = to_outbox 100 io_ok demo_outbox Inr\<rparr>"

definition demo_server :: "(nat \<times> resultRecord fs) Server" where
  "demo_server = \<lparr>sv_authorizer = (\<lambda>_. Inr ()), sv_a2a = Some demo_handler, sv_mcp = None\<rparr>"

definition demo_http :: http_request where
  "demo_http = \<lparr>hr_Method = ''POST'', hr_ContentType = EventContentType, hr_Body = ''event'', hr_read_ok = True\<rparr>"

lemma demo_decoded: "server_decode demo_messenger demo_server demo_http [''a2a.message'']
    = Inr (demo_accepted, A2AMessage \<lparr>pb_Protocol = ''a2a'', pb_Version = ''1'', pb_Body = ''run''\<rparr>)"
  by (simp add: server_decode_def demo_http_def demo_messenger_def demo_server_def demo_accepted_def MaxRequestBytes_def Let_def)

lemma demo_received:
  "\<exists>f. receiveA2A demo_messenger demo_server demo_http (0, fs_empty) = (\<lparr>hs_Status = 202, hs_Text = []\<rparr>, (1, f))"
proof -
  have "json_resultRecord (pending_record demo_accepted ''a2a.message'' ''{}'')
      = json_resultRecord ((demo_record ''c'')\<lparr>rr_ResultKind := ''a2a.message''\<rparr>)"
    by (simp add: json_resultRecord_def pending_record_def demo_accepted_def)
  moreover have "length (json_resultRecord ((demo_record ''c'')\<lparr>rr_ResultKind := ''a2a.message''\<rparr>))
      \<le> length (json_resultRecord (demo_record ''c'')) + 10"
    by (simp add: json_resultRecord_def pending_record_def json_object_def json_field_def json_string_def json_escape_def)
  moreover have "length (json_resultRecord (demo_record ''c'')) \<le> 9001"
    using demo_length [of "''c''"] demo_length_bound by (simp add: json_plain_def json_escape_def)
  ultimately have len: "length (json_resultRecord (pending_record demo_accepted ''a2a.message'' ''{}'')) \<le> maxRecordBytes 100"
    by (simp add: maxRecordBytes_def)
  have "entry_ok 100 demo_accepted ''a2a.message'' ''{}''"
    using demo_entry_ok [of "''c''" 100] by (simp add: entry_ok_def demo_accepted_def)
  then have "\<exists>f. enqueue 100 io_ok demo_outbox demo_accepted ''a2a.message'' ''{}'' fs_empty = (Inr (), f)"
    using len unfolding enqueue_eq Let_def store_new_def demo_outbox_def syncResultDirectory_def by simp
  then have "\<exists>f. demo_handler demo_accepted \<lparr>pb_Protocol = ''a2a'', pb_Version = ''1'', pb_Body = ''run''\<rparr> (0, fs_empty) = (Inr (), (1, f))"
    unfolding demo_handler_def by (auto simp: HandleA2A_def decodeStrictJSON_def beside_outbox_def to_outbox_def ReceiveA2AResult_def)
  then show ?thesis
    using demo_decoded by (auto simp: receiveA2A_def demo_server_def)
qed

theorem accepted_event_stored_witness:
  "\<exists>response f n r. receiveA2A demo_messenger demo_server demo_http (0, fs_empty) = (response, (1, f))
     \<and> hs_Status response = 202 \<and> fs_live f (outbox_path (evt_EventID demo_accepted)) = Some n \<and> node_data n = Some r
     \<and> rr_ResultJSON r = ''{}''"
proof -
  obtain f where f: "receiveA2A demo_messenger demo_server demo_http (0, fs_empty) = (\<lparr>hs_Status = 202, hs_Text = []\<rparr>, (1, f))"
    using demo_received by blast
  have h: "sv_a2a demo_server = Some (HandleA2A 100 (\<lambda>raw. Inr (raw, [])) \<lparr>ah_executor = beside_outbox (\<lambda>_ n. (Inr (Some ''{}''), n + 1)),
     ah_results = to_outbox 100 io_ok demo_outbox Inr\<rparr>)"
    by (simp add: demo_server_def demo_handler_def)
  have "\<exists>n r. fs_live f (outbox_path (evt_EventID demo_accepted)) = Some n \<and> node_data n = Some r \<and> rr_ResultJSON r = ''{}''"
    using accepted_event_stored [OF f _ h] by (auto simp: demo_messenger_def sameResult_def pending_record_def)
  then show ?thesis using f by (metis http_response.select_convs(1))
qed

theorem effect_only_if_authorized_witness:
  "\<exists>response st event. receiveA2A demo_messenger demo_server demo_http (0, fs_empty) = (response, st)
     \<and> st \<noteq> (0, fs_empty) \<and> ml_EncodeEventJSON demo_messenger event = Inr (hr_Body demo_http)"
proof -
  obtain f where f: "receiveA2A demo_messenger demo_server demo_http (0, fs_empty) = (\<lparr>hs_Status = 202, hs_Text = []\<rparr>, (1, f))"
    using demo_received by blast
  then show ?thesis
    using effect_only_if_authorized [of demo_messenger demo_server demo_http "(0, fs_empty)" _ "(1, f)" "{''a2a.message''}"] by fastforce
qed

end
