(* ===== verification/Artifact_Http.thy ===== *)
theory Artifact_Http
  imports Artifact_Store Go_Json Go_Base64
begin

text \<open>
  Package \<open>pkg/artifacthttp\<close>: stored objects are published under content-addressed URLs, with an index
  file that keeps the published descriptors across restarts.

  The store behind the locator is the function \<open>get\<close> of its interface; the properties put
  \<open>Artifact_Store.Get\<close> there.  The descriptors a locator knows are a list with one entry per digest.
  \<open>url.Parse\<close> of the configured origin and of a request is given by the parts the code looks at.
\<close>

section \<open>Data\<close>

abbreviation (input) pathPrefix :: string where "pathPrefix \<equiv> ''/v1/artifacts/sha256/''"
abbreviation (input) publicationIndexSchema :: string where "publicationIndexSchema \<equiv> ''tos.service.artifact-publications.v1''"
abbreviation (input) maximumIndexBytes :: nat where "maximumIndexBytes \<equiv> 8388608"

type_synonym object_source = "string \<Rightarrow> bytes result"

record Locator =
  loc_origin :: string
  loc_index :: string
  loc_descriptors :: "Descriptor list"

record publicationIndex =
  pix_Schema :: string
  pix_Descriptors :: "Descriptor list"

record url_parts =
  url_Scheme :: string
  url_Host :: string
  url_User :: bool
  url_Path :: string
  url_RawPath :: string
  url_RawQuery :: string
  url_Fragment :: string

definition lookup_descriptor :: "Descriptor list \<Rightarrow> string \<Rightarrow> Descriptor option" where
  "lookup_descriptor ds digest = find (\<lambda>d. dsc_Digest d = digest) ds"

definition validDescriptor :: "Descriptor \<Rightarrow> bool" where
  "validDescriptor d \<longleftrightarrow> length (dsc_Digest d) = length ''sha256:'' + 64 \<and> has_prefix (dsc_Digest d) ''sha256:''
     \<and> dsc_Digest d = to_lower (dsc_Digest d) \<and> dsc_SizeBytes d \<noteq> 0 \<and> dsc_SizeBytes d \<le> MaxObjectBytesHard
     \<and> dsc_MediaType d \<noteq> [] \<and> list_all (\<lambda>c. c \<noteq> CHR 0x0D \<and> c \<noteq> CHR 0x0A \<and> c \<noteq> CHR 0x00) (dsc_MediaType d)
     \<and> list_all is_lower_hex (trim_prefix (dsc_Digest d) ''sha256:'')"

text \<open>\<open>json.MarshalIndent\<close> with two blanks; only its length is used.\<close>

definition indent_field :: "string \<Rightarrow> string \<Rightarrow> string \<Rightarrow> string" where
  "indent_field pad k v = CHR 0x0A # pad @ json_string k @ '': '' @ v"

definition json_descriptor :: "Descriptor \<Rightarrow> string" where
  "json_descriptor d = CHR 0x0A # ''    {'' @ join_with '',''
     [indent_field ''      '' ''digest'' (json_string (dsc_Digest d)), indent_field ''      '' ''media_type'' (json_string (dsc_MediaType d)),
      indent_field ''      '' ''size_bytes'' (json_u64 (dsc_SizeBytes d))] @ CHR 0x0A # ''    }''"

definition json_index :: "publicationIndex \<Rightarrow> string" where
  "json_index doc = ''{'' @ indent_field ''  '' ''schema'' (json_string (pix_Schema doc)) @ '','' @
     indent_field ''  '' ''descriptors''
       (if pix_Descriptors doc = [] then ''[]''
        else ''['' @ join_with '','' (map json_descriptor (pix_Descriptors doc)) @ CHR 0x0A # ''  ]'') @ CHR 0x0A # ''}''"

section \<open>Operations\<close>

definition locator_New :: "bool \<Rightarrow> url_parts option \<Rightarrow> string \<Rightarrow> Locator result" where
  "locator_New has_store parsed origin =
     (case parsed of None \<Rightarrow> Inl (ErrMsg ''invalid artifact HTTPS origin'')
      | Some u \<Rightarrow>
          if url_Scheme u \<noteq> ''https'' \<or> url_Host u = [] \<or> url_User u \<or> url_Path u \<noteq> [] \<or> url_RawPath u \<noteq> []
             \<or> url_RawQuery u \<noteq> [] \<or> url_Fragment u \<noteq> [] \<or> (origin \<noteq> [] \<and> last origin = CHR ''/'')
          then Inl (ErrMsg ''invalid artifact HTTPS origin'')
          else if \<not> has_store then Inl (ErrMsg ''artifact store is required'')
          else Inr \<lparr>loc_origin = origin, loc_index = [], loc_descriptors = []\<rparr>)"

fun check_publications :: "string \<Rightarrow> Descriptor list \<Rightarrow> Descriptor list result" where
  "check_publications previous [] = Inr []"
| "check_publications previous (d # ds) =
     (if \<not> validDescriptor d \<or> \<not> previous < dsc_Digest d then Inl (ErrMsg ''invalid artifact publication descriptor'')
      else case check_publications (dsc_Digest d) ds of Inl e \<Rightarrow> Inl e | Inr rest \<Rightarrow> Inr (d # rest))"

text \<open>\<open>same\<close> is the outcome of \<open>os.SameFile\<close> for the file as listed and as opened.\<close>

definition readPublicationIndex :: "io \<Rightarrow> bool \<Rightarrow> string \<Rightarrow> publicationIndex fs \<Rightarrow> Descriptor list result" where
  "readPublicationIndex w same p f =
     (case fs_live f p of None \<Rightarrow> Inr []
      | Some n \<Rightarrow>
          if node_type n \<noteq> RegularFile \<or> node_perm n \<noteq> mode_0600 \<or> node_size n > maximumIndexBytes
          then Inl (ErrMsg ''invalid artifact publication index'')
          else if \<not> io_open w then Inl (ErrMsg ''open artifact publication index'')
          else if \<not> same then Inl (ErrMsg ''artifact publication index changed while opening'')
          else (case node_data n of
              None \<Rightarrow> Inl (ErrMsg ''decode artifact publication index'')
            | Some doc \<Rightarrow>
                if \<not> io_read w \<or> pix_Schema doc \<noteq> publicationIndexSchema then Inl (ErrMsg ''decode artifact publication index'')
                else check_publications [] (pix_Descriptors doc)))"

fun revalidate :: "object_source \<Rightarrow> Descriptor list \<Rightarrow> Descriptor list \<Rightarrow> Descriptor list result" where
  "revalidate get registered [] = Inr registered"
| "revalidate get registered (d # ds) =
     (case get (dsc_Digest d) of
        Inl e \<Rightarrow> Inl (ErrMsg ''artifact publication index does not match stored object'')
      | Inr v \<Rightarrow>
          if word_of_nat (length v) \<noteq> dsc_SizeBytes d
          then Inl (ErrMsg ''artifact publication index does not match stored object'')
          else revalidate get (filter (\<lambda>x. dsc_Digest x \<noteq> dsc_Digest d) registered @ [d]) ds)"

definition OpenPersistent :: "io \<Rightarrow> bool \<Rightarrow> object_source \<Rightarrow> bool \<Rightarrow> url_parts option \<Rightarrow> string \<Rightarrow> string \<Rightarrow> string option \<Rightarrow> unit node option
    \<Rightarrow> publicationIndex fs \<Rightarrow> Locator result" where
  "OpenPersistent w same get has_store parsed origin indexPath resolved info f =
     (case locator_New has_store parsed origin of Inl e \<Rightarrow> Inl e
      | Inr l \<Rightarrow>
          if \<not> is_abs indexPath \<or> path_clean indexPath \<noteq> indexPath
          then Inl (ErrMsg ''artifact publication index path must be canonical and absolute'')
          else if resolved \<noteq> Some (path_dir indexPath)
          then Inl (ErrMsg ''artifact publication index directory contains a symlink'')
          else (case info of None \<Rightarrow> Inl (ErrMsg ''artifact publication index directory must be private'')
            | Some n \<Rightarrow>
                if node_type n \<noteq> DirectoryFile \<or> node_perm n \<noteq> mode_0700
                then Inl (ErrMsg ''artifact publication index directory must be private'')
                else (case readPublicationIndex w same indexPath f of Inl e \<Rightarrow> Inl e
                  | Inr ds \<Rightarrow>
                      (case revalidate get [] ds of Inl e \<Rightarrow> Inl e
                       | Inr registered \<Rightarrow> Inr (l\<lparr>loc_index := indexPath, loc_descriptors := registered\<rparr>)))))"

text \<open>
  \<open>writePublicationIndexLocked\<close>.  The error of \<open>Chmod\<close> and of \<open>Write\<close> is assigned to a variable of the
  enclosing \<open>if\<close> and is not seen afterwards, so only \<open>Sync\<close> and \<open>Close\<close> decide whether the file is
  committed.  \<open>partial\<close> is the number of bytes a failing \<open>Write\<close> has written.
\<close>

definition index_document :: "Descriptor list \<Rightarrow> Descriptor \<Rightarrow> publicationIndex" where
  "index_document ds add = \<lparr>pix_Schema = publicationIndexSchema, pix_Descriptors = sort_key dsc_Digest (ds @ [add])\<rparr>"

definition written_index :: "io \<Rightarrow> nat \<Rightarrow> publicationIndex \<Rightarrow> publicationIndex node" where
  "written_index w partial doc =
     (let len = length (json_index doc) in
      if \<not> io_chmod w then new_node mode_0600
      else if \<not> io_write w then
        (if partial \<ge> len then node_write doc (min partial (len + 1)) (new_node mode_0600)
         else (new_node mode_0600)\<lparr>node_size := partial\<rparr>)
      else node_write doc (len + 1) (new_node mode_0600))"

definition writePublicationIndexLocked :: "io \<Rightarrow> nat \<Rightarrow> Locator \<Rightarrow> Descriptor \<Rightarrow> publicationIndex fs \<Rightarrow> unit result \<times> publicationIndex fs" where
  "writePublicationIndexLocked w partial l add f =
     (let doc = index_document (loc_descriptors l) add in
      if length (json_index doc) + 1 > maximumIndexBytes then (Inl (ErrMsg ''encode artifact publication index''), f)
      else if \<not> io_open w then (Inl (ErrMsg ''create artifact publication index''), f)
      else if \<not> io_sync w \<or> \<not> io_close w then (Inl (ErrMsg ''write artifact publication index''), f)
      else if \<not> io_rename w then (Inl (ErrMsg ''commit artifact publication index''), f)
      else
        let f' = fs_put (loc_index l) (node_sync (written_index w partial doc)) f in
        if \<not> io_diropen w then (Inl (ErrMsg ''open artifact publication index directory''), f')
        else if \<not> io_dirsync w then (Inl (ErrMsg ''sync artifact publication index directory''), f')
        else (Inr (), fs_dirsync f'))"

definition register_descriptor :: "Descriptor \<Rightarrow> Locator \<Rightarrow> Locator" where
  "register_descriptor d l =
     (if lookup_descriptor (loc_descriptors l) (dsc_Digest d) = None then l\<lparr>loc_descriptors := loc_descriptors l @ [d]\<rparr> else l)"

definition artifact_url :: "Locator \<Rightarrow> Descriptor \<Rightarrow> string" where
  "artifact_url l d = loc_origin l @ pathPrefix @ trim_prefix (dsc_Digest d) ''sha256:''"

definition ArtifactURL :: "io \<Rightarrow> nat \<Rightarrow> object_source \<Rightarrow> Descriptor \<Rightarrow> Locator \<Rightarrow> publicationIndex fs
    \<Rightarrow> string result \<times> Locator \<times> publicationIndex fs" where
  "ArtifactURL w partial get d l f =
     (if \<not> validDescriptor d then (Inl (ErrMsg ''invalid artifact descriptor''), l, f)
      else case get (dsc_Digest d) of
        Inl e \<Rightarrow> (Inl (ErrMsg ''artifact descriptor does not match stored object''), l, f)
      | Inr v \<Rightarrow>
          if word_of_nat (length v) \<noteq> dsc_SizeBytes d
          then (Inl (ErrMsg ''artifact descriptor does not match stored object''), l, f)
          else (case lookup_descriptor (loc_descriptors l) (dsc_Digest d) of
              Some existing \<Rightarrow>
                if existing \<noteq> d then (Inl (ErrMsg ''artifact descriptor conflicts with published metadata''), l, f)
                else (Inr (artifact_url l d), l, f)
            | None \<Rightarrow>
                if loc_index l = [] then (Inr (artifact_url l d), register_descriptor d l, f)
                else (case writePublicationIndexLocked w partial l d f of
                    (Inl e, f') \<Rightarrow> (Inl e, l, f')
                  | (Inr _, f') \<Rightarrow> (Inr (artifact_url l d), register_descriptor d l, f'))))"

section \<open>The handler\<close>

record artifact_request =
  arq_Method :: string
  arq_EscapedPath :: string
  arq_RawQuery :: string
  arq_Fragment :: string

record artifact_response =
  ars_Status :: nat
  ars_Header :: "(string \<times> string) list"
  ars_Body :: bytes

definition not_found :: "string \<Rightarrow> nat \<Rightarrow> artifact_response" where
  "not_found text status = \<lparr>ars_Status = status, ars_Header = [(''Cache-Control'', ''no-store''), (''X-Content-Type-Options'', ''nosniff''),
       (''Content-Type'', ''text/plain; charset=utf-8'')],
     ars_Body = text @ [CHR 0x0A]\<rparr>"

definition locator_Handler :: "object_source \<Rightarrow> Locator \<Rightarrow> artifact_request \<Rightarrow> artifact_response" where
  "locator_Handler get l request =
     (if (arq_Method request \<noteq> ''GET'' \<and> arq_Method request \<noteq> ''HEAD'') \<or> arq_RawQuery request \<noteq> [] \<or> arq_Fragment request \<noteq> []
      then not_found ''not found'' 404
      else
        let hexDigest = drop (length pathPrefix) (arq_EscapedPath request) in
        if \<not> has_prefix (arq_EscapedPath request) pathPrefix \<or> length hexDigest \<noteq> 64 \<or> CHR ''/'' \<in> set hexDigest \<or> to_lower hexDigest \<noteq> hexDigest
        then not_found ''not found'' 404
        else
          let digest = ''sha256:'' @ hexDigest in
          case lookup_descriptor (loc_descriptors l) digest of
            None \<Rightarrow> not_found ''not found'' 404
          | Some d \<Rightarrow>
              (case get digest of
                 Inl e \<Rightarrow> not_found ''artifact unavailable'' 410
               | Inr v \<Rightarrow>
                   if word_of_nat (length v) \<noteq> dsc_SizeBytes d then not_found ''artifact unavailable'' 410
                   else if digest \<noteq> sha256_digest v then not_found ''artifact unavailable'' 410
                   else \<lparr>ars_Status = 200,
                     ars_Header = [(''Cache-Control'', ''public, max-age=31536000, immutable''), (''X-Content-Type-Options'', ''nosniff''),
                       (''Content-Type'', dsc_MediaType d), (''Content-Length'', show_nat (unat (dsc_SizeBytes d))),
                       (''Digest'', ''sha-256='' @ b64_std_encode (sha256 v)), (''ETag'', CHR 0x22 # hexDigest @ [CHR 0x22])],
                     ars_Body = (if arq_Method request = ''HEAD'' then [] else v)\<rparr>))"

section \<open>The index and the registered descriptors\<close>

definition matches_store :: "object_source \<Rightarrow> Descriptor \<Rightarrow> bool" where
  "matches_store get d \<longleftrightarrow> validDescriptor d \<and> (\<exists>v. get (dsc_Digest d) = Inr v \<and> word_of_nat (length v) = dsc_SizeBytes d)"

definition locator_ok :: "object_source \<Rightarrow> Locator \<Rightarrow> bool" where
  "locator_ok get l \<longleftrightarrow> distinct (map dsc_Digest (loc_descriptors l)) \<and> list_all (matches_store get) (loc_descriptors l)"

definition index_node :: "publicationIndex \<Rightarrow> publicationIndex node" where
  "index_node doc = node_sync (node_write doc (length (json_index doc) + 1) (new_node mode_0600))"

definition good_index :: "object_source \<Rightarrow> publicationIndex \<Rightarrow> bool" where
  "good_index get doc \<longleftrightarrow> pix_Schema doc = publicationIndexSchema \<and> sorted_wrt (<) (map dsc_Digest (pix_Descriptors doc))
     \<and> list_all (matches_store get) (pix_Descriptors doc) \<and> length (json_index doc) + 1 \<le> maximumIndexBytes"

definition index_holds :: "object_source \<Rightarrow> Descriptor set \<Rightarrow> publicationIndex node option \<Rightarrow> bool" where
  "index_holds get R entry \<longleftrightarrow> (entry = None \<and> R = {})
     \<or> (\<exists>doc. entry = Some (index_node doc) \<and> good_index get doc \<and> R \<subseteq> set (pix_Descriptors doc))"

definition locator_inv :: "object_source \<Rightarrow> string \<Rightarrow> Locator \<times> publicationIndex fs \<Rightarrow> bool" where
  "locator_inv get idx s \<longleftrightarrow> locator_ok get (fst s) \<and> loc_index (fst s) = idx \<and> idx \<noteq> []
     \<and> index_holds get (set (loc_descriptors (fst s))) (fs_live (snd s) idx)
     \<and> index_holds get (set (loc_descriptors (fst s))) (fs_disk (snd s) idx)"

lemma lookup_None: "lookup_descriptor ds x = None \<longleftrightarrow> x \<notin> dsc_Digest ` set ds"
  by (auto simp: lookup_descriptor_def find_None_iff)

lemma lookup_Some:
  assumes "lookup_descriptor ds x = Some d"
  shows "d \<in> set ds" and "dsc_Digest d = x"
  using assms unfolding lookup_descriptor_def by (auto simp: find_Some_iff)

lemma lookup_append_None: "lookup_descriptor ds (dsc_Digest d) = None \<Longrightarrow> lookup_descriptor (ds @ [d]) (dsc_Digest d) = Some d"
  unfolding lookup_descriptor_def by (induction ds) auto

lemma valid_digest: "validDescriptor d \<Longrightarrow> hex64_after ''sha256:'' (dsc_Digest d)"
  by (auto simp: validDescriptor_def hex64_after_def trim_prefix_def)

lemma valid_digest_nonempty: "validDescriptor d \<Longrightarrow> [] < dsc_Digest d"
  by (cases "dsc_Digest d") (auto simp: validDescriptor_def)

lemma check_publications_ok:
  assumes "sorted_wrt (<) (map dsc_Digest ds)" and "list_all validDescriptor ds"
    and "\<forall>d \<in> set ds. previous < dsc_Digest d"
  shows "check_publications previous ds = Inr ds"
  using assms by (induction ds arbitrary: previous) auto

lemma revalidate_ok:
  assumes "distinct (map dsc_Digest (registered @ ds))" and "list_all (matches_store get) ds"
  shows "revalidate get registered ds = Inr (registered @ ds)"
  using assms
proof (induction ds arbitrary: registered)
  case (Cons d ds)
  obtain v where v: "get (dsc_Digest d) = Inr v" "word_of_nat (length v) = dsc_SizeBytes d"
    using Cons.prems(2) by (auto simp: matches_store_def)
  have "filter (\<lambda>x. dsc_Digest x \<noteq> dsc_Digest d) registered = registered"
    using Cons.prems(1) by (auto simp: filter_id_conv) (metis imageI)
  then show ?case using Cons.IH [of "registered @ [d]"] Cons.prems v by simp
qed simp

lemma revalidate_Inr:
  assumes "revalidate get registered ds = Inr registered'" and "distinct (map dsc_Digest registered)"
    and "list_all (matches_store get) registered" and "list_all validDescriptor ds"
  shows "distinct (map dsc_Digest registered') \<and> list_all (matches_store get) registered' \<and> set registered' \<subseteq> set registered \<union> set ds"
  using assms
proof (induction ds arbitrary: registered)
  case (Cons d ds)
  obtain v where v: "get (dsc_Digest d) = Inr v" "word_of_nat (length v) = dsc_SizeBytes d"
    using Cons.prems(1) by (auto split: sum.splits if_splits)
  let ?r = "filter (\<lambda>x. dsc_Digest x \<noteq> dsc_Digest d) registered @ [d]"
  have "revalidate get ?r ds = Inr registered'" using Cons.prems(1) v by simp
  moreover have "distinct (map dsc_Digest ?r)" using Cons.prems(2) by (auto simp: distinct_map_filter)
  moreover have "list_all (matches_store get) ?r" using Cons.prems(3,4) v by (auto simp: list_all_iff matches_store_def)
  ultimately show ?case using Cons.IH [of ?r] Cons.prems(4) by auto
qed simp

lemma check_publications_Inr:
  "check_publications previous ds = Inr rs \<Longrightarrow> rs = ds \<and> list_all validDescriptor ds"
  by (induction ds arbitrary: previous rs) (auto split: if_splits sum.splits)

lemma strict_sort:
  assumes "distinct (map dsc_Digest ds)"
  shows "sorted_wrt (<) (map dsc_Digest (sort_key dsc_Digest ds))"
proof -
  have "sorted (map dsc_Digest (sort_key dsc_Digest ds))" by simp
  moreover have "distinct (map dsc_Digest (sort_key dsc_Digest ds))"
    using assms by (metis distinct_map distinct_sort set_sort)
  ultimately show ?thesis by (simp add: strict_sorted_iff)
qed

lemma read_index_node:
  assumes "fs_live f p = Some (index_node doc)" and "good_index get doc" and "io_open w" "io_read w"
  shows "readPublicationIndex w True p f = Inr (pix_Descriptors doc)"
proof -
  have "list_all validDescriptor (pix_Descriptors doc)"
    using assms(2) by (auto simp: good_index_def matches_store_def list_all_iff)
  then have "check_publications [] (pix_Descriptors doc) = Inr (pix_Descriptors doc)"
    using assms(2) valid_digest_nonempty by (intro check_publications_ok) (auto simp: good_index_def list_all_iff)
  then show ?thesis using assms by (simp add: readPublicationIndex_def index_node_def good_index_def)
qed

lemma read_index_holds:
  assumes "index_holds get R (fs_live f p)" and "io_open w" "io_read w"
  shows "\<exists>ds. readPublicationIndex w True p f = Inr ds \<and> sorted_wrt (<) (map dsc_Digest ds) \<and> list_all (matches_store get) ds \<and> R \<subseteq> set ds"
proof -
  from assms(1) consider "fs_live f p = None" "R = {}"
    | doc where "fs_live f p = Some (index_node doc)" "good_index get doc" "R \<subseteq> set (pix_Descriptors doc)"
    unfolding index_holds_def by auto
  then show ?thesis
  proof cases
    case 1
    then show ?thesis by (simp add: readPublicationIndex_def)
  next
    case 2
    then show ?thesis using read_index_node [OF 2(1,2) assms(2,3)] by (simp add: good_index_def)
  qed
qed

lemma index_holds_crash:
  assumes "index_holds get R (fs_live f p)" and "index_holds get R (fs_disk f p)"
  shows "index_holds get R (crash_map ch f p)"
proof -
  have "crash_node k (index_node doc) = index_node doc" for k doc
    by (rule crash_node_synced) (simp add: index_node_def)
  then show ?thesis using assms by (auto simp: crash_map_def index_holds_def)
qed

lemma index_holds_mono: "index_holds get R e \<Longrightarrow> R' \<subseteq> R \<Longrightarrow> index_holds get R' e"
  by (auto simp: index_holds_def)

section \<open>Publishing, crashing and reopening\<close>

text \<open>
  A step of a process with its index file: a publication, with any outcome of its system calls but
  those of \<open>Chmod\<close> and \<open>Write\<close> on the temporary file, which succeed; or a crash followed by reopening.
\<close>

inductive publish_step :: "object_source \<Rightarrow> url_parts option \<Rightarrow> string \<Rightarrow> string \<Rightarrow> Locator \<times> publicationIndex fs
    \<Rightarrow> Locator \<times> publicationIndex fs \<Rightarrow> bool" for get parsed origin idx where
  pub_publish: "ArtifactURL w partial get d l f = (r, l', f') \<Longrightarrow> io_chmod w \<Longrightarrow> io_write w \<Longrightarrow>
     publish_step get parsed origin idx (l, f) (l', f')"
| pub_reopen: "OpenPersistent w same get True parsed origin idx resolved info (fs_crash ch f) = Inr l' \<Longrightarrow>
     publish_step get parsed origin idx (l, f) (l', fs_crash ch f)"

definition publish_init :: "object_source \<Rightarrow> url_parts option \<Rightarrow> string \<Rightarrow> string \<Rightarrow> Locator \<times> publicationIndex fs \<Rightarrow> bool" where
  "publish_init get parsed origin idx s \<longleftrightarrow> snd s = fs_empty \<and> (\<exists>w same resolved info.
     OpenPersistent w same get True parsed origin idx resolved info fs_empty = Inr (fst s))"

lemma OpenPersistent_Inr:
  assumes "OpenPersistent w same get has_store parsed origin idx resolved info f = Inr l"
  shows "\<exists>l0 n ds. locator_New has_store parsed origin = Inr l0 \<and> is_abs idx \<and> path_clean idx = idx \<and> resolved = Some (path_dir idx)
     \<and> info = Some n \<and> node_type n = DirectoryFile \<and> node_perm n = mode_0700
     \<and> readPublicationIndex w same idx f = Inr ds \<and> revalidate get [] ds = Inr (loc_descriptors l) \<and> loc_index l = idx \<and> loc_origin l = origin"
  using assms unfolding OpenPersistent_def locator_New_def
  by (auto split: sum.splits option.splits if_splits)

lemma readPublicationIndex_Inr:
  assumes "readPublicationIndex w same p f = Inr ds"
  shows "list_all validDescriptor ds"
    and "ds = [] \<or> (\<exists>n doc. fs_live f p = Some n \<and> node_data n = Some doc \<and> ds = pix_Descriptors doc)"
  using assms check_publications_Inr unfolding readPublicationIndex_def
  by (auto split: option.splits if_splits)

lemma publish_write:
  assumes "writePublicationIndexLocked w partial l d f = (r, f')" and "io_chmod w" "io_write w"
    and "locator_ok get l" "matches_store get d" "lookup_descriptor (loc_descriptors l) (dsc_Digest d) = None"
  shows "f' = f \<or> (\<exists>doc. good_index get doc \<and> set (pix_Descriptors doc) = insert d (set (loc_descriptors l))
     \<and> (f' = fs_put (loc_index l) (index_node doc) f \<or> f' = fs_dirsync (fs_put (loc_index l) (index_node doc) f)))"
    and "r = Inr () \<Longrightarrow> \<exists>doc. good_index get doc \<and> set (pix_Descriptors doc) = insert d (set (loc_descriptors l))
     \<and> f' = fs_dirsync (fs_put (loc_index l) (index_node doc) f)"
proof -
  define doc where "doc = index_document (loc_descriptors l) d"
  have ds: "set (pix_Descriptors doc) = insert d (set (loc_descriptors l))"
    by (simp add: doc_def index_document_def)
  have "sorted_wrt (<) (map dsc_Digest (pix_Descriptors doc))"
    unfolding doc_def index_document_def using strict_sort [of "loc_descriptors l @ [d]"] assms(4,6)
    by (simp add: locator_ok_def lookup_None)
  then have good: "good_index get doc" if "length (json_index doc) + 1 \<le> maximumIndexBytes"
    using that ds assms(4,5) by (auto simp: good_index_def locator_ok_def list_all_iff doc_def index_document_def)
  have node: "node_sync (written_index w partial doc) = index_node doc"
    using assms(2,3) by (simp add: written_index_def index_node_def Let_def)
  note eq = assms(1) [unfolded writePublicationIndexLocked_def, folded doc_def, unfolded Let_def node]
  show "f' = f \<or> (\<exists>doc. good_index get doc \<and> set (pix_Descriptors doc) = insert d (set (loc_descriptors l))
     \<and> (f' = fs_put (loc_index l) (index_node doc) f \<or> f' = fs_dirsync (fs_put (loc_index l) (index_node doc) f)))"
    using eq good ds by (auto split: if_splits)
  show "\<exists>doc. good_index get doc \<and> set (pix_Descriptors doc) = insert d (set (loc_descriptors l))
     \<and> f' = fs_dirsync (fs_put (loc_index l) (index_node doc) f)" if "r = Inr ()"
    using eq good ds that by (auto split: if_splits)
qed

lemma ArtifactURL_cases:
  assumes "ArtifactURL w partial get d l f = (r, l', f')"
  obtains (refused) e where "r = Inl e" "l' = l" "f' = f"
  | (known) "r = Inr (artifact_url l d)" "l' = l" "f' = f" "matches_store get d" "lookup_descriptor (loc_descriptors l) (dsc_Digest d) = Some d"
  | (memory) "r = Inr (artifact_url l d)" "loc_index l = []" "l' = register_descriptor d l" "f' = f" "matches_store get d"
      "lookup_descriptor (loc_descriptors l) (dsc_Digest d) = None"
  | (index) r1 where "matches_store get d" "lookup_descriptor (loc_descriptors l) (dsc_Digest d) = None"
      "writePublicationIndexLocked w partial l d f = (r1, f')" "loc_index l \<noteq> []"
      "(\<exists>e. r1 = Inl e \<and> r = Inl e \<and> l' = l) \<or> (r1 = Inr () \<and> r = Inr (artifact_url l d) \<and> l' = register_descriptor d l)"
proof (cases "matches_store get d")
  case False
  then show ?thesis
    using assms refused unfolding ArtifactURL_def matches_store_def by (auto split: if_splits sum.splits)
next
  case m: True
  then obtain v where v: "validDescriptor d" "get (dsc_Digest d) = Inr v" "word_of_nat (length v) = dsc_SizeBytes d"
    by (auto simp: matches_store_def)
  show ?thesis
  proof (cases "lookup_descriptor (loc_descriptors l) (dsc_Digest d)")
    case (Some x)
    show ?thesis
    proof (cases "x = d")
      case True
      then have "ArtifactURL w partial get d l f = (Inr (artifact_url l d), l, f)"
        using v Some by (simp add: ArtifactURL_def)
      then show ?thesis using assms known m Some True by simp
    next
      case False
      then have "ArtifactURL w partial get d l f = (Inl (ErrMsg ''artifact descriptor conflicts with published metadata''), l, f)"
        using v Some by (simp add: ArtifactURL_def)
      then show ?thesis using assms refused by simp
    qed
  next
    case None
    obtain r1 f1 where wr: "writePublicationIndexLocked w partial l d f = (r1, f1)" by fastforce
    show ?thesis
    proof (cases "loc_index l = []")
      case True
      then have "ArtifactURL w partial get d l f = (Inr (artifact_url l d), register_descriptor d l, f)"
        using v None by (simp add: ArtifactURL_def)
      then show ?thesis using assms memory m None True by simp
    next
      case False
      show ?thesis
      proof (cases r1)
        case (Inl e)
        then have "ArtifactURL w partial get d l f = (Inl e, l, f1)" using v None wr False by (simp add: ArtifactURL_def)
        then show ?thesis using assms index [OF m None _ False] wr Inl by simp
      next
        case (Inr u)
        then have "ArtifactURL w partial get d l f = (Inr (artifact_url l d), register_descriptor d l, f1)"
          using v None wr False by (simp add: ArtifactURL_def)
        then show ?thesis using assms index [OF m None _ False] wr Inr by simp
      qed
    qed
  qed
qed

lemma register_set:
  "lookup_descriptor (loc_descriptors l) (dsc_Digest d) = None \<Longrightarrow> loc_descriptors (register_descriptor d l) = loc_descriptors l @ [d]"
  "loc_index (register_descriptor d l) = loc_index l" "loc_origin (register_descriptor d l) = loc_origin l"
  by (simp_all add: register_descriptor_def)

lemma locator_ok_register:
  "locator_ok get l \<Longrightarrow> matches_store get d \<Longrightarrow> lookup_descriptor (loc_descriptors l) (dsc_Digest d) = None
    \<Longrightarrow> locator_ok get (register_descriptor d l)"
  by (simp add: locator_ok_def register_set lookup_None)

lemma publish_step_inv:
  assumes "publish_step get parsed origin idx s s'" and "locator_inv get idx s"
  shows "locator_inv get idx s'"
  using assms
proof (induction rule: publish_step.induct)
  case (pub_publish w partial d l f r l' f')
  have inv: "locator_ok get l" "loc_index l = idx" "idx \<noteq> []" "index_holds get (set (loc_descriptors l)) (fs_live f idx)"
    "index_holds get (set (loc_descriptors l)) (fs_disk f idx)"
    using pub_publish(4) by (simp_all add: locator_inv_def)
  from pub_publish(1) show ?case
  proof (cases rule: ArtifactURL_cases)
    case memory
    then show ?thesis using inv by simp
  next
    case (index r1)
    note wr = publish_write [OF index(3) pub_publish(2,3) inv(1) index(1,2)]
    have put: "index_holds get (insert d (set (loc_descriptors l))) (Some (index_node doc))"
      if "good_index get doc" "set (pix_Descriptors doc) = insert d (set (loc_descriptors l))" for doc
      using that by (auto simp: index_holds_def)
    from index(5) show ?thesis
    proof
      assume "\<exists>e. r1 = Inl e \<and> r = Inl e \<and> l' = l"
      then have "l' = l" by blast
      then show ?thesis using wr(1) inv put index_holds_mono [OF put] by (fastforce simp: locator_inv_def)
    next
      assume a: "r1 = Inr () \<and> r = Inr (artifact_url l d) \<and> l' = register_descriptor d l"
      then obtain doc where "good_index get doc" "set (pix_Descriptors doc) = insert d (set (loc_descriptors l))"
        "f' = fs_dirsync (fs_put (loc_index l) (index_node doc) f)" using wr(2) by blast
      then show ?thesis using a inv put locator_ok_register [OF inv(1) index(1,2)] index(2) by (simp add: locator_inv_def register_set)
    qed
  qed (use inv in \<open>simp_all add: locator_inv_def\<close>)
next
  case (pub_reopen w same resolved info ch f l' l)
  have inv: "index_holds get (set (loc_descriptors l)) (fs_live f idx)" "index_holds get (set (loc_descriptors l)) (fs_disk f idx)"
    using pub_reopen(2) by (simp_all add: locator_inv_def)
  obtain ds where ds: "readPublicationIndex w same idx (fs_crash ch f) = Inr ds" "revalidate get [] ds = Inr (loc_descriptors l')" "loc_index l' = idx"
    "idx \<noteq> []"
    using OpenPersistent_Inr [OF pub_reopen(1)] by (auto simp: is_abs_def has_prefix_iff)
  have l': "locator_ok get l'" "set (loc_descriptors l') \<subseteq> set ds"
    using revalidate_Inr [OF ds(2)] readPublicationIndex_Inr(1) [OF ds(1)] by (simp_all add: locator_ok_def)
  have "index_holds get (set (loc_descriptors l')) (crash_map ch f idx)"
    using index_holds_crash [OF inv, of ch] l'(2) readPublicationIndex_Inr(2) [OF ds(1)]
    by (auto simp: index_holds_def index_node_def)
  then show ?case using l'(1) ds(3,4) by (simp add: locator_inv_def)
qed

lemma publish_init_inv: "publish_init get parsed origin idx s \<Longrightarrow> locator_inv get idx s"
proof -
  assume "publish_init get parsed origin idx s"
  then obtain w same resolved info where s: "snd s = fs_empty" "OpenPersistent w same get True parsed origin idx resolved info fs_empty = Inr (fst s)"
    by (auto simp: publish_init_def)
  obtain ds where ds: "readPublicationIndex w same idx (fs_empty :: publicationIndex fs) = Inr ds"
    "revalidate get [] ds = Inr (loc_descriptors (fst s))" "loc_index (fst s) = idx" "idx \<noteq> []"
    using OpenPersistent_Inr [OF s(2)] by (auto simp: is_abs_def has_prefix_iff)
  moreover have "ds = []" using ds(1) by (simp add: readPublicationIndex_def)
  ultimately show ?thesis using s(1) by (simp add: locator_inv_def locator_ok_def index_holds_def)
qed

interpretation publication: invariant_system "publish_init get parsed origin idx" "publish_step get parsed origin idx" "locator_inv get idx"
  for get parsed origin idx
  by unfold_locales (blast intro: publish_init_inv publish_step_inv)+

lemma reopen_ok:
  assumes "locator_inv get idx (l, f)" and "OpenPersistent w same get True parsed origin idx resolved info f0 = Inr l0"
  shows "\<exists>l2. OpenPersistent io_ok True get True parsed origin idx resolved info (fs_crash ch f) = Inr l2
     \<and> set (loc_descriptors l) \<subseteq> set (loc_descriptors l2)"
proof -
  obtain n lx where env: "locator_New True parsed origin = Inr lx" "is_abs idx" "path_clean idx = idx" "resolved = Some (path_dir idx)"
    "info = Some n" "node_type n = DirectoryFile" "node_perm n = mode_0700"
    using OpenPersistent_Inr [OF assms(2)] by blast
  have "index_holds get (set (loc_descriptors l)) (fs_live (fs_crash ch f) idx)"
    using assms(1) index_holds_crash by (simp add: locator_inv_def)
  from read_index_holds [OF this, of io_ok]
  obtain ds where ds: "readPublicationIndex io_ok True idx (fs_crash ch f) = Inr ds" "sorted_wrt (<) (map dsc_Digest ds)"
    "list_all (matches_store get) ds" "set (loc_descriptors l) \<subseteq> set ds" by auto
  have "revalidate get [] ds = Inr ([] @ ds)"
    by (rule revalidate_ok) (use ds(2,3) strict_sorted_iff in auto)
  then show ?thesis
    using env ds(1,4) by (intro exI [of _ "lx\<lparr>loc_index := idx, loc_descriptors := ds\<rparr>"]) (simp add: OpenPersistent_def)
qed


section \<open>Serving what was published\<close>

lemma artifact_path:
  assumes "validDescriptor d"
  shows "drop (length (loc_origin l)) (artifact_url l d) = pathPrefix @ trim_prefix (dsc_Digest d) ''sha256:''"
    and "length (trim_prefix (dsc_Digest d) ''sha256:'') = 64" and "''sha256:'' @ trim_prefix (dsc_Digest d) ''sha256:'' = dsc_Digest d"
    and "CHR ''/'' \<notin> set (trim_prefix (dsc_Digest d) ''sha256:'')"
    and "to_lower (trim_prefix (dsc_Digest d) ''sha256:'') = trim_prefix (dsc_Digest d) ''sha256:''"
proof -
  obtain h where h: "dsc_Digest d = ''sha256:'' @ h" "length h = 64" "list_all is_lower_hex h"
    using valid_digest [OF assms] unfolding hex64_after_decompose by blast
  have t: "trim_prefix (dsc_Digest d) ''sha256:'' = h" unfolding h(1) by (rule trim_prefix_append)
  show "drop (length (loc_origin l)) (artifact_url l d) = pathPrefix @ trim_prefix (dsc_Digest d) ''sha256:''"
    by (simp add: artifact_url_def)
  show "length (trim_prefix (dsc_Digest d) ''sha256:'') = 64" "''sha256:'' @ trim_prefix (dsc_Digest d) ''sha256:'' = dsc_Digest d"
    unfolding t using h by simp_all
  show "CHR ''/'' \<notin> set (trim_prefix (dsc_Digest d) ''sha256:'')"
    unfolding t using h(3) by (auto simp: list_all_iff is_lower_hex_def is_digit_def)
  have "to_lower (dsc_Digest d) = dsc_Digest d" using assms by (simp add: validDescriptor_def)
  then have "to_lower h = h" unfolding h(1) by (simp add: to_lower_def)
  then show "to_lower (trim_prefix (dsc_Digest d) ''sha256:'') = trim_prefix (dsc_Digest d) ''sha256:''"
    unfolding t .
qed

text \<open>
  C28. A published URL serves the object it names.  When \<open>ArtifactURL\<close> returns a URL for a descriptor over the
  content-addressed store, a GET of the URL's path is answered with status 200, the media type of the
  descriptor and bytes with the descriptor's digest and size, namely those \<open>Get\<close> returns for that digest.
\<close>

theorem published_url_serves_object:
  assumes "ArtifactURL w partial (\<lambda>d. Get v same s False False d objects) d l f = (Inr url, l', f')"
  shows "\<exists>content. Get v same s False False (dsc_Digest d) objects = Inr content \<and> sha256_digest content = dsc_Digest d
     \<and> word_of_nat (length content) = dsc_SizeBytes d
     \<and> (let r = locator_Handler (\<lambda>d. Get v same s False False d objects) l'
              \<lparr>arq_Method = ''GET'', arq_EscapedPath = drop (length (loc_origin l)) url, arq_RawQuery = [], arq_Fragment = []\<rparr>
        in ars_Status r = 200 \<and> ars_Body r = content \<and> (''Content-Type'', dsc_MediaType d) \<in> set (ars_Header r))"
proof -
  let ?get = "\<lambda>d. Get v same s False False d objects"
  have *: "matches_store ?get d \<and> url = artifact_url l d \<and> lookup_descriptor (loc_descriptors l') (dsc_Digest d) = Some d"
    using assms
  proof (cases rule: ArtifactURL_cases)
    case memory
    then show ?thesis using lookup_append_None by (simp add: register_set)
  next
    case (index r1)
    then show ?thesis using lookup_append_None by (simp add: register_set)
  qed simp_all
  then have v: "validDescriptor d" by (simp add: matches_store_def)
  obtain content where c: "?get (dsc_Digest d) = Inr content" "word_of_nat (length content) = dsc_SizeBytes d"
    using * by (auto simp: matches_store_def)
  have dig: "sha256_digest content = dsc_Digest d" using Get_Inr_digest [OF c(1)] .
  note p = artifact_path [OF v]
  have "locator_Handler ?get l' \<lparr>arq_Method = ''GET'', arq_EscapedPath = pathPrefix @ trim_prefix (dsc_Digest d) ''sha256:'',
      arq_RawQuery = [], arq_Fragment = []\<rparr> =
     \<lparr>ars_Status = 200,
        ars_Header = [(''Cache-Control'', ''public, max-age=31536000, immutable''), (''X-Content-Type-Options'', ''nosniff''),
          (''Content-Type'', dsc_MediaType d), (''Content-Length'', show_nat (unat (dsc_SizeBytes d))),
          (''Digest'', ''sha-256='' @ b64_std_encode (sha256 content)),
          (''ETag'', CHR 0x22 # trim_prefix (dsc_Digest d) ''sha256:'' @ [CHR 0x22])],
        ars_Body = content\<rparr>"
    using p c dig * by (simp add: locator_Handler_def Let_def has_prefix_iff)
  then show ?thesis using c dig * p(1) by (simp add: Let_def)
qed

section \<open>A failing write\<close>

text \<open>
  C37. A write that fails destroys the index and is reported as success.  When the write of the temporary
  index fails, \<open>ArtifactURL\<close> still commits the incomplete file and returns the URL, and from then on, with or
  without a crash, the locator can never be opened again.
\<close>

theorem failed_write_destroys_index:
  assumes "matches_store get d" and "lookup_descriptor (loc_descriptors l) (dsc_Digest d) = None" and "loc_index l \<noteq> []"
    and "length (json_index (index_document (loc_descriptors l) d)) + 1 \<le> maximumIndexBytes"
  shows "\<exists>f'. ArtifactURL (io_ok\<lparr>io_write := False\<rparr>) 0 get d l f = (Inr (artifact_url l d), register_descriptor d l, f')
     \<and> (\<forall>ch w same get has_store parsed origin resolved info.
          isl (OpenPersistent w same get has_store parsed origin (loc_index l) resolved info f')
          \<and> isl (OpenPersistent w same get has_store parsed origin (loc_index l) resolved info (fs_crash ch f')))"
proof -
  let ?w = "io_ok\<lparr>io_write := False\<rparr>"
  let ?doc = "index_document (loc_descriptors l) d"
  let ?n = "node_sync (written_index ?w 0 ?doc)"
  let ?f = "fs_dirsync (fs_put (loc_index l) ?n f)"
  obtain v where v: "validDescriptor d" "get (dsc_Digest d) = Inr v" "word_of_nat (length v) = dsc_SizeBytes d"
    using assms(1) by (auto simp: matches_store_def)
  have "writePublicationIndexLocked ?w 0 l d f = (Inr (), ?f)"
    using assms(4) by (simp add: writePublicationIndexLocked_def Let_def)
  then have url: "ArtifactURL ?w 0 get d l f = (Inr (artifact_url l d), register_descriptor d l, ?f)"
    using v assms(2,3) by (simp add: ArtifactURL_def)
  have "json_index ?doc \<noteq> []" by (simp add: json_index_def)
  then have data: "node_data ?n = None" "node_synced ?n" by (simp_all add: written_index_def Let_def new_node_def)
  have bad: "isl (OpenPersistent w same get has_store parsed origin (loc_index l) resolved info g)"
    if "fs_live g (loc_index l) = Some ?n" for w same get has_store parsed origin resolved info g
  proof -
    have "isl (readPublicationIndex w same (loc_index l) g)"
      using that data(1) by (simp add: readPublicationIndex_def)
    then show ?thesis
      by (auto simp: OpenPersistent_def isl_def split: sum.splits option.splits)
  qed
  have "fs_live (fs_crash ch ?f) (loc_index l) = Some ?n" for ch
    using data(2) by (simp add: crash_map_def crash_node_synced)
  then show ?thesis using url bad by simp
qed

section \<open>A published object\<close>

definition demo_object :: Descriptor where
  "demo_object = \<lparr>dsc_Digest = sha256_digest ''x'', dsc_MediaType = ''text/plain'', dsc_SizeBytes = 1\<rparr>"

definition demo_origin :: url_parts where
  "demo_origin = \<lparr>url_Scheme = ''https'', url_Host = ''example.org'', url_User = False, url_Path = [], url_RawPath = [],
     url_RawQuery = [], url_Fragment = []\<rparr>"

definition demo_directory :: "unit node" where
  "demo_directory = (new_node mode_0700)\<lparr>node_type := DirectoryFile\<rparr>"

abbreviation (input) demo_index :: string where "demo_index \<equiv> ''/state/index''"

definition demo_locator :: Locator where
  "demo_locator = \<lparr>loc_origin = ''https://example.org'', loc_index = demo_index, loc_descriptors = []\<rparr>"

definition demo_source :: object_source where
  "demo_source digest = (if digest = sha256_digest ''x'' then Inr ''x'' else Inl ErrNotExist)"

lemma demo_object_valid: "validDescriptor demo_object"
proof -
  obtain h where h: "sha256_digest ''x'' = ''sha256:'' @ h" "length h = 64" "list_all is_lower_hex h"
    using sha256_digest_pattern [of "''x''"] unfolding hex64_after_decompose by blast
  have "to_lower_char c = c" if "is_lower_hex c" for c
    using that by (auto simp: to_lower_char_def is_lower_hex_def is_digit_def is_upper_def less_eq_char_def)
  then have "to_lower h = h"
    unfolding to_lower_def by (intro map_idI) (use h(3) in \<open>simp add: list_all_iff\<close>)
  then have "to_lower (''sha256:'' @ h) = ''sha256:'' @ h"
    by (simp add: to_lower_def to_lower_char_def is_upper_def)
  moreover have "trim_prefix (''sha256:'' @ h) ''sha256:'' = h" by (rule trim_prefix_append)
  moreover have "has_prefix (''sha256:'' @ h) ''sha256:''" by (simp add: has_prefix_iff)
  ultimately show ?thesis
    unfolding validDescriptor_def demo_object_def Descriptor.simps h(1) using h(2,3) by simp
qed

lemma demo_object_matches: "matches_store demo_source demo_object"
  using demo_object_valid by (simp add: matches_store_def demo_source_def demo_object_def)

lemma demo_opened: "OpenPersistent io_ok True demo_source True (Some demo_origin) ''https://example.org'' demo_index (Some ''/state'')
    (Some demo_directory) fs_empty = Inr demo_locator"
proof -
  have "is_abs demo_index" "path_clean demo_index = demo_index" "path_dir demo_index = ''/state''" by code_simp+
  then show ?thesis
    by (simp add: OpenPersistent_def locator_New_def demo_origin_def demo_directory_def readPublicationIndex_def demo_locator_def)
qed

lemma demo_index_small: "length (json_index (index_document [] demo_object)) + 1 \<le> maximumIndexBytes"
proof -
  have "length (json_string (sha256_digest ''x'')) \<le> 428" using length_json_string_le [of "sha256_digest ''x''"] by simp
  moreover have "length (json_u64 1) \<le> 20" by (rule length_json_u64)
  ultimately show ?thesis
    by (simp add: json_index_def index_document_def json_descriptor_def indent_field_def demo_object_def json_string_def json_escape_def)
qed

lemma demo_published:
  "\<exists>f. ArtifactURL io_ok 0 demo_source demo_object demo_locator fs_empty
     = (Inr (artifact_url demo_locator demo_object), register_descriptor demo_object demo_locator, f)"
  using demo_object_valid demo_index_small
  by (simp add: ArtifactURL_def demo_source_def demo_object_def demo_locator_def lookup_descriptor_def writePublicationIndexLocked_def Let_def)

lemma demo_registered: "loc_descriptors (register_descriptor demo_object demo_locator) = [demo_object]"
  by (simp add: register_descriptor_def demo_locator_def lookup_descriptor_def)


theorem failed_write_destroys_index_witness:
  "\<exists>f. ArtifactURL (io_ok\<lparr>io_write := False\<rparr>) 0 demo_source demo_object demo_locator fs_empty
       = (Inr (artifact_url demo_locator demo_object), register_descriptor demo_object demo_locator, f)
     \<and> isl (OpenPersistent io_ok True demo_source True (Some demo_origin) ''https://example.org'' demo_index (Some ''/state'')
         (Some demo_directory) f)"
proof -
  have i: "loc_index demo_locator = demo_index" "loc_descriptors demo_locator = []" by (simp_all add: demo_locator_def)
  have "\<exists>f'. ArtifactURL (io_ok\<lparr>io_write := False\<rparr>) 0 demo_source demo_object demo_locator fs_empty
       = (Inr (artifact_url demo_locator demo_object), register_descriptor demo_object demo_locator, f')
     \<and> (\<forall>ch w same get has_store parsed origin resolved info.
          isl (OpenPersistent w same get has_store parsed origin (loc_index demo_locator) resolved info f')
          \<and> isl (OpenPersistent w same get has_store parsed origin (loc_index demo_locator) resolved info (fs_crash ch f')))"
    by (rule failed_write_destroys_index) (use demo_object_matches demo_index_small i in \<open>simp_all add: lookup_descriptor_def\<close>)
  then show ?thesis unfolding i by blast
qed

theorem published_url_serves_object_witness:
  "\<exists>url l' f' content. ArtifactURL io_ok 0 (\<lambda>d. Get io_ok True demo_store False False d
         (fs_dirsync (fs_put (object_path (sha256_digest ''x'')) (object_node ''x'') fs_empty))) demo_object
         (demo_locator\<lparr>loc_index := []\<rparr>) fs_empty = (Inr url, l', f')
     \<and> Get io_ok True demo_store False False (dsc_Digest demo_object)
         (fs_dirsync (fs_put (object_path (sha256_digest ''x'')) (object_node ''x'') fs_empty)) = Inr content
     \<and> ars_Body (locator_Handler (\<lambda>d. Get io_ok True demo_store False False d
         (fs_dirsync (fs_put (object_path (sha256_digest ''x'')) (object_node ''x'') fs_empty))) l'
         \<lparr>arq_Method = ''GET'', arq_EscapedPath = drop (length ''https://example.org'') url, arq_RawQuery = [], arq_Fragment = []\<rparr>) = content"
proof -
  let ?o = "fs_dirsync (fs_put (object_path (sha256_digest ''x'')) (object_node ''x'') fs_empty)"
  have get: "Get io_ok True demo_store False False (sha256_digest ''x'') ?o = Inr ''x''"
    by (rule Get_object_node) (simp_all add: demo_store_def)
  have "ArtifactURL io_ok 0 (\<lambda>d. Get io_ok True demo_store False False d ?o) demo_object (demo_locator\<lparr>loc_index := []\<rparr>) fs_empty
     = (Inr (artifact_url (demo_locator\<lparr>loc_index := []\<rparr>) demo_object), register_descriptor demo_object (demo_locator\<lparr>loc_index := []\<rparr>), fs_empty)"
    using demo_object_valid get by (simp add: ArtifactURL_def demo_object_def demo_locator_def lookup_descriptor_def)
  from this published_url_serves_object [OF this] show ?thesis by (auto simp: Let_def demo_locator_def)
qed

end
