(* ===== verification/Containerd_Spec.thy ===== *)
theory Containerd_Spec
  imports Executor_Policy
begin

text \<open>
  Package \<open>pkg/executor/containerdbackend\<close>, files \<open>spec.go\<close> and \<open>metrics.go\<close>, and the checks of the
  backend's configuration in \<open>backend.go\<close>: what a request must look like, the OCI specification a
  container is started with, and the usage read from its metrics.

  The OCI types are those parts of them the code reads or writes; the capability sets of a process are one
  list.  The default seccomp profile and the parser of CDI names are parameters.  A Go map is the list
  of its entries.
\<close>

abbreviation (input) MaxInputBytesHard :: nat where "MaxInputBytesHard \<equiv> 16777216"
abbreviation (input) MaxOutputBytesHard :: u64 where "MaxOutputBytesHard \<equiv> 16777216"
abbreviation (input) MaxArgumentsHard :: nat where "MaxArgumentsHard \<equiv> 64"
abbreviation (input) MaxEnvironmentHard :: nat where "MaxEnvironmentHard \<equiv> 64"
abbreviation (input) MaxStringBytesHard :: nat where "MaxStringBytesHard \<equiv> 4096"
abbreviation (input) MaxMemoryBytesHard :: u64 where "MaxMemoryBytesHard \<equiv> 1099511627776"
abbreviation (input) MaxDiskBytesHard :: u64 where "MaxDiskBytesHard \<equiv> 17592186044416"
abbreviation (input) MaxPIDsHard :: u32 where "MaxPIDsHard \<equiv> 1048576"
abbreviation (input) MaxExecutionTimeHard :: duration where "MaxExecutionTimeHard \<equiv> time_hour"
abbreviation (input) MaxCPUMillisHard :: u64 where "MaxCPUMillisHard \<equiv> 86400000"
abbreviation (input) minimumTmpfsBytes :: u64 where "minimumTmpfsBytes \<equiv> 12288"

section \<open>Checks\<close>

definition validWorkspaceWorkingDirectory :: "string \<Rightarrow> bool" where
  "validWorkspaceWorkingDirectory v \<longleftrightarrow> (v = ''/workspace/source'' \<or> has_prefix v ''/workspace/source/'')
     \<and> path_clean v = v \<and> length v \<le> MaxStringBytesHard"

text \<open>The quota per period of 100 ms that spreads the CPU time over the wall time, rounded up.\<close>

definition cpuQuota :: "Limits \<Rightarrow> (u64 \<times> int) result" where
  "cpuQuota limits =
     (let period = 100000 :: u64; wallMillis = (word_of_int (duration_div (lim_ExecutionTime limits) time_millisecond) :: u64) in
      if wallMillis = 0 \<or> lim_CPUMillis limits > (- 1) div period then Inl (ErrMsg ''invalid containerd CPU limit'')
      else
        let quota = (lim_CPUMillis limits * period + wallMillis - 1) div wallMillis in
        if quota < 1000 \<or> quota > (- 1) div 2 then Inl (ErrMsg ''containerd CPU limit cannot be represented safely'')
        else Inr (period, int64_of quota))"

definition validateDriverLimits :: "Limits \<Rightarrow> bool \<Rightarrow> unit result" where
  "validateDriverLimits limits permitGPU =
     (if lim_CPUMillis limits = 0 \<or> lim_MemoryBytes limits = 0 \<or> lim_DiskBytes limits < minimumTmpfsBytes \<or> lim_PIDs limits = 0
         \<or> lim_ExecutionTime limits \<le> 0 \<or> lim_OutputBytes limits = 0 \<or> lim_CPUMillis limits > MaxCPUMillisHard
         \<or> lim_MemoryBytes limits > MaxMemoryBytesHard \<or> lim_DiskBytes limits > MaxDiskBytesHard \<or> lim_PIDs limits > MaxPIDsHard
         \<or> lim_ExecutionTime limits > MaxExecutionTimeHard \<or> lim_OutputBytes limits > MaxOutputBytesHard
      then Inl (ErrMsg ''containerd resource limits are unsupported or invalid'')
      else if permitGPU \<noteq> (lim_GPUDeviceCount limits > 0) then Inl (ErrMsg ''containerd GPU limits are inconsistent'')
      else case cpuQuota limits of Inl e \<Rightarrow> Inl e | Inr _ \<Rightarrow> Inr ())"

definition invalidRuntimeString :: "string \<Rightarrow> bool \<Rightarrow> bool" where
  "invalidRuntimeString v allowEmpty \<longleftrightarrow> (\<not> allowEmpty \<and> v = []) \<or> length v > MaxStringBytesHard \<or> CHR 0x00 \<in> set v"

definition validateRequest :: "ContainerRequest \<Rightarrow> bytes \<Rightarrow> nat \<Rightarrow> unit result" where
  "validateRequest request input assignedDevices =
     (if isl (ValidateExecutionDigest (req_ExecutionDigest request)) \<or> isl (ValidateExecutionDigest (req_ImageDigest request))
         \<or> length input > MaxInputBytesHard \<or> length (req_Entrypoint request) = 0 \<or> length (req_Entrypoint request) > MaxArgumentsHard
         \<or> length (req_Environment request) > MaxEnvironmentHard \<or> req_UserID request = 0 \<or> req_GroupID request = 0
         \<or> \<not> req_ReadOnlyRoot request \<or> \<not> req_NoNewPrivileges request
         \<or> (req_WorkspaceArchive request \<and> \<not> validWorkspaceWorkingDirectory (req_WorkingDirectory request))
         \<or> (\<not> req_WorkspaceArchive request \<and> req_WorkingDirectory request \<noteq> [] \<and> req_WorkingDirectory request \<noteq> ''/'')
         \<or> req_Network request \<noteq> NetworkNone \<or> length (req_AllowedHosts request) \<noteq> 0
         \<or> isl (validateDriverLimits (req_Limits request) (req_AllowGPU request))
      then Inl (ErrMsg ''unsupported or invalid containerd execution request'')
      else if req_AllowGPU request \<noteq> (assignedDevices > 0) \<or> assignedDevices \<noteq> unat (lim_GPUDeviceCount (req_Limits request))
      then Inl (ErrMsg ''invalid containerd GPU assignment'')
      else if list_ex (\<lambda>a. invalidRuntimeString a False) (req_Entrypoint request)
      then Inl (ErrMsg ''invalid containerd process argument'')
      else if list_ex (\<lambda>(k, v). invalidRuntimeString k False \<or> CHR ''='' \<in> set k \<or> invalidRuntimeString v True) (req_Environment request)
      then Inl (ErrMsg ''invalid containerd process environment'')
      else Inr ())"

definition validGPUAlias :: "string \<Rightarrow> bool" where
  "validGPUAlias v = (if length v < 3 \<or> length v > 64 \<or> contains_sub v ''..'' then False
     else list_all (\<lambda>c. is_lower c \<or> is_digit c \<or> c = CHR ''-'') v)"

text \<open>\<open>parse\<close> gives the device part of a qualified CDI name; \<open>strings.EqualFold\<close> against an ASCII word.\<close>

fun check_devices :: "(string \<Rightarrow> string result) \<Rightarrow> string list \<Rightarrow> (string \<times> string) list \<Rightarrow> unit result" where
  "check_devices parse seen [] = Inr ()"
| "check_devices parse seen ((alias, device) # rest) =
     (if \<not> validGPUAlias alias then Inl (ErrMsg ''invalid GPU device alias'')
      else case parse device of Inl e \<Rightarrow> Inl (ErrMsg ''invalid CDI device identifier'')
      | Inr name \<Rightarrow>
          if to_lower name = ''all'' then Inl (ErrMsg ''invalid CDI device identifier'')
          else if device \<in> set seen then Inl (ErrMsg ''duplicate CDI device identifier'')
          else check_devices parse (device # seen) rest)"

definition validateGPUDeviceMap :: "(string \<Rightarrow> string result) \<Rightarrow> (string \<times> string) list \<Rightarrow> bool \<Rightarrow> u32 \<Rightarrow> unit result" where
  "validateGPUDeviceMap parse devices permitGPU maximum =
     (if \<not> permitGPU then
        (if length devices \<noteq> 0 \<or> maximum \<noteq> 0 then Inl (ErrMsg ''GPU devices require GPU permission'') else Inr ())
      else if maximum = 0 \<or> maximum > word_of_nat (length devices) \<or> length devices > 64
      then Inl (ErrMsg ''invalid GPU device capacity'')
      else check_devices parse [] devices)"

section \<open>The OCI specification\<close>

record oci_process =
  op_Args :: "string list"
  op_Env :: "string list"
  op_Cwd :: string
  op_Terminal :: bool
  op_User :: "u32 \<times> u32"
  op_NoNewPrivileges :: bool
  op_Capabilities :: "string list"
  op_Rlimits :: "(string \<times> nat \<times> nat) list"

record oci_mount =
  om_Destination :: string
  om_Type :: string
  om_Source :: string
  om_Options :: "string list"

record seccomp_profile =
  sec_DefaultAction :: string
  sec_Syscalls :: "string list"

record oci_linux =
  ol_Memory :: "int option"
  ol_Pids :: "int option"
  ol_CPU :: "(u64 \<times> int) option"
  ol_Devices :: "(bool \<times> string) list"
  ol_Seccomp :: "seccomp_profile option"
  ol_Namespaces :: "(string \<times> string) list"

record oci_spec =
  os_Process :: "oci_process option"
  os_Root_Readonly :: "bool option"
  os_Linux :: "oci_linux option"
  os_Mounts :: "oci_mount list"

definition environment :: "(string \<times> string) list \<Rightarrow> string list" where
  "environment values = map (\<lambda>(k, v). k @ ''='' @ v) (sort_key fst values)"

definition hasPrivateNetworkNamespace :: "(string \<times> string) list \<Rightarrow> bool" where
  "hasPrivateNetworkNamespace namespaces \<longleftrightarrow> list_ex (\<lambda>(type, path). type = ''network'' \<and> path = []) namespaces"

definition bounded_mount :: "bool \<Rightarrow> oci_mount \<Rightarrow> bool" where
  "bounded_mount workspace m \<longleftrightarrow> om_Type m = ''tmpfs'' \<and> (om_Destination m = ''/dev'' \<or> om_Destination m = ''/dev/shm''
     \<or> om_Destination m = ''/run'' \<or> (workspace \<and> om_Destination m = ''/workspace''))"

definition bound_mount :: "u64 \<Rightarrow> oci_mount \<Rightarrow> oci_mount" where
  "bound_mount perMount m =
     (let options = filter (\<lambda>opt. \<not> has_prefix opt ''size='') (om_Options m);
          options = (if om_Destination m \<noteq> ''/workspace'' \<and> ''noexec'' \<notin> set options then options @ [''noexec''] else options)
      in m\<lparr>om_Options := options @ [''size='' @ show_nat (unat perMount)]\<rparr>)"

definition boundTmpfsMounts :: "oci_mount list \<Rightarrow> u64 \<Rightarrow> bool \<Rightarrow> oci_mount list result" where
  "boundTmpfsMounts mounts acc workspace =
     (let expected = (if workspace then 4 else 3) :: nat; perMount = acc div word_of_nat expected in
      if perMount < 4096 then Inl (ErrMsg ''containerd disk limit is too small'')
      else if length (filter (bounded_mount workspace) mounts) \<noteq> expected
      then Inl (ErrMsg ''containerd OCI specification has unexpected tmpfs mounts'')
      else Inr (map (\<lambda>m. if bounded_mount workspace m then bound_mount perMount m else m) mounts))"

definition isolated_process :: "ContainerRequest \<Rightarrow> oci_process \<Rightarrow> oci_process" where
  "isolated_process request p = p\<lparr>op_Args := req_Entrypoint request, op_Env := environment (req_Environment request),
     op_Cwd := (if req_WorkingDirectory request = [] then ''/'' else req_WorkingDirectory request), op_Terminal := False,
     op_User := (req_UserID request, req_GroupID request), op_NoNewPrivileges := True, op_Capabilities := [],
     op_Rlimits := [(''RLIMIT_NOFILE'', 1024, 1024)]\<rparr>"

definition isolated_linux :: "ContainerRequest \<Rightarrow> u64 \<Rightarrow> int \<Rightarrow> oci_linux \<Rightarrow> oci_linux" where
  "isolated_linux request period quota l = l\<lparr>ol_Memory := Some (int64_of (lim_MemoryBytes (req_Limits request))),
     ol_Pids := Some (uint (lim_PIDs (req_Limits request))), ol_CPU := Some (period, quota), ol_Devices := [(False, ''rwm'')]\<rparr>"

definition workspace_mounts :: "ContainerRequest \<Rightarrow> string \<Rightarrow> oci_mount list" where
  "workspace_mounts request source =
     [\<lparr>om_Destination = ''/workspace'', om_Type = ''tmpfs'', om_Source = ''tmpfs'',
        om_Options = [''nosuid'', ''nodev'', ''mode=0700'', ''uid='' @ show_nat (unat (req_UserID request)), ''gid='' @ show_nat (unat (req_GroupID request))]\<rparr>,
      \<lparr>om_Destination = ''/workspace/source'', om_Type = ''bind'', om_Source = source,
        om_Options = [''rbind'', ''ro'', ''nosuid'', ''nodev'', ''noexec'']\<rparr>]"

text \<open>The option \<open>fixedIsolationSpec\<close> returns; on an error the specification is discarded by the caller.\<close>

definition fixedIsolationSpec :: "(oci_spec \<Rightarrow> seccomp_profile option) \<Rightarrow> ContainerRequest \<Rightarrow> string list \<Rightarrow> oci_spec \<Rightarrow> oci_spec result" where
  "fixedIsolationSpec DefaultProfile request workspaceSource spec =
     (case (os_Process spec, os_Root_Readonly spec, os_Linux spec) of
        (Some p, Some _, Some l) \<Rightarrow>
          (case cpuQuota (req_Limits request) of Inl e \<Rightarrow> Inl e
           | Inr (period, quota) \<Rightarrow>
               let l1 = isolated_linux request period quota l;
                   s1 = spec\<lparr>os_Process := Some (isolated_process request p), os_Root_Readonly := Some True, os_Linux := Some l1\<rparr>
               in (case DefaultProfile s1 of
                     None \<Rightarrow> Inl (ErrMsg ''containerd default seccomp profile is unavailable'')
                   | Some profile \<Rightarrow>
                       if sec_DefaultAction profile \<noteq> ''SCMP_ACT_ERRNO'' \<or> length (sec_Syscalls profile) = 0
                       then Inl (ErrMsg ''containerd default seccomp profile is unavailable'')
                       else if \<not> hasPrivateNetworkNamespace (ol_Namespaces l1)
                       then Inl (ErrMsg ''containerd OCI specification lacks a private network namespace'')
                       else if req_WorkspaceArchive request \<and> (length workspaceSource \<noteq> 1 \<or> hd workspaceSource = [])
                       then Inl (ErrMsg ''containerd workspace source is unavailable'')
                       else if \<not> req_WorkspaceArchive request \<and> length workspaceSource \<noteq> 0
                       then Inl (ErrMsg ''unexpected containerd workspace source'')
                       else
                         let mounts = (if req_WorkspaceArchive request then os_Mounts spec @ workspace_mounts request (hd workspaceSource)
                                       else os_Mounts spec)
                         in (case boundTmpfsMounts mounts (lim_DiskBytes (req_Limits request)) (req_WorkspaceArchive request) of
                               Inl e \<Rightarrow> Inl e
                             | Inr ms \<Rightarrow> Inr (s1\<lparr>os_Linux := Some (l1\<lparr>ol_Seccomp := Some profile\<rparr>), os_Mounts := ms\<rparr>))))
      | _ \<Rightarrow> Inl (ErrMsg ''containerd generated an incomplete OCI specification''))"

section \<open>Metrics\<close>

abbreviation (input) maxMetricIODevices :: nat where "maxMetricIODevices \<equiv> 4096"

text \<open>Decoded cgroup metrics; an entry of the I/O list may be nil.\<close>

record task_metrics =
  tm_CPU_UsageUsec :: "u64 option"
  tm_Memory :: "(u64 \<times> u64) option"  \<comment> \<open>usage and maximal usage\<close>
  tm_Io_Wbytes :: "u64 option list"

fun sum_written :: "u64 \<Rightarrow> u64 option list \<Rightarrow> u64 option" where
  "sum_written acc [] = Some acc"
| "sum_written acc (None # rest) = None"
| "sum_written acc (Some w # rest) = (if w > (- 1) - acc then None else sum_written (acc + w) rest)"

definition usageFromMetric :: "task_metrics option \<Rightarrow> duration \<Rightarrow> Usage result" where
  "usageFromMetric metric d =
     (case metric of None \<Rightarrow> Inl (ErrMsg ''unsupported containerd task metrics'')
      | Some stats \<Rightarrow>
          if d \<le> 0 then Inl (ErrMsg ''unsupported containerd task metrics'')
          else (case (tm_CPU_UsageUsec stats, tm_Memory stats) of
              (Some usec, Some (usage, maxUsage)) \<Rightarrow>
                if length (tm_Io_Wbytes stats) > maxMetricIODevices then Inl (ErrMsg ''invalid containerd task metrics'')
                else (case sum_written 0 (tm_Io_Wbytes stats) of
                    None \<Rightarrow> Inl (ErrMsg ''invalid containerd task metrics'')
                  | Some written \<Rightarrow> Inr \<lparr>use_CPUMillis = (if usec mod 1000 \<noteq> 0 then usec div 1000 + 1 else usec div 1000),
                      use_PeakMemory = (if usage > maxUsage then usage else maxUsage), use_DiskWritten = written, use_Duration = d\<rparr>)
            | _ \<Rightarrow> Inl (ErrMsg ''invalid containerd task metrics'')))"

section \<open>Lemmas\<close>

lemma uint_word_of_small: "0 \<le> n \<Longrightarrow> n < 18446744073709551616 \<Longrightarrow> uint (word_of_int n :: u64) = n"
  by (simp add: uint_word_of_int)

text \<open>Within the limits of a driver no step of the quota computation wraps around.\<close>

lemma cpuQuota_no_wrap:
  assumes "uint (lim_CPUMillis limits) \<le> 86400000" and "0 < lim_ExecutionTime limits" and "lim_ExecutionTime limits \<le> time_hour"
  shows "cpuQuota limits =
     (let wall = lim_ExecutionTime limits div 1000000; quota = (uint (lim_CPUMillis limits) * 100000 + wall - 1) div wall in
      if wall = 0 then Inl (ErrMsg ''invalid containerd CPU limit'')
      else if quota < 1000 then Inl (ErrMsg ''containerd CPU limit cannot be represented safely'')
      else Inr (100000, quota))"
proof -
  define c where "c = uint (lim_CPUMillis limits)"
  define wall where "wall = lim_ExecutionTime limits div 1000000"
  define q where "q = (c * 100000 + wall - 1) div wall"
  let ?w = "word_of_int wall :: u64"
  let ?q = "(lim_CPUMillis limits * 100000 + ?w - 1) div ?w"
  have c: "0 \<le> c" "c \<le> 86400000" using assms(1) by (simp_all add: c_def)
  have wall: "0 \<le> wall" "wall \<le> 3600000" using assms(2,3) by (auto simp: wall_def)
  have uw: "uint ?w = wall" using wall by (intro uint_word_of_small) auto
  have w0: "?w = 0 \<longleftrightarrow> wall = 0" using uw by (metis uint_0_eq uint_word_of_int_eq word_of_int_0)
  have cpu: "lim_CPUMillis limits = word_of_int c" by (simp add: c_def)
  have "lim_CPUMillis limits * 100000 + ?w - 1 = word_of_int (c * 100000 + wall - 1)"
    unfolding cpu by simp
  moreover have "uint (word_of_int (c * 100000 + wall - 1) :: u64) = c * 100000 + wall - 1" if "wall \<noteq> 0"
    using c wall that by (intro uint_word_of_small) auto
  ultimately have uq: "uint ?q = q" if "wall \<noteq> 0"
    using that uw by (simp add: uint_div q_def)
  have bound: "q \<le> 8640003600000" if "wall \<noteq> 0"
  proof -
    have "q \<le> c * 100000 + wall - 1" unfolding q_def using c wall that
      zdiv_mono2[of "c * 100000 + wall - 1" 1 wall] by auto
    thus ?thesis using c wall by simp
  qed
  have cap: "\<not> lim_CPUMillis limits > (- 1) div 100000"
    using c by (simp add: c_def word_less_alt word_le_def uint_div)
  have small: "?q < 1000 \<longleftrightarrow> q < 1000" "\<not> ?q > (- 1) div 2" "int64_of ?q = q" if "wall \<noteq> 0"
    using uq[OF that] bound[OF that] by (simp_all add: word_less_alt uint_div int64_of_def)
  have dd: "duration_div (lim_ExecutionTime limits) time_millisecond = wall"
    using assms(2) by (simp add: duration_div_def wall_def)
  show ?thesis
    unfolding cpuQuota_def Let_def dd w0 c_def[symmetric] wall_def[symmetric] q_def[symmetric]
    using cap small by (cases "wall = 0") simp_all
qed

lemma validateDriverLimits_bounds:
  assumes "validateDriverLimits limits g = Inr ()"
  shows "uint (lim_CPUMillis limits) \<le> 86400000" "0 < lim_ExecutionTime limits" "lim_ExecutionTime limits \<le> time_hour"
    "uint (lim_MemoryBytes limits) \<le> 1099511627776" "\<exists>pq. cpuQuota limits = Inr pq" "12288 \<le> lim_DiskBytes limits"
    "g \<longleftrightarrow> 0 < lim_GPUDeviceCount limits"
  using assms by (auto simp: validateDriverLimits_def word_le_def word_less_alt split: if_splits sum.splits)

lemma validateRequest_bounds:
  assumes "validateRequest request input n = Inr ()"
  shows "req_UserID request \<noteq> 0" "req_GroupID request \<noteq> 0" "validateDriverLimits (req_Limits request) (req_AllowGPU request) = Inr ()"
    "n = unat (lim_GPUDeviceCount (req_Limits request))" "req_Network request = NetworkNone" "length input \<le> MaxInputBytesHard"
    "ValidateExecutionDigest (req_ExecutionDigest request) = Inr ()"
proof -
  have "\<not> isl (validateDriverLimits (req_Limits request) (req_AllowGPU request))"
    and "\<not> isl (ValidateExecutionDigest (req_ExecutionDigest request))"
    using assms unfolding validateRequest_def by (simp_all split: if_splits)
  thus "validateDriverLimits (req_Limits request) (req_AllowGPU request) = Inr ()"
    and "ValidateExecutionDigest (req_ExecutionDigest request) = Inr ()"
    by (auto simp: isl_def split: sum.splits) (metis old.sum.exhaust old.unit.exhaust)+
qed (use assms in \<open>simp_all add: validateRequest_def split: if_splits\<close>)

text \<open>The sizes of the bounded mounts.\<close>

definition size_options :: "oci_mount \<Rightarrow> string list" where
  "size_options m = filter (\<lambda>opt. has_prefix opt ''size='') (om_Options m)"

lemma bounded_bound_mount [simp]: "bounded_mount ws (bound_mount n m) = bounded_mount ws m"
  by (simp add: bounded_mount_def bound_mount_def Let_def)

lemma size_bound_mount: "size_options (bound_mount n m) = [''size='' @ show_nat (unat n)]"
proof -
  have "has_prefix (''size='' @ show_nat (unat n)) ''size=''" by (rule has_prefix_append)
  moreover have "\<not> has_prefix ''noexec'' ''size=''" by (simp add: has_prefix_def)
  ultimately show ?thesis by (simp add: size_options_def bound_mount_def Let_def)
qed

lemma boundTmpfsMounts_sizes:
  assumes "boundTmpfsMounts mounts disk ws = Inr ms"
  shows "\<exists>n. (\<forall>m \<in> set ms. bounded_mount ws m \<longrightarrow> size_options m = [''size='' @ show_nat n])
           \<and> 4096 \<le> n \<and> length (filter (bounded_mount ws) ms) * n \<le> unat disk"
proof -
  define k where "k = (if ws then 4 else 3 :: nat)"
  let ?per = "disk div word_of_nat k :: u64"
  have res: "ms = map (\<lambda>m. if bounded_mount ws m then bound_mount ?per m else m) mounts"
    and per: "4096 \<le> ?per" and cnt: "length (filter (bounded_mount ws) mounts) = k"
    using assms unfolding boundTmpfsMounts_def Let_def k_def[symmetric] by (simp_all split: if_splits)
  have "length (filter (bounded_mount ws) ms) = k"
    using cnt by (simp add: res filter_map o_def if_distrib[of "bounded_mount ws"] cong: if_cong)
  moreover have "k * unat ?per \<le> unat disk"
    by (simp add: unat_div k_def mult.commute)
  moreover have "4096 \<le> unat ?per" using per by (simp add: word_le_nat_alt)
  ultimately show ?thesis by (intro exI[of _ "unat ?per"]) (auto simp: res size_bound_mount)
qed

text \<open>What a specification the option accepts was made of.\<close>

lemma fixedIsolationSpec_elim:
  assumes "fixedIsolationSpec prof request src spec = Inr s"
  obtains p l period quota profile mounts where
    "cpuQuota (req_Limits request) = Inr (period, quota)"
    "os_Process s = Some (isolated_process request p)" "os_Root_Readonly s = Some True"
    "os_Linux s = Some ((isolated_linux request period quota l)\<lparr>ol_Seccomp := Some profile\<rparr>)"
    "sec_DefaultAction profile = ''SCMP_ACT_ERRNO''" "hasPrivateNetworkNamespace (ol_Namespaces l)"
    "boundTmpfsMounts mounts (lim_DiskBytes (req_Limits request)) (req_WorkspaceArchive request) = Inr (os_Mounts s)"
proof -
  obtain p where p: "os_Process spec = Some p" using assms by (auto simp: fixedIsolationSpec_def split: option.splits)
  obtain r where r: "os_Root_Readonly spec = Some r" using assms by (auto simp: fixedIsolationSpec_def split: option.splits)
  obtain l where l: "os_Linux spec = Some l" using assms by (auto simp: fixedIsolationSpec_def split: option.splits)
  obtain period quota where q: "cpuQuota (req_Limits request) = Inr (period, quota)"
    using assms p r l by (cases "cpuQuota (req_Limits request)") (auto simp: fixedIsolationSpec_def)
  let ?l = "isolated_linux request period quota l"
  let ?s1 = "spec\<lparr>os_Process := Some (isolated_process request p), os_Root_Readonly := Some True, os_Linux := Some ?l\<rparr>"
  let ?mounts = "if req_WorkspaceArchive request then os_Mounts spec @ workspace_mounts request (hd src) else os_Mounts spec"
  obtain profile where pr: "prof ?s1 = Some profile"
    using assms p r l q by (cases "prof ?s1") (simp_all add: fixedIsolationSpec_def Let_def)
  note eq = assms [unfolded fixedIsolationSpec_def Let_def p r l q option.case prod.case sum.case pr]
  obtain ms where ms: "boundTmpfsMounts ?mounts (lim_DiskBytes (req_Limits request)) (req_WorkspaceArchive request) = Inr ms"
    using eq by (cases "boundTmpfsMounts ?mounts (lim_DiskBytes (req_Limits request)) (req_WorkspaceArchive request)")
      (simp_all split: if_split_asm)
  have s: "s = ?s1\<lparr>os_Linux := Some (?l\<lparr>ol_Seccomp := Some profile\<rparr>), os_Mounts := ms\<rparr>"
    and act: "sec_DefaultAction profile = ''SCMP_ACT_ERRNO''" and net: "hasPrivateNetworkNamespace (ol_Namespaces ?l)"
    using eq unfolding ms sum.case by (simp_all split: if_split_asm)
  show thesis
    by (rule that[of period quota p profile l ?mounts]) (use q s act net ms in \<open>simp_all add: isolated_linux_def\<close>)
qed

text \<open>Usage: CPU time rounded up, the larger of the two memory figures, the exact sum written.\<close>

lemma sum_written_exact:
  "sum_written acc ws = Some n \<Longrightarrow> list_all (\<lambda>w. w \<noteq> None) ws \<and> unat n = unat acc + sum_list (map (unat \<circ> the) ws)"
proof (induction acc ws rule: sum_written.induct)
  case (3 acc w rest)
  hence fits: "\<not> w > (- 1) - acc" and rest: "sum_written (acc + w) rest = Some n" by (auto split: if_splits)
  have "unat ((- 1) - acc) = 18446744073709551615 - unat acc" using unat_sub[of acc "- 1"] by (simp add: unsigned_minus_1_eq_mask mask_eq_exp_minus_1)
  hence "unat acc + unat w < 2 ^ LENGTH(64)" using fits unsigned_less[of acc, where ?'a = nat] by (simp add: word_less_nat_alt)
  hence "unat (acc + w) = unat acc + unat w" by (simp only: unat_add_lem)
  thus ?case using 3 rest by (auto split: if_splits)
qed simp_all

lemma ceil_thousand: "1000 * (n div 1000) \<le> n" "0 < n mod 1000 \<Longrightarrow> 1000 * (n div 1000) < n" for n :: nat
  using div_mult_mod_eq[of n 1000] by linarith+

lemma usageFromMetric_exact:
  assumes "usageFromMetric metric d = Inr u"
  shows "\<exists>stats usec now top. metric = Some stats \<and> tm_CPU_UsageUsec stats = Some usec \<and> tm_Memory stats = Some (now, top)
     \<and> 1000 * unat (use_CPUMillis u) < unat usec + 1000 \<and> unat usec \<le> 1000 * unat (use_CPUMillis u)
     \<and> use_PeakMemory u = max now top \<and> unat (use_DiskWritten u) = sum_list (map (unat \<circ> the) (tm_Io_Wbytes stats))
     \<and> use_Duration u = d \<and> 0 < d"
proof -
  obtain stats usec now top written where s: "metric = Some stats" "tm_CPU_UsageUsec stats = Some usec" "tm_Memory stats = Some (now, top)"
      "sum_written 0 (tm_Io_Wbytes stats) = Some written" "0 < d"
    and u: "u = \<lparr>use_CPUMillis = (if usec mod 1000 \<noteq> 0 then usec div 1000 + 1 else usec div 1000),
      use_PeakMemory = (if now > top then now else top), use_DiskWritten = written, use_Duration = d\<rparr>"
    using assms by (auto simp: usageFromMetric_def split: option.splits prod.splits if_splits)
  have "unat (usec div 1000) \<le> 18446744073709551" using unsigned_less[of usec, where ?'a = nat] by (simp add: unat_div)
  hence "unat (usec div 1000 + 1) = unat usec div 1000 + 1"
    by (subst unat_add_lem[THEN iffD1]) (simp_all add: unat_div)
  moreover have "(usec mod 1000 \<noteq> 0) = (unat usec mod 1000 \<noteq> 0)" by (simp add: unat_eq_zero[symmetric] unat_mod)
  ultimately have "1000 * unat (use_CPUMillis u) < unat usec + 1000 \<and> unat usec \<le> 1000 * unat (use_CPUMillis u)"
    using ceil_thousand[of "unat usec"] by (auto simp: u unat_div)
  thus ?thesis using s sum_written_exact[OF s(4)] by (auto simp: u max_def)
qed

section \<open>Properties\<close>

text \<open>C21.  The CPU quota is exact.  For limits a driver accepts, the computation does not wrap
  around and succeeds: over the wall time of the execution the quota grants at least the CPU time of the limits, and the
  quota smaller by one microsecond would not.\<close>

theorem cpu_quota_exact:
  assumes "validateDriverLimits limits g = Inr ()"
  shows "\<exists>quota. cpuQuota limits = Inr (100000, quota) \<and> 1000 \<le> quota
     \<and> uint (lim_CPUMillis limits) * 100000 \<le> quota * (lim_ExecutionTime limits div time_millisecond)
     \<and> (quota - 1) * (lim_ExecutionTime limits div time_millisecond) < uint (lim_CPUMillis limits) * 100000"
proof -
  define c where "c = uint (lim_CPUMillis limits) * 100000"
  define wall where "wall = lim_ExecutionTime limits div 1000000"
  note b = validateDriverLimits_bounds[OF assms]
  obtain pq where pq: "cpuQuota limits = Inr pq" using b(5) by blast
  have w0: "0 \<le> wall" "wall \<noteq> 0" and q: "1000 \<le> (c + wall - 1) div wall" "pq = (100000, (c + wall - 1) div wall)"
    using pq b(2) cpuQuota_no_wrap[OF b(1,2,3), folded c_def wall_def] by (auto simp: Let_def wall_def split: if_splits)
  define r where "r = (c + wall - 1) mod wall"
  define quota where "quota = (c + wall - 1) div wall"
  have "r < wall" "0 \<le> r" "quota * wall + r = c + wall - 1" using w0 by (simp_all add: r_def quota_def)
  hence "c \<le> quota * wall" "(quota - 1) * wall < c" by (simp_all add: left_diff_distrib)
  thus ?thesis using pq q by (auto simp: quota_def c_def wall_def)
qed

theorem cpu_quota_exact_witness:
  "cpuQuota demo_limits = Inr (100000, 100000)"
proof -
  have "validateDriverLimits demo_limits False = Inr ()" by code_simp
  from cpu_quota_exact[OF this] show ?thesis by (auto simp: demo_limits_def)
qed


definition demo_oci :: oci_spec where
  "demo_oci = \<lparr>os_Process = Some \<lparr>op_Args = [''/bin/sh''], op_Env = [], op_Cwd = ''/'', op_Terminal = True, op_User = (0, 0),
       op_NoNewPrivileges = False, op_Capabilities = [''CAP_SYS_ADMIN''], op_Rlimits = []\<rparr>,
     os_Root_Readonly = Some False,
     os_Linux = Some \<lparr>ol_Memory = None, ol_Pids = None, ol_CPU = None, ol_Devices = [], ol_Seccomp = None,
       ol_Namespaces = [(''network'', [])]\<rparr>,
     os_Mounts = map (\<lambda>d. \<lparr>om_Destination = d, om_Type = ''tmpfs'', om_Source = ''tmpfs'', om_Options = [''size=65536k'']\<rparr>)
       [''/dev'', ''/dev/shm'', ''/run'']\<rparr>"

definition demo_seccomp :: "oci_spec \<Rightarrow> seccomp_profile option" where
  "demo_seccomp s = Some \<lparr>sec_DefaultAction = ''SCMP_ACT_ERRNO'', sec_Syscalls = [''read'']\<rparr>"

definition demo_creq :: ContainerRequest where
  "demo_creq = \<lparr>req_ExecutionDigest = demo_image, req_ImageDigest = demo_image, req_Entrypoint = [''/run''], req_WorkingDirectory = [],
     req_Environment = [], req_WorkspaceArchive = False, req_UserID = 1000, req_GroupID = 1000, req_ReadOnlyRoot = True,
     req_NoNewPrivileges = True, req_Network = NetworkNone, req_AllowedHosts = [], req_AllowGPU = False, req_Limits = demo_limits\<rparr>"

lemma demo_creq_valid: "validateRequest demo_creq ''in'' 0 = Inr ()"
proof -
  have "validateDriverLimits demo_limits False = Inr ()" by code_simp
  thus ?thesis by (simp add: validateRequest_def demo_creq_def ValidateExecutionDigest_def demo_image_pattern
      invalidRuntimeString_def demo_limits_def)
qed

lemma demo_isolated: "\<exists>s. fixedIsolationSpec demo_seccomp demo_creq [] demo_oci = Inr s"
proof -
  have "cpuQuota demo_limits = Inr (100000, 100000)" by code_simp
  thus ?thesis
    by (simp add: fixedIsolationSpec_def demo_oci_def demo_creq_def demo_seccomp_def Let_def hasPrivateNetworkNamespace_def
        isolated_linux_def boundTmpfsMounts_def bounded_mount_def) (simp add: demo_limits_def)
qed




end
