(* ===== verification/Executor_Supervisor.thy ===== *)
theory Executor_Supervisor
  imports Executor_Policy "HOL-Library.Multiset"
begin

text \<open>
  Package \<open>pkg/executor\<close>, file \<open>supervisor.go\<close>: the supervisor that bounds the workloads active on
  a runtime driver and drains them on close.

  \<open>RunIsolated\<close> and \<open>CheckReady\<close> run concurrently in goroutines and hold the mutex only for short
  sections.  Each section is one definition on the shared state; a goroutine is an element of
  \<open>sup_runs\<close> that records how far it has come; \<open>sup_step\<close> interleaves the sections freely.  The
  channel \<open>slots\<close> is the number of tokens in it, a \<open>sync.WaitGroup\<close> is its counter.
\<close>

abbreviation (input) MaxSupervisedActiveHard :: int where "MaxSupervisedActiveHard \<equiv> 256"

datatype run_phase =
    InDriver      \<comment> \<open>the driver call is in progress\<close>
  | Returned      \<comment> \<open>the driver returned; the deferred cleanup has not run\<close>
  | Deleted       \<comment> \<open>the identity has left \<open>active\<close>; the slot is still taken\<close>
  | SlotFreed     \<comment> \<open>the slot is free; \<open>wait.Done\<close> has not run\<close>

datatype close_phase = NotClosing | WaitingProbes | ClosingDriver | WaitingRuns | CloseDone

record supervisor =
  sup_maximum :: nat
  sup_slots :: nat
  sup_active :: "string set"
  sup_isClosed :: bool
  sup_probes :: nat
  sup_wait :: nat
  sup_runs :: "(string \<times> run_phase) multiset"
  sup_close :: close_phase

definition NewSupervisedBackend :: "bool \<Rightarrow> int \<Rightarrow> supervisor result" where
  "NewSupervisedBackend driver_nil maxActive =
     (if driver_nil \<or> maxActive \<le> 0 \<or> maxActive > MaxSupervisedActiveHard
      then Inl (ErrMsg ''invalid isolated backend supervisor configuration'')
      else Inr \<lparr>sup_maximum = nat maxActive, sup_slots = 0, sup_active = {}, sup_isClosed = False,
                sup_probes = 0, sup_wait = 0, sup_runs = {#}, sup_close = NotClosing\<rparr>)"

section \<open>Sections of RunIsolated\<close>

text \<open>The admission section, from the argument checks to the unlock before the driver call.\<close>

definition run_admit :: "bool \<Rightarrow> bool \<Rightarrow> string \<Rightarrow> supervisor \<Rightarrow> supervisor result" where
  "run_admit ctx_nil ctx_err digest b =
     (if ctx_nil then Inl (ErrMsg ''nil isolated backend context'')
      else if ctx_err then Inl ErrContext
      else case ValidateExecutionDigest digest of Inl e \<Rightarrow> Inl e | Inr _ \<Rightarrow>
      if sup_isClosed b then Inl (ErrMsg ''isolated backend supervisor is closed'')
      else if digest \<in> sup_active b then Inl (ErrMsg ''isolated execution is already active'')
      else if \<not> (sup_slots b < sup_maximum b) then Inl (ErrMsg ''isolated backend capacity is exhausted'')
      else Inr (b\<lparr>sup_slots := sup_slots b + 1, sup_active := insert digest (sup_active b),
                  sup_wait := sup_wait b + 1, sup_runs := add_mset (digest, InDriver) (sup_runs b)\<rparr>))"

definition set_phase :: "string \<Rightarrow> run_phase \<Rightarrow> run_phase \<Rightarrow> supervisor \<Rightarrow> supervisor" where
  "set_phase d p q b = b\<lparr>sup_runs := add_mset (d, q) (sup_runs b - {#(d, p)#})\<rparr>"

text \<open>The deferred cleanup: \<open>delete(b.active, digest)\<close>, then \<open><-b.slots\<close>, then \<open>b.wait.Done()\<close>.\<close>

definition run_delete :: "string \<Rightarrow> supervisor \<Rightarrow> supervisor" where
  "run_delete d b = set_phase d Returned Deleted (b\<lparr>sup_active := sup_active b - {d}\<rparr>)"

definition run_free_slot :: "string \<Rightarrow> supervisor \<Rightarrow> supervisor" where
  "run_free_slot d b = set_phase d Deleted SlotFreed (b\<lparr>sup_slots := sup_slots b - 1\<rparr>)"

definition run_done :: "string \<Rightarrow> supervisor \<Rightarrow> supervisor" where
  "run_done d b = b\<lparr>sup_wait := sup_wait b - 1, sup_runs := sup_runs b - {#(d, SlotFreed)#}\<rparr>"

text \<open>
  What \<open>RunIsolated\<close> returns after the driver call: a context error wins, then any driver error
  or panic, which is reported without its text.
\<close>

definition callBackendDriver :: "client \<Rightarrow> ContainerRequest \<Rightarrow> bytes \<Rightarrow> Result result" where
  "callBackendDriver driver request input =
     (case driver request input of
        None \<Rightarrow> Inl (ErrMsg ''isolated backend driver panicked'')
      | Some r \<Rightarrow> r)"

definition run_result :: "bool \<Rightarrow> Result result \<Rightarrow> Result result" where
  "run_result ctx_err_after r =
     (if ctx_err_after then Inl ErrContext
      else case r of Inl e \<Rightarrow> Inl (ErrMsg ''isolated backend driver failed'') | Inr v \<Rightarrow> Inr v)"

text \<open>\<open>RunIsolated\<close> of one goroutine with no other in between: its sections in order.\<close>

definition RunIsolated :: "client \<Rightarrow> bool \<Rightarrow> bool \<Rightarrow> bool \<Rightarrow> ContainerRequest \<Rightarrow> bytes \<Rightarrow> supervisor
    \<Rightarrow> Result result \<times> supervisor" where
  "RunIsolated driver ctx_nil ctx_err ctx_err_after request input b =
     (case run_admit ctx_nil ctx_err (req_ExecutionDigest request) b of
        Inl e \<Rightarrow> (Inl e, b)
      | Inr b1 \<Rightarrow>
          let r = callBackendDriver driver request input;
              d = req_ExecutionDigest request
          in (run_result ctx_err_after r,
              run_done d (run_free_slot d (run_delete d (set_phase d InDriver Returned b1)))))"

section \<open>CheckReady and Close\<close>

definition ready_begin :: "bool \<Rightarrow> bool \<Rightarrow> supervisor \<Rightarrow> supervisor result" where
  "ready_begin ctx_nil ctx_err b =
     (if ctx_nil then Inl (ErrMsg ''nil isolated backend readiness context'')
      else if ctx_err then Inl ErrContext
      else if sup_isClosed b then Inl (ErrMsg ''isolated backend supervisor is closed'')
      else Inr (b\<lparr>sup_probes := sup_probes b + 1\<rparr>))"

definition ready_end :: "supervisor \<Rightarrow> supervisor" where
  "ready_end b = b\<lparr>sup_probes := sup_probes b - 1\<rparr>"

text \<open>\<open>callDriverReady\<close>: \<open>None\<close> is a panic of the driver.\<close>

definition ready_result :: "bool \<Rightarrow> unit result option \<Rightarrow> unit result" where
  "ready_result ctx_err_after r =
     (if ctx_err_after then Inl ErrContext
      else case r of Some (Inr _) \<Rightarrow> Inr ()
           | _ \<Rightarrow> Inl (ErrMsg ''isolated backend driver is unavailable''))"

text \<open>
  The body of \<open>closeOnce.Do\<close>: mark closed, wait for the probes, close the driver, wait for the
  runs.  The two waits are steps that are enabled only when their counter is zero.
\<close>

definition close_mark :: "supervisor \<Rightarrow> supervisor" where
  "close_mark b = b\<lparr>sup_isClosed := True, sup_close := WaitingProbes\<rparr>"

definition callDriverClose :: "bool \<Rightarrow> unit result option \<Rightarrow> unit result" where
  "callDriverClose driver_nil r =
     (if driver_nil then Inl (ErrMsg ''invalid isolated backend driver'')
      else case r of
        None \<Rightarrow> Inl (ErrMsg ''isolated backend close panicked'')
      | Some (Inl e) \<Rightarrow> Inl (ErrMsg ''close isolated backend driver'')
      | Some (Inr _) \<Rightarrow> Inr ())"

inductive sup_step :: "supervisor \<Rightarrow> supervisor \<Rightarrow> bool" where
  admit: "run_admit ctx_nil ctx_err d b = Inr b' \<Longrightarrow> sup_step b b'"
| driver_returned: "(d, InDriver) \<in># sup_runs b \<Longrightarrow> sup_step b (set_phase d InDriver Returned b)"
| delete: "(d, Returned) \<in># sup_runs b \<Longrightarrow> sup_step b (run_delete d b)"
| free_slot: "(d, Deleted) \<in># sup_runs b \<Longrightarrow> sup_step b (run_free_slot d b)"
| run_finished: "(d, SlotFreed) \<in># sup_runs b \<Longrightarrow> sup_step b (run_done d b)"
| probe_begin: "ready_begin ctx_nil ctx_err b = Inr b' \<Longrightarrow> sup_step b b'"
| probe_end: "0 < sup_probes b \<Longrightarrow> sup_step b (ready_end b)"
| close_begin: "sup_close b = NotClosing \<Longrightarrow> sup_step b (close_mark b)"
| close_probes: "sup_close b = WaitingProbes \<Longrightarrow> sup_probes b = 0 \<Longrightarrow>
    sup_step b (b\<lparr>sup_close := ClosingDriver\<rparr>)"
| close_driver: "sup_close b = ClosingDriver \<Longrightarrow> sup_step b (b\<lparr>sup_close := WaitingRuns\<rparr>)"
| close_runs: "sup_close b = WaitingRuns \<Longrightarrow> sup_wait b = 0 \<Longrightarrow>
    sup_step b (b\<lparr>sup_close := CloseDone\<rparr>)"

definition sup_init :: "supervisor \<Rightarrow> bool" where
  "sup_init b \<longleftrightarrow> (\<exists>n. NewSupervisedBackend False n = Inr b)"

section \<open>The invariant\<close>

definition live_phase :: "string \<times> run_phase \<Rightarrow> bool" where
  "live_phase t \<longleftrightarrow> snd t = InDriver \<or> snd t = Returned"

definition slot_phase :: "string \<times> run_phase \<Rightarrow> bool" where
  "slot_phase t \<longleftrightarrow> snd t \<noteq> SlotFreed"

text \<open>The identities that a goroutine still holds in \<open>active\<close>, with multiplicity.\<close>

definition held :: "supervisor \<Rightarrow> string multiset" where
  "held b = image_mset fst (filter_mset live_phase (sup_runs b))"

definition sup_inv :: "supervisor \<Rightarrow> bool" where
  "sup_inv b \<longleftrightarrow>
     finite (sup_active b) \<and> held b = mset_set (sup_active b)
     \<and> sup_slots b = size (filter_mset slot_phase (sup_runs b))
     \<and> sup_wait b = size (sup_runs b)
     \<and> sup_slots b \<le> sup_maximum b
     \<and> (sup_isClosed b \<longleftrightarrow> sup_close b \<noteq> NotClosing)
     \<and> (sup_close b \<notin> {NotClosing, WaitingProbes} \<longrightarrow> sup_probes b = 0)
     \<and> (sup_close b = CloseDone \<longrightarrow> sup_wait b = 0)"

lemma held_count_le_1: "sup_inv b \<Longrightarrow> count (held b) d \<le> 1"
  by (auto simp: sup_inv_def count_mset_set')

lemma sup_inv_init: "sup_init b \<Longrightarrow> sup_inv b"
  by (auto simp: sup_init_def NewSupervisedBackend_def sup_inv_def held_def split: if_splits)

lemma run_admit_Inr:
  "run_admit n c d b = Inr b' \<longleftrightarrow>
     \<not> n \<and> \<not> c \<and> hex64_after ''sha256:'' d \<and> \<not> sup_isClosed b \<and> d \<notin> sup_active b
     \<and> sup_slots b < sup_maximum b
     \<and> b' = b\<lparr>sup_slots := sup_slots b + 1, sup_active := insert d (sup_active b),
              sup_wait := sup_wait b + 1, sup_runs := add_mset (d, InDriver) (sup_runs b)\<rparr>"
  by (auto simp: run_admit_def ValidateExecutionDigest_def split: if_splits)

lemma sup_inv_admit: "sup_inv b \<Longrightarrow> run_admit n c d b = Inr b' \<Longrightarrow> sup_inv b'"
  by (auto simp: run_admit_Inr sup_inv_def held_def live_phase_def slot_phase_def)

lemma sup_inv_returned:
  assumes "sup_inv b" and "(d, InDriver) \<in># sup_runs b"
  shows "sup_inv (set_phase d InDriver Returned b)"
proof -
  obtain R where R: "sup_runs b = add_mset (d, InDriver) R"
    using assms(2) by (metis insert_DiffM)
  then show ?thesis
    using assms(1) by (auto simp: sup_inv_def set_phase_def held_def live_phase_def slot_phase_def)
qed

lemma sup_inv_delete:
  assumes "sup_inv b" and "(d, Returned) \<in># sup_runs b"
  shows "sup_inv (run_delete d b)"
proof -
  obtain R where R: "sup_runs b = add_mset (d, Returned) R"
    using assms(2) by (metis insert_DiffM)
  then have h: "held b = add_mset d (image_mset fst (filter_mset live_phase R))"
    by (simp add: held_def live_phase_def)
  then have "add_mset d (image_mset fst (filter_mset live_phase R)) = mset_set (sup_active b)"
    and fin: "finite (sup_active b)"
    using assms(1) by (simp_all add: sup_inv_def)
  then have "image_mset fst (filter_mset live_phase R) = mset_set (sup_active b) - {#d#}"
    and "d \<in> sup_active b"
    by (metis add_mset_remove_trivial) (metis elem_mset_set union_single_eq_member
      \<open>add_mset d (image_mset fst (filter_mset live_phase R)) = mset_set (sup_active b)\<close> fin)
  then have "image_mset fst (filter_mset live_phase R) = mset_set (sup_active b - {d})"
    using fin by (simp add: mset_set_Diff)
  then show ?thesis
    using assms(1) R fin
    by (auto simp: sup_inv_def run_delete_def set_phase_def held_def live_phase_def slot_phase_def)
qed

lemma sup_inv_free_slot:
  assumes "sup_inv b" and "(d, Deleted) \<in># sup_runs b"
  shows "sup_inv (run_free_slot d b)"
proof -
  obtain R where R: "sup_runs b = add_mset (d, Deleted) R"
    using assms(2) by (metis insert_DiffM)
  then show ?thesis
    using assms(1)
    by (auto simp: sup_inv_def run_free_slot_def set_phase_def held_def live_phase_def slot_phase_def)
qed

lemma sup_inv_done:
  assumes "sup_inv b" and "(d, SlotFreed) \<in># sup_runs b"
  shows "sup_inv (run_done d b)"
proof -
  obtain R where R: "sup_runs b = add_mset (d, SlotFreed) R"
    using assms(2) by (metis insert_DiffM)
  then show ?thesis
    using assms(1) by (auto simp: sup_inv_def run_done_def held_def live_phase_def slot_phase_def)
qed

lemma sup_inv_frame:
  assumes "sup_inv b" and "sup_runs b' = sup_runs b" and "sup_active b' = sup_active b"
    and "sup_slots b' = sup_slots b" and "sup_wait b' = sup_wait b" and "sup_maximum b' = sup_maximum b"
    and "sup_isClosed b' \<longleftrightarrow> sup_close b' \<noteq> NotClosing"
    and "sup_close b' \<notin> {NotClosing, WaitingProbes} \<longrightarrow> sup_probes b' = 0"
    and "sup_close b' = CloseDone \<longrightarrow> sup_wait b' = 0"
  shows "sup_inv b'"
  using assms by (simp add: sup_inv_def held_def)

lemma sup_inv_step: "sup_step b b' \<Longrightarrow> sup_inv b \<Longrightarrow> sup_inv b'"
proof (induction rule: sup_step.induct)
  case (probe_begin n c b b')
  then show ?case
    by - (rule sup_inv_frame [of b], auto simp: ready_begin_def sup_inv_def split: if_splits)
next
  case (probe_end b)
  then show ?case
    by - (rule sup_inv_frame [of b], auto simp: ready_end_def sup_inv_def)
next
  case (close_begin b)
  then show ?case
    by - (rule sup_inv_frame [of b], auto simp: close_mark_def sup_inv_def)
next
  case (close_probes b)
  then show ?case
    by - (rule sup_inv_frame [of b], auto simp: sup_inv_def)
next
  case (close_driver b)
  then show ?case
    by - (rule sup_inv_frame [of b], auto simp: sup_inv_def)
next
  case (close_runs b)
  then show ?case
    by - (rule sup_inv_frame [of b], auto simp: sup_inv_def)
qed (blast intro: sup_inv_admit sup_inv_returned sup_inv_delete sup_inv_free_slot sup_inv_done)+

interpretation sup: invariant_system sup_init sup_step sup_inv
  by unfold_locales (auto intro: sup_inv_init sup_inv_step)

section \<open>Draining\<close>

definition phase_weight :: "run_phase \<Rightarrow> nat" where
  "phase_weight p = (case p of InDriver \<Rightarrow> 4 | Returned \<Rightarrow> 3 | Deleted \<Rightarrow> 2 | SlotFreed \<Rightarrow> 1)"

definition close_weight :: "close_phase \<Rightarrow> nat" where
  "close_weight c = (case c of NotClosing \<Rightarrow> 4 | WaitingProbes \<Rightarrow> 3 | ClosingDriver \<Rightarrow> 2
     | WaitingRuns \<Rightarrow> 1 | CloseDone \<Rightarrow> 0)"

definition drain_measure :: "supervisor \<Rightarrow> nat" where
  "drain_measure b = (\<Sum>t\<in>#sup_runs b. phase_weight (snd t)) + sup_probes b + close_weight (sup_close b)"

lemma drain_set_phase:
  "(d, p) \<in># sup_runs b \<Longrightarrow> phase_weight q < phase_weight p \<Longrightarrow>
     drain_measure (set_phase d p q b) < drain_measure b"
  by (auto simp: drain_measure_def set_phase_def dest!: multi_member_split)

lemma drain_set_phase_frame:
  "(d, p) \<in># sup_runs b \<Longrightarrow> phase_weight q < phase_weight p \<Longrightarrow>
     sup_runs b0 = sup_runs b \<Longrightarrow> sup_probes b0 = sup_probes b \<Longrightarrow> sup_close b0 = sup_close b \<Longrightarrow>
     drain_measure (set_phase d p q b0) < drain_measure b"
  using drain_set_phase [of d p b0 q] by (simp add: drain_measure_def)

lemma drain_run:
  assumes "(d, p) \<in># sup_runs b"
  shows "\<exists>b'. sup_step b b' \<and> drain_measure b' < drain_measure b"
proof (cases p)
  case InDriver
  then show ?thesis
    using assms by (intro exI conjI, auto intro: sup_step.driver_returned drain_set_phase simp: phase_weight_def)
next
  case Returned
  then have "drain_measure (run_delete d b) < drain_measure b"
    using assms unfolding run_delete_def by (intro drain_set_phase_frame) (simp_all add: phase_weight_def)
  then show ?thesis
    using assms Returned by (blast intro: sup_step.delete)
next
  case Deleted
  then have "drain_measure (run_free_slot d b) < drain_measure b"
    using assms unfolding run_free_slot_def by (intro drain_set_phase_frame) (simp_all add: phase_weight_def)
  then show ?thesis
    using assms Deleted by (blast intro: sup_step.free_slot)
next
  case SlotFreed
  then have "drain_measure (run_done d b) < drain_measure b"
    using assms by (auto simp: drain_measure_def run_done_def phase_weight_def dest!: multi_member_split)
  then show ?thesis
    using assms SlotFreed by (blast intro: sup_step.run_finished)
qed

lemma drain_progress:
  assumes "sup_inv b" and "sup_close b \<noteq> CloseDone"
  shows "\<exists>b'. sup_step b b' \<and> drain_measure b' < drain_measure b"
proof (cases "sup_close b")
  case NotClosing
  then show ?thesis
    by (intro exI [of _ "close_mark b"] conjI sup_step.close_begin)
      (auto simp: drain_measure_def close_mark_def close_weight_def)
next
  case WaitingProbes
  show ?thesis
  proof (cases "sup_probes b = 0")
    case True
    then show ?thesis
      using sup_step.close_probes [OF WaitingProbes True] WaitingProbes
      by (intro exI conjI) (assumption, simp add: drain_measure_def close_weight_def)
  next
    case False
    then show ?thesis
      by (intro exI [of _ "ready_end b"] conjI sup_step.probe_end)
        (auto simp: drain_measure_def ready_end_def)
  qed
next
  case ClosingDriver
  then show ?thesis
    using sup_step.close_driver [OF ClosingDriver]
    by (intro exI conjI) (assumption, simp add: drain_measure_def close_weight_def)
next
  case WaitingRuns
  show ?thesis
  proof (cases "sup_runs b = {#}")
    case True
    then have "sup_wait b = 0"
      using assms(1) by (simp add: sup_inv_def)
    then show ?thesis
      using sup_step.close_runs [OF WaitingRuns] WaitingRuns
      by (intro exI conjI) (assumption, simp add: drain_measure_def close_weight_def)
  next
    case False
    then show ?thesis
      using drain_run by (metis multiset_nonemptyE prod.collapse)
  qed
qed (use assms in simp)

lemma drain_reaches_done:
  "sup_inv b \<Longrightarrow> \<exists>b'. sup_step\<^sup>*\<^sup>* b b' \<and> sup_close b' = CloseDone"
proof (induction "drain_measure b" arbitrary: b rule: less_induct)
  case less
  show ?case
  proof (cases "sup_close b = CloseDone")
    case False
    then obtain b1 where "sup_step b b1" "drain_measure b1 < drain_measure b"
      using drain_progress less.prems by blast
    then show ?thesis
      using less sup_inv_step by (meson converse_rtranclp_into_rtranclp)
  qed blast
qed

section \<open>Properties\<close>

text \<open>The workloads that are inside a driver call.\<close>

definition in_driver :: "supervisor \<Rightarrow> string multiset" where
  "in_driver b = image_mset fst (filter_mset (\<lambda>t. snd t = InDriver) (sup_runs b))"

lemma in_driver_held: "in_driver b \<subseteq># held b"
  unfolding in_driver_def held_def
  by (intro image_mset_subseteq_mono) (auto simp: subseteq_mset_def live_phase_def)

lemma in_driver_size_le_slots: "sup_inv b \<Longrightarrow> size (in_driver b) \<le> sup_slots b"
proof -
  assume "sup_inv b"
  moreover have "filter_mset (\<lambda>t. snd t = InDriver) (sup_runs b) \<subseteq># filter_mset slot_phase (sup_runs b)"
    by (auto simp: subseteq_mset_def slot_phase_def)
  ultimately show ?thesis
    using size_mset_mono by (fastforce simp: in_driver_def sup_inv_def)
qed

lemma sup_inv_CloseDone:
  assumes "sup_inv b" and "sup_close b = CloseDone"
  shows "sup_runs b = {#}" and "sup_active b = {}" and "sup_slots b = 0"
proof -
  have "sup_wait b = size (sup_runs b)" and "sup_wait b = 0"
    using assms unfolding sup_inv_def by blast+
  then show runs: "sup_runs b = {#}"
    by simp
  have "held b = mset_set (sup_active b)" and fin: "finite (sup_active b)"
    using assms unfolding sup_inv_def by blast+
  then have "mset_set (sup_active b) = {#}"
    using runs by (simp add: held_def)
  then show "sup_active b = {}"
    using fin by (simp add: mset_set_empty_iff)
  have "sup_slots b = size (filter_mset slot_phase (sup_runs b))"
    using assms unfolding sup_inv_def by blast
  then show "sup_slots b = 0"
    using runs by simp
qed

lemma sup_maximum_step: "sup_step b b' \<Longrightarrow> sup_maximum b' = sup_maximum b"
  by (induction rule: sup_step.induct)
    (auto simp: run_admit_Inr ready_begin_def ready_end_def close_mark_def set_phase_def run_delete_def
      run_free_slot_def run_done_def split: if_splits)

lemma sup_maximum_reach: "reach sup_init sup_step b \<Longrightarrow> sup_maximum b \<le> 256"
  by (induction rule: reach.induct)
    (auto simp: sup_init_def NewSupervisedBackend_def sup_maximum_step split: if_splits)

text \<open>
  C10. In every interleaving of any number of \<open>RunIsolated\<close>, \<open>CheckReady\<close> and \<open>Close\<close> calls, the
  driver never runs more workloads than the configured maximum, which is at most 256; no execution
  identity is in the driver twice; the driver is not closed while a readiness probe is in it; and once
  \<open>Close\<close> has returned no workload is left anywhere.
\<close>

theorem supervisor_bounded_and_drained:
  assumes "reach sup_init sup_step b"
  shows "size (in_driver b) \<le> sup_maximum b \<and> sup_maximum b \<le> 256
     \<and> count (in_driver b) d \<le> 1
     \<and> (sup_close b \<in> {ClosingDriver, WaitingRuns, CloseDone} \<longrightarrow> sup_probes b = 0)
     \<and> (sup_close b = CloseDone \<longrightarrow> sup_runs b = {#} \<and> sup_active b = {} \<and> sup_slots b = 0)"
proof -
  have inv: "sup_inv b"
    using sup.reach_inv [OF assms] .
  have "count (in_driver b) d \<le> count (held b) d"
    using in_driver_held by (rule mset_subset_eq_count)
  then have "count (in_driver b) d \<le> 1"
    using held_count_le_1 [OF inv, of d] by linarith
  moreover have "size (in_driver b) \<le> sup_maximum b"
    using in_driver_size_le_slots [OF inv] inv by (simp add: sup_inv_def)
  moreover have "sup_close b \<in> {ClosingDriver, WaitingRuns, CloseDone} \<longrightarrow> sup_probes b = 0"
    using inv unfolding sup_inv_def by force
  ultimately show ?thesis
    using sup_maximum_reach [OF assms] sup_inv_CloseDone [OF inv] by simp
qed

text \<open>
  The supervisor never deadlocks: from every reachable state, with any number of workloads and
  probes in flight, \<open>Close\<close> can run to its end.
\<close>

theorem supervisor_close_terminates:
  assumes "reach sup_init sup_step b"
  shows "\<exists>b'. sup_step\<^sup>*\<^sup>* b b' \<and> sup_close b' = CloseDone"
  using drain_reaches_done [OF sup.reach_inv [OF assms]] .

text \<open>
  One whole \<open>RunIsolated\<close> call leaves the supervisor as it found it on every path: refused,
  driver error, driver panic, cancelled, or successful.
\<close>

theorem RunIsolated_restores:
  "snd (RunIsolated driver ctx_nil ctx_err ctx_err_after request input b) = b"
proof (cases "run_admit ctx_nil ctx_err (req_ExecutionDigest request) b")
  case (Inl e)
  then show ?thesis
    by (simp add: RunIsolated_def)
next
  case (Inr b1)
  then have "snd (RunIsolated driver ctx_nil ctx_err ctx_err_after request input b) =
      (let d = req_ExecutionDigest request
       in run_done d (run_free_slot d (run_delete d (set_phase d InDriver Returned b1))))"
    by (simp add: RunIsolated_def Let_def)
  also have "\<dots> = b"
    using Inr by (simp add: Let_def run_admit_Inr run_done_def run_free_slot_def run_delete_def set_phase_def)
  finally show ?thesis .
qed

subsection \<open>A reachable state\<close>

definition demo_supervisor :: supervisor where
  "demo_supervisor = \<lparr>sup_maximum = 1, sup_slots = 0, sup_active = {}, sup_isClosed = False,
     sup_probes = 0, sup_wait = 0, sup_runs = {#}, sup_close = NotClosing\<rparr>"

definition demo_running :: supervisor where
  "demo_running = demo_supervisor\<lparr>sup_slots := 1, sup_active := {demo_image}, sup_wait := 1,
     sup_runs := {#(demo_image, InDriver)#}\<rparr>"

lemma demo_running_reach: "reach sup_init sup_step demo_running"
proof (rule reach_step)
  show "reach sup_init sup_step demo_supervisor"
    by (rule reach_init, unfold sup_init_def, rule exI [of _ 1])
      (simp add: NewSupervisedBackend_def demo_supervisor_def)
  have "run_admit False False demo_image demo_supervisor = Inr demo_running"
    by (simp add: run_admit_Inr demo_image_pattern demo_supervisor_def demo_running_def)
  then show "sup_step demo_supervisor demo_running"
    by (rule sup_step.admit)
qed

theorem supervisor_bounded_and_drained_witness:
  "size (in_driver demo_running) \<le> 1 \<and> in_driver demo_running = {#demo_image#}"
  using supervisor_bounded_and_drained [OF demo_running_reach]
  by (simp add: in_driver_def demo_running_def demo_supervisor_def)

theorem supervisor_close_terminates_witness:
  "\<exists>b'. sup_step\<^sup>*\<^sup>* demo_running b' \<and> sup_close b' = CloseDone"
  by (rule supervisor_close_terminates [OF demo_running_reach])

end
