(* ===== verification/Containerd_Backend.thy ===== *)
theory Containerd_Backend
  imports Containerd_Spec Executor_Supervisor Dir_Lock
begin

text \<open>
  Package \<open>pkg/executor/containerdbackend\<close>, file \<open>backend.go\<close>: the configuration of the backend, how it is opened on
  a private socket and a private directory that no other process owns and that holds no residue, and the bounded
  lifecycle around the runtime engine.

  \<open>CheckReady\<close>, \<open>RunIsolated\<close> and \<open>Close\<close> run in concurrent goroutines and hold the mutex only for short
  sections: each section is one definition on the shared state, and \<open>backend_step\<close> interleaves them.  The runtime engine is a
  parameter (\<open>None\<close> is a panic).  A \<open>sync.WaitGroup\<close> is its counter.
\<close>

section \<open>Configuration\<close>

abbreviation (input) DefaultOperationTimeout :: duration where "DefaultOperationTimeout \<equiv> 10000000000"
abbreviation (input) DefaultCleanupTimeout :: duration where "DefaultCleanupTimeout \<equiv> 30000000000"
abbreviation (input) MaxOperationTimeout :: duration where "MaxOperationTimeout \<equiv> time_minute"
abbreviation (input) MaxCleanupTimeout :: duration where "MaxCleanupTimeout \<equiv> 5 * time_minute"

record ContainerdConfig =
  cc_SocketPath :: string
  cc_Namespace :: string
  cc_Snapshotter :: string
  cc_Runtime :: string
  cc_FIFODir :: string
  cc_MaxActive :: int
  cc_OperationTimeout :: duration
  cc_CleanupTimeout :: duration
  cc_PermitGPU :: bool
  cc_PermitNetwork :: bool
  cc_GPUDevices :: "(string \<times> string) list"
  cc_CDISpecDirs :: "string list"
  cc_PolicyLimits :: Limits
  cc_ImageReference :: string
  cc_ImageDigest :: string
  cc_ImagePlatform :: string

definition defaultCDISpecDirs :: "string list" where
  "defaultCDISpecDirs = [''/etc/cdi'', ''/var/run/cdi'']"

definition withConfigDefaults :: "ContainerdConfig \<Rightarrow> ContainerdConfig" where
  "withConfigDefaults c =
     (let c = (if cc_OperationTimeout c = 0 then c\<lparr>cc_OperationTimeout := DefaultOperationTimeout\<rparr> else c);
          c = (if cc_CleanupTimeout c = 0 then c\<lparr>cc_CleanupTimeout := DefaultCleanupTimeout\<rparr> else c)
      in if length (cc_CDISpecDirs c) = 0 then c\<lparr>cc_CDISpecDirs := defaultCDISpecDirs\<rparr> else c)"

definition alnum :: "char \<Rightarrow> bool" where
  "alnum c \<longleftrightarrow> is_lower c \<or> is_upper c \<or> is_digit c"

definition runtimeIdentifier :: "string \<Rightarrow> bool" where
  "runtimeIdentifier v = (case v of [] \<Rightarrow> False
     | c # rest \<Rightarrow> alnum c \<and> length rest \<le> 75 \<and> list_all (\<lambda>c. alnum c \<or> c = CHR ''_'' \<or> c = CHR ''.'' \<or> c = CHR ''-'') rest)"

fun check_directories :: "string list \<Rightarrow> string list \<Rightarrow> unit result" where
  "check_directories seen [] = Inr ()"
| "check_directories seen (d # rest) =
     (if \<not> is_abs d \<or> path_clean d \<noteq> d then Inl (ErrMsg ''invalid CDI spec directory'')
      else if d \<in> set seen then Inl (ErrMsg ''duplicate CDI spec directory'')
      else check_directories (d # seen) rest)"

definition containerd_validateConfig :: "(string \<Rightarrow> string result) \<Rightarrow> ContainerdConfig \<Rightarrow> unit result" where
  "containerd_validateConfig parse c =
     (if \<not> is_abs (cc_SocketPath c) \<or> path_clean (cc_SocketPath c) \<noteq> cc_SocketPath c
         \<or> \<not> is_abs (cc_FIFODir c) \<or> path_clean (cc_FIFODir c) \<noteq> cc_FIFODir c
         \<or> \<not> runtimeIdentifier (cc_Namespace c) \<or> \<not> runtimeIdentifier (cc_Snapshotter c) \<or> \<not> runtimeIdentifier (cc_Runtime c)
         \<or> cc_MaxActive c \<le> 0 \<or> cc_MaxActive c > MaxSupervisedActiveHard
         \<or> cc_OperationTimeout c \<le> 0 \<or> cc_OperationTimeout c > MaxOperationTimeout
         \<or> cc_CleanupTimeout c \<le> 0 \<or> cc_CleanupTimeout c > MaxCleanupTimeout
      then Inl (ErrMsg ''invalid containerd backend configuration'')
      else if length (cc_CDISpecDirs c) = 0 \<or> length (cc_CDISpecDirs c) > 8 then Inl (ErrMsg ''invalid CDI spec directories'')
      else case check_directories [] (cc_CDISpecDirs c) of Inl e \<Rightarrow> Inl e | Inr _ \<Rightarrow>
      if cc_Snapshotter c \<noteq> ''overlayfs'' \<or> cc_Runtime c \<noteq> ''io.containerd.runc.v2''
      then Inl (ErrMsg ''unsupported containerd isolation backend'')
      else if cc_PermitNetwork c \<or> isl (validateDriverLimits (cc_PolicyLimits c) (cc_PermitGPU c))
         \<or> isl (ValidateExecutionDigest (cc_ImageDigest c)) \<or> cc_ImagePlatform c \<noteq> ''linux/amd64''
         \<or> length (cc_ImageReference c) = 0 \<or> length (cc_ImageReference c) > MaxStringBytesHard
         \<or> CHR 0x00 \<in> set (cc_ImageReference c) \<or> \<not> has_suffix (cc_ImageReference c) (''@'' @ cc_ImageDigest c)
      then Inl (ErrMsg ''unsupported containerd isolation policy'')
      else validateGPUDeviceMap parse (cc_GPUDevices c) (cc_PermitGPU c) (lim_GPUDeviceCount (cc_PolicyLimits c)))"

section \<open>Opening\<close>

definition private_directory :: "unit node option \<Rightarrow> bool" where
  "private_directory info = (case info of None \<Rightarrow> False
     | Some n \<Rightarrow> node_type n = DirectoryFile \<and> node_perm n = mode_0700 \<and> node_owned n)"

text \<open>What the operating system and the engine show while the backend is opened.  A socket is given by whether it is
  one, its permissions and its owner; the names of a directory are \<open>None\<close> when it cannot be read.\<close>

record open_world =
  ow_ctx_nil :: bool
  ow_ctx_err :: bool
  ow_socket_parent :: "unit node option"
  ow_socket :: "(bool \<times> nat \<times> bool) option"
  ow_mkdir :: bool
  ow_fifo :: "unit node option"
  ow_names :: "string list option"
  ow_workspaces :: "unit node option"
  ow_workspace_names :: "string list option"
  ow_engine :: bool
  ow_ready :: "unit result option"
  ow_residue :: "unit result option"
  ow_release :: "bool \<times> bool"

definition validatePrivateSocket :: "open_world \<Rightarrow> unit result" where
  "validatePrivateSocket w =
     (if \<not> private_directory (ow_socket_parent w) then Inl (ErrMsg ''containerd socket directory is not private'')
      else case ow_socket w of None \<Rightarrow> Inl (ErrMsg ''containerd socket is not private'')
      | Some (socket, perm, owned) \<Rightarrow>
          if \<not> socket \<or> perm \<noteq> mode_0600 \<or> \<not> owned then Inl (ErrMsg ''containerd socket is not private'') else Inr ())"

definition ensurePrivateDirectory :: "bool \<Rightarrow> unit node option \<Rightarrow> unit result" where
  "ensurePrivateDirectory mkdir_ok info =
     (if \<not> mkdir_ok then Inl (ErrMsg ''create containerd FIFO directory'')
      else if \<not> private_directory info then Inl (ErrMsg ''containerd FIFO directory is not private'') else Inr ())"

definition validateEmptyWorkspaceRoot :: "unit node option \<Rightarrow> string list option \<Rightarrow> unit result" where
  "validateEmptyWorkspaceRoot info names =
     (if \<not> private_directory info then Inl (ErrMsg ''containerd workspace residue is invalid'')
      else case names of None \<Rightarrow> Inl (ErrMsg ''inspect containerd workspace residue'')
      | Some ns \<Rightarrow> if length ns \<noteq> 0 then Inl (ErrMsg ''containerd workspace residue is present'') else Inr ())"

fun check_names :: "open_world \<Rightarrow> string list \<Rightarrow> unit result" where
  "check_names w [] = Inr ()"
| "check_names w (name # rest) =
     (if name = ''workspaces'' then
        (case validateEmptyWorkspaceRoot (ow_workspaces w) (ow_workspace_names w) of Inl e \<Rightarrow> Inl e | Inr _ \<Rightarrow> check_names w rest)
      else if name \<noteq> ''.containerd-backend.lock'' then Inl (ErrMsg ''containerd FIFO residue is present'')
      else check_names w rest)"

definition validateFIFODir :: "open_world \<Rightarrow> unit result" where
  "validateFIFODir w = (case ow_names w of None \<Rightarrow> Inl (ErrMsg ''inspect containerd FIFO directory'') | Some names \<Rightarrow> check_names w names)"

text \<open>The state of the backend, with the goroutines inside \<open>runIsolated\<close> and how far they are.\<close>

datatype flight = InEngine | OutOfActive

datatype drain = Serving | DrainingProbes | DrainingRuns | EngineClosed

record Backend =
  be_maximum :: nat
  be_gpuDevices :: "(string \<times> string) list"
  be_active :: "string list"
  be_closed :: bool
  be_probes :: nat
  be_runs :: nat
  be_flight :: "(string \<times> flight) multiset"
  be_drain :: drain

definition engine_ok :: "unit result option \<Rightarrow> bool" where
  "engine_ok r = (case r of Some (Inr _) \<Rightarrow> True | _ \<Rightarrow> False)"

definition newBackendWithDevices :: "bool \<Rightarrow> bool \<Rightarrow> unit result option \<Rightarrow> unit result option \<Rightarrow> int \<Rightarrow> (string \<times> string) list \<Rightarrow> Backend result" where
  "newBackendWithDevices ctx_nil engine_nil ready residue maximum devices =
     (if ctx_nil \<or> engine_nil \<or> maximum \<le> 0 \<or> maximum > MaxSupervisedActiveHard then Inl (ErrMsg ''invalid containerd backend'')
      else if \<not> engine_ok ready then Inl (ErrMsg ''containerd backend is unavailable'')
      else if \<not> engine_ok residue then Inl (ErrMsg ''containerd backend namespace is not clean'')
      else Inr \<lparr>be_maximum = nat maximum, be_gpuDevices = devices, be_active = [], be_closed = False, be_probes = 0, be_runs = 0,
                be_flight = {#}, be_drain = Serving\<rparr>)"

definition containerd_Open :: "(string \<Rightarrow> string result) \<Rightarrow> ContainerdConfig \<Rightarrow> open_world \<Rightarrow> lock_obs \<Rightarrow> nat \<Rightarrow> nat \<Rightarrow> kernel
    \<Rightarrow> (Backend \<times> Lock) result \<times> kernel" where
  "containerd_Open parse config w obs i fd k =
     (if ow_ctx_nil w then (Inl (ErrMsg ''containerd backend context is required''), k)
      else if ow_ctx_err w then (Inl ErrContext, k)
      else let c = withConfigDefaults config in
      case containerd_validateConfig parse c of Inl e \<Rightarrow> (Inl e, k) | Inr _ \<Rightarrow>
      (case validatePrivateSocket w of Inl e \<Rightarrow> (Inl e, k) | Inr _ \<Rightarrow>
      (case ensurePrivateDirectory (ow_mkdir w) (ow_fifo w) of Inl e \<Rightarrow> (Inl e, k) | Inr _ \<Rightarrow>
      (case Acquire (cc_FIFODir c) ''.containerd-backend.lock'' obs i fd k of
         (Inl e, k1) \<Rightarrow> (Inl (ErrMsg ''containerd backend namespace is already owned''), k1)
       | (Inr l, k1) \<Rightarrow>
           let release = snd (snd (Lock_Close (fst (ow_release w)) (snd (ow_release w)) l k1)) in
           case validateFIFODir w of Inl e \<Rightarrow> (Inl e, release) | Inr _ \<Rightarrow>
           if \<not> ow_engine w then (Inl (ErrMsg ''open containerd backend''), release)
           else (case newBackendWithDevices False False (ow_ready w) (ow_residue w) (cc_MaxActive c) (cc_GPUDevices c) of
                   Inl e \<Rightarrow> (Inl e, release)
                 | Inr b \<Rightarrow> (Inr (b, l), k1))))))"

section \<open>Running\<close>

text \<open>The section of \<open>runIsolated\<close> from its checks to the unlock before the engine call.\<close>

definition begin_isolated :: "bool \<Rightarrow> bool \<Rightarrow> ContainerRequest \<Rightarrow> bytes \<Rightarrow> nat \<Rightarrow> Backend \<Rightarrow> Backend result" where
  "begin_isolated ctx_nil ctx_err request input devices b =
     (if ctx_nil then Inl (ErrMsg ''invalid containerd backend request'')
      else if ctx_err then Inl ErrContext
      else case validateRequest request input devices of Inl e \<Rightarrow> Inl e | Inr _ \<Rightarrow>
      if be_closed b then Inl (ErrMsg ''containerd backend is closed'')
      else if length (be_active b) \<ge> be_maximum b then Inl (ErrMsg ''containerd backend capacity is exhausted'')
      else if req_ExecutionDigest request \<in> set (be_active b) then Inl (ErrMsg ''containerd execution is already active'')
      else Inr (b\<lparr>be_active := req_ExecutionDigest request # be_active b, be_runs := be_runs b + 1,
                  be_flight := add_mset (req_ExecutionDigest request, InEngine) (be_flight b)\<rparr>))"

text \<open>The deferred function: \<open>delete(b.active, digest)\<close> under the mutex, then \<open>b.runs.Done()\<close>.\<close>

definition end_delete :: "string \<Rightarrow> Backend \<Rightarrow> Backend" where
  "end_delete d b = b\<lparr>be_active := removeAll d (be_active b),
     be_flight := add_mset (d, OutOfActive) (be_flight b - {#(d, InEngine)#})\<rparr>"

definition end_done :: "string \<Rightarrow> Backend \<Rightarrow> Backend" where
  "end_done d b = b\<lparr>be_runs := be_runs b - 1, be_flight := be_flight b - {#(d, OutOfActive)#}\<rparr>"

definition runtimeID :: "string \<Rightarrow> string" where
  "runtimeID digest = drop (length ''sha256:'') digest"

definition isolated_result :: "bool \<Rightarrow> Result result option \<Rightarrow> Result result" where
  "isolated_result ctx_err_after r =
     (if ctx_err_after then Inl ErrContext
      else case r of Some (Inr v) \<Rightarrow> Inr v | _ \<Rightarrow> Inl (ErrMsg ''containerd execution failed''))"

text \<open>\<open>runIsolated\<close> of one goroutine; \<open>meanwhile\<close> is what the other goroutines do to the state during the engine call.\<close>

type_synonym containerd_engine = "string \<Rightarrow> ContainerRequest \<Rightarrow> bytes \<Rightarrow> string list \<Rightarrow> Result result option"

definition backend_runIsolated :: "containerd_engine \<Rightarrow> (Backend \<Rightarrow> Backend) \<Rightarrow> bool \<Rightarrow> bool \<Rightarrow> bool \<Rightarrow> ContainerRequest \<Rightarrow> bytes \<Rightarrow> string list \<Rightarrow> Backend
    \<Rightarrow> Result result \<times> Backend" where
  "backend_runIsolated engine meanwhile ctx_nil ctx_err ctx_err_after request input devices b =
     (case begin_isolated ctx_nil ctx_err request input (length devices) b of
        Inl e \<Rightarrow> (Inl e, b)
      | Inr b1 \<Rightarrow>
          let d = req_ExecutionDigest request in
          (isolated_result ctx_err_after (engine (runtimeID d) request input devices), end_done d (end_delete d (meanwhile b1))))"

fun resolve_aliases :: "(string \<times> string) list \<Rightarrow> string list \<Rightarrow> string list \<Rightarrow> string list result" where
  "resolve_aliases devices seen [] = Inr []"
| "resolve_aliases devices seen (alias # rest) =
     (case map_of devices alias of None \<Rightarrow> Inl (ErrMsg ''unknown GPU device alias'')
      | Some device \<Rightarrow>
          if alias \<in> set seen then Inl (ErrMsg ''duplicate GPU device alias'')
          else (case resolve_aliases devices (alias # seen) rest of Inl e \<Rightarrow> Inl e | Inr ds \<Rightarrow> Inr (device # ds)))"

definition assigned_devices :: "ContainerRequest \<Rightarrow> string list \<Rightarrow> Backend \<Rightarrow> string list result" where
  "assigned_devices request aliases b =
     (if length aliases = 0 \<or> length aliases \<noteq> unat (lim_GPUDeviceCount (req_Limits request))
      then Inl (ErrMsg ''invalid GPU device assignment'')
      else resolve_aliases (be_gpuDevices b) [] aliases)"

definition RunIsolatedOnDevices :: "containerd_engine \<Rightarrow> (Backend \<Rightarrow> Backend) \<Rightarrow> bool \<Rightarrow> bool \<Rightarrow> bool \<Rightarrow> ContainerRequest \<Rightarrow> bytes \<Rightarrow> string list \<Rightarrow> Backend
    \<Rightarrow> Result result \<times> Backend" where
  "RunIsolatedOnDevices engine meanwhile ctx_nil ctx_err ctx_err_after request input aliases b =
     (case assigned_devices request aliases b of
        Inl e \<Rightarrow> (Inl e, b)
      | Inr devices \<Rightarrow> backend_runIsolated engine meanwhile ctx_nil ctx_err ctx_err_after request input devices b)"

section \<open>Readiness and closing\<close>

definition begin_ready :: "bool \<Rightarrow> bool \<Rightarrow> Backend \<Rightarrow> Backend result" where
  "begin_ready ctx_nil ctx_err b =
     (if ctx_nil then Inl (ErrMsg ''invalid containerd backend readiness request'')
      else if ctx_err then Inl ErrContext
      else if be_closed b then Inl (ErrMsg ''containerd backend is closed'')
      else Inr (b\<lparr>be_probes := be_probes b + 1\<rparr>))"

definition end_ready :: "Backend \<Rightarrow> Backend" where
  "end_ready b = b\<lparr>be_probes := be_probes b - 1\<rparr>"

definition backend_CheckReady :: "bool \<Rightarrow> bool \<Rightarrow> bool \<Rightarrow> unit result option \<Rightarrow> (Backend \<Rightarrow> Backend) \<Rightarrow> Backend \<Rightarrow> unit result \<times> Backend" where
  "backend_CheckReady ctx_nil ctx_err ctx_err_after ready meanwhile b =
     (case begin_ready ctx_nil ctx_err b of
        Inl e \<Rightarrow> (Inl e, b)
      | Inr b1 \<Rightarrow> (if engine_ok ready then Inr () else if ctx_err_after then Inl ErrContext else Inl (ErrMsg ''containerd backend is unavailable''),
                    end_ready (meanwhile b1)))"

text \<open>The body of \<open>Close\<close>, run once: refuse new calls and cancel the active ones, wait for the probes, wait for the runs,
  close the engine.  A cancelled run still returns through its own goroutine.\<close>

definition close_begin :: "Backend \<Rightarrow> Backend" where
  "close_begin b = b\<lparr>be_closed := True, be_drain := DrainingProbes\<rparr>"

definition close_probes_done :: "Backend \<Rightarrow> Backend option" where
  "close_probes_done b = (if be_drain b = DrainingProbes \<and> be_probes b = 0 then Some (b\<lparr>be_drain := DrainingRuns\<rparr>) else None)"

definition close_engine :: "Backend \<Rightarrow> Backend option" where
  "close_engine b = (if be_drain b = DrainingRuns \<and> be_runs b = 0 then Some (b\<lparr>be_drain := EngineClosed\<rparr>) else None)"

definition joined_close :: "bool \<Rightarrow> unit result option \<Rightarrow> unit result \<Rightarrow> unit result" where
  "joined_close has_ownership engine ownership =
     (let failed = (case engine of None \<Rightarrow> [''containerd close panicked''] | Some (Inl e) \<Rightarrow> [''close containerd runtime''] | Some (Inr _) \<Rightarrow> []);
          errs = failed @ (if has_ownership \<and> isl ownership then [''release private directory ownership lock''] else [])
      in if errs = [] then Inr () else Inl (ErrMsg (join_with [CHR 0x0A] errs)))"

inductive backend_step :: "Backend \<Rightarrow> Backend \<Rightarrow> bool" where
  step_begin: "begin_isolated False False request input n b = Inr b' \<Longrightarrow> backend_step b b'"
| step_delete: "(d, InEngine) \<in># be_flight b \<Longrightarrow> backend_step b (end_delete d b)"
| step_done: "(d, OutOfActive) \<in># be_flight b \<Longrightarrow> backend_step b (end_done d b)"
| step_ready: "begin_ready False False b = Inr b' \<Longrightarrow> backend_step b b'"
| step_ready_end: "0 < be_probes b \<Longrightarrow> backend_step b (end_ready b)"
| step_close: "be_drain b = Serving \<Longrightarrow> backend_step b (close_begin b)"
| step_probes_done: "close_probes_done b = Some b' \<Longrightarrow> backend_step b b'"
| step_close_engine: "close_engine b = Some b' \<Longrightarrow> backend_step b b'"

inductive_cases backend_stepE: "backend_step b b'"

section \<open>Invariant\<close>

definition in_engine :: "Backend \<Rightarrow> (string \<times> flight) multiset" where
  "in_engine b = filter_mset (\<lambda>r. snd r = InEngine) (be_flight b)"

definition backend_ok :: "Backend \<Rightarrow> bool" where
  "backend_ok b \<longleftrightarrow> distinct (be_active b) \<and> length (be_active b) \<le> be_maximum b
     \<and> in_engine b = image_mset (\<lambda>d. (d, InEngine)) (mset (be_active b)) \<and> be_runs b = size (be_flight b)
     \<and> (be_closed b \<longleftrightarrow> be_drain b \<noteq> Serving)
     \<and> (be_drain b = DrainingRuns \<or> be_drain b = EngineClosed \<longrightarrow> be_probes b = 0)
     \<and> (be_drain b = EngineClosed \<longrightarrow> be_runs b = 0)"

definition backend_new :: "Backend \<Rightarrow> bool" where
  "backend_new b \<longleftrightarrow> (\<exists>ready residue maximum devices. newBackendWithDevices False False ready residue maximum devices = Inr b)"

lemma backend_new_ok: "backend_new b \<Longrightarrow> backend_ok b"
  by (auto simp: backend_new_def newBackendWithDevices_def backend_ok_def in_engine_def split: if_splits)

lemma begin_isolated_elim:
  assumes "begin_isolated ctx_nil ctx_err request input n b = Inr b'"
  shows "\<not> be_closed b" "length (be_active b) < be_maximum b" "req_ExecutionDigest request \<notin> set (be_active b)"
    "validateRequest request input n = Inr ()"
    "b' = b\<lparr>be_active := req_ExecutionDigest request # be_active b, be_runs := be_runs b + 1,
            be_flight := add_mset (req_ExecutionDigest request, InEngine) (be_flight b)\<rparr>"
  using assms by (simp_all add: begin_isolated_def split: if_splits sum.splits)

lemma begin_ready_elim:
  assumes "begin_ready ctx_nil ctx_err b = Inr b'"
  shows "\<not> be_closed b" "b' = b\<lparr>be_probes := be_probes b + 1\<rparr>"
  using assms by (simp_all add: begin_ready_def split: if_splits)

lemma in_engine_delete:
  assumes "backend_ok b" and "(d, InEngine) \<in># be_flight b"
  shows "in_engine (end_delete d b) = image_mset (\<lambda>d. (d, InEngine)) (mset (be_active (end_delete d b)))"
proof -
  have eq: "in_engine b = image_mset (\<lambda>d. (d, InEngine)) (mset (be_active b))" and dist: "distinct (be_active b)"
    using assms(1) by (simp_all add: backend_ok_def)
  have "(d, InEngine) \<in># in_engine b" using assms(2) by (simp add: in_engine_def)
  hence "d \<in> set (be_active b)" by (auto simp: eq)
  hence "mset (removeAll d (be_active b)) = mset (be_active b) - {#d#}"
    using dist by (simp add: distinct_remove1_removeAll[symmetric])
  moreover have "image_mset (\<lambda>d. (d, InEngine)) (mset (be_active b) - {#d#}) = in_engine b - {#(d, InEngine)#}"
    using \<open>d \<in> set (be_active b)\<close> by (simp add: eq image_mset_Diff)
  ultimately show ?thesis by (simp add: end_delete_def in_engine_def)
qed

lemma backend_step_ok:
  assumes "backend_ok b" and "backend_step b b'"
  shows "backend_ok b'"
  using assms(2)
proof cases
  case (step_begin request input n)
  note e = begin_isolated_elim[OF step_begin]
  show ?thesis using assms(1) e(1-3) unfolding e(5) by (simp add: backend_ok_def in_engine_def)
next
  case (step_delete d)
  have "size (be_flight (end_delete d b)) = size (be_flight b)"
    using step_delete(2) by (simp add: end_delete_def size_Diff_singleton) (metis Suc_pred nonempty_has_size empty_iff set_mset_empty)
  moreover have "length (removeAll d (be_active b)) \<le> be_maximum b"
    using assms(1) length_removeAll_less_eq[of d "be_active b"] unfolding backend_ok_def by linarith
  moreover have "be_drain b \<noteq> EngineClosed" using assms(1) step_delete(2) by (auto simp: backend_ok_def)
  ultimately show ?thesis using assms(1) in_engine_delete[OF assms(1) step_delete(2)]
    by (simp add: step_delete(1) backend_ok_def) (simp add: end_delete_def distinct_removeAll)
next
  case (step_done d)
  have "in_engine (end_done d b) = in_engine b" by (simp add: in_engine_def end_done_def)
  moreover have "size (be_flight b) \<noteq> 0" using step_done(2) by auto
  ultimately show ?thesis using assms(1) step_done(2)
    by (simp add: step_done(1) backend_ok_def) (auto simp: end_done_def size_Diff_singleton)
next
  case step_ready
  note e = begin_ready_elim[OF step_ready]
  show ?thesis using assms(1) e(1) unfolding e(2) by (simp add: backend_ok_def in_engine_def)
next
  case step_ready_end
  thus ?thesis using assms(1) by (simp add: backend_ok_def in_engine_def end_ready_def)
next
  case step_close
  thus ?thesis using assms(1) by (simp add: backend_ok_def in_engine_def close_begin_def)
next
  case step_probes_done
  thus ?thesis using assms(1) by (auto simp: backend_ok_def in_engine_def close_probes_done_def split: if_splits)
next
  case step_close_engine
  thus ?thesis using assms(1) by (auto simp: backend_ok_def in_engine_def close_engine_def split: if_splits)
qed

interpretation cbe: invariant_system backend_new backend_step backend_ok
  by unfold_locales (fact backend_new_ok, fact backend_step_ok)

text \<open>What is left to do once \<open>Close\<close> has begun.\<close>

definition drain_rank :: "drain \<Rightarrow> nat" where
  "drain_rank d = (case d of Serving \<Rightarrow> 3 | DrainingProbes \<Rightarrow> 2 | DrainingRuns \<Rightarrow> 1 | EngineClosed \<Rightarrow> 0)"

definition drain_measure :: "Backend \<Rightarrow> nat" where
  "drain_measure b = size (in_engine b) + size (be_flight b) + be_probes b + drain_rank (be_drain b)"

lemma backend_progress:
  assumes "backend_ok b" and "be_closed b" and "be_drain b \<noteq> EngineClosed"
  shows "\<exists>b'. backend_step b b'"
proof (cases "be_flight b = {#}")
  case False
  then obtain d p where "(d, p) \<in># be_flight b" by (metis multiset_nonemptyE surj_pair)
  thus ?thesis by (cases p) (blast intro: step_delete step_done)+
next
  case True
  hence "be_runs b = 0" using assms(1) by (simp add: backend_ok_def)
  moreover have "be_drain b = DrainingProbes \<or> be_drain b = DrainingRuns"
    using assms by (cases "be_drain b") (simp_all add: backend_ok_def)
  ultimately show ?thesis
    using step_ready_end[of b] step_probes_done[of b] step_close_engine[of b]
    by (cases "be_probes b = 0") (auto simp: close_probes_done_def close_engine_def)
qed

lemma drain_decreases:
  assumes "backend_ok b" and "be_closed b" and "backend_step b b'"
  shows "drain_measure b' < drain_measure b"
  using assms(3)
proof cases
  case (step_begin request input n)
  from begin_isolated_elim(1)[OF step_begin] assms(2) show ?thesis by simp
next
  case (step_delete d)
  have "in_engine b = add_mset (d, InEngine) (in_engine (end_delete d b))"
    using step_delete(2) by (simp add: in_engine_def end_delete_def)
  moreover have "be_flight b = add_mset (d, InEngine) (be_flight b - {#(d, InEngine)#})" using step_delete(2) by simp
  hence "size (be_flight b) = Suc (size (be_flight b - {#(d, InEngine)#}))" by (metis size_add_mset)
  ultimately show ?thesis by (simp add: step_delete(1) drain_measure_def) (simp add: end_delete_def)
next
  case (step_done d)
  have "be_flight b = add_mset (d, OutOfActive) (be_flight b - {#(d, OutOfActive)#})" using step_done(2) by simp
  hence "size (be_flight b) = Suc (size (be_flight b - {#(d, OutOfActive)#}))" by (metis size_add_mset)
  thus ?thesis by (simp add: step_done(1) drain_measure_def in_engine_def end_done_def)
next
  case step_ready
  from begin_ready_elim(1)[OF step_ready] assms(2) show ?thesis by simp
next
  case step_close
  thus ?thesis using assms(1,2) by (simp add: backend_ok_def)
qed (auto simp: drain_measure_def in_engine_def end_ready_def close_probes_done_def close_engine_def drain_rank_def split: if_splits)

section \<open>Properties\<close>

text \<open>C11.  Bounded and exclusive.  In every state the backend can reach, however its goroutines interleave, the executions
  inside the engine have different identities and are at most as many as configured; and once the engine is closed,
  none is inside, no probe is, and neither an execution nor a probe can enter.\<close>

theorem backend_bounded_exclusive:
  assumes "reach backend_new backend_step b"
  shows "size (in_engine b) \<le> be_maximum b \<and> count (in_engine b) (d, InEngine) \<le> 1
     \<and> (be_drain b = EngineClosed \<longrightarrow> be_flight b = {#} \<and> be_probes b = 0
          \<and> isl (begin_isolated ctx_nil ctx_err request input n b) \<and> isl (begin_ready ctx_nil ctx_err b))"
proof -
  have ok: "backend_ok b" using cbe.reach_inv[OF assms] .
  have "distinct (map (\<lambda>d. (d, InEngine)) (be_active b))" using ok by (simp add: backend_ok_def distinct_map inj_on_def)
  hence "count (mset (map (\<lambda>d. (d, InEngine)) (be_active b))) (d, InEngine) \<le> 1"
    unfolding distinct_count_atmost_1 by simp
  moreover have "isl (begin_isolated ctx_nil ctx_err request input n b)" "isl (begin_ready ctx_nil ctx_err b)" if "be_closed b"
    using that by (auto simp: begin_isolated_def begin_ready_def split: sum.splits)
  ultimately show ?thesis using ok by (auto simp: backend_ok_def)
qed

text \<open>C18.  Closing ends.  Once \<open>Close\<close> has begun, every step any goroutine can still take brings the state closer to the
  closed engine, and until the engine is closed some step is possible: with engine calls that return, \<open>Close\<close> returns.\<close>

theorem backend_close_terminates:
  assumes "reach backend_new backend_step b" and "be_closed b"
  shows "(be_drain b = EngineClosed \<or> (\<exists>b'. backend_step b b'))
     \<and> (\<forall>b'. backend_step b b' \<longrightarrow> be_closed b' \<and> drain_measure b' < drain_measure b)"
proof -
  have ok: "backend_ok b" using cbe.reach_inv[OF assms(1)] .
  have "be_closed b'" if "backend_step b b'" for b'
    using that assms(2) by cases (auto dest: begin_isolated_elim begin_ready_elim
        simp: end_delete_def end_done_def end_ready_def close_begin_def close_probes_done_def close_engine_def split: if_splits)
  thus ?thesis using backend_progress[OF ok assms(2)] drain_decreases[OF ok assms(2)] by blast
qed

subsection \<open>A run and a close\<close>

definition demo_backend :: Backend where
  "demo_backend = \<lparr>be_maximum = 1, be_gpuDevices = [], be_active = [], be_closed = False, be_probes = 0, be_runs = 0,
     be_flight = {#}, be_drain = Serving\<rparr>"

lemma demo_backend_new: "backend_new demo_backend"
  unfolding backend_new_def demo_backend_def
  by (rule exI[of _ "Some (Inr ())"], rule exI[of _ "Some (Inr ())"], rule exI[of _ 1], rule exI[of _ "[]"])
    (simp add: newBackendWithDevices_def engine_ok_def)

lemma demo_begin: "begin_isolated False False demo_creq ''in'' 0 demo_backend
    = Inr (demo_backend\<lparr>be_active := [demo_image], be_runs := 1, be_flight := {#(demo_image, InEngine)#}\<rparr>)"
  by (simp add: begin_isolated_def demo_creq_valid) (simp add: demo_backend_def demo_creq_def)

definition demo_busy :: Backend where
  "demo_busy = demo_backend\<lparr>be_active := [demo_image], be_runs := 1, be_flight := {#(demo_image, InEngine)#}\<rparr>"

lemma demo_busy_reach: "reach backend_new backend_step demo_busy"
proof (rule reach_step)
  show "reach backend_new backend_step demo_backend" by (rule reach_init) (rule demo_backend_new)
  show "backend_step demo_backend demo_busy" unfolding demo_busy_def by (rule step_begin[OF demo_begin])
qed

lemma demo_closing_reach: "reach backend_new backend_step (close_begin demo_busy)"
proof (rule reach_step)
  show "reach backend_new backend_step demo_busy" by (rule demo_busy_reach)
  show "backend_step demo_busy (close_begin demo_busy)" by (rule step_close) (simp add: demo_busy_def demo_backend_def)
qed

theorem backend_bounded_exclusive_witness:
  "size (in_engine demo_busy) \<le> 1 \<and> count (in_engine demo_busy) (demo_image, InEngine) = 1"
  using backend_bounded_exclusive[OF demo_busy_reach, of demo_image False False demo_creq "''in''" 0]
  by (simp add: demo_busy_def demo_backend_def in_engine_def)

theorem backend_close_terminates_witness:
  "be_closed (close_begin demo_busy) \<and> (\<exists>b'. backend_step (close_begin demo_busy) b' \<and> drain_measure b' < drain_measure (close_begin demo_busy))"
proof -
  have "be_closed (close_begin demo_busy)" "be_drain (close_begin demo_busy) \<noteq> EngineClosed" by (simp_all add: close_begin_def)
  with backend_close_terminates[OF demo_closing_reach] show ?thesis by blast
qed

end
