(* ===== verification/Gpu_Isolation.thy ===== *)
theory Gpu_Isolation
  imports Containerd_Backend
begin

text \<open>
  Package \<open>executor/gpuisolation\<close>: leases of GPU devices in front of a container backend, and the composition with the
  containerd backend, which translates the leased aliases into device identifiers.

  \<open>acquire\<close> and \<open>release\<close> are the sections under the mutex; \<open>gpu_step\<close> interleaves the executions.  The map \<open>leased\<close> is
  the list of its entries.
\<close>

abbreviation (input) MaxDevices :: nat where "MaxDevices \<equiv> 64"

record gpu_client =
  gc_devices :: "string list"
  gc_leased :: "(string \<times> string) list"

definition validAlias :: "string \<Rightarrow> bool" where
  "validAlias v = (if length v < 3 \<or> length v > 64 \<or> contains_sub v ''..'' then False
     else list_all (\<lambda>c. is_lower c \<or> is_digit c \<or> c = CHR ''-'') v)"

definition gpu_New :: "string list \<Rightarrow> bool \<Rightarrow> gpu_client result" where
  "gpu_New aliases backend_nil =
     (if length aliases = 0 \<or> length aliases > MaxDevices \<or> backend_nil then Inl (ErrMsg ''invalid GPU isolation configuration'')
      else let devices = sort aliases in
        if list_ex (\<lambda>i. \<not> validAlias (devices ! i) \<or> 0 < i \<and> devices ! (i - 1) = devices ! i) [0..<length devices]
        then Inl (ErrMsg ''invalid GPU device alias'')
        else Inr \<lparr>gc_devices = devices, gc_leased = []\<rparr>)"

definition Available :: "gpu_client \<Rightarrow> int" where
  "Available c = int (length (gc_devices c)) - int (length (gc_leased c))"

fun lease_loop :: "string \<Rightarrow> int \<Rightarrow> (string \<times> string) list \<Rightarrow> string list \<Rightarrow> string list \<Rightarrow> string list \<times> (string \<times> string) list" where
  "lease_loop owner cnt leased got [] = (got, leased)"
| "lease_loop owner cnt leased got (alias # rest) =
     (if alias \<in> set (map fst leased) then lease_loop owner cnt leased got rest
      else if int (length (got @ [alias])) = cnt then (got @ [alias], (alias, owner) # leased)
      else lease_loop owner cnt ((alias, owner) # leased) (got @ [alias]) rest)"

definition gpu_acquire :: "string \<Rightarrow> int \<Rightarrow> gpu_client \<Rightarrow> string list result \<times> gpu_client" where
  "gpu_acquire owner cnt c =
     (if cnt < 0 \<or> cnt > int (length (gc_devices c)) - int (length (gc_leased c))
      then (Inl (ErrMsg ''GPU device capacity exhausted''), c)
      else if cnt = 0 then (Inr [], c)
      else if owner \<in> set (map snd (gc_leased c)) then (Inl (ErrMsg ''execution already owns GPU devices''), c)
      else case lease_loop owner cnt (gc_leased c) [] (gc_devices c) of
        (devices, leased) \<Rightarrow> (Inr devices, c\<lparr>gc_leased := leased\<rparr>))"

definition gpu_release :: "string \<Rightarrow> string list \<Rightarrow> gpu_client \<Rightarrow> gpu_client" where
  "gpu_release owner devices c = c\<lparr>gc_leased :=
     foldl (\<lambda>leased alias. if map_of leased alias = Some owner then filter (\<lambda>(a, _). a \<noteq> alias) leased else leased) (gc_leased c) devices\<rparr>"

text \<open>\<open>RunIsolated\<close> up to the lease, and what it returns for the result of the backend (\<open>None\<close> is a panic).\<close>

definition gpu_begin :: "bool \<Rightarrow> bool \<Rightarrow> ContainerRequest \<Rightarrow> gpu_client \<Rightarrow> string list result \<times> gpu_client" where
  "gpu_begin ctx_nil ctx_err request c =
     (if ctx_nil \<or> isl (ValidateExecutionDigest (req_ExecutionDigest request)) then (Inl (ErrMsg ''invalid GPU isolation request''), c)
      else if ctx_err then (Inl ErrContext, c)
      else let cnt = uint (lim_GPUDeviceCount (req_Limits request)) in
        if req_AllowGPU request \<noteq> (cnt > 0) then (Inl (ErrMsg ''GPU isolation request is inconsistent''), c)
        else gpu_acquire (req_ExecutionDigest request) cnt c)"

definition gpu_result :: "bool \<Rightarrow> Result result option \<Rightarrow> Result result" where
  "gpu_result ctx_err_after r =
     (case r of Some (Inr v) \<Rightarrow> if ctx_err_after then Inl ErrContext else Inr v
      | _ \<Rightarrow> Inl (ErrMsg ''GPU isolation backend failed''))"

definition gpu_RunIsolated :: "(ContainerRequest \<Rightarrow> bytes \<Rightarrow> string list \<Rightarrow> Result result option) \<Rightarrow> (gpu_client \<Rightarrow> gpu_client)
    \<Rightarrow> bool \<Rightarrow> bool \<Rightarrow> bool \<Rightarrow> ContainerRequest \<Rightarrow> bytes \<Rightarrow> gpu_client \<Rightarrow> Result result \<times> gpu_client" where
  "gpu_RunIsolated backend meanwhile ctx_nil ctx_err ctx_err_after request input c =
     (case gpu_begin ctx_nil ctx_err request c of
        (Inl e, c1) \<Rightarrow> (Inl e, c1)
      | (Inr devices, c1) \<Rightarrow> (gpu_result ctx_err_after (backend request input devices),
                              gpu_release (req_ExecutionDigest request) devices (meanwhile c1)))"

section \<open>Interleaved executions\<close>

text \<open>The client with the executions between their lease and their release.\<close>

type_synonym gpu_state = "gpu_client \<times> (ContainerRequest \<times> string list) list"

inductive gpu_step :: "gpu_state \<Rightarrow> gpu_state \<Rightarrow> bool" where
  gpu_start: "gpu_begin False False request c = (Inr devices, c') \<Longrightarrow> gpu_step (c, runs) (c', (request, devices) # runs)"
| gpu_end: "gpu_step (c, before @ (request, devices) # after) (gpu_release (req_ExecutionDigest request) devices c, before @ after)"

definition gpu_init :: "gpu_state \<Rightarrow> bool" where
  "gpu_init s \<longleftrightarrow> snd s = [] \<and> (\<exists>aliases. gpu_New aliases False = Inr (fst s))"

definition leases :: "(ContainerRequest \<times> string list) list \<Rightarrow> (string \<times> string) list" where
  "leases runs = concat (map (\<lambda>(request, devices). map (\<lambda>a. (a, req_ExecutionDigest request)) devices) runs)"

definition gpu_ok :: "gpu_state \<Rightarrow> bool" where
  "gpu_ok = (\<lambda>(c, runs). distinct (gc_devices c) \<and> distinct (map fst (gc_leased c)) \<and> set (map fst (gc_leased c)) \<subseteq> set (gc_devices c)
     \<and> mset (gc_leased c) = mset (leases runs)
     \<and> list_all (\<lambda>(request, devices). length devices = unat (lim_GPUDeviceCount (req_Limits request))) runs)"

lemma leases_simps [simp]:
  "leases [] = []"
  "leases ((r, ds) # runs) = map (\<lambda>a. (a, req_ExecutionDigest r)) ds @ leases runs"
  "leases (xs @ ys) = leases xs @ leases ys"
  by (simp_all add: leases_def)

lemma map_fst_leases: "map fst (leases runs) = concat (map snd runs)"
  by (induction runs) (auto simp: o_def)

lemma adjacent_distinct:
  assumes "sorted xs" and "\<forall>i < length xs. 0 < i \<longrightarrow> xs ! (i - 1) \<noteq> xs ! i"
  shows "distinct (xs :: string list)"
proof -
  have "\<forall>i. Suc i < length xs \<longrightarrow> xs ! i \<noteq> xs ! Suc i" using assms(2) by (metis Suc_eq_plus1 add_diff_cancel_right' zero_less_Suc)
  hence "strictly_sorted xs" using sorted_nodup_strict[OF assms(1)] by simp
  thus ?thesis by (simp add: strictly_sorted_iff)
qed

lemma gpu_New_ok: "gpu_init s \<Longrightarrow> gpu_ok s"
proof -
  assume "gpu_init s"
  then obtain aliases where n: "snd s = []" "gpu_New aliases False = Inr (fst s)" by (auto simp: gpu_init_def)
  hence "fst s = \<lparr>gc_devices = sort aliases, gc_leased = []\<rparr>"
    and "\<not> list_ex (\<lambda>i. \<not> validAlias (sort aliases ! i) \<or> 0 < i \<and> sort aliases ! (i - 1) = sort aliases ! i) [0..<length (sort aliases)]"
    by (auto simp: gpu_New_def Let_def split: if_splits)
  moreover from this(2) have "\<forall>i < length (sort aliases). 0 < i \<longrightarrow> sort aliases ! (i - 1) \<noteq> sort aliases ! i"
    unfolding list_ex_iff set_upt by (metis atLeastLessThan_iff zero_le)
  hence "distinct (sort aliases)" by (intro adjacent_distinct) simp_all
  ultimately show ?thesis using n(1) by (cases s) (simp add: gpu_ok_def)
qed

text \<open>The loop of \<open>acquire\<close> takes the first free devices.\<close>

lemma lease_loop_spec:
  assumes "distinct ds" and "int (length got) < cnt"
  shows "\<exists>new. new = take (nat cnt - length got) (filter (\<lambda>a. a \<notin> set (map fst leased)) ds)
    \<and> lease_loop owner cnt leased got ds = (got @ new, rev (map (\<lambda>a. (a, owner)) new) @ leased)"
  using assms
proof (induction ds arbitrary: leased got)
  case (Cons a ds)
  have free: "filter (\<lambda>x. x \<noteq> a \<and> x \<notin> fst ` set leased) ds = filter (\<lambda>x. x \<notin> fst ` set leased) ds"
    using Cons.prems(1) by (intro filter_cong) auto
  show ?case
  proof (cases "a \<in> set (map fst leased)")
    case True
    thus ?thesis using Cons by auto
  next
    case False
    have n: "nat cnt - length got = Suc (nat cnt - length (got @ [a]))" using Cons.prems(2) by simp
    show ?thesis
    proof (cases "int (length (got @ [a])) = cnt")
      case True
      hence "nat cnt - length got = 1" by simp
      thus ?thesis using False True by simp
    next
      case more: False
      hence "int (length (got @ [a])) < cnt" using Cons.prems(2) by simp
      from Cons.IH[OF _ this, of "(a, owner) # leased"] Cons.prems(1) False more free n show ?thesis by simp
    qed
  qed
qed simp

lemma free_devices:
  assumes "distinct ds" and "distinct (map fst leased)" and "set (map fst leased) \<subseteq> set ds"
  shows "length (filter (\<lambda>a. a \<notin> set (map fst leased)) ds) = length ds - length leased"
proof -
  have "length (filter (\<lambda>a. a \<notin> set (map fst leased)) ds) = card (set ds - set (map fst leased))"
    using assms(1) by (simp add: distinct_card[symmetric] set_diff_eq)
  also have "\<dots> = card (set ds) - card (set (map fst leased))" using assms(3) by (intro card_Diff_subset) simp_all
  finally show ?thesis using assms(1,2) by (simp only: distinct_card length_map)
qed

lemma gpu_acquire_ok:
  assumes ok: "gpu_ok (c, runs)" and acq: "gpu_acquire (req_ExecutionDigest r) (uint (lim_GPUDeviceCount (req_Limits r))) c = (Inr ds, c')"
  shows "gpu_ok (c', (r, ds) # runs)"
proof -
  define n where "n = unat (lim_GPUDeviceCount (req_Limits r))"
  have cnt: "uint (lim_GPUDeviceCount (req_Limits r)) = int n" by (simp add: n_def)
  note inv = ok[unfolded gpu_ok_def prod.case]
  show ?thesis
  proof (cases "n = 0")
    case True
    hence "ds = []" "c' = c" using acq by (auto simp: gpu_acquire_def cnt split: if_splits)
    thus ?thesis using inv True by (simp add: gpu_ok_def n_def)
  next
    case False
    define free where "free = filter (\<lambda>a. a \<notin> set (map fst (gc_leased c))) (gc_devices c)"
    have enough: "n \<le> length (gc_devices c) - length (gc_leased c)" using acq by (auto simp: gpu_acquire_def cnt split: if_splits)
    have new: "lease_loop (req_ExecutionDigest r) (int n) (gc_leased c) [] (gc_devices c)
        = (take n free, rev (map (\<lambda>a. (a, req_ExecutionDigest r)) (take n free)) @ gc_leased c)"
      using lease_loop_spec[of "gc_devices c" "[]" "int n" "gc_leased c" "req_ExecutionDigest r"] inv False by (simp add: free_def)
    have len: "length (take n free) = n" using enough free_devices[of "gc_devices c" "gc_leased c"] inv
      by (simp only: free_def length_take min_absorb2)
    have sub: "set (take n free) \<subseteq> set free" by (rule set_take_subset)
    have dist: "distinct (take n free)" using inv by (simp add: free_def)
    have "ds = take n free" "c' = c\<lparr>gc_leased := rev (map (\<lambda>a. (a, req_ExecutionDigest r)) (take n free)) @ gc_leased c\<rparr>"
      using acq False by (auto simp: gpu_acquire_def cnt new split: if_splits)
    moreover have "map fst (rev (map (\<lambda>a. (a, req_ExecutionDigest r)) (take n free)) @ gc_leased c) = rev (take n free) @ map fst (gc_leased c)"
      by (simp add: rev_map o_def)
    moreover have "set (take n free) \<inter> set (map fst (gc_leased c)) = {}" "set (take n free) \<subseteq> set (gc_devices c)"
      using sub by (auto simp: free_def)
    ultimately show ?thesis using inv len dist by (simp add: gpu_ok_def n_def image_Un image_image)
  qed
qed

text \<open>\<open>release\<close> gives back exactly the devices of the execution.\<close>

lemma release_loop:
  assumes "distinct (map fst leased)" and "distinct ds" and "\<forall>a \<in> set ds. (a, owner) \<in> set leased"
  shows "foldl (\<lambda>leased alias. if map_of leased alias = Some owner then filter (\<lambda>(a, _). a \<noteq> alias) leased else leased) leased ds
    = filter (\<lambda>(a, _). a \<notin> set ds) leased"
  using assms
proof (induction ds arbitrary: leased)
  case (Cons d ds)
  let ?rest = "filter (\<lambda>(a, _). a \<noteq> d) leased"
  have "map_of leased d = Some owner" using Cons.prems(1,3) by simp
  moreover have "distinct (map fst ?rest)" using Cons.prems(1) by (rule distinct_map_filter)
  moreover have "\<forall>a \<in> set ds. (a, owner) \<in> set ?rest" using Cons.prems(2,3) by auto
  ultimately show ?case using Cons.IH[of ?rest] Cons.prems(2) by (simp add: case_prod_unfold conj_commute)
qed (simp add: case_prod_unfold)

lemma gpu_release_ok:
  assumes "gpu_ok (c, before @ (r, ds) # after)"
  shows "gpu_ok (gpu_release (req_ExecutionDigest r) ds c, before @ after)"
proof -
  let ?own = "map (\<lambda>a. (a, req_ExecutionDigest r)) ds"
  let ?rest = "leases before @ leases after"
  note inv = assms[unfolded gpu_ok_def prod.case]
  have ms: "mset (gc_leased c) = mset (?own @ ?rest)" using inv by simp
  hence "distinct (map fst (?own @ ?rest))" using inv by (metis distinct_map mset_eq_imp_distinct_iff mset_map)
  hence dist: "distinct ds" "set ds \<inter> set (map fst ?rest) = {}" by (simp_all add: o_def)
  have "set ?own \<subseteq> set (gc_leased c)" using mset_eq_setD[OF ms] by auto
  hence rel: "gc_leased (gpu_release (req_ExecutionDigest r) ds c) = filter (\<lambda>(a, _). a \<notin> set ds) (gc_leased c)"
    using release_loop[of "gc_leased c" ds "req_ExecutionDigest r"] inv dist(1) by (simp add: gpu_release_def image_subset_iff)
  have "mset (filter (\<lambda>(a, _). a \<notin> set ds) (gc_leased c)) = mset (filter (\<lambda>(a, _). a \<notin> set ds) (?own @ ?rest))"
    using ms by (simp only: mset_filter)
  also have "filter (\<lambda>(a, _). a \<notin> set ds) (?own @ ?rest) = ?rest"
  proof -
    have "filter (\<lambda>(a, _). a \<notin> set ds) ?own = []" by (simp add: filter_empty_conv)
    moreover have "filter (\<lambda>(a, _). a \<notin> set ds) ?rest = ?rest" using dist(2) unfolding set_map
      by (intro filter_True ballI) (metis case_prod_beta disjoint_iff imageI)
    ultimately show ?thesis by simp
  qed
  finally have "mset (gc_leased (gpu_release (req_ExecutionDigest r) ds c)) = mset ?rest" by (simp only: rel)
  moreover have "gc_devices (gpu_release (req_ExecutionDigest r) ds c) = gc_devices c" by (simp add: gpu_release_def)
  ultimately show ?thesis using inv unfolding gpu_ok_def prod.case rel by (auto simp: distinct_map_filter)
qed

lemma gpu_step_ok:
  assumes "gpu_ok s" and "gpu_step s t"
  shows "gpu_ok t"
  using assms(2)
proof cases
  case (gpu_start r c ds c' runs)
  have "gpu_acquire (req_ExecutionDigest r) (uint (lim_GPUDeviceCount (req_Limits r))) c = (Inr ds, c')"
    using gpu_start(3) by (auto simp: gpu_begin_def Let_def split: if_splits)
  thus ?thesis using assms(1) gpu_acquire_ok unfolding gpu_start(1,2) by blast
next
  case (gpu_end c before r ds after)
  thus ?thesis using assms(1) gpu_release_ok by blast
qed

interpretation gpu: invariant_system gpu_init gpu_step gpu_ok
  by unfold_locales (fact gpu_New_ok, fact gpu_step_ok)

section \<open>Translation into device identifiers\<close>

lemma check_devices_distinct:
  "check_devices parse seen devices = Inr () \<Longrightarrow> distinct (map snd devices) \<and> set (map snd devices) \<inter> set seen = {}"
  by (induction parse seen devices rule: check_devices.induct) (auto split: if_splits sum.splits)

lemma validated_map_injective:
  assumes "validateGPUDeviceMap parse devices True m = Inr ()" and "map_of devices a = Some x" and "map_of devices b = Some x"
  shows "a = b"
proof -
  have "distinct (map snd devices)" using assms(1) by (auto simp: validateGPUDeviceMap_def dest: check_devices_distinct split: if_splits)
  moreover have "(a, x) \<in> set devices" "(b, x) \<in> set devices" using assms(2,3) by (simp_all add: map_of_SomeD)
  ultimately show ?thesis by (metis distinct_map inj_on_def prod.inject snd_conv)
qed

lemma resolve_aliases_spec:
  "resolve_aliases devices seen as = Inr xs \<Longrightarrow>
     map Some xs = map (map_of devices) as \<and> distinct as \<and> set as \<inter> set seen = {}"
  by (induction devices seen as arbitrary: xs rule: resolve_aliases.induct) (auto split: option.splits if_splits sum.splits)

lemma resolve_member:
  assumes "resolve_aliases devices seen as = Inr xs" and "x \<in> set xs"
  obtains a where "a \<in> set as" "map_of devices a = Some x"
  using resolve_aliases_spec[OF assms(1)] assms(2) by (metis (no_types, lifting) imageE image_eqI list.set_map)

lemma resolve_distinct:
  assumes "validateGPUDeviceMap parse devices True m = Inr ()" and "resolve_aliases devices [] as = Inr xs"
  shows "distinct xs" and "length xs = length as"
proof -
  note r = resolve_aliases_spec[OF assms(2)]
  show len: "length xs = length as" using r by (metis length_map)
  have nth: "map_of devices (as ! i) = Some (xs ! i)" if "i < length xs" for i
    using r that len by (metis nth_map)
  show "distinct xs" unfolding distinct_conv_nth
    using validated_map_injective[OF assms(1)] nth r len by (metis nth_eq_iff_index_eq)
qed

section \<open>Properties\<close>

text \<open> Exclusive leases.  In every state the lease table can reach, however executions start and end, the executions in
  progress hold pairwise different devices of the configuration, each exactly as many as it asked for, and the
  number reported as available is that of the devices none of them holds.\<close>

theorem gpu_leases_exclusive:
  assumes "reach gpu_init gpu_step (c, runs)"
  shows "distinct (concat (map snd runs)) \<and> set (concat (map snd runs)) \<subseteq> set (gc_devices c)
     \<and> list_all (\<lambda>(request, devices). length devices = unat (lim_GPUDeviceCount (req_Limits request))) runs
     \<and> Available c = int (card (set (gc_devices c) - set (concat (map snd runs))))"
proof -
  have ok: "gpu_ok (c, runs)" using gpu.reach_inv[OF assms] .
  note inv = ok[unfolded gpu_ok_def prod.case]
  have "mset (map fst (gc_leased c)) = mset (concat (map snd runs))"
    using inv by (metis map_fst_leases mset_map)
  hence held: "distinct (concat (map snd runs))" "set (map fst (gc_leased c)) = set (concat (map snd runs))"
    using inv mset_eq_imp_distinct_iff mset_eq_setD by blast+
  have "card (set (gc_devices c) - set (map fst (gc_leased c))) = length (gc_devices c) - length (gc_leased c)"
    using inv by (subst card_Diff_subset) (simp_all add: distinct_card flip: set_map)
  moreover have "length (gc_leased c) \<le> length (gc_devices c)"
    using inv by (metis card_mono distinct_card finite_set length_map)
  ultimately show ?thesis using inv held by (simp add: Available_def of_nat_diff)
qed

text \<open>C6.  Exclusive devices.  With the containerd backend behind the leases, whose device table passed its validation, two
  executions in progress at the same time are given disjoint sets of device identifiers, each without
  repetition and of the size the request asks for.\<close>

theorem gpu_devices_exclusive:
  assumes "reach gpu_init gpu_step (c, runs)" and "validateGPUDeviceMap parse (be_gpuDevices b) True m = Inr ()"
    and "i < j" and "j < length runs"
    and "assigned_devices (fst (runs ! i)) (snd (runs ! i)) b = Inr xs" and "assigned_devices (fst (runs ! j)) (snd (runs ! j)) b = Inr ys"
  shows "set xs \<inter> set ys = {} \<and> distinct xs \<and> length xs = unat (lim_GPUDeviceCount (req_Limits (fst (runs ! i))))"
proof -
  have r: "resolve_aliases (be_gpuDevices b) [] (snd (runs ! i)) = Inr xs" "resolve_aliases (be_gpuDevices b) [] (snd (runs ! j)) = Inr ys"
    and len: "length (snd (runs ! i)) = unat (lim_GPUDeviceCount (req_Limits (fst (runs ! i))))"
    using assms(5,6) by (simp_all add: assigned_devices_def split: if_splits)
  have ok: "gpu_ok (c, runs)" using gpu.reach_inv[OF assms(1)] .
  have "distinct (concat (map snd runs))"
    using ok unfolding gpu_ok_def prod.case by (metis map_fst_leases mset_eq_imp_distinct_iff mset_map)
  moreover have "runs = take i runs @ runs ! i # drop (Suc i) runs" using assms(3,4) by (simp add: id_take_nth_drop)
  hence "concat (map snd runs) = concat (map snd (take i runs)) @ snd (runs ! i) @ concat (map snd (drop (Suc i) runs))"
    by (metis concat.simps(2) concat_append list.simps(9) map_append)
  moreover have "drop (Suc i) runs ! (j - Suc i) = runs ! j" "j - Suc i < length (drop (Suc i) runs)" using assms(3,4) by simp_all
  hence "runs ! j \<in> set (drop (Suc i) runs)" by (metis nth_mem)
  ultimately have disjoint: "set (snd (runs ! i)) \<inter> set (snd (runs ! j)) = {}" by auto
  have "set xs \<inter> set ys = {}"
  proof (rule ccontr)
    assume "set xs \<inter> set ys \<noteq> {}"
    then obtain x where x: "x \<in> set xs" "x \<in> set ys" by blast
    obtain a where a: "a \<in> set (snd (runs ! i))" "map_of (be_gpuDevices b) a = Some x" by (rule resolve_member[OF r(1) x(1)])
    obtain a' where a': "a' \<in> set (snd (runs ! j))" "map_of (be_gpuDevices b) a' = Some x" by (rule resolve_member[OF r(2) x(2)])
    have "a = a'" using validated_map_injective[OF assms(2) a(2) a'(2)] .
    thus False using disjoint a(1) a'(1) by blast
  qed
  thus ?thesis using resolve_distinct[OF assms(2) r(1)] len by simp
qed

text \<open>C40.  A request without a GPU cannot run behind the leases.  \<open>acquire\<close> serves a request for no device with an empty
  assignment, but the containerd backend refuses every empty assignment, so the call always ends in an error.\<close>

theorem cpu_only_refused:
  assumes "\<not> req_AllowGPU request"
  shows "isl (fst (gpu_RunIsolated (\<lambda>r i ds. Some (fst (RunIsolatedOnDevices engine others ctx_nil ctx_err ctx_late r i ds b)))
     meanwhile ctx_nil ctx_err ctx_late request input c))"
proof (cases "gpu_begin ctx_nil ctx_err request c")
  case (Pair res c1)
  show ?thesis
  proof (cases res)
    case (Inr ds)
    hence "\<not> 0 < uint (lim_GPUDeviceCount (req_Limits request))" using Pair assms
      by (auto simp: gpu_begin_def Let_def split: if_splits)
    moreover have "0 \<le> uint (lim_GPUDeviceCount (req_Limits request))" by simp
    ultimately have "uint (lim_GPUDeviceCount (req_Limits request)) = 0" by linarith
    hence "ds = []" using Pair Inr by (auto simp: gpu_begin_def gpu_acquire_def Let_def split: if_splits)
    thus ?thesis using Pair Inr
      by (simp add: gpu_RunIsolated_def RunIsolatedOnDevices_def assigned_devices_def gpu_result_def)
  qed (simp add: gpu_RunIsolated_def Pair)
qed

subsection \<open>Two executions on three devices\<close>

definition demo_gpu :: gpu_client where
  "demo_gpu = \<lparr>gc_devices = [''gpu-0'', ''gpu-1'', ''gpu-2''], gc_leased = []\<rparr>"

definition demo_gpu_req :: "char \<Rightarrow> u32 \<Rightarrow> ContainerRequest" where
  "demo_gpu_req d n = demo_creq\<lparr>req_ExecutionDigest := ''sha256:'' @ replicate 64 d, req_AllowGPU := True,
     req_Limits := demo_limits\<lparr>lim_GPUDeviceCount := n\<rparr>\<rparr>"

lemma demo_gpu_digest:
  "ValidateExecutionDigest (req_ExecutionDigest (demo_gpu_req (CHR ''a'') n)) = Inr ()"
  "ValidateExecutionDigest (req_ExecutionDigest (demo_gpu_req (CHR ''b'') n)) = Inr ()"
proof -
  have "hex64_after ''sha256:'' (''sha256:'' @ replicate 64 (CHR ''a''))" "hex64_after ''sha256:'' (''sha256:'' @ replicate 64 (CHR ''b''))"
    by (rule hex64_afterI; simp add: list_all_iff is_lower_hex_def)+
  thus "ValidateExecutionDigest (req_ExecutionDigest (demo_gpu_req (CHR ''a'') n)) = Inr ()"
    "ValidateExecutionDigest (req_ExecutionDigest (demo_gpu_req (CHR ''b'') n)) = Inr ()"
    by (simp_all add: ValidateExecutionDigest_def demo_gpu_req_def)
qed

definition demo_gpu_runs :: "(ContainerRequest \<times> string list) list" where
  "demo_gpu_runs = [(demo_gpu_req (CHR ''b'') 1, [''gpu-2'']), (demo_gpu_req (CHR ''a'') 2, [''gpu-0'', ''gpu-1''])]"

definition demo_gpu_busy :: gpu_client where
  "demo_gpu_busy = demo_gpu\<lparr>gc_leased := [(''gpu-2'', req_ExecutionDigest (demo_gpu_req (CHR ''b'') 1)),
     (''gpu-1'', req_ExecutionDigest (demo_gpu_req (CHR ''a'') 2)), (''gpu-0'', req_ExecutionDigest (demo_gpu_req (CHR ''a'') 2))]\<rparr>"

lemma demo_gpu_reach: "reach gpu_init gpu_step (demo_gpu_busy, demo_gpu_runs)"
proof -
  let ?ra = "demo_gpu_req (CHR ''a'') 2" and ?rb = "demo_gpu_req (CHR ''b'') 1"
  let ?da = "req_ExecutionDigest ?ra" and ?db = "req_ExecutionDigest ?rb"
  let ?c1 = "demo_gpu\<lparr>gc_leased := [(''gpu-1'', ?da), (''gpu-0'', ?da)]\<rparr>"
  have neq: "?db \<noteq> ?da" by (simp add: demo_gpu_req_def)
  have lim: "lim_GPUDeviceCount (req_Limits ?ra) = 2" "lim_GPUDeviceCount (req_Limits ?rb) = 1" "req_AllowGPU ?ra" "req_AllowGPU ?rb"
    by (simp_all add: demo_gpu_req_def)
  have "gpu_New [''gpu-1'', ''gpu-0'', ''gpu-2''] False = Inr demo_gpu" by code_simp
  hence init: "gpu_init (demo_gpu, [])" by (auto simp: gpu_init_def)
  have s1: "gpu_begin False False ?ra demo_gpu = (Inr [''gpu-0'', ''gpu-1''], ?c1)"
    by (simp add: gpu_begin_def demo_gpu_digest lim gpu_acquire_def) (simp add: demo_gpu_def)
  have s2: "gpu_begin False False ?rb ?c1 = (Inr [''gpu-2''], demo_gpu_busy)"
    using neq by (simp add: gpu_begin_def demo_gpu_digest lim gpu_acquire_def) (simp add: demo_gpu_def demo_gpu_busy_def)
  have "reach gpu_init gpu_step (demo_gpu, [])" by (rule reach_init) (rule init)
  hence "reach gpu_init gpu_step (?c1, [(?ra, [''gpu-0'', ''gpu-1''])])" by (rule reach_step) (rule gpu_start[OF s1])
  thus ?thesis unfolding demo_gpu_runs_def by (rule reach_step) (rule gpu_start[OF s2])
qed

definition demo_cdi :: "string \<Rightarrow> string result" where
  "demo_cdi device = Inr (drop (length ''nvidia.com/gpu='') device)"

definition demo_gpu_backend :: Backend where
  "demo_gpu_backend = demo_backend\<lparr>be_gpuDevices :=
     [(''gpu-0'', ''nvidia.com/gpu=0''), (''gpu-1'', ''nvidia.com/gpu=1''), (''gpu-2'', ''nvidia.com/gpu=2'')]\<rparr>"

theorem gpu_leases_exclusive_witness: "Available demo_gpu_busy = 0 \<and> distinct (concat (map snd demo_gpu_runs))"
  using gpu_leases_exclusive[OF demo_gpu_reach] by (simp add: demo_gpu_runs_def demo_gpu_busy_def demo_gpu_def)

theorem gpu_devices_exclusive_witness:
  "set [''nvidia.com/gpu=2''] \<inter> set [''nvidia.com/gpu=0'', ''nvidia.com/gpu=1''] = {}
   \<and> assigned_devices (demo_gpu_req (CHR ''a'') 2) [''gpu-0'', ''gpu-1''] demo_gpu_backend = Inr [''nvidia.com/gpu=0'', ''nvidia.com/gpu=1'']"
proof -
  have v: "validateGPUDeviceMap demo_cdi (be_gpuDevices demo_gpu_backend) True 3 = Inr ()" by code_simp
  have a: "assigned_devices (demo_gpu_req (CHR ''b'') 1) [''gpu-2''] demo_gpu_backend = Inr [''nvidia.com/gpu=2'']"
    "assigned_devices (demo_gpu_req (CHR ''a'') 2) [''gpu-0'', ''gpu-1''] demo_gpu_backend = Inr [''nvidia.com/gpu=0'', ''nvidia.com/gpu=1'']"
    by (simp_all add: assigned_devices_def demo_gpu_req_def demo_gpu_backend_def)
  have "set [''nvidia.com/gpu=2''] \<inter> set [''nvidia.com/gpu=0'', ''nvidia.com/gpu=1''] = {}"
    using gpu_devices_exclusive[OF demo_gpu_reach v, of 0 1] a by (simp add: demo_gpu_runs_def)
  thus ?thesis using a(2) by blast
qed

theorem cpu_only_refused_witness:
  "gpu_begin False False demo_creq demo_gpu = (Inr [], demo_gpu)
   \<and> isl (fst (gpu_RunIsolated (\<lambda>r i ds. Some (fst (RunIsolatedOnDevices (\<lambda>_ _ _ _. Some (Inr demo_result)) id False False False r i ds demo_gpu_backend)))
       id False False False demo_creq ''in'' demo_gpu))"
proof
  show "gpu_begin False False demo_creq demo_gpu = (Inr [], demo_gpu)"
    by (simp add: gpu_begin_def demo_creq_def ValidateExecutionDigest_def demo_image_pattern demo_limits_def gpu_acquire_def demo_gpu_def)
  show "isl (fst (gpu_RunIsolated (\<lambda>r i ds. Some (fst (RunIsolatedOnDevices (\<lambda>_ _ _ _. Some (Inr demo_result)) id False False False r i ds demo_gpu_backend)))
       id False False False demo_creq ''in'' demo_gpu))"
    by (rule cpu_only_refused) (simp add: demo_creq_def)
qed

end
