(* ===== verification/Go_Text.thy ===== *)
theory Go_Text
  imports Go_Net
begin

text \<open>
  The parts of packages \<open>strings\<close>, \<open>unicode\<close> and \<open>path/filepath\<close> used on text read from the kernel: white
  space and control characters of UTF-8 text, fields, trimming, splitting, and relative paths.

  A string is its bytes.  The multi-byte characters the predicates single out begin with a lead byte, which never occurs inside
  another character, so they are recognised at any byte position; all other bytes are copied.
\<close>

section \<open>Characters\<close>

text \<open>The number of bytes of the white space character (\<open>unicode.IsSpace\<close>) a string begins with, or 0.\<close>

fun space_width :: "string \<Rightarrow> nat" where
  "space_width [] = 0"
| "space_width (c # rest) =
     (let b = of_char c :: nat; nxt = map of_char rest :: nat list in
      if 9 \<le> b \<and> b \<le> 13 \<or> b = 32 then 1
      else if b = 0xC2 \<and> nxt \<noteq> [] \<and> (hd nxt = 0x85 \<or> hd nxt = 0xA0) then 2
      else if b = 0xE1 \<and> take 2 nxt = [0x9A, 0x80] then 3
      else if b = 0xE2 \<and> length nxt \<ge> 2 \<and> hd nxt = 0x80
              \<and> (0x80 \<le> nxt ! 1 \<and> nxt ! 1 \<le> 0x8A \<or> nxt ! 1 = 0xA8 \<or> nxt ! 1 = 0xA9 \<or> nxt ! 1 = 0xAF) then 3
      else if b = 0xE2 \<and> take 2 nxt = [0x81, 0x9F] then 3
      else if b = 0xE3 \<and> take 2 nxt = [0x80, 0x80] then 3
      else 0)"

declare space_width.simps [simp del]

text \<open>\<open>strings.IndexFunc(s, unicode.IsControl) >= 0\<close>.\<close>

fun has_control :: "string \<Rightarrow> bool" where
  "has_control [] \<longleftrightarrow> False"
| "has_control (c # rest) \<longleftrightarrow>
     (of_char c :: nat) < 32 \<or> (of_char c :: nat) = 127
     \<or> ((of_char c :: nat) = 0xC2 \<and> rest \<noteq> [] \<and> 0x80 \<le> (of_char (hd rest) :: nat) \<and> (of_char (hd rest) :: nat) \<le> 0x9F)
     \<or> has_control rest"

lemma space_width_le: "space_width s \<le> length s"
  by (cases s) (auto simp: space_width.simps Let_def neq_Nil_conv take_Suc_conv_app_nth split: list.splits
      dest!: arg_cong[where f = length])

section \<open>Fields, trimming, splitting\<close>

definition flush_word :: "string \<Rightarrow> string list" where
  "flush_word w = (if w = [] then [] else [w])"

text \<open>\<open>strings.Fields\<close>.\<close>

function fields_from :: "string \<Rightarrow> string \<Rightarrow> string list" where
  "fields_from w s =
     (if s = [] then flush_word w
      else if space_width s > 0 then flush_word w @ fields_from [] (drop (space_width s) s)
      else fields_from (w @ [hd s]) (tl s))"
  by pat_completeness auto
termination
  by (relation "measure (\<lambda>(w, s). length s)") (auto simp: neq_Nil_conv)

declare fields_from.simps [simp del]

definition go_fields :: "string \<Rightarrow> string list" where
  "go_fields s = fields_from [] s"

text \<open>\<open>strings.TrimSpace\<close>.\<close>

definition last_space :: "string \<Rightarrow> nat" where
  "last_space s =
     (if space_width (drop (length s - 1) s) = 1 \<and> length s \<ge> 1 then 1
      else if length s \<ge> 2 \<and> space_width (drop (length s - 2) s) = 2 then 2
      else if length s \<ge> 3 \<and> space_width (drop (length s - 3) s) = 3 then 3 else 0)"

function trim_left :: "string \<Rightarrow> string" where
  "trim_left s = (if s \<noteq> [] \<and> space_width s > 0 then trim_left (drop (space_width s) s) else s)"
  by pat_completeness auto
termination
  by (relation "measure length") (auto simp: neq_Nil_conv)

function trim_right :: "string \<Rightarrow> string" where
  "trim_right s = (if s \<noteq> [] \<and> last_space s > 0 then trim_right (take (length s - last_space s) s) else s)"
  by pat_completeness auto
termination
  by (relation "measure length") (auto simp: neq_Nil_conv)

declare trim_left.simps [simp del] trim_right.simps [simp del]

definition trim_space :: "string \<Rightarrow> string" where
  "trim_space s = trim_right (trim_left s)"

text \<open>\<open>strings.SplitN(s, c, n)\<close>, and the text before and after the first occurrence of a separator.\<close>

fun split_n :: "nat \<Rightarrow> char \<Rightarrow> string \<Rightarrow> string list" where
  "split_n 0 c s = []"
| "split_n (Suc 0) c s = [s]"
| "split_n (Suc (Suc n)) c s =
     (if c \<in> set s then takeWhile (\<lambda>x. x \<noteq> c) s # split_n (Suc n) c (tl (dropWhile (\<lambda>x. x \<noteq> c) s)) else [s])"

fun cut_at :: "string \<Rightarrow> string \<Rightarrow> (string \<times> string) option" where
  "cut_at sep [] = (if sep = [] then Some ([], []) else None)"
| "cut_at sep (c # s) =
     (if has_prefix (c # s) sep then Some ([], drop (length sep) (c # s))
      else map_option (\<lambda>(a, b). (c # a, b)) (cut_at sep s))"

section \<open>Relative paths\<close>

text \<open>\<open>filepath.Rel\<close> of two absolute paths: their elements, without the common ones at the front.\<close>

definition path_elements :: "string \<Rightarrow> string list" where
  "path_elements p = filter (\<lambda>w. w \<noteq> []) (split_on (CHR ''/'') (path_clean p))"

fun strip_common :: "string list \<Rightarrow> string list \<Rightarrow> string list \<times> string list" where
  "strip_common (a # as) (b # bs) = (if a = b then strip_common as bs else (a # as, b # bs))"
| "strip_common as bs = (as, bs)"

definition path_rel :: "string \<Rightarrow> string \<Rightarrow> string" where
  "path_rel base targ =
     (case strip_common (path_elements base) (path_elements targ) of
        (up, down) \<Rightarrow> if up = [] \<and> down = [] then ''.'' else join_with ''/'' (replicate (length up) ''..'' @ down))"

lemma strip_common_prefix: "strip_common as bs = ([], rest) \<Longrightarrow> bs = as @ rest"
  by (induction as bs rule: strip_common.induct) (auto split: if_splits)

end
