(* ===== verification/Probe_Cgroup.thy ===== *)
theory Probe_Cgroup
  imports Go_Text
begin

text \<open>
  Package \<open>pkg/probe\<close>, file \<open>cgroup_linux.go\<close>: the memory and the number of processors a process may use under
  its Linux control groups, from the two files in \<open>/proc\<close> and the limit files of the hierarchy (versions 1 and 2).

  The function that reads a file is an argument, as in the code; \<open>ErrNotExist\<close> is the error \<open>errors.Is\<close> recognises.
  A path with its \<open>Set\<close> flag is an option, and so is a limit with its \<open>limited\<close> flag.
\<close>

abbreviation (input) maxCgroupMembershipBytes :: int where "maxCgroupMembershipBytes \<equiv> 65536"
abbreviation (input) maxMountInfoBytes :: int where "maxMountInfoBytes \<equiv> 1048576"
abbreviation (input) maxCgroupScalarBytes :: int where "maxCgroupScalarBytes \<equiv> 4096"
abbreviation (input) maxCgroupLines :: nat where "maxCgroupLines \<equiv> 4096"
abbreviation (input) maxCgroupMounts :: nat where "maxCgroupMounts \<equiv> 64"
abbreviation (input) maxControllersPerLine :: nat where "maxControllersPerLine \<equiv> 32"
abbreviation (input) maxCgroupDepth :: nat where "maxCgroupDepth \<equiv> 128"
abbreviation (input) maxResourcePathBytes :: nat where "maxResourcePathBytes \<equiv> 4096"
abbreviation (input) MaxLogicalCPUs :: nat where "MaxLogicalCPUs \<equiv> 4096"

definition errLinuxResourceObservation :: go_error where
  "errLinuxResourceObservation = ErrMsg ''invalid Linux resource observation''"

type_synonym resourceReadFunc = "string \<Rightarrow> int \<Rightarrow> bytes result"

record cgroupMemberships =
  cm_unified :: "string option"
  cm_memory :: "string option"
  cm_cpu :: "string option"
  cm_cpuset :: "string option"

record cgroupMount =
  mt_version :: nat
  mt_root :: string
  mt_point :: string
  mt_memory :: bool
  mt_cpu :: bool
  mt_cpuset :: bool

text \<open>Opening and reading to the end is an argument; the code stops one byte beyond the bound.\<close>

definition readLimitedResourceFile :: "(string \<Rightarrow> bytes result) \<Rightarrow> resourceReadFunc" where
  "readLimitedResourceFile contents path maximum =
     (if maximum \<le> 0 then Inl errLinuxResourceObservation
      else case contents path of Inl e \<Rightarrow> Inl e
      | Inr data \<Rightarrow> if int (length data) > maximum then Inl errLinuxResourceObservation else Inr data)"

section \<open>Paths and lines\<close>

definition cleanResourcePath :: "string \<Rightarrow> string result" where
  "cleanResourcePath v =
     (if v = [] \<or> length v > maxResourcePathBytes \<or> \<not> is_abs v \<or> has_control v then Inl errLinuxResourceObservation
      else if path_clean v \<noteq> v then Inl errLinuxResourceObservation else Inr v)"

definition pathWithin :: "string \<Rightarrow> string \<Rightarrow> bool" where
  "pathWithin root candidate \<longleftrightarrow>
     (let relative = path_rel root candidate in relative = ''.'' \<or> (relative \<noteq> ''..'' \<and> \<not> has_prefix relative ''../''))"

definition decimalString :: "string \<Rightarrow> bool" where
  "decimalString v = (if v = [] \<or> length v > 20 then False else list_all is_digit v)"

definition boundedLines :: "bytes \<Rightarrow> nat \<Rightarrow> string list result" where
  "boundedLines data maximum =
     (if length data = 0 then Inr []
      else if CHR 0x00 \<in> set data then Inl errLinuxResourceObservation
      else let lines = split_on (CHR 0x0A) (trim_suffix data [CHR 0x0A]) in
        if length lines > maximum then Inl errLinuxResourceObservation
        else if list_ex (\<lambda>line. line = [] \<or> length line > maxResourcePathBytes * 2) lines then Inl errLinuxResourceObservation
        else Inr lines)"

text \<open>The loop of \<open>decodeMountPath\<close> over the bytes, with the text decoded so far.\<close>

fun decode_escapes :: "string \<Rightarrow> string \<Rightarrow> string option" where
  "decode_escapes acc [] = Some acc"
| "decode_escapes acc (c # rest) =
     (if c \<noteq> CHR 0x5C then decode_escapes (acc @ [c]) rest
      else if length rest < 3 then None
      else let escape = take 3 rest in
        if escape = ''011'' then decode_escapes (acc @ [CHR 0x09]) (drop 3 rest)
        else if escape = ''012'' then decode_escapes (acc @ [CHR 0x0A]) (drop 3 rest)
        else if escape = ''040'' then decode_escapes (acc @ [CHR '' '']) (drop 3 rest)
        else if escape = ''134'' then decode_escapes (acc @ [CHR 0x5C]) (drop 3 rest)
        else None)"

definition decodeMountPath :: "string \<Rightarrow> string result" where
  "decodeMountPath v =
     (if v = [] \<or> length v > maxResourcePathBytes * 2 then Inl errLinuxResourceObservation
      else case decode_escapes [] v of None \<Rightarrow> Inl errLinuxResourceObservation | Some d \<Rightarrow> cleanResourcePath d)"

section \<open>Memberships and mounts\<close>

definition set_path :: "string option \<Rightarrow> string \<Rightarrow> bool" where
  "set_path old path \<longleftrightarrow> old = None \<or> old = Some path"

definition add_controller :: "string \<Rightarrow> string \<Rightarrow> cgroupMemberships \<Rightarrow> cgroupMemberships result" where
  "add_controller path controller r =
     (if controller = ''memory'' then (if set_path (cm_memory r) path then Inr (r\<lparr>cm_memory := Some path\<rparr>) else Inl errLinuxResourceObservation)
      else if controller = ''cpu'' then (if set_path (cm_cpu r) path then Inr (r\<lparr>cm_cpu := Some path\<rparr>) else Inl errLinuxResourceObservation)
      else if controller = ''cpuset'' then (if set_path (cm_cpuset r) path then Inr (r\<lparr>cm_cpuset := Some path\<rparr>) else Inl errLinuxResourceObservation)
      else if controller = ''cpuacct'' then Inr r
      else if controller = [] \<or> length controller > 64 then Inl errLinuxResourceObservation
      else Inr r)"

fun add_controllers :: "string \<Rightarrow> string list \<Rightarrow> cgroupMemberships \<Rightarrow> cgroupMemberships result" where
  "add_controllers path [] r = Inr r"
| "add_controllers path (c # cs) r = (case add_controller path c r of Inl e \<Rightarrow> Inl e | Inr r' \<Rightarrow> add_controllers path cs r')"

fun add_memberships :: "string list \<Rightarrow> cgroupMemberships \<Rightarrow> cgroupMemberships result" where
  "add_memberships [] r = Inr r"
| "add_memberships (line # lines) r =
     (let parts = split_n 3 (CHR '':'') line in
      if length parts \<noteq> 3 \<or> \<not> decimalString (parts ! 0) then Inl errLinuxResourceObservation
      else case cleanResourcePath (parts ! 2) of Inl e \<Rightarrow> Inl e
      | Inr path \<Rightarrow>
          if parts ! 1 = [] then
            (if parts ! 0 \<noteq> ''0'' \<or> cm_unified r \<noteq> None then Inl errLinuxResourceObservation
             else add_memberships lines (r\<lparr>cm_unified := Some path\<rparr>))
          else let controllers = split_on (CHR '','') (parts ! 1) in
            if length controllers = 0 \<or> length controllers > maxControllersPerLine then Inl errLinuxResourceObservation
            else (case add_controllers path controllers r of Inl e \<Rightarrow> Inl e | Inr r' \<Rightarrow> add_memberships lines r'))"

definition parseCgroupMemberships :: "bytes \<Rightarrow> cgroupMemberships result" where
  "parseCgroupMemberships data =
     (case boundedLines data maxCgroupLines of Inl e \<Rightarrow> Inl e
      | Inr lines \<Rightarrow> add_memberships lines \<lparr>cm_unified = None, cm_memory = None, cm_cpu = None, cm_cpuset = None\<rparr>)"

definition setMountControllers :: "string \<Rightarrow> cgroupMount \<Rightarrow> cgroupMount" where
  "setMountControllers options m =
     foldl (\<lambda>m opt. if opt = ''memory'' then m\<lparr>mt_memory := True\<rparr> else if opt = ''cpu'' then m\<lparr>mt_cpu := True\<rparr>
                    else if opt = ''cpuset'' then m\<lparr>mt_cpuset := True\<rparr> else m) m (split_on (CHR '','') options)"

fun add_mounts :: "string list \<Rightarrow> cgroupMount list \<Rightarrow> cgroupMount list result" where
  "add_mounts [] mounts = Inr mounts"
| "add_mounts (line # lines) mounts =
     (case cut_at '' - '' line of None \<Rightarrow> Inl errLinuxResourceObservation
      | Some (before, after) \<Rightarrow>
          let left = go_fields before; right = go_fields after in
          if length left < 6 \<or> length right < 3 then Inl errLinuxResourceObservation
          else let version = (if right ! 0 = ''cgroup2'' then 2 else if right ! 0 = ''cgroup'' then 1 else 0) :: nat in
            if version = 0 then add_mounts lines mounts
            else if length mounts \<ge> maxCgroupMounts then Inl errLinuxResourceObservation
            else (case (decodeMountPath (left ! 3), decodeMountPath (left ! 4)) of
                (Inr root, Inr point) \<Rightarrow>
                  let m = \<lparr>mt_version = version, mt_root = root, mt_point = point, mt_memory = False, mt_cpu = False, mt_cpuset = False\<rparr>;
                      m = (if version = 1 then setMountControllers (right ! 2) (setMountControllers (left ! 5) m) else m)
                  in add_mounts lines (mounts @ [m])
              | _ \<Rightarrow> Inl errLinuxResourceObservation))"

definition parseCgroupMounts :: "bytes \<Rightarrow> cgroupMount list result" where
  "parseCgroupMounts data = (case boundedLines data maxCgroupLines of Inl e \<Rightarrow> Inl e | Inr lines \<Rightarrow> add_mounts lines [])"

definition mountHasController :: "cgroupMount \<Rightarrow> string \<Rightarrow> bool" where
  "mountHasController m controller =
     (if mt_version m = 2 then controller = []
      else if controller = ''memory'' then mt_memory m
      else if controller = ''cpu'' then mt_cpu m
      else if controller = ''cpuset'' then mt_cpuset m else False)"

definition resolveCgroupPath :: "cgroupMount \<Rightarrow> string \<Rightarrow> string option" where
  "resolveCgroupPath m membership =
     (case (cleanResourcePath (mt_root m), cleanResourcePath (mt_point m), cleanResourcePath membership) of
        (Inr root, Inr point, Inr member) \<Rightarrow>
          (case (if member = root then Some ''.''
                 else if root = ''/'' then Some (trim_prefix member ''/'')
                 else if has_prefix member (root @ ''/'') then Some (trim_prefix (trim_prefix member root) ''/'')
                 else if member = ''/'' then Some ''.''
                 else None) of
             None \<Rightarrow> None
           | Some relative \<Rightarrow>
               let current = path_clean (path_join2 point relative) in
               if \<not> pathWithin point current \<or> length current > maxResourcePathBytes then None else Some current)
      | _ \<Rightarrow> None)"

text \<open>The loop of \<open>selectCgroupMount\<close> with the mount selected so far.\<close>

fun select_loop :: "nat \<Rightarrow> string \<Rightarrow> string \<Rightarrow> (cgroupMount \<times> string) option \<Rightarrow> cgroupMount list \<Rightarrow> (cgroupMount \<times> string) option result" where
  "select_loop version controller membership sel [] = Inr sel"
| "select_loop version controller membership sel (m # rest) =
     (if mt_version m \<noteq> version \<or> \<not> mountHasController m controller then select_loop version controller membership sel rest
      else case resolveCgroupPath m membership of
        None \<Rightarrow> select_loop version controller membership sel rest
      | Some current \<Rightarrow>
          (case sel of None \<Rightarrow> select_loop version controller membership (Some (m, current)) rest
           | Some (s, path) \<Rightarrow>
               if length (mt_root m) > length (mt_root s) then select_loop version controller membership (Some (m, current)) rest
               else if length (mt_root m) = length (mt_root s) \<and> (mt_point m \<noteq> mt_point s \<or> current \<noteq> path)
               then Inl errLinuxResourceObservation
               else select_loop version controller membership sel rest))"

definition selectCgroupMount :: "cgroupMount list \<Rightarrow> nat \<Rightarrow> string \<Rightarrow> string \<Rightarrow> (cgroupMount \<times> string) result" where
  "selectCgroupMount mounts version controller membership =
     (case select_loop version controller membership None mounts of Inl e \<Rightarrow> Inl e
      | Inr None \<Rightarrow> Inl errLinuxResourceObservation | Inr (Some r) \<Rightarrow> Inr r)"

section \<open>Limits along the hierarchy\<close>

text \<open>The walk from a directory up to the mount point, with the state the visits update.  The count is the bound on the
  depth in the code.\<close>

fun walk_loop :: "nat \<Rightarrow> string \<Rightarrow> (string \<Rightarrow> 'a \<Rightarrow> 'a result) \<Rightarrow> string \<Rightarrow> 'a \<Rightarrow> 'a result" where
  "walk_loop 0 root visit current acc = Inl errLinuxResourceObservation"
| "walk_loop (Suc n) root visit current acc =
     (case visit current acc of Inl e \<Rightarrow> Inl e
      | Inr acc' \<Rightarrow>
          if current = root then Inr acc'
          else let parent = path_dir current in
            if parent = current \<or> \<not> pathWithin root parent then Inl errLinuxResourceObservation
            else walk_loop n root visit parent acc')"

definition walkCgroupAncestors :: "string \<Rightarrow> string \<Rightarrow> (string \<Rightarrow> 'a \<Rightarrow> 'a result) \<Rightarrow> 'a \<Rightarrow> 'a result" where
  "walkCgroupAncestors current root visit acc =
     (if \<not> pathWithin (path_clean root) (path_clean current) then Inl errLinuxResourceObservation
      else walk_loop (Suc maxCgroupDepth) (path_clean root) visit (path_clean current) acc)"

definition parseMemoryLimit :: "bytes \<Rightarrow> bool \<Rightarrow> nat option result" where
  "parseMemoryLimit data allowMax =
     (case go_fields data of
        [v] \<Rightarrow> if allowMax \<and> v = ''max'' then Inr None
               else (case parse_uint 64 v of None \<Rightarrow> Inl errLinuxResourceObservation
                     | Some n \<Rightarrow> if n = 0 then Inl errLinuxResourceObservation else Inr (Some n))
      | _ \<Rightarrow> Inl errLinuxResourceObservation)"

text \<open>The accumulator of the walks: the smallest limit met so far, 0 for none, and whether a file was found.\<close>

definition lower :: "nat \<Rightarrow> nat \<Rightarrow> nat" where
  "lower minimum v = (if minimum = 0 \<or> v < minimum then v else minimum)"

definition memory_visit :: "resourceReadFunc \<Rightarrow> string \<Rightarrow> bool \<Rightarrow> bool \<Rightarrow> string \<Rightarrow> nat \<times> bool \<Rightarrow> (nat \<times> bool) result" where
  "memory_visit read filename allowMax requireFile directory acc =
     (case read (path_join2 directory filename) maxCgroupScalarBytes of
        Inl e \<Rightarrow> if e = ErrNotExist \<and> \<not> requireFile then Inr acc else Inl errLinuxResourceObservation
      | Inr data \<Rightarrow>
          (case parseMemoryLimit data allowMax of Inl e \<Rightarrow> Inl e
           | Inr None \<Rightarrow> Inr (fst acc, True)
           | Inr (Some limit) \<Rightarrow> Inr (lower (fst acc) limit, True)))"

definition cgroupMemoryLimit :: "cgroupMount \<Rightarrow> string \<Rightarrow> string \<Rightarrow> bool \<Rightarrow> bool \<Rightarrow> resourceReadFunc \<Rightarrow> nat option result" where
  "cgroupMemoryLimit m current filename allowMax requireFile read =
     (case walkCgroupAncestors current (mt_point m) (memory_visit read filename allowMax requireFile) (0, False) of
        Inl e \<Rightarrow> Inl errLinuxResourceObservation
      | Inr (minimum, foundFile) \<Rightarrow>
          if requireFile \<and> \<not> foundFile then Inl errLinuxResourceObservation
          else Inr (if minimum \<noteq> 0 then Some minimum else None))"

definition quotaCPUCount :: "nat \<Rightarrow> nat \<Rightarrow> nat" where
  "quotaCPUCount quota period =
     (let n = quota div period; n = (if quota mod period \<noteq> 0 then n + 1 else n); n = (if n = 0 then 1 else n)
      in if n > MaxLogicalCPUs then MaxLogicalCPUs else n)"

definition quota_visit_v2 :: "resourceReadFunc \<Rightarrow> string \<Rightarrow> nat \<Rightarrow> nat result" where
  "quota_visit_v2 read directory minimum =
     (case read (path_join2 directory ''cpu.max'') maxCgroupScalarBytes of
        Inl e \<Rightarrow> if e = ErrNotExist then Inr minimum else Inl errLinuxResourceObservation
      | Inr data \<Rightarrow>
          (case go_fields data of
             [q, p] \<Rightarrow>
               (case parse_uint 64 p of None \<Rightarrow> Inl errLinuxResourceObservation
                | Some period \<Rightarrow>
                    if period = 0 then Inl errLinuxResourceObservation
                    else if q = ''max'' then Inr minimum
                    else (case parse_uint 64 q of None \<Rightarrow> Inl errLinuxResourceObservation
                        | Some quota \<Rightarrow> if quota = 0 then Inl errLinuxResourceObservation
                                         else Inr (lower minimum (quotaCPUCount quota period))))
           | _ \<Rightarrow> Inl errLinuxResourceObservation))"

definition cgroupV2CPUQuota :: "cgroupMount \<Rightarrow> string \<Rightarrow> resourceReadFunc \<Rightarrow> nat option result" where
  "cgroupV2CPUQuota m current read =
     (case walkCgroupAncestors current (mt_point m) (quota_visit_v2 read) 0 of Inl e \<Rightarrow> Inl e
      | Inr minimum \<Rightarrow> Inr (if minimum \<noteq> 0 then Some minimum else None))"

definition quota_visit_v1 :: "resourceReadFunc \<Rightarrow> string \<Rightarrow> nat \<Rightarrow> nat result" where
  "quota_visit_v1 read directory minimum =
     (case (read (path_join2 directory ''cpu.cfs_quota_us'') maxCgroupScalarBytes, read (path_join2 directory ''cpu.cfs_period_us'') maxCgroupScalarBytes) of
        (Inr quotaData, Inr periodData) \<Rightarrow>
          (case (go_fields quotaData, go_fields periodData) of
             ([q], [p]) \<Rightarrow>
               (case parse_int 64 q of None \<Rightarrow> Inl errLinuxResourceObservation
                | Some quota \<Rightarrow>
                    if quota = 0 \<or> quota < -1 then Inl errLinuxResourceObservation
                    else (case parse_uint 64 p of None \<Rightarrow> Inl errLinuxResourceObservation
                        | Some period \<Rightarrow>
                            if period = 0 then Inl errLinuxResourceObservation
                            else if quota = -1 then Inr minimum
                            else Inr (lower minimum (quotaCPUCount (nat quota) period))))
           | _ \<Rightarrow> Inl errLinuxResourceObservation)
      | _ \<Rightarrow> Inl errLinuxResourceObservation)"

definition cgroupV1CPUQuota :: "cgroupMount \<Rightarrow> string \<Rightarrow> resourceReadFunc \<Rightarrow> nat option result" where
  "cgroupV1CPUQuota m current read =
     (case walkCgroupAncestors current (mt_point m) (quota_visit_v1 read) 0 of Inl e \<Rightarrow> Inl e
      | Inr minimum \<Rightarrow> Inr (if minimum \<noteq> 0 then Some minimum else None))"

section \<open>Processor sets\<close>

text \<open>One item of a list of processors: a number or a range.\<close>

definition cpu_number :: "string \<Rightarrow> nat option" where
  "cpu_number v = (case parse_int 64 v of None \<Rightarrow> None
     | Some n \<Rightarrow> if n < 0 \<or> n \<ge> int MaxLogicalCPUs then None else Some (nat n))"

definition cpu_item :: "string \<Rightarrow> (nat \<times> nat) option" where
  "cpu_item item =
     (let bounds = split_on (CHR ''-'') item in
      if length bounds < 1 \<or> length bounds > 2 \<or> bounds ! 0 = [] then None
      else case cpu_number (bounds ! 0) of None \<Rightarrow> None
      | Some start \<Rightarrow>
          if length bounds = 2 then
            (if bounds ! 1 = [] then None
             else case cpu_number (bounds ! 1) of None \<Rightarrow> None | Some end' \<Rightarrow> if end' < start then None else Some (start, end'))
          else Some (start, start))"

text \<open>The array \<open>observed\<close> is the list of the numbers whose entry is set.\<close>

fun observe :: "nat list \<Rightarrow> nat list \<Rightarrow> nat list option" where
  "observe observed [] = Some observed"
| "observe observed (cpu # rest) = (if cpu \<in> set observed then None else observe (cpu # observed) rest)"

fun observe_items :: "nat list \<Rightarrow> string list \<Rightarrow> nat list option" where
  "observe_items observed [] = Some observed"
| "observe_items observed (item # rest) =
     (case cpu_item item of None \<Rightarrow> None
      | Some (start, end') \<Rightarrow> (case observe observed [start..<Suc end'] of None \<Rightarrow> None | Some o' \<Rightarrow> observe_items o' rest))"

definition parseCPUSet :: "bytes \<Rightarrow> nat result" where
  "parseCPUSet data =
     (let v = trim_space data in
      if v = [] \<or> int (length v) > maxCgroupScalarBytes then Inl errLinuxResourceObservation
      else let items = split_on (CHR '','') v in
        if length items > MaxLogicalCPUs then Inl errLinuxResourceObservation
        else case observe_items [] items of None \<Rightarrow> Inl errLinuxResourceObservation
        | Some observed \<Rightarrow> if length observed = 0 then Inl errLinuxResourceObservation else Inr (length observed))"

definition cpuset_visit :: "resourceReadFunc \<Rightarrow> string \<Rightarrow> nat option \<Rightarrow> nat option result" where
  "cpuset_visit read directory found =
     (case found of Some n \<Rightarrow> Inr (Some n)
      | None \<Rightarrow>
          (case read (path_join2 directory ''cpuset.cpus'') maxCgroupScalarBytes of
             Inl e \<Rightarrow> Inl errLinuxResourceObservation
           | Inr data \<Rightarrow>
               if length (trim_space data) = 0 then Inr None
               else (case parseCPUSet data of Inl e \<Rightarrow> Inl e | Inr n \<Rightarrow> Inr (Some n))))"

definition cgroupV1CPUSet :: "cgroupMount \<Rightarrow> string \<Rightarrow> resourceReadFunc \<Rightarrow> nat option result" where
  "cgroupV1CPUSet m current read = walkCgroupAncestors current (mt_point m) (cpuset_visit read) None"

section \<open>Effective resources\<close>

text \<open>The three parts of \<open>effectiveLinuxResources\<close>.\<close>

definition capped :: "nat \<Rightarrow> nat option \<Rightarrow> nat" where
  "capped v limit = (case limit of Some n \<Rightarrow> if n < v then n else v | None \<Rightarrow> v)"

definition effective_memory :: "nat \<Rightarrow> cgroupMemberships \<Rightarrow> cgroupMount list \<Rightarrow> resourceReadFunc \<Rightarrow> nat result" where
  "effective_memory systemMemory memberships mounts read =
     (case cm_memory memberships of
        Some path \<Rightarrow>
          (case selectCgroupMount mounts 1 ''memory'' path of Inl e \<Rightarrow> Inl e
           | Inr (m, current) \<Rightarrow>
               (case cgroupMemoryLimit m current ''memory.limit_in_bytes'' False True read of Inl e \<Rightarrow> Inl e
                | Inr limit \<Rightarrow> Inr (capped systemMemory limit)))
      | None \<Rightarrow>
          (case cm_unified memberships of
             None \<Rightarrow> Inr systemMemory
           | Some path \<Rightarrow>
               (case selectCgroupMount mounts 2 [] path of Inl e \<Rightarrow> Inl e
                | Inr (m, current) \<Rightarrow>
                    (case cgroupMemoryLimit m current ''memory.max'' True False read of Inl e \<Rightarrow> Inl e
                     | Inr limit \<Rightarrow> Inr (capped systemMemory limit)))))"

definition effective_quota :: "nat \<Rightarrow> cgroupMemberships \<Rightarrow> cgroupMount list \<Rightarrow> resourceReadFunc \<Rightarrow> nat result" where
  "effective_quota cpus memberships mounts read =
     (case cm_cpu memberships of
        Some path \<Rightarrow>
          (case selectCgroupMount mounts 1 ''cpu'' path of Inl e \<Rightarrow> Inl e
           | Inr (m, current) \<Rightarrow>
               (case cgroupV1CPUQuota m current read of Inl e \<Rightarrow> Inl e | Inr limit \<Rightarrow> Inr (capped cpus limit)))
      | None \<Rightarrow>
          (case cm_unified memberships of
             None \<Rightarrow> Inr cpus
           | Some path \<Rightarrow>
               (case selectCgroupMount mounts 2 [] path of Inl e \<Rightarrow> Inl e
                | Inr (m, current) \<Rightarrow>
                    (case cgroupV2CPUQuota m current read of Inl e \<Rightarrow> Inl e | Inr limit \<Rightarrow> Inr (capped cpus limit)))))"

definition effective_cpuset :: "nat \<Rightarrow> cgroupMemberships \<Rightarrow> cgroupMount list \<Rightarrow> resourceReadFunc \<Rightarrow> nat result" where
  "effective_cpuset cpus memberships mounts read =
     (case cm_cpuset memberships of
        Some path \<Rightarrow>
          (case selectCgroupMount mounts 1 ''cpuset'' path of Inl e \<Rightarrow> Inl e
           | Inr (m, current) \<Rightarrow>
               (case cgroupV1CPUSet m current read of Inl e \<Rightarrow> Inl e | Inr limit \<Rightarrow> Inr (capped cpus limit)))
      | None \<Rightarrow>
          (case cm_unified memberships of
             None \<Rightarrow> Inr cpus
           | Some path \<Rightarrow>
               (case selectCgroupMount mounts 2 [] path of Inl e \<Rightarrow> Inl e
                | Inr (m, current) \<Rightarrow>
                    (case read (path_join2 current ''cpuset.cpus.effective'') maxCgroupScalarBytes of
                       Inr data \<Rightarrow>
                         if length (trim_space data) = 0 then Inl errLinuxResourceObservation
                         else (case parseCPUSet data of Inl e \<Rightarrow> Inl e | Inr n \<Rightarrow> Inr (capped cpus (Some n)))
                     | Inl e \<Rightarrow> if e \<noteq> ErrNotExist then Inl errLinuxResourceObservation else Inr cpus))))"

definition effectiveLinuxResources :: "nat \<Rightarrow> int \<Rightarrow> resourceReadFunc \<Rightarrow> (nat \<times> nat) result" where
  "effectiveLinuxResources systemMemory systemCPUs read =
     (let failed = Inl errLinuxResourceObservation in
      if systemMemory = 0 \<or> systemCPUs \<le> 0 then failed
      else case read ''/proc/self/cgroup'' maxCgroupMembershipBytes of Inl e \<Rightarrow> failed | Inr membershipData \<Rightarrow>
      case read ''/proc/self/mountinfo'' maxMountInfoBytes of Inl e \<Rightarrow> failed | Inr mountData \<Rightarrow>
      case parseCgroupMemberships membershipData of Inl e \<Rightarrow> failed | Inr memberships \<Rightarrow>
      case parseCgroupMounts mountData of Inl e \<Rightarrow> failed | Inr mounts \<Rightarrow>
      case effective_memory systemMemory memberships mounts read of Inl e \<Rightarrow> failed | Inr memory \<Rightarrow>
      case effective_quota (nat (min systemCPUs (int MaxLogicalCPUs))) memberships mounts read of Inl e \<Rightarrow> failed | Inr cpus1 \<Rightarrow>
      case effective_cpuset cpus1 memberships mounts read of Inl e \<Rightarrow> failed | Inr cpus \<Rightarrow>
      if memory = 0 \<or> cpus \<le> 0 then failed else Inr (memory, cpus))"

section \<open>Walks\<close>

text \<open>The directories a walk visits, from the first up to the root.\<close>

fun ancestors :: "nat \<Rightarrow> string \<Rightarrow> string \<Rightarrow> string list" where
  "ancestors 0 root current = []"
| "ancestors (Suc n) root current = current # (if current = root then [] else ancestors n root (path_dir current))"

text \<open>A walk that succeeds has visited every directory up to the root, in this order.\<close>

fun visits :: "(string \<Rightarrow> 'a \<Rightarrow> 'a result) \<Rightarrow> string list \<Rightarrow> 'a \<Rightarrow> 'a result" where
  "visits visit [] acc = Inr acc"
| "visits visit (d # ds) acc = (case visit d acc of Inl e \<Rightarrow> Inl e | Inr acc' \<Rightarrow> visits visit ds acc')"

lemma walk_loop_visits:
  "walk_loop n root visit current acc = Inr r \<Longrightarrow> visits visit (ancestors n root current) acc = Inr r \<and> root \<in> set (ancestors n root current)"
  by (induction n root visit current acc rule: walk_loop.induct) (auto simp: Let_def split: sum.splits if_splits)

definition cgroup_directories :: "cgroupMount \<Rightarrow> string \<Rightarrow> string list" where
  "cgroup_directories m current = ancestors (Suc maxCgroupDepth) (path_clean (mt_point m)) (path_clean current)"

lemma walk_visits:
  assumes "walkCgroupAncestors current (mt_point m) visit acc = Inr r"
  shows "visits visit (cgroup_directories m current) acc = Inr r"
proof -
  have "walk_loop (Suc maxCgroupDepth) (path_clean (mt_point m)) visit (path_clean current) acc = Inr r"
    using assms unfolding walkCgroupAncestors_def by (metis Inl_Inr_False)
  from walk_loop_visits[OF this] show ?thesis by (simp only: cgroup_directories_def)
qed

text \<open>A visit that only lowers an accumulated minimum ends at or below every limit it met.\<close>

definition lowers :: "(string \<Rightarrow> 'a \<Rightarrow> 'a result) \<Rightarrow> ('a \<Rightarrow> nat) \<Rightarrow> (string \<Rightarrow> nat \<Rightarrow> bool) \<Rightarrow> bool" where
  "lowers visit minimum limit \<longleftrightarrow> (\<forall>d a b. visit d a = Inr b \<longrightarrow>
     (\<forall>n. limit d n \<longrightarrow> 0 < n) \<and> (minimum b = minimum a \<and> (\<forall>n. \<not> limit d n) \<or> (\<exists>n. limit d n \<and> (\<forall>n'. limit d n' \<longrightarrow> n' = n) \<and> minimum b = lower (minimum a) n)))"

lemma lower_le: "0 < n \<Longrightarrow> 0 < lower a n \<and> lower a n \<le> n \<and> (0 < a \<longrightarrow> lower a n \<le> a)"
  by (auto simp: lower_def)

lemma visits_minimum:
  assumes "lowers visit minimum limit" and "visits visit ds a = Inr r"
  shows "(0 < minimum a \<longrightarrow> 0 < minimum r \<and> minimum r \<le> minimum a)
    \<and> (\<forall>d \<in> set ds. \<forall>n. limit d n \<longrightarrow> 0 < minimum r \<and> minimum r \<le> n)
    \<and> (minimum r = minimum a \<or> (\<exists>d \<in> set ds. limit d (minimum r)))"
  using assms(2)
proof (induction ds arbitrary: a)
  case (Cons d ds)
  then obtain b where b: "visit d a = Inr b" and r: "visits visit ds b = Inr r" by (auto split: sum.splits)
  have keep: "0 < minimum b \<longrightarrow> 0 < minimum r \<and> minimum r \<le> minimum b"
    and below: "\<forall>d \<in> set ds. \<forall>n. limit d n \<longrightarrow> 0 < minimum r \<and> minimum r \<le> n"
    and source: "minimum r = minimum b \<or> (\<exists>d \<in> set ds. limit d (minimum r))"
    using Cons.IH[OF r] by blast+
  have step: "\<forall>n. limit d n \<longrightarrow> 0 < n" "minimum b = minimum a \<and> (\<forall>n. \<not> limit d n)
      \<or> (\<exists>n. limit d n \<and> (\<forall>n'. limit d n' \<longrightarrow> n' = n) \<and> minimum b = lower (minimum a) n)"
    using assms(1) b unfolding lowers_def by blast+
  show ?case
  proof (cases "\<exists>n. limit d n")
    case False
    hence "minimum b = minimum a" using step(2) by blast
    thus ?thesis using False keep below source by simp
  next
    case True
    then obtain n where n: "limit d n" "\<forall>n'. limit d n' \<longrightarrow> n' = n" "minimum b = lower (minimum a) n" using step(2) by blast
    have "0 < n" using step(1) n(1) by blast
    from lower_le[OF this, of "minimum a", folded n(3)]
    have b0: "0 < minimum b" "minimum b \<le> n" "0 < minimum a \<longrightarrow> minimum b \<le> minimum a" by simp_all
    hence r0: "0 < minimum r" "minimum r \<le> minimum b" using keep by simp_all
    have "minimum b = minimum a \<or> minimum b = n" by (simp add: n(3) lower_def)
    hence "minimum r = minimum a \<or> (\<exists>d' \<in> set (d # ds). limit d' (minimum r))" using source n(1) by auto
    moreover have "\<forall>d' \<in> set (d # ds). \<forall>n'. limit d' n' \<longrightarrow> 0 < minimum r \<and> minimum r \<le> n'"
      using below n(2) r0 b0(2) by (metis le_trans set_ConsD)
    moreover have "0 < minimum a \<longrightarrow> minimum r \<le> minimum a" using r0(2) b0(3) le_trans by blast
    ultimately show ?thesis using r0(1) by blast
  qed
qed simp

text \<open>The limits the three walks that lower a minimum look for.\<close>

definition memory_limit_at :: "resourceReadFunc \<Rightarrow> string \<Rightarrow> bool \<Rightarrow> string \<Rightarrow> nat \<Rightarrow> bool" where
  "memory_limit_at read filename allowMax d n \<longleftrightarrow>
     (\<exists>data. read (path_join2 d filename) maxCgroupScalarBytes = Inr data \<and> parseMemoryLimit data allowMax = Inr (Some n))"

definition quota_at_v2 :: "resourceReadFunc \<Rightarrow> string \<Rightarrow> nat \<Rightarrow> bool" where
  "quota_at_v2 read d n \<longleftrightarrow> (\<exists>data q p quota period. read (path_join2 d ''cpu.max'') maxCgroupScalarBytes = Inr data \<and> go_fields data = [q, p]
     \<and> q \<noteq> ''max'' \<and> parse_uint 64 q = Some quota \<and> parse_uint 64 p = Some period \<and> n = quotaCPUCount quota period)"

definition quota_at_v1 :: "resourceReadFunc \<Rightarrow> string \<Rightarrow> nat \<Rightarrow> bool" where
  "quota_at_v1 read d n \<longleftrightarrow> (\<exists>quotaData periodData q p quota period. read (path_join2 d ''cpu.cfs_quota_us'') maxCgroupScalarBytes = Inr quotaData
     \<and> read (path_join2 d ''cpu.cfs_period_us'') maxCgroupScalarBytes = Inr periodData \<and> go_fields quotaData = [q] \<and> go_fields periodData = [p]
     \<and> parse_int 64 q = Some quota \<and> 0 < quota \<and> parse_uint 64 p = Some period \<and> n = quotaCPUCount (nat quota) period)"

lemma quotaCPUCount_pos: "0 < quotaCPUCount quota period"
  by (simp add: quotaCPUCount_def Let_def)

lemma parseMemoryLimit_pos: "parseMemoryLimit data allowMax = Inr (Some n) \<Longrightarrow> 0 < n"
  by (auto simp: parseMemoryLimit_def split: list.splits if_splits option.splits)

lemma memory_lowers: "lowers (memory_visit read filename allowMax requireFile) fst (memory_limit_at read filename allowMax)"
  unfolding lowers_def memory_limit_at_def memory_visit_def
  by (auto dest: parseMemoryLimit_pos split: sum.splits option.splits if_splits)

lemma quota_lowers_v2: "lowers (quota_visit_v2 read) id (quota_at_v2 read)"
  unfolding lowers_def quota_at_v2_def quota_visit_v2_def
  by (auto simp: quotaCPUCount_pos split: sum.splits list.splits option.splits if_splits)

lemma quota_lowers_v1: "lowers (quota_visit_v1 read) id (quota_at_v1 read)"
  unfolding lowers_def quota_at_v1_def quota_visit_v1_def
  by (auto simp: quotaCPUCount_pos split: sum.splits list.splits option.splits if_splits)

text \<open>The limits on the hierarchy the process belongs to, whatever its version.\<close>

definition memory_limits :: "resourceReadFunc \<Rightarrow> cgroupMemberships \<Rightarrow> cgroupMount list \<Rightarrow> nat \<Rightarrow> bool" where
  "memory_limits read ms mounts n = (case cm_memory ms of
     Some path \<Rightarrow> (\<exists>m current. selectCgroupMount mounts 1 ''memory'' path = Inr (m, current)
       \<and> (\<exists>d \<in> set (cgroup_directories m current). memory_limit_at read ''memory.limit_in_bytes'' False d n))
   | None \<Rightarrow> (\<exists>path m current. cm_unified ms = Some path \<and> selectCgroupMount mounts 2 [] path = Inr (m, current)
       \<and> (\<exists>d \<in> set (cgroup_directories m current). memory_limit_at read ''memory.max'' True d n)))"

definition quota_limits :: "resourceReadFunc \<Rightarrow> cgroupMemberships \<Rightarrow> cgroupMount list \<Rightarrow> nat \<Rightarrow> bool" where
  "quota_limits read ms mounts n = (case cm_cpu ms of
     Some path \<Rightarrow> (\<exists>m current. selectCgroupMount mounts 1 ''cpu'' path = Inr (m, current)
       \<and> (\<exists>d \<in> set (cgroup_directories m current). quota_at_v1 read d n))
   | None \<Rightarrow> (\<exists>path m current. cm_unified ms = Some path \<and> selectCgroupMount mounts 2 [] path = Inr (m, current)
       \<and> (\<exists>d \<in> set (cgroup_directories m current). quota_at_v2 read d n)))"

lemma cgroupMemoryLimit_least:
  assumes "cgroupMemoryLimit m current filename allowMax requireFile read = Inr limit"
  shows "\<forall>d \<in> set (cgroup_directories m current). \<forall>n. memory_limit_at read filename allowMax d n \<longrightarrow> (\<exists>l. limit = Some l \<and> l \<le> n)"
    and "limit = Some l \<Longrightarrow> 0 < l \<and> (\<exists>d \<in> set (cgroup_directories m current). memory_limit_at read filename allowMax d l)"
proof -
  obtain minimum found where w: "walkCgroupAncestors current (mt_point m) (memory_visit read filename allowMax requireFile) (0, False) = Inr (minimum, found)"
    and l: "limit = (if minimum \<noteq> 0 then Some minimum else None)"
    using assms by (auto simp: cgroupMemoryLimit_def split: sum.splits if_splits)
  from visits_minimum[OF memory_lowers walk_visits[OF w]]
  have "\<forall>d \<in> set (cgroup_directories m current). \<forall>n. memory_limit_at read filename allowMax d n \<longrightarrow> 0 < minimum \<and> minimum \<le> n"
    "minimum = 0 \<or> (\<exists>d \<in> set (cgroup_directories m current). memory_limit_at read filename allowMax d minimum)" by simp_all
  thus "\<forall>d \<in> set (cgroup_directories m current). \<forall>n. memory_limit_at read filename allowMax d n \<longrightarrow> (\<exists>l. limit = Some l \<and> l \<le> n)"
    and "limit = Some l \<Longrightarrow> 0 < l \<and> (\<exists>d \<in> set (cgroup_directories m current). memory_limit_at read filename allowMax d l)"
    unfolding l by (auto split: if_splits)
qed

lemma cpu_quota_least:
  assumes "lowers visit id quota_at" and "walkCgroupAncestors current (mt_point m) visit 0 = Inr minimum"
    and "limit = (if minimum \<noteq> 0 then Some minimum else None)"
  shows "\<forall>d \<in> set (cgroup_directories m current). \<forall>n. quota_at d n \<longrightarrow> (\<exists>l. limit = Some l \<and> l \<le> n)"
    and "limit = Some l \<Longrightarrow> 0 < l"
  using visits_minimum[OF assms(1) walk_visits[OF assms(2)]] assms(3) by (auto split: if_splits)

lemma capped_le: "capped v limit \<le> v"
  by (simp add: capped_def split: option.splits)

lemma capped_limit: "limit = Some l \<Longrightarrow> capped v limit \<le> l"
  by (simp add: capped_def)

lemma capped_pos: "0 < v \<Longrightarrow> (\<And>l. limit = Some l \<Longrightarrow> 0 < l) \<Longrightarrow> 0 < capped v limit"
  by (simp add: capped_def split: option.splits)

lemma capped_source: "capped v limit = v \<or> limit = Some (capped v limit)"
  by (simp add: capped_def split: option.splits)

text \<open>The cap by the least of the limits of some directories.\<close>

lemma capped_least:
  assumes "\<forall>d \<in> D. \<forall>n. limit_at d n \<longrightarrow> (\<exists>l. limit = Some l \<and> l \<le> n)"
    and "\<And>l. limit = Some l \<Longrightarrow> 0 < l \<and> (\<exists>d \<in> D. limit_at d l)" and "0 < v"
  shows "0 < capped v limit \<and> capped v limit \<le> v \<and> ((\<exists>d \<in> D. limit_at d n) \<longrightarrow> capped v limit \<le> n)
     \<and> (capped v limit = v \<or> (\<exists>d \<in> D. limit_at d (capped v limit)))"
  using assms capped_le[of v limit] capped_source[of v limit] capped_pos[of v limit]
    capped_limit[of limit _ v] le_trans by metis

lemma effective_memory_sound:
  assumes "effective_memory systemMemory ms mounts read = Inr memory" and "0 < systemMemory"
  shows "0 < memory" "memory \<le> systemMemory" "memory_limits read ms mounts n \<Longrightarrow> memory \<le> n"
    "memory = systemMemory \<or> memory_limits read ms mounts memory"
proof -
  have "0 < memory \<and> memory \<le> systemMemory \<and> (memory_limits read ms mounts n \<longrightarrow> memory \<le> n) \<and> (memory = systemMemory \<or> memory_limits read ms mounts memory)"
  proof (cases "cm_memory ms")
    case (Some path)
    then obtain m current limit where s: "selectCgroupMount mounts 1 ''memory'' path = Inr (m, current)"
      "cgroupMemoryLimit m current ''memory.limit_in_bytes'' False True read = Inr limit" "memory = capped systemMemory limit"
      using assms(1) by (auto simp: effective_memory_def split: sum.splits)
    note least = cgroupMemoryLimit_least[OF s(2)]
    have lim: "memory_limits read ms mounts k = (\<exists>d \<in> set (cgroup_directories m current). memory_limit_at read ''memory.limit_in_bytes'' False d k)" for k
      using Some s(1) by (simp add: memory_limits_def)
    show ?thesis unfolding lim s(3) by (rule capped_least[OF least assms(2)])
  next
    case None
    show ?thesis
    proof (cases "cm_unified ms")
      case none: None
      thus ?thesis using None assms by (simp add: effective_memory_def memory_limits_def)
    next
      case (Some path)
      then obtain m current limit where s: "selectCgroupMount mounts 2 [] path = Inr (m, current)"
        "cgroupMemoryLimit m current ''memory.max'' True False read = Inr limit" "memory = capped systemMemory limit"
        using assms(1) None by (auto simp: effective_memory_def split: sum.splits)
      note least = cgroupMemoryLimit_least[OF s(2)]
      have lim: "memory_limits read ms mounts k = (\<exists>d \<in> set (cgroup_directories m current). memory_limit_at read ''memory.max'' True d k)" for k
        using None Some s(1) by (simp add: memory_limits_def)
      show ?thesis unfolding lim s(3) by (rule capped_least[OF least assms(2)])
    qed
  qed
  thus "0 < memory" "memory \<le> systemMemory" "memory_limits read ms mounts n \<Longrightarrow> memory \<le> n"
    "memory = systemMemory \<or> memory_limits read ms mounts memory" by blast+
qed

lemma effective_quota_sound:
  assumes "effective_quota cpus ms mounts read = Inr r"
  shows "r \<le> cpus \<and> (quota_limits read ms mounts n \<longrightarrow> r \<le> n)"
proof (cases "cm_cpu ms")
  case (Some path)
  then obtain m current limit where s: "selectCgroupMount mounts 1 ''cpu'' path = Inr (m, current)"
    "cgroupV1CPUQuota m current read = Inr limit" "r = capped cpus limit"
    using assms(1) by (auto simp: effective_quota_def split: sum.splits)
  then obtain minimum where "walkCgroupAncestors current (mt_point m) (quota_visit_v1 read) 0 = Inr minimum"
    "limit = (if minimum \<noteq> 0 then Some minimum else None)" by (auto simp: cgroupV1CPUQuota_def split: sum.splits)
  note least = cpu_quota_least[OF quota_lowers_v1 this]
  show ?thesis using least(1) Some s(1) capped_le[of cpus limit] capped_limit[of limit _ cpus] le_trans
    unfolding s(3) by (fastforce simp: quota_limits_def)
next
  case None
  show ?thesis
  proof (cases "cm_unified ms")
    case none: None
    thus ?thesis using None assms by (simp add: effective_quota_def quota_limits_def)
  next
    case (Some path)
    then obtain m current limit where s: "selectCgroupMount mounts 2 [] path = Inr (m, current)"
      "cgroupV2CPUQuota m current read = Inr limit" "r = capped cpus limit"
      using assms(1) None by (auto simp: effective_quota_def split: sum.splits)
    then obtain minimum where "walkCgroupAncestors current (mt_point m) (quota_visit_v2 read) 0 = Inr minimum"
      "limit = (if minimum \<noteq> 0 then Some minimum else None)" by (auto simp: cgroupV2CPUQuota_def split: sum.splits)
    note least = cpu_quota_least[OF quota_lowers_v2 this]
    show ?thesis using least(1) None Some s(1) capped_le[of cpus limit] capped_limit[of limit _ cpus] le_trans
      unfolding s(3) by (fastforce simp: quota_limits_def)
  qed
qed

lemma effective_cpuset_le: "effective_cpuset cpus ms mounts read = Inr r \<Longrightarrow> r \<le> cpus"
  by (auto simp: effective_cpuset_def capped_le split: option.splits sum.splits if_splits)

lemma effectiveLinuxResources_Inr:
  assumes "effectiveLinuxResources systemMemory systemCPUs read = Inr (memory, cpus)"
  obtains md mnt ms mounts c1 where "0 < systemMemory" "0 < systemCPUs" "read ''/proc/self/cgroup'' maxCgroupMembershipBytes = Inr md"
    "read ''/proc/self/mountinfo'' maxMountInfoBytes = Inr mnt" "parseCgroupMemberships md = Inr ms" "parseCgroupMounts mnt = Inr mounts"
    "effective_memory systemMemory ms mounts read = Inr memory"
    "effective_quota (nat (min systemCPUs (int MaxLogicalCPUs))) ms mounts read = Inr c1" "effective_cpuset c1 ms mounts read = Inr cpus" "0 < cpus"
proof -
  note d = assms[unfolded effectiveLinuxResources_def Let_def]
  have sys: "\<not> (systemMemory = 0 \<or> systemCPUs \<le> 0)" using d by (metis Inl_Inr_False)
  obtain md where md: "read ''/proc/self/cgroup'' maxCgroupMembershipBytes = Inr md"
    using d sys by (cases "read ''/proc/self/cgroup'' maxCgroupMembershipBytes") simp_all
  obtain mnt where mnt: "read ''/proc/self/mountinfo'' maxMountInfoBytes = Inr mnt"
    using d sys md by (cases "read ''/proc/self/mountinfo'' maxMountInfoBytes") simp_all
  obtain ms where ms: "parseCgroupMemberships md = Inr ms" using d sys md mnt by (cases "parseCgroupMemberships md") simp_all
  obtain mounts where mounts: "parseCgroupMounts mnt = Inr mounts" using d sys md mnt ms by (cases "parseCgroupMounts mnt") simp_all
  note d4 = d[unfolded md mnt sum.case ms mounts]
  obtain mem where mem: "effective_memory systemMemory ms mounts read = Inr mem"
    using d4 sys by (cases "effective_memory systemMemory ms mounts read") simp_all
  obtain c1 where c1: "effective_quota (nat (min systemCPUs (int MaxLogicalCPUs))) ms mounts read = Inr c1"
    using d4 sys mem by (cases "effective_quota (nat (min systemCPUs (int MaxLogicalCPUs))) ms mounts read") simp_all
  obtain c where c: "effective_cpuset c1 ms mounts read = Inr c"
    using d4 sys mem c1 by (cases "effective_cpuset c1 ms mounts read") simp_all
  have "mem = memory" "c = cpus" "0 < cpus" using d4 sys mem c1 c by (simp_all split: if_split_asm)
  thus thesis using that sys md mnt ms mounts mem c1 c by simp
qed

lemma observe_exact:
  "observe observed xs = Some r \<Longrightarrow> distinct observed \<Longrightarrow>
     distinct r \<and> set r = set observed \<union> set xs \<and> length r = length observed + length xs"
  by (induction observed xs rule: observe.induct) (auto split: if_splits)

lemma cpu_item_bounds: "cpu_item item = Some (a, b) \<Longrightarrow> a \<le> b \<and> b < MaxLogicalCPUs"
  by (auto simp: cpu_item_def cpu_number_def Let_def split: if_splits option.splits)

lemma observe_items_exact:
  "observe_items observed items = Some r \<Longrightarrow> distinct observed \<Longrightarrow>
     \<exists>ranges. map cpu_item items = map Some ranges \<and> distinct r \<and> set r = set observed \<union> (\<Union>(a, b) \<in> set ranges. {a..b})
       \<and> length r = length observed + (\<Sum>(a, b) \<leftarrow> ranges. Suc b - a)"
proof (induction observed items arbitrary: r rule: observe_items.induct)
  case (2 observed item rest)
  obtain a b where ab: "cpu_item item = Some (a, b)" using 2(2) by (cases "cpu_item item") auto
  obtain o' where ob: "observe observed [a..<Suc b] = Some o'" using 2(2) ab by (cases "observe observed [a..<Suc b]") simp_all
  have i: "cpu_item item = Some (a, b)" "observe observed [a..<Suc b] = Some o'" "observe_items o' rest = Some r"
    using 2(2) ab ob by (simp_all del: upt_Suc)
  have o': "distinct o'" "set o' = set observed \<union> {a..b}" "length o' = length observed + (Suc b - a)"
    using observe_exact[OF i(2) 2(3)] by (simp_all only: set_upt atLeastLessThanSuc_atLeastAtMost length_upt)
  obtain ranges where r: "map cpu_item rest = map Some ranges" "distinct r" "set r = set o' \<union> (\<Union>(a, b) \<in> set ranges. {a..b})"
    "length r = length o' + (\<Sum>(a, b) \<leftarrow> ranges. Suc b - a)"
    using 2(1)[OF i(1) refl i(2) i(3) o'(1)] by blast
  show ?case by (rule exI[of _ "(a, b) # ranges"]) (simp add: i(1) o'(2,3) r Un_assoc)
qed simp

section \<open>Properties\<close>


text \<open> A processor list is counted exactly.  When the list is accepted, every item is a number or a range below 4096, and the
  count is that of the processors named, each once: overlapping items are refused.\<close>

theorem parseCPUSet_exact:
  assumes "parseCPUSet data = Inr n"
  shows "\<exists>ranges. map cpu_item (split_on (CHR '','') (trim_space data)) = map Some ranges \<and> list_all (\<lambda>(a, b). a \<le> b \<and> b < MaxLogicalCPUs) ranges
     \<and> n = card (\<Union>(a, b) \<in> set ranges. {a..b}) \<and> n = (\<Sum>(a, b) \<leftarrow> ranges. Suc b - a) \<and> 0 < n"
proof -
  obtain observed where o: "observe_items [] (split_on (CHR '','') (trim_space data)) = Some observed" "n = length observed" "0 < n"
    using assms by (auto simp: parseCPUSet_def Let_def split: if_splits option.splits)
  obtain ranges where r: "map cpu_item (split_on (CHR '','') (trim_space data)) = map Some ranges" "distinct observed"
    "set observed = (\<Union>(a, b) \<in> set ranges. {a..b})" "length observed = (\<Sum>(a, b) \<leftarrow> ranges. Suc b - a)"
    using observe_items_exact[OF o(1)] by auto
  have "Some x \<in> cpu_item ` set (split_on (CHR '','') (trim_space data))" if "x \<in> set ranges" for x
    using that arg_cong[OF r(1), of set] by auto
  hence "list_all (\<lambda>(a, b). a \<le> b \<and> b < MaxLogicalCPUs) ranges"
    by (auto simp: list_all_iff) (metis cpu_item_bounds imageE)+
  moreover have "n = card (\<Union>(a, b) \<in> set ranges. {a..b})" using r(2,3) o(2) by (metis distinct_card)
  ultimately show ?thesis using r(1,4) o(2,3) by (intro exI[of _ ranges]) simp
qed

text \<open>The kernel writes a path of the mount table with blanks and backslashes escaped.\<close>

fun mount_escape :: "string \<Rightarrow> string" where
  "mount_escape [] = []"
| "mount_escape (c # rest) =
     (if c = CHR 0x09 then [CHR 0x5C] @ ''011'' else if c = CHR 0x0A then [CHR 0x5C] @ ''012''
      else if c = CHR '' '' then [CHR 0x5C] @ ''040'' else if c = CHR 0x5C then [CHR 0x5C] @ ''134'' else [c]) @ mount_escape rest"

lemma decode_mount_escape: "decode_escapes acc (mount_escape p) = Some (acc @ p)"
  by (induction p arbitrary: acc) (simp_all add: numeral_3_eq_3)

text \<open> Paths of the mount table are read back.  A clean absolute path without control characters comes out of
  \<open>decodeMountPath\<close> as it went into the kernel's escaping, blanks and backslashes included.\<close>

theorem decodeMountPath_roundtrip:
  assumes "cleanResourcePath p = Inr p" and "length (mount_escape p) \<le> maxResourcePathBytes * 2"
  shows "decodeMountPath (mount_escape p) = Inr p"
proof -
  have "p \<noteq> []" using assms(1) by (auto simp: cleanResourcePath_def)
  hence "mount_escape p \<noteq> []" by (cases p) auto
  thus ?thesis using assms by (simp add: decodeMountPath_def decode_mount_escape)
qed

subsection \<open>A process in one group\<close>

definition demo_cgroup :: resourceReadFunc where
  "demo_cgroup path maximum =
     (if path = ''/proc/self/cgroup'' then Inr (''0::/a'' @ [CHR 0x0A])
      else if path = ''/proc/self/mountinfo'' then Inr (''1 2 0:3 / /m rw - cgroup2 c rw'' @ [CHR 0x0A])
      else if path = ''/m/a/memory.max'' then Inr ''7''
      else if path = ''/m/a/cpuset.cpus.effective'' then Inr ''0-2,5''
      else Inl ErrNotExist)"

lemma demo_go_fields: "go_fields ''7'' = [''7'']" "go_fields ''1 2 0:3 / /m rw'' = [''1'', ''2'', ''0:3'', ''/'', ''/m'', ''rw'']"
  "go_fields ''cgroup2 c rw'' = [''cgroup2'', ''c'', ''rw'']"
  by (simp_all add: go_fields_def fields_from.simps space_width.simps flush_word_def)

lemma demo_trim: "trim_space ''0-2,5'' = ''0-2,5''"
  by (simp add: trim_space_def trim_left.simps trim_right.simps last_space_def space_width.simps)

lemma demo_cpu_items: "cpu_item ''0-2'' = Some (0, 2)" "cpu_item ''5'' = Some (5, 5)"
  by (simp_all add: cpu_item_def cpu_number_def parse_int_def dec_val_def digit_val_def has_prefix_def is_digit_def less_eq_char_def)

lemma demo_cpuset: "parseCPUSet ''0-2,5'' = Inr 4"
proof -
  have items: "split_on (CHR '','') ''0-2,5'' = [''0-2'', ''5'']" by simp
  have upt: "[0..<Suc 2] = [0, 1, 2]" "[5..<Suc 5] = [5]" by (simp_all add: upt_rec)
  have "observe_items [] [''0-2'', ''5''] = Some [5, 2, 1, 0]"
    by (simp only: observe_items.simps demo_cpu_items option.case prod.case upt) simp
  thus ?thesis unfolding parseCPUSet_def demo_trim Let_def items by simp
qed

theorem parseCPUSet_exact_witness: "parseCPUSet ''0-2,5'' = Inr 4 \<and> card ({0..2 :: nat} \<union> {5..5}) = 4"
proof -
  have items: "map cpu_item (split_on (CHR '','') (trim_space ''0-2,5'')) = [Some (0, 2), Some (5, 5)]"
    by (simp add: demo_trim demo_cpu_items)
  obtain ranges :: "(nat \<times> nat) list" where r: "[Some (0, 2), Some (5, 5)] = map Some ranges" "4 = card (\<Union>(a, b) \<in> set ranges. {a..b})"
    using parseCPUSet_exact[OF demo_cpuset] unfolding items by metis
  from r(1) have "ranges = [(0, 2), (5, 5)]" by auto
  with r(2) show ?thesis using demo_cpuset by simp
qed

theorem decodeMountPath_roundtrip_witness:
  "decodeMountPath ([CHR ''/'', CHR ''a'', CHR 0x5C] @ ''040'' @ ''b'') = Inr ''/a b''"
proof -
  have "cleanResourcePath ''/a b'' = Inr ''/a b''" by (simp add: cleanResourcePath_def path_clean_def is_abs_def has_prefix_def clean_step_def)
  from decodeMountPath_roundtrip[OF this] show ?thesis by simp
qed

definition demo_unified :: cgroupMemberships where
  "demo_unified = \<lparr>cm_unified = Some ''/a'', cm_memory = None, cm_cpu = None, cm_cpuset = None\<rparr>"

definition demo_mount :: cgroupMount where
  "demo_mount = \<lparr>mt_version = 2, mt_root = ''/'', mt_point = ''/m'', mt_memory = False, mt_cpu = False, mt_cpuset = False\<rparr>"

lemma demo_paths: "cleanResourcePath ''/'' = Inr ''/''" "cleanResourcePath ''/m'' = Inr ''/m''" "cleanResourcePath ''/a'' = Inr ''/a''"
  "path_join2 ''/m'' ''a'' = ''/m/a''" "path_clean ''/m/a'' = ''/m/a''" "path_clean ''/m'' = ''/m''" "path_dir ''/m/a'' = ''/m''"
  "path_join2 ''/m/a'' ''memory.max'' = ''/m/a/memory.max''" "path_join2 ''/m'' ''memory.max'' = ''/m/memory.max''"
  "path_join2 ''/m/a'' ''cpu.max'' = ''/m/a/cpu.max''" "path_join2 ''/m'' ''cpu.max'' = ''/m/cpu.max''"
  "path_join2 ''/m/a'' ''cpuset.cpus.effective'' = ''/m/a/cpuset.cpus.effective''"
  by (simp_all add: cleanResourcePath_def path_clean_def path_join2_def path_dir_def is_abs_def has_prefix_def clean_step_def)

lemma demo_within: "pathWithin ''/m'' ''/m/a''" "pathWithin ''/m'' ''/m''"
  by (simp_all add: pathWithin_def path_rel_def path_elements_def demo_paths has_prefix_def)

lemma demo_parse: "parseCgroupMemberships (''0::/a'' @ [CHR 0x0A]) = Inr demo_unified"
  "parseCgroupMounts (''1 2 0:3 / /m rw - cgroup2 c rw'' @ [CHR 0x0A]) = Inr [demo_mount]"
proof -
  have lines: "boundedLines (''0::/a'' @ [CHR 0x0A]) maxCgroupLines = Inr [''0::/a'']"
    "boundedLines (''1 2 0:3 / /m rw - cgroup2 c rw'' @ [CHR 0x0A]) maxCgroupLines = Inr [''1 2 0:3 / /m rw - cgroup2 c rw'']"
    by (simp_all add: boundedLines_def trim_suffix_def has_suffix_def)
  have "split_n 3 (CHR '':'') ''0::/a'' = [''0'', [], ''/a'']" by (simp add: numeral_3_eq_3)
  thus "parseCgroupMemberships (''0::/a'' @ [CHR 0x0A]) = Inr demo_unified"
    unfolding parseCgroupMemberships_def lines by (simp add: decimalString_def is_digit_def less_eq_char_def demo_paths demo_unified_def)
  have cut: "cut_at '' - '' ''1 2 0:3 / /m rw - cgroup2 c rw'' = Some (''1 2 0:3 / /m rw'', ''cgroup2 c rw'')"
    by (simp add: has_prefix_def)
  have "decodeMountPath ''/'' = Inr ''/''" "decodeMountPath ''/m'' = Inr ''/m''" by (simp_all add: decodeMountPath_def demo_paths)
  thus "parseCgroupMounts (''1 2 0:3 / /m rw - cgroup2 c rw'' @ [CHR 0x0A]) = Inr [demo_mount]"
    unfolding parseCgroupMounts_def lines by (simp add: cut demo_go_fields demo_mount_def del: cut_at.simps)
qed

lemma demo_select: "selectCgroupMount [demo_mount] 2 [] ''/a'' = Inr (demo_mount, ''/m/a'')"
  by (simp add: selectCgroupMount_def mountHasController_def resolveCgroupPath_def demo_mount_def demo_paths demo_within trim_prefix_def has_prefix_def)

lemma demo_walk: "walkCgroupAncestors ''/m/a'' ''/m'' visit acc = (case visit ''/m/a'' acc of Inl e \<Rightarrow> Inl e | Inr b \<Rightarrow> (case visit ''/m'' b of Inl e \<Rightarrow> Inl e | Inr c \<Rightarrow> Inr c))"
proof -
  have "Suc maxCgroupDepth = Suc (Suc 127)" by simp
  thus ?thesis by (simp only: walkCgroupAncestors_def demo_paths demo_within walk_loop.simps) (simp add: demo_paths demo_within split: sum.splits)
qed

lemma demo_reads: "demo_cgroup ''/m/a/memory.max'' k = Inr ''7''" "demo_cgroup ''/m/memory.max'' k = Inl ErrNotExist"
  "demo_cgroup ''/m/a/cpu.max'' k = Inl ErrNotExist" "demo_cgroup ''/m/cpu.max'' k = Inl ErrNotExist"
  "demo_cgroup ''/m/a/cpuset.cpus.effective'' k = Inr ''0-2,5''"
  "demo_cgroup ''/proc/self/cgroup'' k = Inr (''0::/a'' @ [CHR 0x0A])"
  "demo_cgroup ''/proc/self/mountinfo'' k = Inr (''1 2 0:3 / /m rw - cgroup2 c rw'' @ [CHR 0x0A])"
  by (simp_all add: demo_cgroup_def)

lemma demo_limit: "parseMemoryLimit ''7'' True = Inr (Some 7)"
  by (simp add: parseMemoryLimit_def demo_go_fields parse_uint_def dec_val_def digit_val_def is_digit_def less_eq_char_def)

lemma demo_effective: "effectiveLinuxResources 10 8 demo_cgroup = Inr (7, 4)"
proof -
  have m: "mt_point demo_mount = ''/m''" by (simp add: demo_mount_def)
  have mem: "effective_memory 10 demo_unified [demo_mount] demo_cgroup = Inr 7"
    by (simp add: effective_memory_def demo_unified_def demo_select cgroupMemoryLimit_def m demo_walk memory_visit_def demo_paths demo_reads demo_limit
        lower_def capped_def)
  have quota: "effective_quota 8 demo_unified [demo_mount] demo_cgroup = Inr 8"
    by (simp add: effective_quota_def demo_unified_def demo_select cgroupV2CPUQuota_def m demo_walk quota_visit_v2_def demo_paths demo_reads capped_def)
  have cpus: "effective_cpuset 8 demo_unified [demo_mount] demo_cgroup = Inr 4"
    by (simp add: effective_cpuset_def demo_unified_def demo_select demo_paths demo_reads demo_trim demo_cpuset capped_def)
  show ?thesis unfolding effectiveLinuxResources_def demo_reads sum.case demo_parse using mem quota cpus by simp
qed


end
