(* ===== verification/Go_Utf8.thy ===== *)
theory Go_Utf8
  imports Go_Text
begin

text \<open>
  Package \<open>unicode/utf8\<close> as the sources use it: decoding the first rune of a string, with \<open>RuneError\<close> and width 1 for a
  byte that does not begin a valid encoding, encoding, and the validity of a string.  A rune is a number.
\<close>

abbreviation (input) RuneError :: nat where "RuneError \<equiv> 0xFFFD"

definition cont_byte :: "nat \<Rightarrow> bool" where
  "cont_byte b \<longleftrightarrow> 0x80 \<le> b \<and> b \<le> 0xBF"

definition second_ok :: "nat \<Rightarrow> nat \<Rightarrow> bool" where
  "second_ok lead b \<longleftrightarrow> (if lead = 0xE0 then 0xA0 \<le> b \<and> b \<le> 0xBF else if lead = 0xED then 0x80 \<le> b \<and> b \<le> 0x9F
     else if lead = 0xF0 then 0x90 \<le> b \<and> b \<le> 0xBF else if lead = 0xF4 then 0x80 \<le> b \<and> b \<le> 0x8F else cont_byte b)"

fun decode_bytes :: "nat list \<Rightarrow> nat \<times> nat" where
  "decode_bytes [] = (RuneError, 0)"
| "decode_bytes (b # bs) =
     (if b < 0x80 then (b, 1)
      else if 0xC2 \<le> b \<and> b \<le> 0xDF \<and> bs \<noteq> [] \<and> cont_byte (hd bs) then ((b - 0xC0) * 64 + (hd bs - 0x80), 2)
      else if 0xE0 \<le> b \<and> b \<le> 0xEF \<and> length bs \<ge> 2 \<and> second_ok b (bs ! 0) \<and> cont_byte (bs ! 1)
      then ((b - 0xE0) * 4096 + (bs ! 0 - 0x80) * 64 + (bs ! 1 - 0x80), 3)
      else if 0xF0 \<le> b \<and> b \<le> 0xF4 \<and> length bs \<ge> 3 \<and> second_ok b (bs ! 0) \<and> cont_byte (bs ! 1) \<and> cont_byte (bs ! 2)
      then ((b - 0xF0) * 262144 + (bs ! 0 - 0x80) * 4096 + (bs ! 1 - 0x80) * 64 + (bs ! 2 - 0x80), 4)
      else (RuneError, 1))"

definition decode_rune :: "string \<Rightarrow> nat \<times> nat" where
  "decode_rune s = decode_bytes (map of_char (take 4 s))"

definition encode_bytes :: "nat \<Rightarrow> nat list" where
  "encode_bytes r =
     (if r < 0x80 then [r]
      else if r < 0x800 then [0xC0 + r div 64, 0x80 + r mod 64]
      else if r < 0x10000 then [0xE0 + r div 4096, 0x80 + r div 64 mod 64, 0x80 + r mod 64]
      else [0xF0 + r div 262144, 0x80 + r div 4096 mod 64, 0x80 + r div 64 mod 64, 0x80 + r mod 64])"

definition encode_rune :: "nat \<Rightarrow> string" where
  "encode_rune r = map char_of (encode_bytes r)"

definition encode_runes :: "nat list \<Rightarrow> string" where
  "encode_runes rs = concat (map encode_rune rs)"

definition valid_rune :: "nat \<Rightarrow> bool" where
  "valid_rune r \<longleftrightarrow> r < 0x110000 \<and> \<not> (0xD800 \<le> r \<and> r < 0xE000)"

lemma decode_width: "s \<noteq> [] \<Longrightarrow> 0 < snd (decode_rune s)"
  by (cases s) (simp_all add: decode_rune_def)

function decode_runes :: "string \<Rightarrow> (nat \<times> nat) list" where
  "decode_runes s = (if s = [] then [] else decode_rune s # decode_runes (drop (snd (decode_rune s)) s))"
  by pat_completeness auto
termination
  by (relation "measure length") (auto simp: decode_width)

declare decode_runes.simps [simp del]

text \<open>\<open>utf8.ValidString\<close>, and \<open>unicode.IsControl\<close> of a rune.\<close>

definition valid_string :: "string \<Rightarrow> bool" where
  "valid_string s \<longleftrightarrow> list_all (\<lambda>d. d \<noteq> (RuneError, 1)) (decode_runes s)"

definition control_rune :: "nat \<Rightarrow> bool" where
  "control_rune r \<longleftrightarrow> r < 32 \<or> (127 \<le> r \<and> r < 160)"

definition some_control :: "string \<Rightarrow> bool" where
  "some_control s \<longleftrightarrow> list_ex (\<lambda>d. control_rune (fst d)) (decode_runes s)"

section \<open>Decoding an encoding\<close>

lemma decode_bytes_encode:
  assumes "valid_rune r"
  shows "decode_bytes (encode_bytes r @ bs) = (r, length (encode_bytes r))"
proof -
  consider "r < 0x80" | "0x80 \<le> r" "r < 0x800" | "0x800 \<le> r" "r < 0x10000" | "0x10000 \<le> r" by linarith
  thus ?thesis
  proof cases
    case 1
    thus ?thesis by (simp add: encode_bytes_def)
  next
    case 2
    define a c where "a = r div 64" and "c = r mod 64"
    have r: "r = 64 * a + c" "c < 64" by (simp_all add: a_def c_def)
    have "2 \<le> a" "a < 32" using 2 r by linarith+
    thus ?thesis using 2 r(2) unfolding encode_bytes_def a_def[symmetric] c_def[symmetric] by (simp add: cont_byte_def) (simp add: r(1))
  next
    case 3
    define a b c where "a = r div 4096" and "b = r div 64 mod 64" and "c = r mod 64"
    have bc: "b < 64" "c < 64" by (simp_all add: b_def c_def)
    have "r div 64 = 64 * a + b" by (simp add: a_def b_def div_mult2_eq[of r 64 64, simplified])
    hence r: "r = 4096 * a + 64 * b + c" using div_mult_mod_eq[of r 64] by (simp add: c_def)
    have a: "a < 16" using 3 r by linarith
    have lead: "a = 0 \<longrightarrow> 32 \<le> b" using 3 r bc by linarith
    have surr: "a = 13 \<longrightarrow> b < 32" using assms 3 r bc unfolding valid_rune_def by linarith
    have "second_ok (224 + a) (128 + b)" using a bc lead surr by (auto simp: second_ok_def cont_byte_def)
    thus ?thesis using 3 bc a unfolding encode_bytes_def a_def[symmetric] b_def[symmetric] c_def[symmetric]
      by (simp add: cont_byte_def) (simp add: r)
  next
    case 4
    define a b c d where "a = r div 262144" and "b = r div 4096 mod 64" and "c = r div 64 mod 64" and "d = r mod 64"
    have bcd: "b < 64" "c < 64" "d < 64" by (simp_all add: b_def c_def d_def)
    have "r div 4096 = 64 * a + b" by (simp add: a_def b_def div_mult2_eq[of r 4096 64, simplified])
    moreover have "r div 64 = 64 * (r div 4096) + c" by (simp add: c_def div_mult2_eq[of r 64 64, simplified])
    ultimately have r: "r = 262144 * a + 4096 * b + 64 * c + d" using div_mult_mod_eq[of r 64] by (simp add: d_def)
    have a: "a < 5" using assms r unfolding valid_rune_def by linarith
    have lead: "a = 0 \<longrightarrow> 16 \<le> b" using 4 r bcd by linarith
    have top: "a = 4 \<longrightarrow> b < 16" using assms r unfolding valid_rune_def by linarith
    have "second_ok (240 + a) (128 + b)" using a bcd lead top by (auto simp: second_ok_def cont_byte_def)
    thus ?thesis using 4 bcd a unfolding encode_bytes_def a_def[symmetric] b_def[symmetric] c_def[symmetric] d_def[symmetric]
      by (simp add: cont_byte_def) (simp add: r)
  qed
qed

lemma encode_bytes_small: "valid_rune r \<Longrightarrow> b \<in> set (encode_bytes r) \<Longrightarrow> b < 256"
  by (auto simp: encode_bytes_def valid_rune_def split: if_splits)

lemma length_encode_bytes: "1 \<le> length (encode_bytes r)" "length (encode_bytes r) \<le> 4"
  by (simp_all add: encode_bytes_def)

lemma decode_encode:
  assumes "valid_rune r"
  shows "decode_rune (encode_rune r @ s) = (r, length (encode_rune r))"
proof -
  let ?n = "4 - length (encode_bytes r)"
  have "map (of_char \<circ> char_of) (encode_bytes r) = encode_bytes r"
    using encode_bytes_small[OF assms] by (intro map_idI) simp
  hence "map of_char (take 4 (encode_rune r @ s)) = encode_bytes r @ map of_char (take ?n s)"
    using length_encode_bytes[of r] by (simp add: encode_rune_def)
  thus ?thesis using decode_bytes_encode[OF assms] by (simp add: decode_rune_def encode_rune_def)
qed

lemma decode_encode_runes:
  "list_all valid_rune rs \<Longrightarrow> map fst (decode_runes (encode_runes rs)) = rs
     \<and> list_all2 (\<lambda>d r. d = (r, length (encode_rune r))) (decode_runes (encode_runes rs)) rs"
proof (induction rs)
  case Nil
  thus ?case by (simp add: encode_runes_def decode_runes.simps)
next
  case (Cons r rs)
  have ne: "encode_runes (r # rs) \<noteq> []" using length_encode_bytes[of r] by (auto simp: encode_runes_def encode_rune_def)
  have "decode_rune (encode_runes (r # rs)) = (r, length (encode_rune r))"
    using Cons.prems decode_encode by (simp add: encode_runes_def)
  hence "decode_runes (encode_runes (r # rs)) = (r, length (encode_rune r)) # decode_runes (encode_runes rs)"
    using ne by (subst decode_runes.simps) (simp add: encode_runes_def)
  thus ?case using Cons by simp
qed

lemma encode_runes_valid:
  assumes "list_all valid_rune rs"
  shows "valid_string (encode_runes rs)"
proof -
  have three: "length (encode_rune RuneError) = 3" by (simp add: encode_rune_def encode_bytes_def)
  have "d \<noteq> (RuneError, 1)" if d: "d \<in> set (decode_runes (encode_runes rs))" for d
  proof -
    obtain i where i: "i < length (decode_runes (encode_runes rs))" "d = decode_runes (encode_runes rs) ! i"
      using d by (metis in_set_conv_nth)
    have "d = (rs ! i, length (encode_rune (rs ! i)))"
      using decode_encode_runes[OF assms] i by (simp add: list_all2_conv_all_nth)
    thus ?thesis using three by auto
  qed
  thus ?thesis by (simp add: valid_string_def list_all_iff)
qed

lemma encode_runes_control:
  assumes "list_all valid_rune rs"
  shows "some_control (encode_runes rs) = list_ex control_rune rs"
proof -
  have "list_ex (\<lambda>d. control_rune (fst d)) ds = list_ex control_rune (map fst ds)" for ds :: "(nat \<times> nat) list"
    by (induction ds) simp_all
  thus ?thesis using decode_encode_runes[OF assms] by (simp add: some_control_def)
qed

end
