(* ===== verification/Probe_Report.thy ===== *)
theory Probe_Report
  imports Go_Utf8
begin

text \<open>
  Package \<open>pkg/probe\<close>, files \<open>host.go\<close> and \<open>nvidia.go\<close>: the report on the host and its NVIDIA devices, how it is
  collected from an untrusted hardware library, and the validation of a report.

  The hardware library is a parameter: each call may return an error or panic (\<open>None\<close>).  A time is given by whether it is
  the zero time.
\<close>

abbreviation (input) MaxLogicalCPUs :: int where "MaxLogicalCPUs \<equiv> 4096"
abbreviation (input) DefaultMaxGPUDevices :: int where "DefaultMaxGPUDevices \<equiv> 16"
abbreviation (input) maxDeviceNameBytes :: nat where "maxDeviceNameBytes \<equiv> 96"
abbreviation (input) maxDriverBytes :: nat where "maxDriverBytes \<equiv> 64"
abbreviation (input) maxTemperatureC :: u32 where "maxTemperatureC \<equiv> 150"
abbreviation (input) maxHostOSBytes :: nat where "maxHostOSBytes \<equiv> 32"
abbreviation (input) maxArchitectureBytes :: nat where "maxArchitectureBytes \<equiv> 32"

datatype EvidenceLevel = EvidenceDeclared | EvidenceLocallyObserved | EvidenceBenchmarked | EvidenceOther string

record Host =
  ho_OS :: string
  ho_Architecture :: string
  ho_LogicalCPUs :: int
  ho_MemoryBytes :: u64
  ho_CollectedAt_zero :: bool
  ho_Evidence :: EvidenceLevel

record NVIDIADevice =
  nd_Index :: int
  nd_Class :: string
  nd_VRAMBytes :: u64
  nd_VRAMUsedBytes :: u64
  nd_CUDAComputeMajor :: int
  nd_CUDAComputeMinor :: int
  nd_TemperatureC :: "u32 option"
  nd_PowerMilliwatts :: "u32 option"
  nd_PowerLimitMilliwatts :: "u32 option"
  nd_PowerState :: string

record NVIDIAReport =
  nv_Status :: string
  nv_DriverVersion :: string
  nv_Devices :: "NVIDIADevice list"
  nv_CollectedAt_zero :: bool
  nv_Evidence :: EvidenceLevel

record Report =
  rp_Host :: Host
  rp_NVIDIA :: NVIDIAReport

text \<open>The interfaces \<open>NVIDIADeviceBackend\<close> and \<open>NVIDIABackend\<close>.\<close>

record NVIDIADeviceBackend =
  db_Name :: "string result option"
  db_Memory :: "(u64 \<times> u64) result option"
  db_ComputeCapability :: "(int \<times> int) result option"
  db_TemperatureC :: "u32 result option"
  db_PowerMilliwatts :: "(u32 \<times> u32) result option"

record NVIDIABackend =
  nb_Init :: "unit result option"
  nb_Shutdown :: "unit result option"
  nb_DriverVersion :: "string result option"
  nb_DeviceCount :: "int result option"
  nb_Device :: "int \<Rightarrow> NVIDIADeviceBackend result option"

section \<open>Collecting\<close>

text \<open>\<open>strings.Map\<close> without control characters re-encodes the runes that are left; the loop then drops the last rune
  until the text fits.\<close>

function shrink_runes :: "nat \<Rightarrow> nat list \<Rightarrow> nat list" where
  "shrink_runes maximum rs = (if rs \<noteq> [] \<and> length (encode_runes rs) > maximum then shrink_runes maximum (butlast rs) else rs)"
  by pat_completeness auto
termination
  by (relation "measure (\<lambda>(maximum, rs). length rs)") auto

declare shrink_runes.simps [simp del]

definition boundedPrintable :: "string \<Rightarrow> nat \<Rightarrow> string" where
  "boundedPrintable v maximum =
     encode_runes (shrink_runes maximum (filter (\<lambda>r. \<not> control_rune r) (map fst (decode_runes v))))"

text \<open>The observations of one device, each with whether it degrades the report.\<close>

definition observed_class :: "string result \<Rightarrow> string \<times> bool" where
  "observed_class name = (case name of Inr n \<Rightarrow> (boundedPrintable n maxDeviceNameBytes, False) | Inl e \<Rightarrow> ([], True))"

definition observed_memory :: "(u64 \<times> u64) result \<Rightarrow> (u64 \<times> u64) \<times> bool" where
  "observed_memory memory = (case memory of Inr (size_all, used) \<Rightarrow> if size_all > 0 \<and> used \<le> size_all then ((size_all, used), False) else ((0, 0), True)
     | Inl e \<Rightarrow> ((0, 0), True))"

definition observed_capability :: "(int \<times> int) result \<Rightarrow> (int \<times> int) \<times> bool" where
  "observed_capability capability = (case capability of
       Inr (major, minor) \<Rightarrow> if major \<ge> 1 \<and> major \<le> 99 \<and> minor \<ge> 0 \<and> minor \<le> 99 then ((major, minor), False) else ((0, 0), True)
     | Inl e \<Rightarrow> ((0, 0), True))"

definition observed_temperature :: "u32 result \<Rightarrow> u32 option \<times> bool" where
  "observed_temperature temperature = (case temperature of Inr t \<Rightarrow> if t \<le> maxTemperatureC then (Some t, False) else (None, True)
     | Inl e \<Rightarrow> (None, False))"

definition observed_power :: "(u32 \<times> u32) result \<Rightarrow> ((u32 \<times> u32) option \<times> string) \<times> bool" where
  "observed_power pwr = (case pwr of
       Inr (used, limit) \<Rightarrow> if limit > 0 then ((Some (used, limit), if used > limit then ''above-limit'' else ''normal''), used > limit)
                           else ((None, ''unavailable''), False)
     | Inl e \<Rightarrow> ((None, ''unavailable''), False))"

text \<open>One device: the value and whether something degraded the report.  \<open>None\<close> is a panic.\<close>

definition collect_device :: "int \<Rightarrow> NVIDIADeviceBackend \<Rightarrow> (NVIDIADevice \<times> bool) option" where
  "collect_device index device =
     (case (db_Name device, db_Memory device, db_ComputeCapability device, db_TemperatureC device, db_PowerMilliwatts device) of
        (Some name, Some memory, Some capability, Some temperature, Some pwr) \<Rightarrow>
          let cls = observed_class name; mem = observed_memory memory; cuda = observed_capability capability;
              temp = observed_temperature temperature; pw = observed_power pwr
          in Some (\<lparr>nd_Index = index, nd_Class = fst cls, nd_VRAMBytes = fst (fst mem), nd_VRAMUsedBytes = snd (fst mem),
                    nd_CUDAComputeMajor = fst (fst cuda), nd_CUDAComputeMinor = snd (fst cuda), nd_TemperatureC = fst temp,
                    nd_PowerMilliwatts = map_option fst (fst (fst pw)), nd_PowerLimitMilliwatts = map_option snd (fst (fst pw)),
                    nd_PowerState = snd (fst pw)\<rparr>, snd cls \<or> snd mem \<or> snd cuda \<or> snd temp \<or> snd pw)
      | _ \<Rightarrow> None)"

fun collect_devices :: "(int \<Rightarrow> NVIDIADeviceBackend result option) \<Rightarrow> int list \<Rightarrow> (NVIDIADevice list \<times> bool) option" where
  "collect_devices device [] = Some ([], False)"
| "collect_devices device (index # rest) =
     (case device index of None \<Rightarrow> None
      | Some (Inl e) \<Rightarrow> map_option (\<lambda>(ds, bad). (ds, True)) (collect_devices device rest)
      | Some (Inr d) \<Rightarrow>
          (case collect_device index d of None \<Rightarrow> None
           | Some (v, bad) \<Rightarrow> map_option (\<lambda>(ds, bad'). (v # ds, bad \<or> bad')) (collect_devices device rest)))"

text \<open>What is collected between \<open>Init\<close> and the deferred \<open>Shutdown\<close>: status, driver and devices.\<close>

definition collect_body :: "NVIDIABackend \<Rightarrow> (string \<times> string \<times> NVIDIADevice list) option" where
  "collect_body backend =
     (case nb_DriverVersion backend of None \<Rightarrow> None
      | Some (Inl e) \<Rightarrow> Some (''degraded'', [], [])
      | Some (Inr d) \<Rightarrow>
          let driver = boundedPrintable d maxDriverBytes in
          (case nb_DeviceCount backend of None \<Rightarrow> None
           | Some (Inl e) \<Rightarrow> Some (''degraded'', driver, [])
           | Some (Inr n) \<Rightarrow>
               if n < 0 then Some (''degraded'', driver, [])
               else if n = 0 then Some (''no-devices'', driver, [])
               else (case collect_devices (nb_Device backend) [0..min n DefaultMaxGPUDevices - 1] of None \<Rightarrow> None
                   | Some (ds, bad) \<Rightarrow> Some (if bad \<or> n > DefaultMaxGPUDevices then ''degraded'' else ''available'', driver, ds))))"

definition nvidia_report :: "bool \<Rightarrow> string \<Rightarrow> string \<Rightarrow> NVIDIADevice list \<Rightarrow> NVIDIAReport" where
  "nvidia_report now_zero status driver devices = \<lparr>nv_Status = status, nv_DriverVersion = driver, nv_Devices = devices,
     nv_CollectedAt_zero = now_zero, nv_Evidence = EvidenceLocallyObserved\<rparr>"

definition CollectNVIDIA :: "bool \<Rightarrow> NVIDIABackend option \<Rightarrow> NVIDIAReport" where
  "CollectNVIDIA now_zero backend =
     (case backend of None \<Rightarrow> nvidia_report now_zero ''unavailable'' [] []
      | Some b \<Rightarrow>
          let panicked = nvidia_report now_zero ''degraded'' [] [] in
          (case nb_Init b of None \<Rightarrow> panicked
           | Some (Inl e) \<Rightarrow> nvidia_report now_zero ''unavailable'' [] []
           | Some (Inr _) \<Rightarrow>
               (case (collect_body b, nb_Shutdown b) of
                  (Some (status, driver, devices), Some r) \<Rightarrow> nvidia_report now_zero (if isl r then ''degraded'' else status) driver devices
                | _ \<Rightarrow> panicked)))"

text \<open>The host part, with the resources of the system and the names of the platform as arguments.\<close>

definition CollectHost :: "(u64 \<times> int) result \<Rightarrow> string \<Rightarrow> string \<Rightarrow> bool \<Rightarrow> Host result" where
  "CollectHost resources os arch now_zero =
     (case resources of Inl e \<Rightarrow> Inl e
      | Inr (memory, cpus) \<Rightarrow> Inr \<lparr>ho_OS = os, ho_Architecture = arch, ho_LogicalCPUs = (if cpus > MaxLogicalCPUs then MaxLogicalCPUs else cpus),
          ho_MemoryBytes = memory, ho_CollectedAt_zero = now_zero, ho_Evidence = EvidenceLocallyObserved\<rparr>)"

definition Collect :: "Host result \<Rightarrow> bool \<Rightarrow> NVIDIABackend option \<Rightarrow> Report result" where
  "Collect host now_zero backend =
     (case host of Inl e \<Rightarrow> Inl e | Inr h \<Rightarrow> Inr \<lparr>rp_Host = h, rp_NVIDIA = CollectNVIDIA now_zero backend\<rparr>)"

section \<open>Validating\<close>

definition validOptionalObservedString :: "string \<Rightarrow> nat \<Rightarrow> bool" where
  "validOptionalObservedString v maximum \<longleftrightarrow> length v \<le> maximum \<and> valid_string v \<and> \<not> some_control v"

definition validObservedString :: "string \<Rightarrow> nat \<Rightarrow> bool" where
  "validObservedString v maximum \<longleftrightarrow> v \<noteq> [] \<and> validOptionalObservedString v maximum"

definition validPowerObservation :: "NVIDIADevice \<Rightarrow> bool" where
  "validPowerObservation device =
     (if nd_PowerState device = ''unavailable'' then nd_PowerMilliwatts device = None \<and> nd_PowerLimitMilliwatts device = None
      else if nd_PowerState device = ''normal'' \<or> nd_PowerState device = ''above-limit'' then
        (case (nd_PowerMilliwatts device, nd_PowerLimitMilliwatts device) of
           (Some used, Some limit) \<Rightarrow> limit \<noteq> 0 \<and> (used > limit) = (nd_PowerState device = ''above-limit'')
         | _ \<Rightarrow> False)
      else False)"

definition valid_device :: "int \<Rightarrow> NVIDIADevice \<Rightarrow> bool" where
  "valid_device previous d \<longleftrightarrow> \<not> (nd_Index d \<le> previous \<or> nd_Index d < 0 \<or> nd_Index d \<ge> DefaultMaxGPUDevices
     \<or> \<not> validOptionalObservedString (nd_Class d) maxDeviceNameBytes \<or> nd_VRAMUsedBytes d > nd_VRAMBytes d
     \<or> nd_CUDAComputeMajor d < 0 \<or> nd_CUDAComputeMajor d > 99 \<or> nd_CUDAComputeMinor d < 0 \<or> nd_CUDAComputeMinor d > 99
     \<or> (case nd_TemperatureC d of None \<Rightarrow> False | Some t \<Rightarrow> t > maxTemperatureC) \<or> \<not> validPowerObservation d)"

fun valid_devices :: "int \<Rightarrow> NVIDIADevice list \<Rightarrow> bool" where
  "valid_devices previous [] = True"
| "valid_devices previous (d # ds) = (valid_device previous d \<and> valid_devices (nd_Index d) ds)"

definition valid_status :: "NVIDIAReport \<Rightarrow> bool" where
  "valid_status n =
     (if nv_Status n = ''available'' then nv_DriverVersion n \<noteq> [] \<and> nv_Devices n \<noteq> []
      else if nv_Status n = ''no-devices'' then nv_DriverVersion n \<noteq> [] \<and> nv_Devices n = []
      else if nv_Status n = ''unavailable'' then nv_DriverVersion n = [] \<and> nv_Devices n = []
      else nv_Status n = ''degraded'')"

definition ValidateReport :: "Report \<Rightarrow> unit result" where
  "ValidateReport report =
     (let h = rp_Host report; n = rp_NVIDIA report in
      if \<not> validObservedString (ho_OS h) maxHostOSBytes \<or> \<not> validObservedString (ho_Architecture h) maxArchitectureBytes
         \<or> ho_LogicalCPUs h \<le> 0 \<or> ho_LogicalCPUs h > MaxLogicalCPUs \<or> ho_MemoryBytes h = 0 \<or> ho_CollectedAt_zero h
         \<or> ho_Evidence h \<noteq> EvidenceLocallyObserved \<or> nv_CollectedAt_zero n \<or> nv_Evidence n \<noteq> EvidenceLocallyObserved
         \<or> int (length (nv_Devices n)) > DefaultMaxGPUDevices \<or> \<not> validOptionalObservedString (nv_DriverVersion n) maxDriverBytes
      then Inl (ErrMsg ''invalid resource observation'')
      else if \<not> valid_status n then Inl (ErrMsg ''invalid resource observation'')
      else if \<not> valid_devices (-1) (nv_Devices n) then Inl (ErrMsg ''invalid resource observation'')
      else Inr ())"

section \<open>Lemmas\<close>

lemma valid_rune_error: "valid_rune RuneError"
  by (simp add: valid_rune_def)

lemma decode_bytes_valid: "valid_rune (fst (decode_bytes bs))"
proof (cases bs)
  case Nil
  thus ?thesis by (simp add: valid_rune_error)
next
  case (Cons b rest)
  consider "b < 0x80" | "0xC2 \<le> b" "b \<le> 0xDF" "rest \<noteq> [] \<and> cont_byte (hd rest)"
    | "0xE0 \<le> b" "b \<le> 0xEF" "length rest \<ge> 2 \<and> second_ok b (rest ! 0) \<and> cont_byte (rest ! 1)"
    | "0xF0 \<le> b" "b \<le> 0xF4" "length rest \<ge> 3 \<and> second_ok b (rest ! 0) \<and> cont_byte (rest ! 1) \<and> cont_byte (rest ! 2)"
    | "\<not> b < 0x80 \<and> \<not> (0xC2 \<le> b \<and> b \<le> 0xDF \<and> rest \<noteq> [] \<and> cont_byte (hd rest))
        \<and> \<not> (0xE0 \<le> b \<and> b \<le> 0xEF \<and> length rest \<ge> 2 \<and> second_ok b (rest ! 0) \<and> cont_byte (rest ! 1))
        \<and> \<not> (0xF0 \<le> b \<and> b \<le> 0xF4 \<and> length rest \<ge> 3 \<and> second_ok b (rest ! 0) \<and> cont_byte (rest ! 1) \<and> cont_byte (rest ! 2))"
    by blast
  thus ?thesis
  proof cases
    case 3
    define x y where "x = rest ! 0" and "y = rest ! 1"
    have xy: "second_ok b x" "128 \<le> y" "y \<le> 191" using 3(3) by (simp_all add: x_def y_def cont_byte_def)
    have "128 \<le> x" "x \<le> 191" "b = 0xED \<longrightarrow> x \<le> 0x9F" using xy(1) 3(1,2) by (auto simp: second_ok_def cont_byte_def split: if_splits)
    moreover have "decode_bytes bs = ((b - 0xE0) * 4096 + (x - 0x80) * 64 + (y - 0x80), 3)"
      using 3 unfolding Cons x_def y_def by simp
    ultimately show ?thesis using xy(2,3) 3(1,2)
      by (cases "b = 0xED") (auto simp: valid_rune_def not_le not_less)
  next
    case 4
    define x y z where "x = rest ! 0" and "y = rest ! 1" and "z = rest ! 2"
    have xyz: "second_ok b x" "128 \<le> y" "y \<le> 191" "128 \<le> z" "z \<le> 191" using 4(3) by (simp_all add: x_def y_def z_def cont_byte_def)
    have "128 \<le> x" "x \<le> 191" "b = 0xF0 \<longrightarrow> 0x90 \<le> x" "b = 0xF4 \<longrightarrow> x \<le> 0x8F"
      using xyz(1) 4(1,2) by (auto simp: second_ok_def cont_byte_def split: if_splits)
    moreover have "decode_bytes bs = ((b - 0xF0) * 262144 + (x - 0x80) * 4096 + (y - 0x80) * 64 + (z - 0x80), 4)"
      using 4 unfolding Cons x_def y_def z_def by simp
    ultimately show ?thesis using xyz(2-5) 4(1,2)
      by (cases "b = 0xF0"; cases "b = 0xF4") (auto simp: valid_rune_def not_le not_less)
  next
    case 5
    hence "decode_bytes bs = (RuneError, 1)" unfolding Cons decode_bytes.simps by (simp only: if_False)
    thus ?thesis by (simp add: valid_rune_error)
  qed (auto simp: Cons valid_rune_def cont_byte_def)
qed

lemma decode_runes_valid: "list_all valid_rune (map fst (decode_runes s))"
proof (induction s rule: decode_runes.induct)
  case (1 s)
  show ?case
  proof (cases "s = []")
    case False
    thus ?thesis using 1 decode_bytes_valid by (subst decode_runes.simps) (simp add: decode_rune_def)
  qed (simp add: decode_runes.simps)
qed

lemma shrink_runes_spec: "set (shrink_runes maximum rs) \<subseteq> set rs \<and> length (encode_runes (shrink_runes maximum rs)) \<le> maximum"
proof (induction maximum rs rule: shrink_runes.induct)
  case (1 maximum rs)
  show ?case
  proof (cases "rs \<noteq> [] \<and> length (encode_runes rs) > maximum")
    case True
    thus ?thesis using 1[OF True] by (subst (1 2) shrink_runes.simps) (auto dest: in_set_butlastD)
  next
    case False
    hence "length (encode_runes rs) \<le> maximum" by (auto simp: encode_runes_def)
    thus ?thesis using False by (subst (1 2) shrink_runes.simps) simp
  qed
qed

text \<open>What \<open>boundedPrintable\<close> returns is acceptable to the validation.\<close>

lemma boundedPrintable_valid: "validOptionalObservedString (boundedPrintable v maximum) maximum"
proof -
  let ?rs = "filter (\<lambda>r. \<not> control_rune r) (map fst (decode_runes v))"
  have sub: "set (shrink_runes maximum ?rs) \<subseteq> set ?rs" "length (encode_runes (shrink_runes maximum ?rs)) \<le> maximum"
    using shrink_runes_spec by blast+
  hence valid: "list_all valid_rune (shrink_runes maximum ?rs)" using decode_runes_valid[of v] by (auto simp: list_all_iff)
  have "\<not> list_ex control_rune (shrink_runes maximum ?rs)" using sub(1) by (auto simp: list_ex_iff)
  thus ?thesis using sub(2) encode_runes_valid[OF valid] encode_runes_control[OF valid]
    by (simp add: validOptionalObservedString_def boundedPrintable_def)
qed

lemma empty_valid: "validOptionalObservedString [] maximum"
  by (simp add: validOptionalObservedString_def valid_string_def some_control_def decode_runes.simps)

lemma collect_device_valid:
  assumes "collect_device i d = Some (v, bad)" and "0 \<le> i" and "i < DefaultMaxGPUDevices" and "previous < i"
  shows "valid_device previous v" and "nd_Index v = i"
proof -
  obtain name memory capability temperature pwr where d: "db_Name d = Some name" "db_Memory d = Some memory"
      "db_ComputeCapability d = Some capability" "db_TemperatureC d = Some temperature" "db_PowerMilliwatts d = Some pwr"
    using assms(1) unfolding collect_device_def by (auto split: option.splits)
  have v: "v = \<lparr>nd_Index = i, nd_Class = fst (observed_class name),
      nd_VRAMBytes = fst (fst (observed_memory memory)), nd_VRAMUsedBytes = snd (fst (observed_memory memory)),
      nd_CUDAComputeMajor = fst (fst (observed_capability capability)), nd_CUDAComputeMinor = snd (fst (observed_capability capability)),
      nd_TemperatureC = fst (observed_temperature temperature), nd_PowerMilliwatts = map_option fst (fst (fst (observed_power pwr))),
      nd_PowerLimitMilliwatts = map_option snd (fst (fst (observed_power pwr))), nd_PowerState = snd (fst (observed_power pwr))\<rparr>"
    using assms(1) by (simp add: collect_device_def Let_def d)
  show i: "nd_Index v = i" by (simp add: v)
  have "validOptionalObservedString (nd_Class v) maxDeviceNameBytes"
    by (simp add: v observed_class_def boundedPrintable_valid empty_valid split: sum.splits)
  moreover have "\<not> nd_VRAMUsedBytes v > nd_VRAMBytes v" by (auto simp: v observed_memory_def not_less split: sum.splits)
  moreover have "0 \<le> nd_CUDAComputeMajor v" "nd_CUDAComputeMajor v \<le> 99" "0 \<le> nd_CUDAComputeMinor v" "nd_CUDAComputeMinor v \<le> 99"
    by (auto simp: v observed_capability_def split: sum.splits)
  moreover have "\<not> (case nd_TemperatureC v of None \<Rightarrow> False | Some t \<Rightarrow> t > maxTemperatureC)"
    by (auto simp: v observed_temperature_def not_less split: sum.splits)
  moreover have "validPowerObservation v"
    by (auto simp: v observed_power_def validPowerObservation_def split: sum.splits)
  ultimately show "valid_device previous v" unfolding valid_device_def using i assms(2-4) by simp
qed

lemma collect_devices_valid:
  "collect_devices f is = Some (ds, bad) \<Longrightarrow> sorted_wrt (<) is \<Longrightarrow> \<forall>i \<in> set is. previous < i \<and> 0 \<le> i \<and> i < DefaultMaxGPUDevices \<Longrightarrow>
     valid_devices previous ds \<and> length ds \<le> length is \<and> (\<not> bad \<longrightarrow> length ds = length is)"
proof (induction "is" arbitrary: previous ds bad)
  case (Cons i rest)
  show ?case
  proof (cases "f i")
    case (Some r)
    show ?thesis
    proof (cases r)
      case (Inl e)
      then obtain bad' where "collect_devices f rest = Some (ds, bad')" "bad"
        using Cons.prems(1) Some by auto
      thus ?thesis using Cons.IH[of ds bad' previous] Cons.prems(2,3) by auto
    next
      case (Inr d)
      then obtain v b1 ds' b2 where v: "collect_device i d = Some (v, b1)" "collect_devices f rest = Some (ds', b2)" "ds = v # ds'" "bad = (b1 \<or> b2)"
        using Cons.prems(1) Some by (auto split: option.splits)
      have "\<forall>j \<in> set rest. nd_Index v < j \<and> 0 \<le> j \<and> j < DefaultMaxGPUDevices"
        using Cons.prems(2,3) collect_device_valid(2)[OF v(1)] by auto
      hence "valid_devices (nd_Index v) ds' \<and> length ds' \<le> length rest \<and> (\<not> b2 \<longrightarrow> length ds' = length rest)"
        using Cons.IH[OF v(2), of "nd_Index v"] Cons.prems(2) by simp
      thus ?thesis using v(3,4) collect_device_valid(1)[OF v(1)] Cons.prems(3) by simp
    qed
  qed (use Cons.prems(1) in simp)
qed simp

lemma sorted_upto: "sorted_wrt (<) [a..b]" for a b :: int
  by (simp add: sorted_wrt_iff_nth_less)

text \<open>What a body that does not panic collects.\<close>

lemma collect_body_valid:
  assumes "collect_body b = Some (status, driver, devices)"
  shows "validOptionalObservedString driver maxDriverBytes" "valid_devices (- 1) devices" "int (length devices) \<le> DefaultMaxGPUDevices"
    "status = ''available'' \<longrightarrow> devices \<noteq> []" "status = ''no-devices'' \<longrightarrow> devices = []"
    "status = ''available'' \<or> status = ''no-devices'' \<or> status = ''degraded''"
proof -
  obtain r where r: "nb_DriverVersion b = Some r" using assms by (cases "nb_DriverVersion b") (simp_all add: collect_body_def)
  have "validOptionalObservedString driver maxDriverBytes \<and> valid_devices (- 1) devices \<and> int (length devices) \<le> DefaultMaxGPUDevices
    \<and> (status = ''available'' \<longrightarrow> devices \<noteq> []) \<and> (status = ''no-devices'' \<longrightarrow> devices = [])
    \<and> (status = ''available'' \<or> status = ''no-devices'' \<or> status = ''degraded'')"
  proof (cases r)
    case (Inl e)
    thus ?thesis using assms r empty_valid by (auto simp: collect_body_def)
  next
    case (Inr d)
    obtain c where c: "nb_DeviceCount b = Some c" using assms r Inr by (cases "nb_DeviceCount b") (simp_all add: collect_body_def Let_def)
    show ?thesis
    proof (cases "\<exists>n. c = Inr n \<and> 0 < n")
      case False
      thus ?thesis using assms r Inr c boundedPrintable_valid by (auto simp: collect_body_def Let_def split: sum.splits if_splits)
    next
      case True
      then obtain n where n: "c = Inr n" "0 < n" by blast
      define idx where "idx = [0..min n DefaultMaxGPUDevices - 1]"
      obtain ds bad where ds: "collect_devices (nb_Device b) idx = Some (ds, bad)" "devices = ds" "driver = boundedPrintable d maxDriverBytes"
          "status = (if bad \<or> n > DefaultMaxGPUDevices then ''degraded'' else ''available'')"
        using assms r Inr c n unfolding collect_body_def Let_def idx_def
        by (cases "collect_devices (nb_Device b) [0..min n DefaultMaxGPUDevices - 1]") auto
      have "sorted_wrt (<) idx" unfolding idx_def by (rule sorted_upto)
      moreover have "\<forall>i \<in> set idx. - 1 < i \<and> 0 \<le> i \<and> i < DefaultMaxGPUDevices" by (auto simp: idx_def)
      ultimately have v: "valid_devices (- 1) ds" "length ds \<le> length idx" "\<not> bad \<longrightarrow> length ds = length idx"
        using collect_devices_valid[OF ds(1)] by blast+
      have len: "int (length idx) = min n DefaultMaxGPUDevices" using n(2) by (simp add: idx_def)
      hence "int (length ds) \<le> DefaultMaxGPUDevices" "\<not> bad \<longrightarrow> ds \<noteq> []" using v(2,3) n(2) by auto
      thus ?thesis using ds v boundedPrintable_valid by (auto split: if_splits)
    qed
  qed
  thus "validOptionalObservedString driver maxDriverBytes" "valid_devices (- 1) devices" "int (length devices) \<le> DefaultMaxGPUDevices"
    "status = ''available'' \<longrightarrow> devices \<noteq> []" "status = ''no-devices'' \<longrightarrow> devices = []"
    "status = ''available'' \<or> status = ''no-devices'' \<or> status = ''degraded''" by blast+
qed

section \<open>Properties\<close>

text \<open>C38. What is collected passes the validation, except for one case.  On a host whose own part is sound, the report collected from any
  hardware library, whatever it returns and wherever it panics, is accepted exactly when it does not claim usable hardware
  (status \<open>available\<close> or \<open>no-devices\<close>) under an empty driver version, which a library can cause with a version without printable characters.\<close>

theorem collected_report_accepted:
  assumes "CollectHost (Inr (memory, cpus)) os arch False = Inr host" and "memory \<noteq> 0" and "0 < cpus"
    and "validObservedString os maxHostOSBytes" and "validObservedString arch maxArchitectureBytes"
    and "Collect (Inr host) False backend = Inr report"
  shows "ValidateReport report = Inr () \<longleftrightarrow>
     \<not> ((nv_Status (rp_NVIDIA report) = ''available'' \<or> nv_Status (rp_NVIDIA report) = ''no-devices'') \<and> nv_DriverVersion (rp_NVIDIA report) = [])"
proof -
  define n where "n = rp_NVIDIA report"
  have rep: "rp_Host report = host" "n = CollectNVIDIA False backend" using assms(6) by (auto simp: Collect_def n_def)
  have host: "ho_OS host = os" "ho_Architecture host = arch" "0 < ho_LogicalCPUs host" "ho_LogicalCPUs host \<le> MaxLogicalCPUs"
    "ho_MemoryBytes host \<noteq> 0" "\<not> ho_CollectedAt_zero host" "ho_Evidence host = EvidenceLocallyObserved"
    using assms(1-3) by (auto simp: CollectHost_def)
  have shape: "nv_Evidence n = EvidenceLocallyObserved \<and> \<not> nv_CollectedAt_zero n \<and> validOptionalObservedString (nv_DriverVersion n) maxDriverBytes
    \<and> valid_devices (- 1) (nv_Devices n) \<and> int (length (nv_Devices n)) \<le> DefaultMaxGPUDevices
    \<and> (nv_Status n = ''available'' \<longrightarrow> nv_Devices n \<noteq> []) \<and> (nv_Status n = ''no-devices'' \<longrightarrow> nv_Devices n = [])
    \<and> (nv_Status n = ''unavailable'' \<longrightarrow> nv_Devices n = [] \<and> nv_DriverVersion n = [])
    \<and> (nv_Status n = ''available'' \<or> nv_Status n = ''no-devices'' \<or> nv_Status n = ''degraded'' \<or> nv_Status n = ''unavailable'')"
  proof (cases "\<exists>b status driver devices r. backend = Some b \<and> nb_Init b = Some (Inr ()) \<and> collect_body b = Some (status, driver, devices) \<and> nb_Shutdown b = Some r")
    case True
    then obtain b status driver devices r where b: "backend = Some b" "nb_Init b = Some (Inr ())"
      "collect_body b = Some (status, driver, devices)" "nb_Shutdown b = Some r" by blast
    hence "n = nvidia_report False (if isl r then ''degraded'' else status) driver devices" by (simp add: rep(2) CollectNVIDIA_def)
    moreover have "status \<noteq> ''unavailable''" using collect_body_valid(6)[OF b(3)] by auto
    ultimately show ?thesis using collect_body_valid[OF b(3)] by (simp add: nvidia_report_def)
  next
    case False
    hence "n = nvidia_report False ''unavailable'' [] [] \<or> n = nvidia_report False ''degraded'' [] []"
      unfolding rep(2) CollectNVIDIA_def Let_def by (auto split: option.splits sum.splits)
    thus ?thesis using empty_valid by (auto simp: nvidia_report_def)
  qed
  have "ValidateReport report = Inr () \<longleftrightarrow> valid_status n"
    using host assms(4,5) shape by (simp add: ValidateReport_def Let_def rep(1) n_def[symmetric])
  also have "valid_status n \<longleftrightarrow> \<not> ((nv_Status n = ''available'' \<or> nv_Status n = ''no-devices'') \<and> nv_DriverVersion n = [])"
    using shape by (auto simp: valid_status_def)
  finally show ?thesis by (simp add: n_def)
qed

subsection \<open>A driver without a name\<close>

definition demo_nvidia :: "string \<Rightarrow> NVIDIABackend" where
  "demo_nvidia driver = \<lparr>nb_Init = Some (Inr ()), nb_Shutdown = Some (Inr ()), nb_DriverVersion = Some (Inr driver),
     nb_DeviceCount = Some (Inr 0), nb_Device = (\<lambda>_. None)\<rparr>"

definition demo_host :: Host where
  "demo_host = \<lparr>ho_OS = ''linux'', ho_Architecture = ''amd64'', ho_LogicalCPUs = 8, ho_MemoryBytes = 65536, ho_CollectedAt_zero = False,
     ho_Evidence = EvidenceLocallyObserved\<rparr>"

theorem collected_report_accepted_witness:
  "\<exists>report. Collect (Inr demo_host) False (Some (demo_nvidia [CHR 0x07])) = Inr report \<and> isl (ValidateReport report)"
proof -
  have host: "CollectHost (Inr (65536, 8)) ''linux'' ''amd64'' False = Inr demo_host" by (simp add: CollectHost_def demo_host_def)
  have names: "validObservedString ''linux'' maxHostOSBytes" "validObservedString ''amd64'' maxArchitectureBytes"
    by (simp_all add: validObservedString_def validOptionalObservedString_def valid_string_def some_control_def decode_runes.simps decode_rune_def
        control_rune_def)
  have "boundedPrintable [CHR 0x07] maxDriverBytes = []"
    by (simp add: boundedPrintable_def decode_runes.simps decode_rune_def control_rune_def shrink_runes.simps encode_runes_def)
  hence n: "CollectNVIDIA False (Some (demo_nvidia [CHR 0x07])) = nvidia_report False ''no-devices'' [] []"
    by (simp add: CollectNVIDIA_def collect_body_def demo_nvidia_def)
  obtain report where r: "Collect (Inr demo_host) False (Some (demo_nvidia [CHR 0x07])) = Inr report"
    by (simp add: Collect_def)
  have "rp_NVIDIA report = nvidia_report False ''no-devices'' [] []" using r n by (auto simp: Collect_def)
  hence "ValidateReport report \<noteq> Inr ()"
    using collected_report_accepted[OF host _ _ names r] by (simp add: nvidia_report_def)
  thus ?thesis using r by (cases "ValidateReport report") auto
qed

end
