(* ===== verification/Resource_Guard.thy ===== *)
theory Resource_Guard
  imports Probe_Report
begin

text \<open>
  Package \<open>internal/resourceguard\<close>: the monitor that keeps sampling the host after startup and withdraws readiness when the
  resources of the startup policy are no longer observed.

  The sampler is a parameter: each tick of the timer yields what it returned, or a panic (\<open>None\<close>).  The loop of the
  monitor may run for ever; it is a partial function over the sequence of what its \<open>select\<close> statement meets.
\<close>

abbreviation (input) MinInterval :: duration where "MinInterval \<equiv> time_second"
abbreviation (input) MaxIntervalHard :: duration where "MaxIntervalHard \<equiv> 5 * time_minute"
abbreviation (input) MinTimeout :: duration where "MinTimeout \<equiv> 100 * time_millisecond"
abbreviation (input) MaxTimeoutHard :: duration where "MaxTimeoutHard \<equiv> 30 * time_second"
abbreviation (input) MaxThresholdHard :: int where "MaxThresholdHard \<equiv> 10"
abbreviation (input) MinimumObservedRAM :: u64 where "MinimumObservedRAM \<equiv> 67108864"

record GuardConfig =
  rg_Interval :: duration
  rg_Timeout :: duration
  rg_FailureThreshold :: int
  rg_RecoveryThreshold :: int
  rg_RequiredRAMBytes :: u64
  rg_RequiredVRAMBytes :: u64
  rg_Initial :: Report
  rg_Sample_nil :: bool

record ResourceHealth =
  rh_Ready :: bool
  rh_Status :: string
  rh_GPU :: string

record Guard =
  gd_config :: GuardConfig
  gd_health :: ResourceHealth
  gd_failures :: int
  gd_recoveries :: int

definition validGPUStatus :: "string \<Rightarrow> bool" where
  "validGPUStatus status \<longleftrightarrow> status \<in> set [''available'', ''degraded'', ''unavailable'', ''no-devices'', ''unknown'']"

fun sum_vram :: "u64 \<Rightarrow> NVIDIADevice list \<Rightarrow> u64 option" where
  "sum_vram acc [] = Some acc"
| "sum_vram acc (d # ds) =
     (if nd_VRAMBytes d = 0 \<or> nd_VRAMUsedBytes d > nd_VRAMBytes d \<or> (- 1) - acc < nd_VRAMBytes d then None
      else sum_vram (acc + nd_VRAMBytes d) ds)"

definition evaluate :: "Report \<Rightarrow> u64 \<Rightarrow> u64 \<Rightarrow> ResourceHealth \<times> unit result" where
  "evaluate report requiredRAM requiredVRAM =
     (let n = rp_NVIDIA report; mem = ho_MemoryBytes (rp_Host report);
          health = \<lparr>rh_Ready = True, rh_Status = ''ready'', rh_GPU = (if validGPUStatus (nv_Status n) then nv_Status n else ''unknown'')\<rparr>
      in (health,
          if mem < MinimumObservedRAM then Inl (ErrMsg ''observed host memory is unavailable'')
          else if requiredRAM > mem - mem div 4 then Inl (ErrMsg ''observed host memory is below policy'')
          else if requiredVRAM = 0 then Inr ()
          else if nv_Status n \<noteq> ''available'' \<or> nv_DriverVersion n = [] \<or> length (nv_Devices n) = 0
          then Inl (ErrMsg ''required NVIDIA resources are unavailable'')
          else case sum_vram 0 (nv_Devices n) of None \<Rightarrow> Inl (ErrMsg ''observed NVIDIA memory is invalid'')
          | Some vram \<Rightarrow> if requiredVRAM > vram then Inl (ErrMsg ''observed NVIDIA memory is below policy'') else Inr ()))"

definition guard_New :: "GuardConfig \<Rightarrow> Guard result" where
  "guard_New c =
     (if rg_Interval c < MinInterval \<or> rg_Interval c > MaxIntervalHard \<or> rg_Timeout c < MinTimeout \<or> rg_Timeout c > MaxTimeoutHard
         \<or> rg_Timeout c > rg_Interval c \<or> rg_FailureThreshold c \<le> 0 \<or> rg_FailureThreshold c > MaxThresholdHard
         \<or> rg_RecoveryThreshold c \<le> 0 \<or> rg_RecoveryThreshold c > MaxThresholdHard \<or> rg_RequiredRAMBytes c = 0 \<or> rg_Sample_nil c
      then Inl (ErrMsg ''invalid resource monitor configuration'')
      else case evaluate (rg_Initial c) (rg_RequiredRAMBytes c) (rg_RequiredVRAMBytes c) of
        (health, Inl e) \<Rightarrow> Inl (ErrMsg ''initial resource observation is unsafe'')
      | (health, Inr _) \<Rightarrow> Inr \<lparr>gd_config = c, gd_health = health, gd_failures = 0, gd_recoveries = 0\<rparr>)"

definition guard_Health :: "Guard option \<Rightarrow> ResourceHealth" where
  "guard_Health g = (case g of None \<Rightarrow> \<lparr>rh_Ready = False, rh_Status = ''degraded'', rh_GPU = ''unknown''\<rparr> | Some g \<Rightarrow> gd_health g)"

text \<open>A sample is a report with the error of the sampler; a panic gives the empty report and an error.\<close>

definition empty_report :: Report where
  "empty_report = \<lparr>rp_Host = \<lparr>ho_OS = [], ho_Architecture = [], ho_LogicalCPUs = 0, ho_MemoryBytes = 0, ho_CollectedAt_zero = True,
       ho_Evidence = EvidenceOther []\<rparr>,
     rp_NVIDIA = \<lparr>nv_Status = [], nv_DriverVersion = [], nv_Devices = [], nv_CollectedAt_zero = True, nv_Evidence = EvidenceOther []\<rparr>\<rparr>"

type_synonym sample = "Report \<times> unit result"

definition safeSample :: "sample option \<Rightarrow> sample" where
  "safeSample s = (case s of None \<Rightarrow> (empty_report, Inl (ErrMsg ''resource sampler failed'')) | Some r \<Rightarrow> r)"

definition good_sample :: "GuardConfig \<Rightarrow> sample \<Rightarrow> bool" where
  "good_sample c s \<longleftrightarrow> snd s = Inr () \<and> snd (evaluate (fst s) (rg_RequiredRAMBytes c) (rg_RequiredVRAMBytes c)) = Inr ()"

definition guard_record :: "sample \<Rightarrow> Guard \<Rightarrow> Guard" where
  "guard_record s g =
     (let c = gd_config g; next' = fst (evaluate (fst s) (rg_RequiredRAMBytes c) (rg_RequiredVRAMBytes c)) in
      if good_sample c s then
        let g1 = g\<lparr>gd_failures := 0, gd_health := (gd_health g)\<lparr>rh_GPU := rh_GPU next'\<rparr>\<rparr> in
        if rh_Ready (gd_health g1) then g1\<lparr>gd_recoveries := 0\<rparr>
        else let n = gd_recoveries g + 1 in
          if n \<ge> rg_RecoveryThreshold c then g1\<lparr>gd_health := next', gd_recoveries := 0\<rparr> else g1\<lparr>gd_recoveries := n\<rparr>
      else
        let n = gd_failures g + 1;
            status = nv_Status (rp_NVIDIA (fst s));
            health = (if validGPUStatus status then (gd_health g)\<lparr>rh_GPU := status\<rparr> else gd_health g);
            g1 = g\<lparr>gd_recoveries := 0, gd_failures := n, gd_health := health\<rparr>
        in if n \<ge> rg_FailureThreshold c
           then g1\<lparr>gd_health := health\<lparr>rh_Ready := False, rh_Status := ''degraded''\<rparr>, gd_failures := rg_FailureThreshold c\<rparr>
           else g1)"

text \<open>What the \<open>select\<close> of \<open>run\<close> meets in each round.\<close>

datatype run_event = Cancelled | Tick "sample option"

partial_function (option) guard_run :: "(nat \<Rightarrow> run_event) \<Rightarrow> nat \<Rightarrow> Guard \<Rightarrow> Guard option" where
  "guard_run events i g = (case events i of Cancelled \<Rightarrow> Some g | Tick s \<Rightarrow> guard_run events (Suc i) (guard_record (safeSample s) g))"

text \<open>\<open>Shutdown\<close> cancels the loop once and waits: \<open>run_done\<close> says which of the two channels of its \<open>select\<close> was taken.\<close>

definition guard_Shutdown :: "Guard option \<Rightarrow> bool \<Rightarrow> bool \<Rightarrow> unit result" where
  "guard_Shutdown g ctx_nil run_done =
     (if g = None then Inr ()
      else if ctx_nil then Inl (ErrMsg ''resource monitor shutdown incomplete'')
      else if run_done then Inr () else Inl ErrContext)"

section \<open>The loop\<close>

declare guard_run.simps [code]

definition sampled :: "(nat \<Rightarrow> run_event) \<Rightarrow> nat \<Rightarrow> sample" where
  "sampled events i = (case events i of Cancelled \<Rightarrow> safeSample None | Tick s \<Rightarrow> safeSample s)"

lemma guard_run_stops:
  assumes "events (i + n) = Cancelled" and "\<forall>j < n. events (i + j) \<noteq> Cancelled"
  shows "guard_run events i g = Some (foldl (\<lambda>g s. guard_record s g) g (map (sampled events) [i..<i + n]))"
  using assms
proof (induction n arbitrary: i g)
  case 0
  thus ?case by (simp add: guard_run.simps)
next
  case (Suc n)
  then obtain s where s: "events i = Tick s" by (metis add_cancel_left_right run_event.exhaust zero_less_Suc)
  have "\<forall>j < n. events (Suc i + j) \<noteq> Cancelled" using Suc.prems(2) by (metis Suc_less_eq add_Suc add_Suc_right)
  hence "guard_run events (Suc i) (guard_record (safeSample s) g)
      = Some (foldl (\<lambda>g s. guard_record s g) (guard_record (safeSample s) g) (map (sampled events) [Suc i..<Suc i + n]))"
    using Suc.IH[of "Suc i"] Suc.prems(1) by simp
  moreover have "[i..<i + Suc n] = i # [Suc i..<Suc i + n]" by (simp add: upt_conv_Cons)
  ultimately show ?case by (subst guard_run.simps) (simp add: s sampled_def)
qed

lemma guard_run_cancelled:
  assumes "guard_run events i g = Some g'"
  shows "\<exists>j \<ge> i. events j = Cancelled"
proof (rule guard_run.raw_induct[of "\<lambda>events i g r. \<exists>j \<ge> i. events j = Cancelled", OF _ assms])
  fix run events i g r
  assume IH: "\<And>events i g r. run events i g = Some r \<Longrightarrow> \<exists>j \<ge> i. events j = Cancelled"
    and step: "(case events i of Cancelled \<Rightarrow> Some g | Tick s \<Rightarrow> run events (Suc i) (guard_record (safeSample s) g)) = Some (r :: Guard)"
  show "\<exists>j \<ge> i. events j = Cancelled"
  proof (cases "events i")
    case (Tick s)
    hence "\<exists>j \<ge> Suc i. events j = Cancelled" using IH step by simp
    thus ?thesis by (meson Suc_leD)
  qed blast
qed

section \<open>Hysteresis\<close>

text \<open>The number of samples at the end of a sequence with a property.\<close>

definition trailing :: "('a \<Rightarrow> bool) \<Rightarrow> 'a list \<Rightarrow> nat" where
  "trailing P xs = length (takeWhile P (rev xs))"

lemma trailing_snoc [simp]: "trailing P (xs @ [x]) = (if P x then Suc (trailing P xs) else 0)"
  by (simp add: trailing_def)

lemma trailing_Nil [simp]: "trailing P [] = 0"
  by (simp add: trailing_def)

definition after_samples :: "Guard \<Rightarrow> sample list \<Rightarrow> Guard" where
  "after_samples g ss = foldl (\<lambda>g s. guard_record s g) g ss"

lemma after_samples_snoc [simp]: "after_samples g (ss @ [s]) = guard_record s (after_samples g ss)"
  by (simp add: after_samples_def)

lemma after_samples_Nil [simp]: "after_samples g [] = g"
  by (simp add: after_samples_def)

text \<open>The counters after a sequence of samples, in terms of the sequence.\<close>

definition guard_ok :: "Guard \<Rightarrow> sample list \<Rightarrow> bool" where
  "guard_ok g ss \<longleftrightarrow>
     (let c = gd_config g; good = good_sample c; bad = (\<lambda>s. \<not> good_sample c s) in
      gd_failures g = min (rg_FailureThreshold c) (int (trailing bad ss))
      \<and> rh_Status (gd_health g) = (if rh_Ready (gd_health g) then ''ready'' else ''degraded'')
      \<and> (rh_Ready (gd_health g) \<longrightarrow> gd_recoveries g = 0 \<and> int (trailing bad ss) < rg_FailureThreshold c)
      \<and> (\<not> rh_Ready (gd_health g) \<longrightarrow> gd_recoveries g = int (trailing good ss) \<and> int (trailing good ss) < rg_RecoveryThreshold c))"

lemma evaluate_ready: "rh_Ready (fst (evaluate r a b))" "rh_Status (fst (evaluate r a b)) = ''ready''"
  by (simp_all add: evaluate_def Let_def)

lemma guard_record_config [simp]: "gd_config (guard_record s g) = gd_config g"
  by (simp add: guard_record_def Let_def)

lemma guard_record_ok:
  assumes ok: "guard_ok g ss" and pos: "0 < rg_FailureThreshold (gd_config g)" "0 < rg_RecoveryThreshold (gd_config g)"
  shows "guard_ok (guard_record s g) (ss @ [s])"
proof (cases "good_sample (gd_config g) s")
  case good: True
  show ?thesis
  proof (cases "rh_Ready (gd_health g)")
    case True
    thus ?thesis using ok pos good by (simp add: guard_ok_def guard_record_def Let_def)
  next
    case False
    show ?thesis
    proof (cases "gd_recoveries g + 1 \<ge> rg_RecoveryThreshold (gd_config g)")
      case True
      thus ?thesis using ok pos good False by (simp add: guard_ok_def guard_record_def Let_def evaluate_ready)
    next
      case more: False
      thus ?thesis using ok pos good False by (simp add: guard_ok_def guard_record_def Let_def)
    qed
  qed
next
  case bad: False
  define n where "n = trailing (\<lambda>s. \<not> good_sample (gd_config g) s) ss"
  have f: "gd_failures g = min (rg_FailureThreshold (gd_config g)) (int n)" using ok by (simp add: guard_ok_def Let_def n_def)
  show ?thesis
  proof (cases "gd_failures g + 1 \<ge> rg_FailureThreshold (gd_config g)")
    case True
    hence "rg_FailureThreshold (gd_config g) \<le> int (Suc n)" using f by auto
    thus ?thesis using ok pos bad True by (simp add: guard_ok_def guard_record_def Let_def n_def[symmetric])
  next
    case False
    hence "int (Suc n) < rg_FailureThreshold (gd_config g)" using f by auto
    thus ?thesis using ok pos bad False f by (simp add: guard_ok_def guard_record_def Let_def n_def[symmetric])
  qed
qed

lemma guard_New_ok:
  assumes "guard_New c = Inr g"
  shows "gd_config g = c" "guard_ok g []" "0 < rg_FailureThreshold c" "0 < rg_RecoveryThreshold c" "rh_Ready (gd_health g)"
proof -
  have "\<not> (rg_FailureThreshold c \<le> 0)" "\<not> (rg_RecoveryThreshold c \<le> 0)"
    and g: "g = \<lparr>gd_config = c, gd_health = fst (evaluate (rg_Initial c) (rg_RequiredRAMBytes c) (rg_RequiredVRAMBytes c)), gd_failures = 0, gd_recoveries = 0\<rparr>"
    using assms unfolding guard_New_def by (auto split: if_split_asm prod.splits sum.splits)
  thus "gd_config g = c" "guard_ok g []" "0 < rg_FailureThreshold c" "0 < rg_RecoveryThreshold c" "rh_Ready (gd_health g)"
    by (simp_all add: guard_ok_def Let_def evaluate_ready)
qed

lemma after_samples_ok:
  assumes "guard_New c = Inr g"
  shows "guard_ok (after_samples g ss) ss \<and> gd_config (after_samples g ss) = c"
proof (induction ss rule: rev_induct)
  case Nil
  thus ?case using guard_New_ok[OF assms] by simp
next
  case (snoc s ss)
  thus ?case using guard_record_ok[of "after_samples g ss" ss s] guard_New_ok(3,4)[OF assms] by simp
qed

text \<open>When a sample changes readiness.\<close>

lemma guard_loses_readiness:
  assumes "guard_ok g ss" and "rh_Ready (gd_health g)" and "\<not> rh_Ready (gd_health (guard_record s g))"
  shows "rg_FailureThreshold (gd_config g) \<le> int (trailing (\<lambda>s. \<not> good_sample (gd_config g) s) (ss @ [s]))"
proof -
  have bad: "\<not> good_sample (gd_config g) s" using assms(2,3) by (auto simp: guard_record_def Let_def)
  hence "gd_failures g + 1 \<ge> rg_FailureThreshold (gd_config g)" using assms(2,3) by (auto simp: guard_record_def Let_def split: if_splits)
  thus ?thesis using bad assms(1,2) by (auto simp: guard_ok_def Let_def)
qed

lemma guard_regains_readiness:
  assumes "guard_ok g ss" and "\<not> rh_Ready (gd_health g)" and "rh_Ready (gd_health (guard_record s g))"
  shows "rg_RecoveryThreshold (gd_config g) \<le> int (trailing (good_sample (gd_config g)) (ss @ [s]))"
proof -
  have good: "good_sample (gd_config g) s" using assms(2,3) by (auto simp: guard_record_def Let_def split: if_splits)
  hence "gd_recoveries g + 1 \<ge> rg_RecoveryThreshold (gd_config g)" using assms(2,3) by (auto simp: guard_record_def Let_def split: if_splits)
  thus ?thesis using good assms(1,2) by (simp add: guard_ok_def Let_def)
qed

text \<open>What an accepted observation means: the sums are exact, no addition wraps around.\<close>

lemma sum_vram_exact: "sum_vram acc ds = Some n \<Longrightarrow> unat n = unat acc + (\<Sum>d \<leftarrow> ds. unat (nd_VRAMBytes d))"
proof (induction acc ds rule: sum_vram.induct)
  case (2 acc d ds)
  hence fits: "\<not> (- 1) - acc < nd_VRAMBytes d" and rest: "sum_vram (acc + nd_VRAMBytes d) ds = Some n" by (auto split: if_splits)
  have "unat ((- 1) - acc) = 18446744073709551615 - unat acc"
    using unat_sub[of acc "- 1"] by (simp add: unsigned_minus_1_eq_mask mask_eq_exp_minus_1)
  hence "unat acc + unat (nd_VRAMBytes d) < 2 ^ LENGTH(64)"
    using fits unsigned_less[of acc, where ?'a = nat] by (simp add: word_less_nat_alt)
  hence "unat (acc + nd_VRAMBytes d) = unat acc + unat (nd_VRAMBytes d)" by (simp only: unat_add_lem)
  thus ?case using 2 rest by (auto split: if_splits)
qed simp

lemma evaluate_admits:
  assumes "snd (evaluate report ram vram) = Inr ()"
  shows "unat ram \<le> unat (ho_MemoryBytes (rp_Host report)) - unat (ho_MemoryBytes (rp_Host report)) div 4"
    and "vram \<noteq> 0 \<Longrightarrow> unat vram \<le> (\<Sum>d \<leftarrow> nv_Devices (rp_NVIDIA report). unat (nd_VRAMBytes d))"
proof -
  define mem where "mem = ho_MemoryBytes (rp_Host report)"
  have "\<not> ram > mem - mem div 4" using assms by (auto simp: evaluate_def Let_def mem_def split: if_splits)
  moreover have "unat (mem - mem div 4) = unat mem - unat mem div 4"
    using unat_sub[of "mem div 4" mem] by (simp add: word_le_nat_alt unat_div)
  ultimately show "unat ram \<le> unat (ho_MemoryBytes (rp_Host report)) - unat (ho_MemoryBytes (rp_Host report)) div 4"
    by (simp add: mem_def[symmetric] word_less_nat_alt)
  assume "vram \<noteq> 0"
  then obtain n where "sum_vram 0 (nv_Devices (rp_NVIDIA report)) = Some n" "\<not> vram > n"
    using assms by (auto simp: evaluate_def Let_def split: if_splits option.splits)
  thus "unat vram \<le> (\<Sum>d \<leftarrow> nv_Devices (rp_NVIDIA report). unat (nd_VRAMBytes d))"
    using sum_vram_exact by (fastforce simp: word_less_nat_alt)
qed

definition ready_after :: "Guard \<Rightarrow> sample list \<Rightarrow> bool" where
  "ready_after g ss = rh_Ready (gd_health (after_samples g ss))"

section \<open>Properties\<close>

text \<open>C25.  Hysteresis.  Over any sequence of samples, readiness is withdrawn when as many samples in a row as the failure threshold were
  bad and only then, and restored when as many in a row as the recovery threshold were good and only then; a panic of
  the sampler is a bad sample.\<close>

theorem readiness_hysteresis:
  assumes "guard_New c = Inr g"
  shows "(int (trailing (\<lambda>s. \<not> good_sample c s) ss) \<ge> rg_FailureThreshold c \<longrightarrow> \<not> ready_after g ss)
     \<and> (int (trailing (good_sample c) ss) \<ge> rg_RecoveryThreshold c \<longrightarrow> ready_after g ss)
     \<and> (ready_after g ss \<and> \<not> ready_after g (ss @ [s]) \<longrightarrow> int (trailing (\<lambda>s. \<not> good_sample c s) (ss @ [s])) \<ge> rg_FailureThreshold c)
     \<and> (\<not> ready_after g ss \<and> ready_after g (ss @ [s]) \<longrightarrow> int (trailing (good_sample c) (ss @ [s])) \<ge> rg_RecoveryThreshold c)
     \<and> ready_after g [] \<and> \<not> good_sample c (safeSample None)"
proof -
  have ok: "guard_ok (after_samples g ss) ss" and c: "gd_config (after_samples g ss) = c" using after_samples_ok[OF assms(1)] by blast+
  have "int (trailing (\<lambda>s. \<not> good_sample c s) ss) \<ge> rg_FailureThreshold c \<longrightarrow> \<not> ready_after g ss"
    "int (trailing (good_sample c) ss) \<ge> rg_RecoveryThreshold c \<longrightarrow> ready_after g ss"
    using ok unfolding guard_ok_def Let_def c ready_after_def by auto
  moreover have "ready_after g ss \<and> \<not> ready_after g (ss @ [s]) \<longrightarrow> int (trailing (\<lambda>s. \<not> good_sample c s) (ss @ [s])) \<ge> rg_FailureThreshold c"
    using guard_loses_readiness[OF ok] unfolding c ready_after_def by simp
  moreover have "\<not> ready_after g ss \<and> ready_after g (ss @ [s]) \<longrightarrow> int (trailing (good_sample c) (ss @ [s])) \<ge> rg_RecoveryThreshold c"
    using guard_regains_readiness[OF ok] unfolding c ready_after_def by simp
  moreover have "ready_after g []" using guard_New_ok(5)[OF assms(1)] by (simp add: ready_after_def)
  ultimately show ?thesis by (simp add: safeSample_def good_sample_def)
qed

text \<open> The monitor stops when it is cancelled.  The loop returns if and only if its context is cancelled in some round,
  with the state after exactly the samples of the rounds before.\<close>

theorem monitor_stops_when_cancelled:
  "((\<exists>g'. guard_run events 0 g = Some g') \<longleftrightarrow> (\<exists>i. events i = Cancelled))
   \<and> (events n = Cancelled \<and> (\<forall>j < n. events j \<noteq> Cancelled) \<longrightarrow> guard_run events 0 g = Some (after_samples g (map (sampled events) [0..<n])))"
proof -
  have stops: "guard_run events 0 g = Some (after_samples g (map (sampled events) [0..<k]))"
    if "events k = Cancelled" "\<forall>j < k. events j \<noteq> Cancelled" for k
    using guard_run_stops[of events 0 k g] that by (simp add: after_samples_def)
  have "\<exists>g'. guard_run events 0 g = Some g'" if "events i = Cancelled" for i
    using stops[of "LEAST k. events k = Cancelled"] LeastI[of "\<lambda>k. events k = Cancelled", OF that] not_less_Least by blast
  thus ?thesis using stops guard_run_cancelled by blast
qed

subsection \<open>Two failures in a row\<close>

definition demo_report :: Report where
  "demo_report = \<lparr>rp_Host = demo_host\<lparr>ho_MemoryBytes := 134217728\<rparr>, rp_NVIDIA = nvidia_report False ''unavailable'' [] []\<rparr>"

definition demo_guard_config :: GuardConfig where
  "demo_guard_config = \<lparr>rg_Interval = 1000000000, rg_Timeout = 100000000, rg_FailureThreshold = 2, rg_RecoveryThreshold = 1,
     rg_RequiredRAMBytes = 67108864, rg_RequiredVRAMBytes = 0, rg_Initial = demo_report, rg_Sample_nil = False\<rparr>"

lemma demo_guard: "\<exists>g. guard_New demo_guard_config = Inr g"
  by (simp add: guard_New_def demo_guard_config_def evaluate_def Let_def demo_report_def demo_host_def)

theorem readiness_hysteresis_witness:
  "\<exists>g. guard_New demo_guard_config = Inr g \<and> ready_after g [] \<and> \<not> ready_after g [safeSample None, safeSample None]"
proof -
  obtain g where g: "guard_New demo_guard_config = Inr g" using demo_guard by blast
  have bad: "\<not> good_sample demo_guard_config (safeSample None)" and r: "ready_after g []" using readiness_hysteresis[OF g] by blast+
  have "rg_FailureThreshold demo_guard_config \<le> int (trailing (\<lambda>s. \<not> good_sample demo_guard_config s) [safeSample None, safeSample None])"
    using bad by (simp add: trailing_def demo_guard_config_def)
  hence "\<not> ready_after g [safeSample None, safeSample None]" using readiness_hysteresis[OF g] by blast
  thus ?thesis using g r by blast
qed

theorem monitor_stops_when_cancelled_witness:
  "(\<forall>g. guard_run (\<lambda>i. if i = 2 then Cancelled else Tick None) 0 g = Some (after_samples g [safeSample None, safeSample None]))
     \<and> (\<forall>g. guard_run (\<lambda>i. Tick None) 0 g = None)"
proof -
  have "map (sampled (\<lambda>i. if i = 2 then Cancelled else Tick None)) [0..<2] = [safeSample None, safeSample None]"
    by (simp add: sampled_def upt_conv_Cons)
  hence "guard_run (\<lambda>i. if i = 2 then Cancelled else Tick None) 0 g = Some (after_samples g [safeSample None, safeSample None])" for g
    using monitor_stops_when_cancelled[of "\<lambda>i. if i = 2 then Cancelled else Tick None" g 2] by simp
  moreover have "guard_run (\<lambda>i. Tick None) 0 g = None" for g
    using monitor_stops_when_cancelled[of "\<lambda>i. Tick None" g 0] by (cases "guard_run (\<lambda>i. Tick None) 0 g") auto
  ultimately show ?thesis by blast
qed

end
