(* ===== verification/Go_Path.thy ===== *)
theory Go_Path
  imports Go_Text
begin

text \<open>
  Lexical facts on slash-separated paths: the elements of a cleaned path are plain, cleaning twice changes nothing, and joining a
  relative path without \<open>..\<close> stays below the directory it is joined to.
\<close>

definition plain_element :: "string \<Rightarrow> bool" where
  "plain_element w \<longleftrightarrow> w \<noteq> [] \<and> w \<noteq> ''.'' \<and> w \<noteq> ''..'' \<and> CHR ''/'' \<notin> set w"

definition clean_stack :: "bool \<Rightarrow> string \<Rightarrow> string list" where
  "clean_stack rooted p = rev (foldl (clean_step rooted) [] (split_on (CHR ''/'') p))"

lemma split_on_append: "split_on c (a @ c # b) = split_on c a @ split_on c b"
  by (induction a) (auto split: list.splits)

lemma join_with_Nil_iff: "[] \<notin> set ws \<Longrightarrow> join_with sep ws = [] \<longleftrightarrow> ws = []"
  by (cases "(sep, ws)" rule: join_with.cases) auto

lemma clean_step_plain: "plain_element w \<Longrightarrow> clean_step rooted st w = w # st"
  by (simp add: clean_step_def plain_element_def)

lemma foldl_clean_plain: "list_all plain_element ws \<Longrightarrow> foldl (clean_step rooted) st ws = rev ws @ st"
  by (induction ws arbitrary: st) (simp_all add: clean_step_plain)

text \<open>A rooted stack holds plain elements; an unrooted one may have a run of \<open>..\<close> at its bottom.\<close>

lemma clean_step_rooted: "list_all plain_element st \<Longrightarrow> CHR ''/'' \<notin> set w \<Longrightarrow> list_all plain_element (clean_step True st w)"
  by (auto simp: clean_step_def plain_element_def split: list.splits)

lemma foldl_clean_rooted:
  "list_all plain_element st \<Longrightarrow> list_all (\<lambda>w. CHR ''/'' \<notin> set w) ws \<Longrightarrow> list_all plain_element (foldl (clean_step True) st ws)"
  by (induction ws arbitrary: st) (simp_all add: clean_step_rooted)

definition dots_below :: "string list \<Rightarrow> bool" where
  "dots_below st \<longleftrightarrow> (\<exists>a n. st = a @ replicate n ''..'' \<and> list_all plain_element a)"

lemma clean_step_unrooted:
  assumes "dots_below st" and "CHR ''/'' \<notin> set w"
  shows "dots_below (clean_step False st w)"
proof -
  obtain a n where st: "st = a @ replicate n ''..''" and a: "list_all plain_element a" using assms(1) unfolding dots_below_def by blast
  consider "w = [] \<or> w = ''.''" | "w = ''..''" | "plain_element w" using assms(2) unfolding plain_element_def by blast
  thus ?thesis
  proof cases
    case 1
    thus ?thesis using assms(1) by (auto simp: clean_step_def)
  next
    case 2
    show ?thesis
    proof (cases a)
      case Nil
      have "clean_step False st w = [] @ replicate (Suc n) ''..''" using 2 st Nil by (cases n) (simp_all add: clean_step_def)
      thus ?thesis unfolding dots_below_def by (intro exI[of _ "[]"] exI[of _ "Suc n"]) simp
    next
      case (Cons t rest)
      hence "clean_step False st w = rest @ replicate n ''..''" using 2 st a by (simp add: clean_step_def plain_element_def)
      thus ?thesis using a Cons unfolding dots_below_def by (intro exI[of _ rest] exI[of _ n]) simp
    qed
  next
    case 3
    hence "clean_step False st w = (w # a) @ replicate n ''..''" using st by (simp add: clean_step_plain)
    thus ?thesis using a 3 unfolding dots_below_def by (intro exI[of _ "w # a"] exI[of _ n]) simp
  qed
qed

lemma foldl_clean_unrooted: "dots_below st \<Longrightarrow> list_all (\<lambda>w. CHR ''/'' \<notin> set w) ws \<Longrightarrow> dots_below (foldl (clean_step False) st ws)"
  by (induction ws arbitrary: st) (simp_all add: clean_step_unrooted)

lemma split_no_slash: "list_all (\<lambda>w. CHR ''/'' \<notin> set w) (split_on (CHR ''/'') p)"
  by (simp add: list_all_iff split_on_no_sep)

lemma clean_stack_rooted: "list_all plain_element (clean_stack True p)"
  using foldl_clean_rooted[OF _ split_no_slash, of "[]" p] by (simp add: clean_stack_def)

section \<open>Absolute paths\<close>

lemma path_clean_abs: "is_abs p \<Longrightarrow> path_clean p = CHR ''/'' # join_with ''/'' (clean_stack True p)"
  by (cases p) (auto simp: is_abs_def has_prefix_def path_clean_def clean_stack_def)

lemma plain_list_no_nil: "list_all plain_element ws \<Longrightarrow> [] \<notin> set ws"
  by (auto simp: list_all_iff plain_element_def)

lemma split_join_plain: "list_all plain_element ws \<Longrightarrow> ws \<noteq> [] \<Longrightarrow> split_on (CHR ''/'') (join_with ''/'' ws) = ws"
  by (rule split_join) (auto simp: list_all_iff plain_element_def)

lemma split_abs: "list_all plain_element ws \<Longrightarrow> split_on (CHR ''/'') (CHR ''/'' # join_with ''/'' ws) = [] # (if ws = [] then [[]] else ws)"
  using split_join_plain[of ws] by simp

lemma split_path_clean:
  "is_abs p \<Longrightarrow> split_on (CHR ''/'') (path_clean p) = [] # (if clean_stack True p = [] then [[]] else clean_stack True p)"
  by (simp only: path_clean_abs split_abs[OF clean_stack_rooted])

lemma path_elements_abs: "is_abs p \<Longrightarrow> path_elements p = clean_stack True p"
proof -
  assume "is_abs p"
  moreover have "filter (\<lambda>w. w \<noteq> []) ws = ws" if "list_all plain_element ws" for ws
    using plain_list_no_nil[OF that] by (induction ws) auto
  ultimately show ?thesis
    using clean_stack_rooted[of p] by (simp add: path_elements_def split_path_clean)
qed

lemma is_abs_clean: "is_abs p \<Longrightarrow> is_abs (path_clean p)"
  by (simp add: path_clean_abs) (simp add: is_abs_def has_prefix_def)

lemma clean_stack_clean: "is_abs p \<Longrightarrow> clean_stack True (path_clean p) = clean_stack True p"
proof -
  let ?ws = "clean_stack True p"
  assume "is_abs p"
  hence "split_on (CHR ''/'') (path_clean p) = [] # (if ?ws = [] then [[]] else ?ws)" by (rule split_path_clean)
  moreover have "clean_step True [] [] = []" by (simp add: clean_step_def)
  ultimately show ?thesis using foldl_clean_plain[OF clean_stack_rooted[of p], of True "[]"] by (simp add: clean_stack_def)
qed

lemma path_clean_idem: "is_abs p \<Longrightarrow> path_clean (path_clean p) = path_clean p"
  using path_clean_abs[of p] path_clean_abs[OF is_abs_clean] clean_stack_clean by metis

section \<open>Joining\<close>

text \<open>The elements of a clean relative name.\<close>

definition name_elements :: "string \<Rightarrow> string list" where
  "name_elements name = split_on (CHR ''/'') name"

lemma elements_join:
  assumes "is_abs root" and "list_all plain_element (name_elements name)"
  shows "is_abs (path_join2 root name)" and "path_elements (path_join2 root name) = path_elements root @ name_elements name"
proof -
  let ?q = "root @ ''/'' @ name"
  have ne: "root \<noteq> []" "name \<noteq> []" using assms by (auto simp: is_abs_def has_prefix_def name_elements_def plain_element_def)
  hence j: "path_join2 root name = path_clean ?q" by (simp add: path_join2_def)
  have q: "is_abs ?q" using assms(1) ne by (cases root) (auto simp: is_abs_def has_prefix_def)
  show "is_abs (path_join2 root name)" using j is_abs_clean[OF q] by simp
  have "clean_stack True ?q = clean_stack True root @ name_elements name"
    using assms(2) by (simp add: clean_stack_def split_on_append foldl_clean_plain name_elements_def)
  thus "path_elements (path_join2 root name) = path_elements root @ name_elements name"
    using j is_abs_clean[OF q] clean_stack_clean[OF q] assms(1) by (simp add: path_elements_abs)
qed

text \<open>A relative path that is its own cleaning and neither \<open>.\<close> nor begins with \<open>..\<close> has plain elements only.\<close>

lemma relative_clean_plain:
  assumes "v \<noteq> []" and "\<not> has_prefix v ''/''" and "path_clean v = name" and "name \<noteq> ''.''" and "name \<noteq> ''..''"
    and "\<not> has_prefix name ''../''"
  shows "list_all plain_element (name_elements name)"
proof -
  let ?ws = "clean_stack False v"
  have rooted: "hd v \<noteq> CHR ''/''" using assms(1,2) by (cases v) (auto simp: has_prefix_def)
  have "dots_below []" unfolding dots_below_def by (intro exI[of _ "[]"] exI[of _ 0]) simp
  hence "dots_below (foldl (clean_step False) [] (split_on (CHR ''/'') v))" by (rule foldl_clean_unrooted[OF _ split_no_slash])
  then obtain a n where a: "?ws = replicate n ''..'' @ rev a" "list_all plain_element a"
    unfolding dots_below_def clean_stack_def by (metis rev_append rev_replicate)
  have name: "name = join_with ''/'' ?ws" and ne: "?ws \<noteq> []"
    using assms(1,3,4) rooted by (auto simp: path_clean_def Let_def clean_stack_def split: if_splits)
  have "n = 0"
  proof (rule ccontr)
    assume "n \<noteq> 0"
    then obtain k where k: "?ws = ''..'' # replicate k ''..'' @ rev a" using a(1) by (cases n) auto
    show False
    proof (cases "replicate k ''..'' @ rev a")
      case Nil
      thus False using name k assms(5) by simp
    next
      case (Cons x xs)
      hence "name = ''../'' @ join_with ''/'' (x # xs)" using name k by simp
      thus False using assms(6) by (simp add: has_prefix_def)
    qed
  qed
  hence "list_all plain_element ?ws" using a by (simp add: list_all_iff)
  thus ?thesis using name ne split_join_plain by (simp add: name_elements_def)
qed

section \<open>The parent directory\<close>

lemma join_with_snoc: "us \<noteq> [] \<Longrightarrow> join_with sep (us @ [w]) = join_with sep us @ sep @ w"
  by (induction sep us rule: join_with.induct) auto

lemma up_to_last_slash: "CHR ''/'' \<notin> set w \<Longrightarrow> rev (dropWhile (\<lambda>c. c \<noteq> CHR ''/'') (rev (q @ CHR ''/'' # w))) = q @ ''/''"
proof -
  assume "CHR ''/'' \<notin> set w"
  hence "\<And>x. x \<in> set (rev w) \<Longrightarrow> x \<noteq> CHR ''/''" by auto
  thus ?thesis using dropWhile_append2[of "rev w" "\<lambda>c. c \<noteq> CHR ''/''" "CHR ''/'' # rev q"] by simp
qed

lemma elements_dir:
  assumes "is_abs p" and "path_clean p = p" and "path_elements p \<noteq> []"
  shows "path_elements (path_dir p) = butlast (path_elements p)"
proof -
  let ?ws = "path_elements p"
  let ?us = "butlast ?ws" and ?w = "last ?ws"
  have plain: "list_all plain_element ?ws" using assms(1) clean_stack_rooted by (simp add: path_elements_abs)
  have ws: "?ws = ?us @ [?w]" using assms(3) by simp
  hence "list_all plain_element (?us @ [?w])" using plain by argo
  hence us: "list_all plain_element ?us" and w: "CHR ''/'' \<notin> set ?w" by (auto simp: plain_element_def)
  have p: "p = CHR ''/'' # join_with ''/'' (?us @ [?w])" using assms(1,2) path_clean_abs[of p] ws by (simp add: path_elements_abs)
  define q where "q = (if ?us = [] then [] else CHR ''/'' # join_with ''/'' ?us)"
  have "p = q @ CHR ''/'' # ?w"
  proof (cases "?us = []")
    case True
    thus ?thesis using p unfolding q_def True by simp
  next
    case False
    thus ?thesis using p join_with_snoc[OF False, of "''/''" ?w] unfolding q_def by simp
  qed
  hence dir: "path_dir p = path_clean (q @ ''/'')" using up_to_last_slash[OF w, of q] by (simp add: path_dir_def)
  have abs: "is_abs (q @ ''/'')" by (simp add: q_def is_abs_def has_prefix_def)
  have "clean_stack True (q @ ''/'') = ?us"
  proof (cases "?us = []")
    case True
    thus ?thesis by (simp add: q_def clean_stack_def clean_step_def)
  next
    case False
    hence "split_on (CHR ''/'') (q @ ''/'') = [] # ?us @ [[]]"
      using split_on_append[of "CHR ''/''" q "[]"] split_join_plain[OF us False] by (simp add: q_def)
    moreover have "clean_step True st [] = st" for st by (simp add: clean_step_def)
    ultimately show ?thesis using foldl_clean_plain[OF us, of True "[]"] by (simp add: clean_stack_def)
  qed
  thus ?thesis using dir clean_stack_clean[OF abs] is_abs_clean[OF abs] by (simp add: path_elements_abs)
qed

lemma join_is_clean: "is_abs root \<Longrightarrow> name \<noteq> [] \<Longrightarrow> path_clean (path_join2 root name) = path_join2 root name"
proof -
  assume "is_abs root" "name \<noteq> []"
  hence "is_abs (root @ ''/'' @ name)" "path_join2 root name = path_clean (root @ ''/'' @ name)"
    by (cases root; simp add: is_abs_def has_prefix_def path_join2_def)+
  thus ?thesis using path_clean_idem by metis
qed

end
