(* ===== verification/Containerd_Workspace.thy ===== *)
theory Containerd_Workspace
  imports Containerd_Backend Go_Path "HOL-Library.AList" "HOL-Library.Sublist"
begin

text \<open>
  The workspaces of the containerd backend (\<open>workspace.go\<close>): an archive supplied with a request is unpacked below a new directory that
  the runtime owns, made read-only, and removed after the run.

  The host's files are a list of nodes keyed by the elements of their absolute path; the directory of the backend is given with
  the symbolic links on the way to it resolved.  The archive reader is a parameter: what its
  successive calls to \<open>Next\<close> give, and whether the last one was the end of the archive or an error.  Each system call may
  fail; the failures are given per entry.
\<close>

section \<open>Host files\<close>

datatype wnode = WDir nat | WFile nat bytes | WSymlink

type_synonym host_fs = "(string list \<times> wnode) list"

abbreviation (input) mode_0444 :: nat where "mode_0444 \<equiv> 292"
abbreviation (input) mode_0555 :: nat where "mode_0555 \<equiv> 365"
abbreviation (input) maxWorkspaceEntries :: nat where "maxWorkspaceEntries \<equiv> 100000"

text \<open>\<open>os.MkdirAll(path, 0o700)\<close>: the system may refuse after some directories; those stay.\<close>

fun mkdir_all :: "nat option \<Rightarrow> string list \<Rightarrow> string list \<Rightarrow> host_fs \<Rightarrow> bool \<times> host_fs" where
  "mkdir_all fail pre [] fs = (True, fs)"
| "mkdir_all fail pre (e # es) fs =
     (case map_of fs (pre @ [e]) of
        Some (WDir _) \<Rightarrow> mkdir_all fail (pre @ [e]) es fs
      | Some _ \<Rightarrow> (False, fs)
      | None \<Rightarrow> if fail = Some 0 then (False, fs)
          else mkdir_all (map_option (\<lambda>n. n - 1) fail) (pre @ [e]) es (AList.update (pre @ [e]) (WDir mode_0700) fs))"

section \<open>Archive entries\<close>

record tar_header =
  th_Name :: string
  th_Typeflag :: char
  th_Size :: "64 word"  \<comment> \<open>an int64\<close>
  th_Mode :: u64

abbreviation (input) TypeReg :: char where "TypeReg \<equiv> CHR ''0''"
abbreviation (input) TypeRegA :: char where "TypeRegA \<equiv> CHR 0x00"
abbreviation (input) TypeDir :: char where "TypeDir \<equiv> CHR ''5''"

record entry_faults =
  ef_mkdir :: "nat option"
  ef_open :: bool
  ef_copy :: "nat option"  \<comment> \<open>how many bytes were written before an error\<close>
  ef_close :: bool
  ef_chmod :: bool

definition safeWorkspaceName :: "string \<Rightarrow> string result" where
  "safeWorkspaceName v =
     (if v = [] \<or> CHR 0x00 \<in> set v \<or> has_prefix v ''/'' \<or> length v > 4096 then Inl (ErrMsg ''invalid containerd workspace path'')
      else let cleaned = path_clean v in
        if cleaned = ''.'' \<or> cleaned = ''..'' \<or> has_prefix cleaned ''../'' \<or> cleaned \<noteq> trim_suffix v ''/''
        then Inl (ErrMsg ''invalid containerd workspace path'') else Inr cleaned)"

definition file_mode :: "tar_header \<Rightarrow> nat" where
  "file_mode h = (if and (th_Mode h) 73 \<noteq> 0 then mode_0555 else mode_0444)"

definition extract_file :: "entry_faults \<Rightarrow> string \<Rightarrow> tar_header \<Rightarrow> bytes \<Rightarrow> host_fs \<Rightarrow> unit result \<times> host_fs" where
  "extract_file f targ h data fs =
     (case mkdir_all (ef_mkdir f) [] (path_elements (path_dir targ)) fs of
        (False, fs1) \<Rightarrow> (Inl (ErrMsg ''create containerd workspace parent''), fs1)
      | (True, fs1) \<Rightarrow>
          let p = path_elements targ in
          if ef_open f \<or> map_of fs1 p \<noteq> None then (Inl (ErrMsg ''create containerd workspace file''), fs1)
          else
            let written = take (case ef_copy f of None \<Rightarrow> unat (th_Size h) | Some n \<Rightarrow> min n (unat (th_Size h))) data;
                fs2 = AList.update p (WFile mode_0444 written) fs1
            in if ef_copy f \<noteq> None \<or> length data < unat (th_Size h) \<or> ef_close f
               then (Inl (ErrMsg ''write containerd workspace file''), fs2)
               else if ef_chmod f then (Inl (ErrMsg ''protect containerd workspace file''), fs2)
               else (Inr (), AList.update p (WFile (file_mode h) written) fs2))"

text \<open>The message for an unsupported entry, which quotes its name, is kept without the name.\<close>

fun extract_loop :: "(nat \<Rightarrow> entry_faults) \<Rightarrow> string \<Rightarrow> u64 \<Rightarrow> nat \<Rightarrow> string list \<Rightarrow> u64 \<Rightarrow> (tar_header \<times> bytes) list \<Rightarrow> bool \<Rightarrow> host_fs
    \<Rightarrow> unit result \<times> host_fs" where
  "extract_loop faults root maximum n seen acc [] eof fs =
     (if n \<ge> maxWorkspaceEntries then (Inl (ErrMsg ''containerd workspace has too many entries''), fs)
      else if eof then (Inr (), fs) else (Inl (ErrMsg ''invalid containerd workspace tar''), fs))"
| "extract_loop faults root maximum n seen acc ((h, data) # rest) eof fs =
     (if n \<ge> maxWorkspaceEntries then (Inl (ErrMsg ''containerd workspace has too many entries''), fs)
      else case safeWorkspaceName (th_Name h) of Inl e \<Rightarrow> (Inl e, fs) | Inr name \<Rightarrow>
      if name \<in> set seen then (Inl (ErrMsg ''duplicate containerd workspace path''), fs)
      else if th_Typeflag h = TypeDir then
        (case mkdir_all (ef_mkdir (faults n)) [] (path_elements (path_join2 root name)) fs of
           (False, fs1) \<Rightarrow> (Inl (ErrMsg ''create containerd workspace directory''), fs1)
         | (True, fs1) \<Rightarrow> extract_loop faults root maximum (Suc n) (name # seen) acc rest eof fs1)
      else if th_Typeflag h = TypeReg \<or> th_Typeflag h = TypeRegA then
        if sint (th_Size h) < 0 \<or> th_Size h > maximum - acc then (Inl (ErrMsg ''containerd workspace exceeds disk limit''), fs)
        else (case extract_file (faults n) (path_join2 root name) h data fs of
            (Inl e, fs1) \<Rightarrow> (Inl e, fs1)
          | (Inr _, fs1) \<Rightarrow> extract_loop faults root maximum (Suc n) (name # seen) (acc + th_Size h) rest eof fs1)
      else (Inl (ErrMsg ''unsupported containerd workspace tar entry''), fs))"

definition extractWorkspaceTar :: "(nat \<Rightarrow> entry_faults) \<Rightarrow> (bytes \<Rightarrow> (tar_header \<times> bytes) list \<times> bool) \<Rightarrow> string \<Rightarrow> bytes \<Rightarrow> u64 \<Rightarrow> host_fs
    \<Rightarrow> unit result \<times> host_fs" where
  "extractWorkspaceTar faults reader root archive maximum fs =
     (case reader archive of (entries, eof) \<Rightarrow> extract_loop faults root maximum 0 [] 0 entries eof fs)"

section \<open>The workspace of a run\<close>

text \<open>What the system does to the other calls; \<open>ww_walk\<close> says that the walk over the workspace fails,
  \<open>ww_reached\<close> which directories it protected before it stopped,
  \<open>ww_stuck\<close> are the nodes the system refuses to remove.\<close>

record workspace_world =
  ww_root :: "nat option"
  ww_lstat :: bool
  ww_owned :: bool
  ww_mkdir :: bool
  ww_entry :: "nat \<Rightarrow> entry_faults"
  ww_walk :: bool
  ww_reached :: "string list \<Rightarrow> bool"
  ww_stuck :: "string list \<Rightarrow> bool"

definition chmod_dirs :: "nat \<Rightarrow> (string list \<Rightarrow> bool) \<Rightarrow> host_fs \<Rightarrow> host_fs" where
  "chmod_dirs mode P fs = map (\<lambda>(p, n). (p, case n of WDir _ \<Rightarrow> if P p then WDir mode else n | _ \<Rightarrow> n)) fs"

definition makeWorkspaceReadOnly :: "bool \<Rightarrow> (string list \<Rightarrow> bool) \<Rightarrow> string list \<Rightarrow> host_fs \<Rightarrow> unit result \<times> host_fs" where
  "makeWorkspaceReadOnly walk_fails reached d fs =
     (if walk_fails then (Inl ErrOs, chmod_dirs mode_0555 (\<lambda>p. prefix d p \<and> reached p) fs)
      else if list_ex (\<lambda>(p, n). prefix d p \<and> n = WSymlink) fs
      then (Inl (ErrMsg ''containerd workspace contains a symlink''), chmod_dirs mode_0555 (\<lambda>p. prefix d p \<and> reached p) fs)
      else (Inr (), chmod_dirs mode_0555 (prefix d) fs))"

text \<open>A directory that holds a node which cannot be removed stays too.\<close>

definition removeWorkspace :: "(string list \<Rightarrow> bool) \<Rightarrow> string list \<Rightarrow> host_fs \<Rightarrow> unit result \<times> host_fs" where
  "removeWorkspace stuck d fs =
     (let fs1 = chmod_dirs mode_0700 (prefix d) fs;
          left = (\<lambda>p. list_ex (\<lambda>(q, n). prefix p q \<and> stuck q) fs1)
      in (if list_ex (\<lambda>(p, n). prefix d p \<and> left p) fs1 then Inl ErrOs else Inr (),
          filter (\<lambda>(p, n). prefix d p \<longrightarrow> left p) fs1))"

definition host_info :: "bool \<Rightarrow> bool \<Rightarrow> string list \<Rightarrow> host_fs \<Rightarrow> unit node option" where
  "host_info lstat owned p fs =
     (if \<not> lstat then None else case map_of fs p of None \<Rightarrow> None
      | Some n \<Rightarrow> Some ((new_node (case n of WDir m \<Rightarrow> m | WFile m _ \<Rightarrow> m | WSymlink \<Rightarrow> 511))
          \<lparr>node_type := (case n of WDir _ \<Rightarrow> DirectoryFile | WFile _ _ \<Rightarrow> RegularFile | WSymlink \<Rightarrow> SymlinkFile), node_owned := owned\<rparr>))"

definition prepareWorkspace :: "(bytes \<Rightarrow> (tar_header \<times> bytes) list \<times> bool) \<Rightarrow> workspace_world \<Rightarrow> string \<Rightarrow> string \<Rightarrow> bytes \<Rightarrow> u64 \<Rightarrow> host_fs
    \<Rightarrow> string result \<times> host_fs" where
  "prepareWorkspace reader w root identity archive maximum fs =
     (if \<not> runtimeIdentifier identity \<or> maximum = 0 \<or> word_of_nat (length archive) > maximum
      then (Inl (ErrMsg ''invalid containerd workspace archive''), fs)
      else
        let workspaceRoot = path_join2 root ''workspaces'';
            (made, fs1) = mkdir_all (ww_root w) [] (path_elements workspaceRoot) fs
        in case ensurePrivateDirectory made (host_info (ww_lstat w) (ww_owned w) (path_elements workspaceRoot) fs1) of
             Inl _ \<Rightarrow> (Inl (ErrMsg ''invalid containerd workspace root''), fs1)
           | Inr _ \<Rightarrow>
               let directory = path_join2 workspaceRoot identity; d = path_elements directory in
               if ww_mkdir w \<or> map_of fs1 d \<noteq> None then (Inl (ErrMsg ''create containerd workspace''), fs1)
               else let fs2 = AList.update d (WDir mode_0700) fs1 in
               case extractWorkspaceTar (ww_entry w) reader directory archive maximum fs2 of
                 (Inl e, fs3) \<Rightarrow> (Inl e, snd (removeWorkspace (ww_stuck w) d fs3))
               | (Inr _, fs3) \<Rightarrow>
                   (case makeWorkspaceReadOnly (ww_walk w) (ww_reached w) d fs3 of
                      (Inl e, fs4) \<Rightarrow> (Inl e, snd (removeWorkspace (ww_stuck w) d fs4))
                    | (Inr _, fs4) \<Rightarrow> (Inr directory, fs4)))"

section \<open>Creating directories\<close>

definition made_dir :: "string list \<Rightarrow> string list \<Rightarrow> host_fs \<Rightarrow> host_fs \<Rightarrow> string list \<Rightarrow> bool" where
  "made_dir pre path fs fs1 p \<longleftrightarrow> map_of fs p = None \<and> map_of fs1 p = Some (WDir mode_0700) \<and> prefix p path \<and> length pre < length p"

lemma prefix_extend: "prefix p (pre @ e # es) \<Longrightarrow> length pre < length p \<Longrightarrow> p = pre @ [e] \<or> Suc (length pre) < length p"
proof -
  assume "prefix p (pre @ e # es)" "length pre < length p"
  then obtain x xs where "p = pre @ x # xs" "prefix (x # xs) (e # es)"
    by (metis append_eq_append_conv2 append_take_drop_id length_drop less_numeral_extra(3) list.exhaust list.size(3) prefix_append prefix_length_le not_less zero_less_diff append_Nil2 length_0_conv order_less_imp_le)
  thus ?thesis by (cases xs) auto
qed

lemma mkdir_all_changes:
  assumes "mkdir_all fail pre es fs = (ok, fs1)"
  shows "map_of fs1 p = map_of fs p \<or> made_dir pre (pre @ es) fs fs1 p"
  using assms
proof (induction fail pre es fs arbitrary: p rule: mkdir_all.induct)
  case (2 fail pre e es fs)
  show ?case
  proof (cases "map_of fs (pre @ [e])")
    case None
    show ?thesis
    proof (cases "fail = Some 0")
      case False
      let ?fs = "AList.update (pre @ [e]) (WDir mode_0700) fs"
      have m: "mkdir_all (map_option (\<lambda>n. n - 1) fail) (pre @ [e]) es ?fs = (ok, fs1)" using "2.prems" None False by simp
      have IH: "map_of fs1 q = map_of ?fs q \<or> made_dir (pre @ [e]) ((pre @ [e]) @ es) ?fs fs1 q" for q
        using "2.IH"(1)[OF None False m] by blast
      show ?thesis using IH[of p] None by (cases "p = pre @ [e]") (auto simp: made_dir_def update_conv')
    qed (use "2.prems" None in simp)
  next
    case (Some n)
    show ?thesis
    proof (cases n)
      case (WDir m)
      have "mkdir_all fail (pre @ [e]) es fs = (ok, fs1)" using "2.prems" Some WDir by simp
      thus ?thesis using "2.IH"(2)[OF Some WDir, of p] by (auto simp: made_dir_def)
    qed (use "2.prems" Some in simp_all)
  qed
qed simp

lemma mkdir_all_dirs:
  assumes "mkdir_all fail pre es fs = (True, fs1)" and "prefix p (pre @ es)" and "length pre < length p"
  shows "\<exists>m. map_of fs1 p = Some (WDir m)"
  using assms
proof (induction fail pre es fs arbitrary: p rule: mkdir_all.induct)
  case (1 fail pre fs)
  thus ?case using prefix_length_le by fastforce
next
  case (2 fail pre e es fs)
  have p: "p = pre @ [e] \<or> length (pre @ [e]) < length p" using prefix_extend[OF "2.prems"(2,3)] by simp
  show ?case
  proof (cases "map_of fs (pre @ [e])")
    case None
    let ?fs = "AList.update (pre @ [e]) (WDir mode_0700) fs"
    have f: "fail \<noteq> Some 0" using "2.prems"(1) None by auto
    have m: "mkdir_all (map_option (\<lambda>n. n - 1) fail) (pre @ [e]) es ?fs = (True, fs1)" using "2.prems"(1) None f by simp
    have "map_of fs1 (pre @ [e]) = Some (WDir mode_0700)" using mkdir_all_changes[OF m, of "pre @ [e]"] by (simp add: update_conv' made_dir_def)
    thus ?thesis using p "2.IH"(1)[OF None f m] "2.prems"(2) by auto
  next
    case (Some n)
    then obtain m where n: "n = WDir m" using "2.prems"(1) by (cases n) auto
    have m: "mkdir_all fail (pre @ [e]) es fs = (True, fs1)" using "2.prems"(1) Some n by simp
    have "map_of fs1 (pre @ [e]) = Some (WDir m)" using mkdir_all_changes[OF m, of "pre @ [e]"] Some n by (simp add: made_dir_def)
    thus ?thesis using p "2.IH"(2)[OF Some n m] "2.prems"(2) by auto
  qed
qed

section \<open>Names stay below the workspace\<close>

lemma safeWorkspaceName_plain:
  assumes "safeWorkspaceName v = Inr name"
  shows "list_all plain_element (name_elements name)" and "name \<noteq> []" and "name = trim_suffix v ''/''"
proof -
  have v: "v \<noteq> []" "\<not> has_prefix v ''/''" and n: "path_clean v = name" "name \<noteq> ''.''" "name \<noteq> ''..''" "\<not> has_prefix name ''../''"
    and t: "name = trim_suffix v ''/''"
    using assms by (auto simp: safeWorkspaceName_def Let_def split: if_splits)
  show "list_all plain_element (name_elements name)" by (rule relative_clean_plain[OF v n])
  thus "name \<noteq> []" by (auto simp: name_elements_def plain_element_def)
  show "name = trim_suffix v ''/''" by (rule t)
qed

lemma target_elements:
  assumes "is_abs root" and "safeWorkspaceName v = Inr name"
  shows "path_elements (path_join2 root name) = path_elements root @ name_elements name"
    and "path_elements (path_dir (path_join2 root name)) = path_elements root @ butlast (name_elements name)"
proof -
  note plain = safeWorkspaceName_plain[OF assms(2)]
  show e: "path_elements (path_join2 root name) = path_elements root @ name_elements name" by (rule elements_join(2)[OF assms(1) plain(1)])
  have "name_elements name \<noteq> []" by (simp add: name_elements_def)
  thus "path_elements (path_dir (path_join2 root name)) = path_elements root @ butlast (name_elements name)"
    using elements_dir[OF elements_join(1)[OF assms(1) plain(1)] join_is_clean[OF assms(1) plain(2)]] e by (simp add: butlast_append)
qed

text \<open>The directories above and at a path exist; files only appear strictly below it.\<close>

definition anchored :: "string list \<Rightarrow> host_fs \<Rightarrow> bool" where
  "anchored d fs \<longleftrightarrow> (\<forall>q. q \<noteq> [] \<and> prefix q d \<longrightarrow> (\<exists>m. map_of fs q = Some (WDir m)))"

definition grown :: "string list \<Rightarrow> host_fs \<Rightarrow> host_fs \<Rightarrow> bool" where
  "grown d fs fs1 \<longleftrightarrow> (\<forall>p. map_of fs1 p = map_of fs p \<or> strict_prefix d p \<and> map_of fs p = None)"

lemma grown_refl [simp]: "grown d fs fs"
  by (simp add: grown_def)

lemma grown_trans: "grown d fs fs1 \<Longrightarrow> grown d fs1 fs2 \<Longrightarrow> grown d fs fs2"
  unfolding grown_def by metis

lemma grown_anchored: "grown d fs fs1 \<Longrightarrow> anchored d fs \<Longrightarrow> anchored d fs1"
  unfolding grown_def anchored_def by (metis prefix_order.less_le_not_le)

lemma grown_update: "strict_prefix d p \<Longrightarrow> map_of fs p = None \<Longrightarrow> grown d fs (AList.update p n fs)"
  by (simp add: grown_def update_conv')

lemma mkdir_all_below:
  assumes "mkdir_all f [] (d @ xs) fs = (ok, fs1)" and "anchored d fs"
  shows "map_of fs1 p = map_of fs p \<or> map_of fs p = None \<and> map_of fs1 p = Some (WDir mode_0700) \<and> strict_prefix d p \<and> prefix p (d @ xs)"
proof (cases "map_of fs1 p = map_of fs p")
  case False
  hence m: "map_of fs p = None" "map_of fs1 p = Some (WDir mode_0700)" "prefix p (d @ xs)" "p \<noteq> []"
    using mkdir_all_changes[OF assms(1), of p] by (auto simp: made_dir_def)
  have "\<not> prefix p d" using assms(2) m(1,4) unfolding anchored_def by fastforce
  hence "strict_prefix d p" using m(3) by (metis prefix_same_cases prefixI prefix_order.less_le)
  thus ?thesis using m by blast
qed simp

lemma mkdir_all_grown: "mkdir_all f [] (d @ xs) fs = (ok, fs1) \<Longrightarrow> anchored d fs \<Longrightarrow> grown d fs fs1"
  unfolding grown_def using mkdir_all_below by blast

section \<open>Unpacking\<close>

text \<open>A successful file: its directories exist, the path was free, and only it is new besides directories.\<close>

lemma extract_file_grown:
  assumes "extract_file f targ h data fs = (r, fs1)" and "anchored d fs"
    and "path_elements targ = d @ es" and "path_elements (path_dir targ) = d @ butlast es" and "es \<noteq> []"
  shows "grown d fs fs1"
proof -
  obtain ok fs0 where m: "mkdir_all (ef_mkdir f) [] (d @ butlast es) fs = (ok, fs0)" by fastforce
  have g: "grown d fs fs0" by (rule mkdir_all_grown[OF m assms(2)])
  have below: "strict_prefix d (d @ es)" using assms(5) by (simp add: strict_prefix_def)
  have two: "grown d fs0 (AList.update (d @ es) n (AList.update (d @ es) n' fs0))" if "map_of fs0 (d @ es) = None" for n n'
    using below that by (simp add: grown_def update_conv')
  have "fs1 = fs0 \<or> map_of fs0 (d @ es) = None \<and> (\<exists>n n'. fs1 = AList.update (d @ es) n fs0 \<or> fs1 = AList.update (d @ es) n (AList.update (d @ es) n' fs0))"
    using assms(1) m unfolding extract_file_def assms(3,4) Let_def by (auto split: bool.splits if_splits)
  thus ?thesis using g grown_trans[OF g] two grown_update[OF below] by blast
qed

lemma extract_file_ok:
  assumes "extract_file f targ h data fs = (Inr u, fs1)" and "anchored d fs"
    and "path_elements targ = d @ es" and "path_elements (path_dir targ) = d @ butlast es" and "es \<noteq> []"
  shows "map_of fs (d @ es) = None" and "unat (th_Size h) \<le> length data"
    and "map_of fs1 p = (if p = d @ es then Some (WFile (file_mode h) (take (unat (th_Size h)) data))
           else if map_of fs p = None \<and> strict_prefix d p \<and> prefix p (d @ es) then Some (WDir mode_0700) else map_of fs p)"
proof -
  obtain ok fs0 where m: "mkdir_all (ef_mkdir f) [] (d @ butlast es) fs = (ok, fs0)" by fastforce
  let ?n = "WFile (file_mode h) (take (unat (th_Size h)) data)"
  have ok: "ok" and free: "map_of fs0 (d @ es) = None" and len: "unat (th_Size h) \<le> length data" 
    and fs1: "fs1 = AList.update (d @ es) ?n (AList.update (d @ es) (WFile mode_0444 (take (unat (th_Size h)) data)) fs0)"
    using assms(1) m unfolding extract_file_def assms(3,4) Let_def by (auto split: bool.splits if_splits option.splits)
  show "map_of fs (d @ es) = None" using mkdir_all_below[OF m assms(2), of "d @ es"] free by auto
  show "unat (th_Size h) \<le> length data" by (rule len)
  have dirs: "\<exists>m. map_of fs0 p = Some (WDir m)" if "strict_prefix d p" "prefix p (d @ es)" "p \<noteq> d @ es"
  proof -
    have "d @ es = (d @ butlast es) @ [last es]" using assms(5) by simp
    hence "prefix p (d @ butlast es)" using that(2,3) by (metis prefix_snoc)
    moreover have "0 < length p" using that(1) by (cases p) auto
    ultimately show ?thesis using mkdir_all_dirs[of "ef_mkdir f" "[]" "d @ butlast es" fs fs0 p] m ok by simp
  qed
  have up: "prefix p (d @ es)" if "prefix p (d @ butlast es)"
    using that assms(5) by (metis append_butlast_last_id append_assoc prefix_append prefix_prefix prefix_def)
  show "map_of fs1 p = (if p = d @ es then Some ?n
      else if map_of fs p = None \<and> strict_prefix d p \<and> prefix p (d @ es) then Some (WDir mode_0700) else map_of fs p)"
    using mkdir_all_below[OF m assms(2), of p] dirs up by (auto simp: fs1 update_conv')
qed

section \<open>What an archive leaves behind\<close>

definition file_bytes :: "wnode option \<Rightarrow> nat" where
  "file_bytes n = (case n of Some (WFile _ b) \<Rightarrow> length b | _ \<Rightarrow> 0)"

definition disk_used :: "string list \<Rightarrow> host_fs \<Rightarrow> nat" where
  "disk_used d fs = (\<Sum>p \<in> set (filter (prefix d) (map fst fs)). file_bytes (map_of fs p))"

definition keys_below :: "string list \<Rightarrow> host_fs \<Rightarrow> string list set" where
  "keys_below d fs = set (filter (prefix d) (map fst fs))"

lemma keys_below: "finite (keys_below d fs)" "p \<in> keys_below d fs \<longleftrightarrow> prefix d p \<and> map_of fs p \<noteq> None"
  by (auto simp: keys_below_def map_of_eq_None_iff image_iff)

lemma disk_used_superset:
  assumes "finite S" and "keys_below d fs \<subseteq> S" and "\<And>p. p \<in> S \<Longrightarrow> prefix d p"
  shows "disk_used d fs = (\<Sum>p \<in> S. file_bytes (map_of fs p))"
proof -
  have "(\<Sum>p \<in> keys_below d fs. file_bytes (map_of fs p)) = (\<Sum>p \<in> S. file_bytes (map_of fs p))"
    by (rule sum.mono_neutral_left[OF assms(1,2)]) (use assms(3) in \<open>auto simp: keys_below file_bytes_def\<close>)
  thus ?thesis by (simp add: disk_used_def keys_below_def)
qed

lemma disk_used_cong: "(\<And>p. file_bytes (map_of fs1 p) = file_bytes (map_of fs p)) \<Longrightarrow> disk_used d fs1 = disk_used d fs"
  using disk_used_superset[of "keys_below d fs \<union> keys_below d fs1" d fs] disk_used_superset[of "keys_below d fs \<union> keys_below d fs1" d fs1]
  by (fastforce simp: keys_below)

lemma disk_used_add:
  assumes "prefix d x" and "file_bytes (map_of fs x) = 0" and "\<And>p. p \<noteq> x \<Longrightarrow> file_bytes (map_of fs1 p) = file_bytes (map_of fs p)"
  shows "disk_used d fs1 = disk_used d fs + file_bytes (map_of fs1 x)"
proof -
  let ?S = "insert x (keys_below d fs \<union> keys_below d fs1)"
  have f: "finite ?S" and p: "\<And>p. p \<in> ?S \<Longrightarrow> prefix d p" using assms(1) by (auto simp: keys_below)
  have "disk_used d fs1 = (\<Sum>p \<in> ?S. file_bytes (map_of fs1 p))" by (rule disk_used_superset[OF f _ p]) auto
  also have "\<dots> = file_bytes (map_of fs1 x) + (\<Sum>p \<in> ?S - {x}. file_bytes (map_of fs1 p))" by (rule sum.remove[OF f]) simp
  also have "(\<Sum>p \<in> ?S - {x}. file_bytes (map_of fs1 p)) = (\<Sum>p \<in> ?S - {x}. file_bytes (map_of fs p))"
    using assms(3) by (intro sum.cong) auto
  also have "\<dots> = (\<Sum>p \<in> ?S. file_bytes (map_of fs p))" by (rule sum.mono_neutral_left[OF f]) (use assms(2) in auto)
  also have "\<dots> = disk_used d fs" by (rule disk_used_superset[OF f _ p, symmetric]) auto
  finally show ?thesis by simp
qed

definition regular :: "tar_header \<Rightarrow> bool" where
  "regular h \<longleftrightarrow> th_Typeflag h = TypeReg \<or> th_Typeflag h = TypeRegA"

text \<open>The file an entry stands for, below the workspace \<open>d\<close>.\<close>

definition entry_file :: "string list \<Rightarrow> tar_header \<times> bytes \<Rightarrow> string list \<Rightarrow> nat \<Rightarrow> bytes \<Rightarrow> bool" where
  "entry_file d e p m b \<longleftrightarrow> regular (fst e) \<and> (\<exists>name. safeWorkspaceName (th_Name (fst e)) = Inr name \<and> p = d @ name_elements name)
     \<and> m = file_mode (fst e) \<and> b = take (unat (th_Size (fst e))) (snd e)"

definition unpacked_node :: "wnode \<Rightarrow> bool" where
  "unpacked_node n \<longleftrightarrow> (case n of WDir m \<Rightarrow> m = mode_0700 | WFile m _ \<Rightarrow> m = mode_0444 \<or> m = mode_0555 | WSymlink \<Rightarrow> False)"

definition unpacked :: "string list \<Rightarrow> (tar_header \<times> bytes) list \<Rightarrow> host_fs \<Rightarrow> host_fs \<Rightarrow> bool" where
  "unpacked d es fs fs1 \<longleftrightarrow> grown d fs fs1
     \<and> (\<forall>p m b. map_of fs1 p = Some (WFile m b) \<longleftrightarrow> map_of fs p = Some (WFile m b) \<or> (\<exists>e \<in> set es. entry_file d e p m b))
     \<and> (\<forall>p n. map_of fs p = None \<and> map_of fs1 p = Some n \<longrightarrow> unpacked_node n)"

lemma unpacked_Nil: "unpacked d [] fs fs"
  by (auto simp: unpacked_def)

lemma unpacked_Cons:
  assumes "unpacked d [e] fs fs1" and "unpacked d es fs1 fs2"
  shows "unpacked d (e # es) fs fs2"
proof -
  have "grown d fs fs2" using assms grown_trans unfolding unpacked_def by blast
  moreover have "map_of fs2 p = Some (WFile m b) \<longleftrightarrow> map_of fs p = Some (WFile m b) \<or> (\<exists>e' \<in> set (e # es). entry_file d e' p m b)" for p m b
    using assms unfolding unpacked_def by auto
  moreover have "unpacked_node n" if "map_of fs p = None" "map_of fs2 p = Some n" for p n
  proof (cases "map_of fs1 p")
    case None
    thus ?thesis using assms(2) that(2) unfolding unpacked_def by blast
  next
    case (Some n')
    hence "n' = n" using assms(2) that(2) unfolding unpacked_def grown_def by (metis option.distinct(1) option.inject)
    thus ?thesis using assms(1) that(1) Some unfolding unpacked_def by blast
  qed
  ultimately show ?thesis unfolding unpacked_def by blast
qed

lemma mkdir_all_unpacked:
  assumes "mkdir_all f [] (d @ xs) fs = (ok, fs1)" and "anchored d fs" and "\<not> regular (fst e)"
  shows "unpacked d [e] fs fs1" and "disk_used d fs1 = disk_used d fs"
proof -
  note c = mkdir_all_below[OF assms(1,2)]
  have "map_of fs1 p = Some (WFile m b) \<longleftrightarrow> map_of fs p = Some (WFile m b)" for p m b using c[of p] by auto
  moreover have "unpacked_node n" if "map_of fs p = None" "map_of fs1 p = Some n" for p n using c[of p] that by (auto simp: unpacked_node_def)
  ultimately show "unpacked d [e] fs fs1" using mkdir_all_grown[OF assms(1,2)] assms(3) by (auto simp: unpacked_def entry_file_def)
  have b: "file_bytes (map_of fs1 p) = file_bytes (map_of fs p)" for p using c[of p] by (auto simp: file_bytes_def)
  show "disk_used d fs1 = disk_used d fs" by (rule disk_used_cong[OF b])
qed

lemma extract_file_unpacked:
  assumes "extract_file f (path_join2 root name) h data fs = (Inr u, fs1)" and "anchored d fs" and "is_abs root" and "path_elements root = d"
    and "safeWorkspaceName (th_Name h) = Inr name" and "regular h"
  shows "unpacked d [(h, data)] fs fs1" and "disk_used d fs1 = disk_used d fs + unat (th_Size h)"
proof -
  let ?es = "name_elements name"
  have es: "?es \<noteq> []" by (simp add: name_elements_def)
  note t = target_elements[OF assms(3,5), unfolded assms(4)]
  note ok = extract_file_ok[OF assms(1,2) t es]
  note g = extract_file_grown[OF assms(1,2) t es]
  have "map_of fs1 p = Some (WFile m b) \<longleftrightarrow> map_of fs p = Some (WFile m b) \<or> entry_file d (h, data) p m b" for p m b
    using ok(1) assms(5,6) by (auto simp: ok(3) entry_file_def)
  moreover have "unpacked_node n" if "map_of fs p = None" "map_of fs1 p = Some n" for p n
    using that by (auto simp: ok(3) unpacked_node_def file_mode_def split: if_splits)
  ultimately show "unpacked d [(h, data)] fs fs1" using g by (auto simp: unpacked_def)
  have "disk_used d fs1 = disk_used d fs + file_bytes (map_of fs1 (d @ ?es))"
    by (rule disk_used_add) (auto simp: ok(1) ok(3) file_bytes_def)
  thus "disk_used d fs1 = disk_used d fs + unat (th_Size h)" using ok(2) by (simp add: ok(3) file_bytes_def)
qed

lemma extract_loop_grown:
  assumes "extract_loop faults root maximum n seen acc es eof fs = (r, fs1)" and "anchored (path_elements root) fs" and "is_abs root"
  shows "grown (path_elements root) fs fs1"
  using assms
proof (induction faults root maximum n seen acc es eof fs rule: extract_loop.induct)
  case (1 faults root maximum n seen acc eof fs)
  thus ?case by (auto split: if_splits)
next
  case (2 faults root maximum n seen acc h data rest eof fs)
  let ?d = "path_elements root"
  show ?case
  proof (cases "fs1 = fs")
    case False
    then obtain name where n: "\<not> n \<ge> maxWorkspaceEntries" "safeWorkspaceName (th_Name h) = Inr name" "name \<notin> set seen"
      using "2.prems"(1) by (cases "safeWorkspaceName (th_Name h)") (auto split: if_splits)
    have es: "name_elements name \<noteq> []" by (simp add: name_elements_def)
    note t = target_elements[OF "2.prems"(3) n(2)]
    show ?thesis
    proof (cases "th_Typeflag h = TypeDir")
      case True
      obtain ok fs0 where m: "mkdir_all (ef_mkdir (faults n)) [] (path_elements (path_join2 root name)) fs = (ok, fs0)" by fastforce
      have g: "grown ?d fs fs0" using mkdir_all_grown m[unfolded t] "2.prems"(2) by blast
      show ?thesis
      proof (cases ok)
        case ok: True
        have l: "extract_loop faults root maximum (Suc n) (name # seen) acc rest eof fs0 = (r, fs1)" using "2.prems"(1) n True m ok by simp
        show ?thesis using "2.IH"(1)[OF n(1,2,3) True m[symmetric, unfolded ok] _ l grown_anchored[OF g "2.prems"(2)] "2.prems"(3)] grown_trans[OF g] ok by blast
      qed (use "2.prems"(1) n True m g in simp)
    next
      case F: False
      hence reg: "th_Typeflag h = TypeReg \<or> th_Typeflag h = TypeRegA" and fit: "\<not> (sint (th_Size h) < 0 \<or> th_Size h > maximum - acc)"
        using "2.prems"(1) n False by (auto split: if_splits)
      obtain r0 fs0 where e: "extract_file (faults n) (path_join2 root name) h data fs = (r0, fs0)" by fastforce
      have g: "grown ?d fs fs0" by (rule extract_file_grown[OF e "2.prems"(2) t es])
      show ?thesis
      proof (cases r0)
        case (Inl err)
        thus ?thesis using "2.prems"(1) n F reg fit e g by simp
      next
        case (Inr u)
        have l: "extract_loop faults root maximum (Suc n) (name # seen) (acc + th_Size h) rest eof fs0 = (r, fs1)"
          using "2.prems"(1) n F reg fit e Inr by simp
        show ?thesis
          using "2.IH"(2)[OF n(1,2,3) F reg fit e[symmetric] Inr l grown_anchored[OF g "2.prems"(2)] "2.prems"(3)] grown_trans[OF g] by blast
      qed
    qed
  qed simp
qed

lemma add_within: "(acc :: u64) \<le> maximum \<Longrightarrow> \<not> sz > maximum - acc \<Longrightarrow> acc + sz \<le> maximum \<and> unat (acc + sz) = unat acc + unat sz"
proof -
  assume a: "acc \<le> maximum" "\<not> sz > maximum - acc"
  hence "unat sz \<le> unat maximum - unat acc" by (simp add: not_less word_le_nat_alt unat_sub)
  hence s: "unat acc + unat sz \<le> unat maximum" using a(1) by (simp add: word_le_nat_alt)
  hence "unat acc + unat sz < 2 ^ 64" using unsigned_less[of maximum, where ?'a = nat] by simp
  hence "unat (acc + sz) = unat acc + unat sz" using unat_add_lem[of acc sz] by simp
  thus ?thesis using s by (simp add: word_le_nat_alt)
qed

lemma extract_loop_unpacked:
  assumes "extract_loop faults root maximum n seen acc es eof fs = (Inr u, fs1)" and "anchored (path_elements root) fs" and "is_abs root"
    and "acc \<le> maximum"
  shows "unpacked (path_elements root) es fs fs1
     \<and> disk_used (path_elements root) fs1 + unat acc \<le> disk_used (path_elements root) fs + unat maximum"
  using assms
proof (induction faults root maximum n seen acc es eof fs rule: extract_loop.induct)
  case (1 faults root maximum n seen acc eof fs)
  thus ?case by (auto simp: unpacked_Nil word_le_nat_alt split: if_splits)
next
  case (2 faults root maximum n seen acc h data rest eof fs)
  let ?d = "path_elements root"
  obtain name where n: "\<not> n \<ge> maxWorkspaceEntries" "safeWorkspaceName (th_Name h) = Inr name" "name \<notin> set seen"
    using "2.prems"(1) by (cases "safeWorkspaceName (th_Name h)") (auto split: if_splits)
  note t = target_elements[OF "2.prems"(3) n(2)]
  show ?case
  proof (cases "th_Typeflag h = TypeDir")
    case True
    obtain ok fs0 where m: "mkdir_all (ef_mkdir (faults n)) [] (path_elements (path_join2 root name)) fs = (ok, fs0)" by fastforce
    hence ok: ok and l: "extract_loop faults root maximum (Suc n) (name # seen) acc rest eof fs0 = (Inr u, fs1)"
      using "2.prems"(1) n True by (cases ok; simp)+
    have nr: "\<not> regular (fst (h, data))" using True by (simp add: regular_def)
    note s = mkdir_all_unpacked[OF m[unfolded t] "2.prems"(2) nr]
    have "anchored ?d fs0" using s(1) grown_anchored[OF _ "2.prems"(2)] by (simp add: unpacked_def)
    from "2.IH"(1)[OF n(1,2,3) True m[symmetric, unfolded ok] _ l this "2.prems"(3,4)] s ok unpacked_Cons[OF s(1)] show ?thesis by simp
  next
    case F: False
    hence reg: "th_Typeflag h = TypeReg \<or> th_Typeflag h = TypeRegA" and fit: "\<not> (sint (th_Size h) < 0 \<or> th_Size h > maximum - acc)"
      using "2.prems"(1) n by (auto split: if_splits)
    obtain r0 fs0 where e: "extract_file (faults n) (path_join2 root name) h data fs = (r0, fs0)" by fastforce
    then obtain v where v: "r0 = Inr v" and l: "extract_loop faults root maximum (Suc n) (name # seen) (acc + th_Size h) rest eof fs0 = (Inr u, fs1)"
      using "2.prems"(1) n F reg fit by (cases r0) auto
    note s = extract_file_unpacked[OF e[unfolded v] "2.prems"(2,3) refl n(2) reg[folded regular_def]]
    have a: "acc + th_Size h \<le> maximum" "unat (acc + th_Size h) = unat acc + unat (th_Size h)"
      using add_within[OF "2.prems"(4)] fit by blast+
    have "anchored ?d fs0" using s(1) grown_anchored[OF _ "2.prems"(2)] by (simp add: unpacked_def)
    from "2.IH"(2)[OF n(1,2,3) F reg fit e[symmetric] v l this "2.prems"(3) a(1)] s a(2) unpacked_Cons[OF s(1)] show ?thesis by simp
  qed
qed

section \<open>Preparing and removing\<close>

lemma map_of_chmod: "map_of (chmod_dirs mode P fs) p =
    map_option (\<lambda>n. case n of WDir _ \<Rightarrow> if P p then WDir mode else n | _ \<Rightarrow> n) (map_of fs p)"
  by (induction fs) (auto simp: chmod_dirs_def split: wnode.splits)

lemma map_of_filter_key: "map_of (filter (\<lambda>(p, n). Q p) xs) p = (if Q p then map_of xs p else None)"
  by (induction xs) auto

lemma map_of_remove:
  "map_of (snd (removeWorkspace stuck d fs)) p = (if \<not> prefix d p then map_of fs p
     else if list_ex (\<lambda>(q, n). prefix p q \<and> stuck q) (chmod_dirs mode_0700 (prefix d) fs) then map_of (chmod_dirs mode_0700 (prefix d) fs) p else None)"
proof -
  have "map_of (chmod_dirs mode_0700 (prefix d) fs) p = map_of fs p" if "\<not> prefix d p"
    using that by (cases "map_of fs p") (auto simp: map_of_chmod split: wnode.splits)
  thus ?thesis by (auto simp: removeWorkspace_def Let_def map_of_filter_key)
qed

lemma identifier_plain: "runtimeIdentifier v \<Longrightarrow> list_all plain_element (name_elements v)"
proof -
  assume r: "runtimeIdentifier v"
  have "\<not> alnum (CHR ''/'')" "\<not> alnum (CHR ''.'')" by code_simp+
  hence "plain_element v" using r by (cases v) (auto simp: runtimeIdentifier_def plain_element_def list_all_iff)
  thus ?thesis by (simp add: name_elements_def split_on_no_occ plain_element_def)
qed

lemma identifier_elements: "runtimeIdentifier v \<Longrightarrow> name_elements v = [v]"
  using identifier_plain[of v] unfolding runtimeIdentifier_def name_elements_def
  by (intro split_on_no_occ) (auto split: list.splits simp: list_all_iff alnum_def is_lower_def is_upper_def is_digit_def)

definition workspace_of :: "string \<Rightarrow> string \<Rightarrow> string list" where
  "workspace_of root identity = path_elements root @ [''workspaces'', identity]"

lemma workspace_elements:
  assumes "is_abs root" and "runtimeIdentifier identity"
  shows "path_elements (path_join2 root ''workspaces'') = path_elements root @ [''workspaces'']"
    and "is_abs (path_join2 (path_join2 root ''workspaces'') identity)"
    and "path_elements (path_join2 (path_join2 root ''workspaces'') identity) = workspace_of root identity"
proof -
  have w: "name_elements ''workspaces'' = [''workspaces'']" "list_all plain_element (name_elements ''workspaces'')"
    by (simp_all add: name_elements_def plain_element_def)
  note j = elements_join[OF assms(1) w(2)]
  show "path_elements (path_join2 root ''workspaces'') = path_elements root @ [''workspaces'']" using j(2) w(1) by simp
  note k = elements_join[OF j(1) identifier_plain[OF assms(2)]]
  show "is_abs (path_join2 (path_join2 root ''workspaces'') identity)" by (rule k(1))
  show "path_elements (path_join2 (path_join2 root ''workspaces'') identity) = workspace_of root identity"
    using k(2) j(2) w(1) identifier_elements[OF assms(2)] by (simp add: workspace_of_def)
qed

text \<open>How a call of \<open>prepareWorkspace\<close> can end: before the workspace exists, after removing it, or with it.\<close>

lemma prepare_cases:
  assumes "prepareWorkspace reader w root identity archive maximum fs = (r, fs')" and "is_abs root"
  obtains (early) e where "r = Inl e" "fs' = fs \<or> (\<exists>ok. mkdir_all (ww_root w) [] (path_elements root @ [''workspaces'']) fs = (ok, fs'))"
  | (removed) fs1 x fs3 e P where "runtimeIdentifier identity" "mkdir_all (ww_root w) [] (path_elements root @ [''workspaces'']) fs = (True, fs1)"
      "map_of fs1 (workspace_of root identity) = None"
      "extract_loop (ww_entry w) (path_join2 (path_join2 root ''workspaces'') identity) maximum 0 [] 0 (fst (reader archive)) (snd (reader archive))
         (AList.update (workspace_of root identity) (WDir mode_0700) fs1) = (x, fs3)"
      "r = Inl e" "fs' = snd (removeWorkspace (ww_stuck w) (workspace_of root identity) (chmod_dirs mode_0555 (\<lambda>p. prefix (workspace_of root identity) p \<and> P p) fs3))"
  | (prepared) fs1 u fs3 where "runtimeIdentifier identity" "mkdir_all (ww_root w) [] (path_elements root @ [''workspaces'']) fs = (True, fs1)"
      "map_of fs1 (workspace_of root identity) = None"
      "extract_loop (ww_entry w) (path_join2 (path_join2 root ''workspaces'') identity) maximum 0 [] 0 (fst (reader archive)) (snd (reader archive))
         (AList.update (workspace_of root identity) (WDir mode_0700) fs1) = (Inr u, fs3)"
      "r = Inr (path_join2 (path_join2 root ''workspaces'') identity)" "fs' = chmod_dirs mode_0555 (prefix (workspace_of root identity)) fs3"
proof (cases "\<not> runtimeIdentifier identity \<or> maximum = 0 \<or> word_of_nat (length archive) > maximum")
  case True
  thus thesis using assms(1) early by (auto simp: prepareWorkspace_def)
next
  case valid: False
  let ?W = "path_elements root @ [''workspaces'']" and ?d = "workspace_of root identity"
    and ?dir = "path_join2 (path_join2 root ''workspaces'') identity"
  have id: "runtimeIdentifier identity" using valid by blast
  note el = workspace_elements[OF assms(2) id]
  obtain made fs1 where m: "mkdir_all (ww_root w) [] ?W fs = (made, fs1)" by fastforce
  obtain pr where pr: "ensurePrivateDirectory made (host_info (ww_lstat w) (ww_owned w) ?W fs1) = pr" by blast
  have nochmod: "gs = chmod_dirs mode_0555 (\<lambda>p. prefix ?d p \<and> False) gs" for gs
    by (induction gs) (auto simp: chmod_dirs_def split: wnode.splits)
  have run: "(case pr of Inl _ \<Rightarrow> (Inl (ErrMsg ''invalid containerd workspace root''), fs1)
     | Inr _ \<Rightarrow> if ww_mkdir w \<or> map_of fs1 ?d \<noteq> None then (Inl (ErrMsg ''create containerd workspace''), fs1)
         else case extractWorkspaceTar (ww_entry w) reader ?dir archive maximum (AList.update ?d (WDir mode_0700) fs1) of
           (Inl e, fs3) \<Rightarrow> (Inl e, snd (removeWorkspace (ww_stuck w) ?d fs3))
         | (Inr _, fs3) \<Rightarrow> (case makeWorkspaceReadOnly (ww_walk w) (ww_reached w) ?d fs3 of
               (Inl e, fs4) \<Rightarrow> (Inl e, snd (removeWorkspace (ww_stuck w) ?d fs4)) | (Inr _, fs4) \<Rightarrow> (Inr ?dir, fs4))) = (r, fs')"
    using assms(1) valid by (simp only: prepareWorkspace_def Let_def el m pr prod.case if_False)
  show thesis
  proof (cases "pr = Inr () \<and> \<not> ww_mkdir w \<and> map_of fs1 ?d = None")
    case False
    hence "\<exists>e. r = Inl e" "fs' = fs1" using run by (cases pr; auto split: if_splits)+
    thus thesis using early m by blast
  next
    case True
    hence made: "mkdir_all (ww_root w) [] ?W fs = (True, fs1)" using m pr by (cases made) (auto simp: ensurePrivateDirectory_def)
    obtain x fs3 where x: "extract_loop (ww_entry w) ?dir maximum 0 [] 0 (fst (reader archive)) (snd (reader archive))
        (AList.update ?d (WDir mode_0700) fs1) = (x, fs3)" by fastforce
    hence x': "extractWorkspaceTar (ww_entry w) reader ?dir archive maximum (AList.update ?d (WDir mode_0700) fs1) = (x, fs3)"
      by (simp add: extractWorkspaceTar_def split_beta)
    have free: "map_of fs1 ?d = None" using True by blast
    show thesis
    proof (cases x)
      case (Inl e)
      hence "r = Inl e" "fs' = snd (removeWorkspace (ww_stuck w) ?d fs3)" using run True x' by auto
      thus thesis using removed[OF id made free x, of e "\<lambda>p. False"] nochmod[of fs3] by simp
    next
      case (Inr u)
      obtain y fs4 where y: "makeWorkspaceReadOnly (ww_walk w) (ww_reached w) ?d fs3 = (y, fs4)" by fastforce
      show thesis
      proof (cases y)
        case (Inl e)
        hence "fs4 = chmod_dirs mode_0555 (\<lambda>p. prefix ?d p \<and> ww_reached w p) fs3" using y by (auto simp: makeWorkspaceReadOnly_def split: if_splits)
        thus thesis using removed[OF id made free x, of e "ww_reached w"] run True x' \<open>x = Inr u\<close> y Inl by auto
      next
        case (Inr v)
        hence "fs4 = chmod_dirs mode_0555 (prefix ?d) fs3" using y by (auto simp: makeWorkspaceReadOnly_def split: if_splits)
        thus thesis using prepared[OF id made free x[unfolded \<open>x = Inr u\<close>]] run True x' \<open>x = Inr u\<close> y Inr by auto
      qed
    qed
  qed
qed

definition tree_closed :: "host_fs \<Rightarrow> bool" where
  "tree_closed fs \<longleftrightarrow> (\<forall>p q. map_of fs p \<noteq> None \<and> strict_prefix q p \<and> q \<noteq> [] \<longrightarrow> (\<exists>m. map_of fs q = Some (WDir m)))"

definition workspace_root_made :: "string \<Rightarrow> host_fs \<Rightarrow> host_fs \<Rightarrow> string list \<Rightarrow> bool" where
  "workspace_root_made root fs fs' p \<longleftrightarrow> map_of fs p = None \<and> map_of fs' p = Some (WDir mode_0700) \<and> prefix p (path_elements root @ [''workspaces''])"

lemma root_made:
  assumes "mkdir_all f [] (path_elements root @ [''workspaces'']) fs = (ok, fs1)"
  shows "map_of fs1 p = map_of fs p \<or> workspace_root_made root fs fs1 p"
  using mkdir_all_changes[OF assms, of p] by (auto simp: made_dir_def workspace_root_made_def)

lemma below_not_root: "prefix (workspace_of root identity) p \<Longrightarrow> \<not> prefix p (path_elements root @ [''workspaces''])"
  unfolding workspace_of_def by (auto dest!: prefix_length_le)

lemma workspace_anchored:
  assumes "mkdir_all f [] (path_elements root @ [''workspaces'']) fs = (True, fs1)"
  shows "anchored (workspace_of root identity) (AList.update (workspace_of root identity) (WDir mode_0700) fs1)"
  unfolding anchored_def
proof (intro allI impI)
  fix q assume q: "q \<noteq> [] \<and> prefix q (workspace_of root identity)"
  have "workspace_of root identity = (path_elements root @ [''workspaces'']) @ [identity]" by (simp add: workspace_of_def)
  hence "q = workspace_of root identity \<or> prefix q (path_elements root @ [''workspaces''])" using q by (metis prefix_snoc)
  thus "\<exists>m. map_of (AList.update (workspace_of root identity) (WDir mode_0700) fs1) q = Some (WDir m)"
    using mkdir_all_dirs[OF assms, of q] q by (auto simp: update_conv')
qed

lemma fresh_below:
  assumes "mkdir_all f [] (path_elements root @ [''workspaces'']) fs = (ok, fs1)" and "map_of fs1 (workspace_of root identity) = None"
    and "tree_closed fs" and "prefix (workspace_of root identity) p"
  shows "map_of fs p = None" and "map_of fs1 p = None"
proof -
  have same: "map_of fs1 q = map_of fs q" if "prefix (workspace_of root identity) q" for q
    using root_made[OF assms(1), of q] below_not_root[OF that] by (auto simp: workspace_root_made_def)
  have "map_of fs (workspace_of root identity) = None" using same assms(2) by simp
  moreover have "workspace_of root identity \<noteq> []" by (simp add: workspace_of_def)
  ultimately show "map_of fs p = None" using assms(3,4) unfolding tree_closed_def by (metis option.distinct(1) prefix_order.le_less)
  thus "map_of fs1 p = None" using same assms(4) by simp
qed

lemma extracted_outside:
  assumes "extract_loop faults dir maximum 0 [] 0 es eof (AList.update d (WDir mode_0700) fs1) = (x, fs3)"
    and "anchored d (AList.update d (WDir mode_0700) fs1)" and "is_abs dir" and "path_elements dir = d" and "\<not> prefix d p"
  shows "map_of fs3 p = map_of fs1 p"
proof -
  have "grown d (AList.update d (WDir mode_0700) fs1) fs3" using extract_loop_grown[OF assms(1)] assms(2-4) by simp
  hence "map_of fs3 p = map_of (AList.update d (WDir mode_0700) fs1) p" using assms(5) unfolding grown_def strict_prefix_def by blast
  moreover have "p \<noteq> d" using assms(5) by auto
  ultimately show ?thesis by (simp add: update_conv')
qed

lemma chmod_outside: "(P p \<Longrightarrow> prefix d p) \<Longrightarrow> \<not> prefix d p \<Longrightarrow> map_of (chmod_dirs mode P fs) p = map_of fs p"
  by (cases "map_of fs p") (auto simp: map_of_chmod split: wnode.splits)

lemma prepare_effect:
  assumes "prepareWorkspace reader w root identity archive maximum fs = (r, fs')" and "is_abs root" and "tree_closed fs"
  shows "(\<forall>p. \<not> prefix (workspace_of root identity) p \<longrightarrow> map_of fs' p = map_of fs p \<or> workspace_root_made root fs fs' p)
     \<and> (\<forall>p. isl r \<and> (\<forall>q. \<not> ww_stuck w q) \<and> prefix (workspace_of root identity) p \<longrightarrow> map_of fs' p = map_of fs p)
     \<and> (\<forall>p. \<not> isl r \<and> prefix (workspace_of root identity) p \<longrightarrow> map_of fs p = None)"
  using assms(1,2)
proof (cases rule: prepare_cases)
  case (early e)
  have "map_of fs' p = map_of fs p \<or> workspace_root_made root fs fs' p" for p using early(2) root_made by blast
  moreover have "map_of fs' p = map_of fs p" if "prefix (workspace_of root identity) p" for p
    using calculation[of p] below_not_root[OF that] by (auto simp: workspace_root_made_def)
  ultimately show ?thesis using early(1) by simp
next
  case (removed fs1 x fs3 e P)
  note el = workspace_elements[OF assms(2) removed(1)]
  have out: "map_of fs' p = map_of fs1 p" if "\<not> prefix (workspace_of root identity) p" for p
    using that extracted_outside[OF removed(4) workspace_anchored[OF removed(2)] el(2,3) that]
      chmod_outside[of "\<lambda>p. prefix (workspace_of root identity) p \<and> P p" p "workspace_of root identity"] by (simp add: removed(6) map_of_remove)
  have gone: "map_of fs' p = None" if "\<forall>q. \<not> ww_stuck w q" "prefix (workspace_of root identity) p" for p
    using that by (simp add: removed(6) map_of_remove list_ex_iff)
  show ?thesis using out gone root_made[OF removed(2)] fresh_below(1)[OF removed(2,3) assms(3)] removed(5)
    unfolding workspace_root_made_def by auto
next
  case (prepared fs1 u fs3)
  note el = workspace_elements[OF assms(2) prepared(1)]
  have out: "map_of fs' p = map_of fs1 p" if "\<not> prefix (workspace_of root identity) p" for p
    using that extracted_outside[OF prepared(4) workspace_anchored[OF prepared(2)] el(2,3) that]
      chmod_outside[of "prefix (workspace_of root identity)" p "workspace_of root identity"] by (simp add: prepared(6))
  show ?thesis using out root_made[OF prepared(2)] fresh_below(1)[OF prepared(2,3) assms(3)] prepared(5)
    unfolding workspace_root_made_def by auto
qed

lemma remove_complete:
  assumes "\<not> isl (fst (removeWorkspace stuck d fs)) \<or> (\<forall>q. \<not> stuck q)" and "prefix d p"
  shows "map_of (snd (removeWorkspace stuck d fs)) p = None"
proof (rule ccontr)
  let ?fs1 = "chmod_dirs mode_0700 (prefix d) fs"
  assume "map_of (snd (removeWorkspace stuck d fs)) p \<noteq> None"
  hence l: "list_ex (\<lambda>(q, n). prefix p q \<and> stuck q) ?fs1" and "map_of ?fs1 p \<noteq> None" using assms(2) by (auto simp: map_of_remove split: if_splits)
  then obtain n where "(p, n) \<in> set ?fs1" by (auto dest: map_of_SomeD)
  hence "isl (fst (removeWorkspace stuck d fs))" using l assms(2) by (auto simp: removeWorkspace_def Let_def list_ex_iff)
  thus False using assms(1) l by (auto simp: list_ex_iff)
qed

section \<open>Properties\<close>


text \<open>
  C19. A prepared workspace is exactly its archive: the files below it are the regular entries, each under its name with its bytes;
  everything is read-only, there is no symbolic link, and the files together are within the disk limit of the request.
\<close>

theorem workspace_unpacked_exactly:
  assumes "prepareWorkspace reader w root identity archive maximum fs = (Inr dir, fs')" and "is_abs root" and "tree_closed fs"
  shows "path_elements dir = workspace_of root identity
     \<and> disk_used (workspace_of root identity) fs' \<le> unat maximum
     \<and> (\<forall>p n. prefix (workspace_of root identity) p \<and> map_of fs' p = Some n \<longrightarrow>
          (case n of WDir m \<Rightarrow> m = mode_0555 | WFile m _ \<Rightarrow> m = mode_0444 \<or> m = mode_0555 | WSymlink \<Rightarrow> False))
     \<and> (\<forall>p m b. prefix (workspace_of root identity) p \<longrightarrow>
          (map_of fs' p = Some (WFile m b) \<longleftrightarrow> (\<exists>e \<in> set (fst (reader archive)). entry_file (workspace_of root identity) e p m b)))"
  using assms(1,2)
proof (cases rule: prepare_cases)
  case (prepared fs1 u fs3)
  let ?d = "workspace_of root identity"
  let ?fs2 = "AList.update ?d (WDir mode_0700) fs1"
  note el = workspace_elements[OF assms(2) prepared(1)]
  have before: "map_of ?fs2 p = (if p = ?d then Some (WDir mode_0700) else None)" if "prefix ?d p" for p
    using fresh_below(2)[OF prepared(2,3) assms(3) that] by (simp add: update_conv')
  have "disk_used ?d ?fs2 = 0" unfolding disk_used_def by (rule sum.neutral) (auto simp: before file_bytes_def)
  hence up: "unpacked ?d (fst (reader archive)) ?fs2 fs3" and used: "disk_used ?d fs3 \<le> unat maximum"
    using extract_loop_unpacked[OF prepared(4)] workspace_anchored[OF prepared(2)] el(2,3) by simp_all
  have fs': "map_of fs' p = map_option (\<lambda>n. case n of WDir _ \<Rightarrow> WDir mode_0555 | _ \<Rightarrow> n) (map_of fs3 p)" if "prefix ?d p" for p
    using that by (cases "map_of fs3 p") (auto simp: prepared(6) map_of_chmod split: wnode.splits)
  have "file_bytes (map_of fs' p) = file_bytes (map_of fs3 p)" for p
    by (cases "map_of fs3 p") (auto simp: prepared(6) map_of_chmod file_bytes_def split: wnode.splits)
  hence "disk_used ?d fs' = disk_used ?d fs3" by (rule disk_used_cong)
  moreover have "case n of WDir m \<Rightarrow> m = mode_0555 | WFile m _ \<Rightarrow> m = mode_0444 \<or> m = mode_0555 | WSymlink \<Rightarrow> False"
    if p: "prefix ?d p" and n: "map_of fs' p = Some n" for p n
  proof -
    obtain n' where n': "map_of fs3 p = Some n'" "n = (case n' of WDir _ \<Rightarrow> WDir mode_0555 | _ \<Rightarrow> n')" using n by (auto simp: fs'[OF p])
    have "p = ?d \<and> n' = WDir mode_0700 \<or> unpacked_node n'"
      using up n'(1) before[OF p] unfolding unpacked_def grown_def by (metis option.inject prefix_order.less_irrefl)
    thus ?thesis using n'(2) by (auto simp: unpacked_node_def split: wnode.splits)
  qed
  moreover have "map_of fs' p = Some (WFile m b) \<longleftrightarrow> (\<exists>e \<in> set (fst (reader archive)). entry_file ?d e p m b)" if p: "prefix ?d p" for p m b
  proof -
    have "map_of fs' p = Some (WFile m b) \<longleftrightarrow> map_of fs3 p = Some (WFile m b)" 
      by (cases "map_of fs3 p"; cases "the (map_of fs3 p)") (auto simp: fs'[OF p])
    moreover have "map_of ?fs2 p \<noteq> Some (WFile m b)" using before[OF p] by simp
    ultimately show ?thesis using up unfolding unpacked_def by blast
  qed
  ultimately show ?thesis using prepared(5) el(3) used by (intro conjI allI impI) auto
qed simp_all

subsection \<open>A workspace with one file\<close>

definition demo_archive :: "bytes \<Rightarrow> (tar_header \<times> bytes) list \<times> bool" where
  "demo_archive _ = ([(\<lparr>th_Name = ''x'', th_Typeflag = TypeReg, th_Size = 2, th_Mode = 73\<rparr>, ''ok'')], True)"

definition demo_faults :: entry_faults where
  "demo_faults = \<lparr>ef_mkdir = None, ef_open = False, ef_copy = None, ef_close = False, ef_chmod = False\<rparr>"

definition demo_workspace :: workspace_world where
  "demo_workspace = \<lparr>ww_root = None, ww_lstat = True, ww_owned = True, ww_mkdir = False, ww_entry = (\<lambda>_. demo_faults), ww_walk = False,
     ww_reached = (\<lambda>_. True), ww_stuck = (\<lambda>_. False)\<rparr>"

lemma demo_workspace_paths:
  "path_join2 ''/r'' ''workspaces'' = ''/r/workspaces''" "path_join2 ''/r/workspaces'' ''a'' = ''/r/workspaces/a''"
  "path_join2 ''/r/workspaces/a'' ''x'' = ''/r/workspaces/a/x''" "path_dir ''/r/workspaces/a/x'' = ''/r/workspaces/a''"
  "path_elements ''/r/workspaces'' = [''r'', ''workspaces'']" "path_elements ''/r/workspaces/a'' = [''r'', ''workspaces'', ''a'']"
  "path_elements ''/r/workspaces/a/x'' = [''r'', ''workspaces'', ''a'', ''x'']" "path_clean ''x'' = ''x''" "runtimeIdentifier ''a''"
  "path_elements ''/r'' = [''r'']"
  by code_simp+

lemma demo_name: "safeWorkspaceName ''x'' = Inr ''x''"
  by (simp add: safeWorkspaceName_def demo_workspace_paths has_prefix_def trim_suffix_def has_suffix_def)

lemma demo_prepared:
  "prepareWorkspace demo_archive demo_workspace ''/r'' ''a'' [] 4096 [] =
     (Inr ''/r/workspaces/a'', [([''r''], WDir mode_0700), ([''r'', ''workspaces''], WDir mode_0700), ([''r'', ''workspaces'', ''a''], WDir mode_0555),
        ([''r'', ''workspaces'', ''a'', ''x''], WFile mode_0555 ''ok'')])"
  by (simp add: prepareWorkspace_def demo_workspace_paths demo_workspace_def demo_archive_def demo_faults_def ensurePrivateDirectory_def
      host_info_def private_directory_def new_node_def extractWorkspaceTar_def demo_name extract_file_def Let_def file_mode_def
      makeWorkspaceReadOnly_def chmod_dirs_def prefix_def)


theorem workspace_unpacked_exactly_witness:
  "\<exists>fs'. prepareWorkspace demo_archive demo_workspace ''/r'' ''a'' [] 4096 [] = (Inr ''/r/workspaces/a'', fs') \<and> is_abs ''/r'' \<and> tree_closed []
     \<and> disk_used (workspace_of ''/r'' ''a'') fs' \<le> 4096 \<and> map_of fs' [''r'', ''workspaces'', ''a'', ''x''] = Some (WFile mode_0555 ''ok'')"
proof -
  have "is_abs ''/r''" "tree_closed []" by (simp_all add: is_abs_def has_prefix_def tree_closed_def)
  moreover note workspace_unpacked_exactly[OF demo_prepared this]
  ultimately show ?thesis using demo_prepared by simp
qed

end
