(* ===== verification/Containerd_Sdk.thy ===== *)
theory Containerd_Sdk
  imports Containerd_Workspace
begin

text \<open>
  The runtime engine of the containerd backend (\<open>sdk.go\<close>, \<open>cdi.go\<close>): one run from the resolved image over the container and its
  task to the collected result, with the deferred removal of everything it made, and the output buffer of a run.

  The containerd client is a parameter: a record of the calls the engine makes, on an arbitrary state of the daemon.  An error that
  \<open>errdefs.IsNotFound\<close> recognises is \<open>ErrNotExist\<close>.  Several errors joined are represented by the first.  The
  namespace of the contexts, which every call carries, and the time limits of the clean-up are part of what the client answers.
\<close>

section \<open>The output of a run\<close>

record boundedOutput =
  bo_maximum :: u64
  bo_buffer :: bytes
  bo_exceeded :: bool

definition newBoundedOutput :: "u64 \<Rightarrow> boundedOutput" where
  "newBoundedOutput maximum = \<lparr>bo_maximum = maximum, bo_buffer = [], bo_exceeded = False\<rparr>"

definition output_Write :: "boundedOutput \<Rightarrow> bytes \<Rightarrow> boundedOutput" where
  "output_Write w v =
     (let available = bo_maximum w - word_of_nat (length (bo_buffer w));
          stored = word_of_nat (length v) :: u64;
          (stored, w) = (if stored > available then (available, w\<lparr>bo_exceeded := True\<rparr>) else (stored, w))
      in if stored > 0 then w\<lparr>bo_buffer := bo_buffer w @ take (unat stored) v\<rparr> else w)"

section \<open>The daemon and its client\<close>

text \<open>What the \<open>select\<close> after the start of a task receives.\<close>

datatype task_end = EndCancelled | EndClosed | EndStatus "u32 result"

record 's containerd_client =
  cl_Version :: "'s \<Rightarrow> unit result"
  cl_Containers :: "'s \<Rightarrow> string list result"
  cl_Snapshots :: "'s \<Rightarrow> string list result"
  cl_GetImage :: "string \<Rightarrow> 's \<Rightarrow> string result"
  cl_IsUnpacked :: "string \<Rightarrow> 's \<Rightarrow> bool result"
  cl_LoadContainer :: "string \<Rightarrow> 's \<Rightarrow> unit result"
  cl_StatSnapshot :: "string \<Rightarrow> 's \<Rightarrow> unit result"
  cl_NewContainer :: "string \<Rightarrow> (oci_spec \<Rightarrow> oci_spec result) \<Rightarrow> 's \<Rightarrow> unit result \<times> 's"
  cl_NewTask :: "string \<Rightarrow> bytes \<Rightarrow> 's \<Rightarrow> unit result \<times> 's"
  cl_Wait :: "string \<Rightarrow> 's \<Rightarrow> unit result \<times> 's"
  cl_Start :: "string \<Rightarrow> 's \<Rightarrow> unit result \<times> 's"
  cl_End :: "string \<Rightarrow> 's \<Rightarrow> task_end \<times> bytes list \<times> 's"
  cl_Metrics :: "string \<Rightarrow> 's \<Rightarrow> (string \<times> task_metrics option) result"
  cl_DeleteTask :: "string \<Rightarrow> 's \<Rightarrow> unit result \<times> 's"
  cl_DeleteContainer :: "string \<Rightarrow> 's \<Rightarrow> unit result \<times> 's"
  cl_RemoveSnapshot :: "string \<Rightarrow> 's \<Rightarrow> unit result \<times> 's"

text \<open>A CDI cache: the outcome of a refresh and the injection of devices.\<close>

type_synonym cdi_cache = "unit result \<times> (oci_spec \<Rightarrow> string list \<Rightarrow> oci_spec result)"

record sdkEngine =
  se_namespace :: string
  se_snapshotter :: string
  se_fifoDir :: string
  se_cleanupTimeout :: duration
  se_imageReference :: string
  se_imageDigest :: string
  se_cdi :: "cdi_cache option"

definition newCDIInjector :: "string list \<Rightarrow> cdi_cache result \<Rightarrow> cdi_cache result" where
  "newCDIInjector specDirectories cache =
     (if length specDirectories = 0 then Inl (ErrMsg ''CDI spec directories are required'')
      else case cache of Inl _ \<Rightarrow> Inl (ErrMsg ''configure CDI registry'') | Inr c \<Rightarrow> Inr c)"

definition specOpt :: "cdi_cache option \<Rightarrow> string list \<Rightarrow> oci_spec \<Rightarrow> oci_spec result" where
  "specOpt injector devices spec =
     (if length devices = 0 then Inr spec
      else case injector of None \<Rightarrow> Inl (ErrMsg ''CDI injection is unavailable'')
      | Some (refresh, inject) \<Rightarrow>
          if isl refresh then Inl (ErrMsg ''refresh CDI registry'')
          else (case inject spec devices of Inl _ \<Rightarrow> Inl (ErrMsg ''inject CDI devices'') | Inr s \<Rightarrow> Inr s))"

definition newSDKEngine :: "ContainerdConfig \<Rightarrow> unit result \<Rightarrow> cdi_cache result \<Rightarrow> sdkEngine result" where
  "newSDKEngine config client cache =
     (case client of Inl e \<Rightarrow> Inl e | Inr _ \<Rightarrow>
      let engine = (\<lambda>injector. \<lparr>se_namespace = cc_Namespace config, se_snapshotter = cc_Snapshotter config, se_fifoDir = cc_FIFODir config,
            se_cleanupTimeout = cc_CleanupTimeout config, se_imageReference = cc_ImageReference config,
            se_imageDigest = cc_ImageDigest config, se_cdi = injector\<rparr>)
      in if cc_PermitGPU config then
           (case newCDIInjector (cc_CDISpecDirs config) cache of Inl e \<Rightarrow> Inl e | Inr c \<Rightarrow> Inr (engine (Some c)))
         else Inr (engine None))"

definition sdk_CheckReady :: "'s containerd_client option \<Rightarrow> 's \<Rightarrow> unit result" where
  "sdk_CheckReady cl s = (case cl of None \<Rightarrow> Inl (ErrMsg ''invalid containerd client'') | Some c \<Rightarrow> cl_Version c s)"

definition CheckResidue :: "'s containerd_client \<Rightarrow> 's \<Rightarrow> unit result" where
  "CheckResidue cl s =
     (case cl_Containers cl s of Inl e \<Rightarrow> Inl e
      | Inr containers \<Rightarrow>
          if length containers \<noteq> 0 then Inl (ErrMsg ''managed container residue exists'')
          else (case cl_Snapshots cl s of Inl e \<Rightarrow> Inl e
            | Inr names \<Rightarrow> if list_ex (\<lambda>name. length name = 64) names then Inl (ErrMsg ''managed snapshot residue exists'') else Inr ()))"

section \<open>A run\<close>

definition not_found_ok :: "unit result \<Rightarrow> unit result" where
  "not_found_ok r = (if r = Inl ErrNotExist then Inr () else r)"

definition join_errors :: "unit result list \<Rightarrow> unit result" where
  "join_errors rs = (case filter isl rs of [] \<Rightarrow> Inr () | r # _ \<Rightarrow> r)"

definition removeFailedSnapshot :: "'s containerd_client \<Rightarrow> string \<Rightarrow> 's \<Rightarrow> unit result \<times> 's" where
  "removeFailedSnapshot cl i s = (case cl_RemoveSnapshot cl i s of (r, s1) \<Rightarrow> (not_found_ok r, s1))"

definition resolveImage :: "'s containerd_client \<Rightarrow> sdkEngine \<Rightarrow> string \<Rightarrow> 's \<Rightarrow> unit result" where
  "resolveImage cl e digest s =
     (if digest \<noteq> se_imageDigest e then Inl (ErrMsg ''container image digest is not configured'')
      else case cl_GetImage cl (se_imageReference e) s of Inl err \<Rightarrow> Inl err
      | Inr tgt \<Rightarrow> if tgt \<noteq> digest then Inl (ErrMsg ''container image reference changed digest'') else Inr ())"

definition ensureIdentityAbsent :: "'s containerd_client \<Rightarrow> string \<Rightarrow> 's \<Rightarrow> unit result" where
  "ensureIdentityAbsent cl i s =
     (case cl_LoadContainer cl i s of Inr _ \<Rightarrow> Inl (ErrMsg ''container identity already exists'')
      | Inl e \<Rightarrow> if e \<noteq> ErrNotExist then Inl e
          else (case cl_StatSnapshot cl i s of Inr _ \<Rightarrow> Inl (ErrMsg ''snapshot identity already exists'')
            | Inl e \<Rightarrow> if e \<noteq> ErrNotExist then Inl e else Inr ()))"

definition cleanup :: "'s containerd_client \<Rightarrow> string \<Rightarrow> bool \<Rightarrow> 's \<Rightarrow> unit result \<times> 's" where
  "cleanup cl i task s =
     (let (taskErr, s1) = (if task then (case cl_DeleteTask cl i s of (r, s1) \<Rightarrow> (not_found_ok r, s1)) else (Inr (), s))
      in case cl_DeleteContainer cl i s1 of (r, s2) \<Rightarrow>
        if isl (not_found_ok r) then
          (case cl_RemoveSnapshot cl i s2 of (r', s3) \<Rightarrow> (join_errors [taskErr, not_found_ok r, not_found_ok r'], s3))
        else (taskErr, s2))"

text \<open>From the new task to the result; the second component says whether the task exists.\<close>

definition collect_result :: "'s containerd_client \<Rightarrow> string \<Rightarrow> ContainerRequest \<Rightarrow> duration \<Rightarrow> u32 \<Rightarrow> bytes list \<Rightarrow> 's \<Rightarrow> Result result" where
  "collect_result cl i request d exitCode chunks s =
     (let out = foldl output_Write (newBoundedOutput (lim_OutputBytes (req_Limits request))) chunks in
      if bo_exceeded out then Inl (ErrMsg ''container output exceeds limit'')
      else case cl_Metrics cl i s of Inl _ \<Rightarrow> Inl (ErrMsg ''collect container task metrics'')
      | Inr (mid, metric) \<Rightarrow>
          if mid \<noteq> i then Inl (ErrMsg ''collect container task metrics'')
          else (case usageFromMetric metric d of Inl e \<Rightarrow> Inl e
            | Inr usage \<Rightarrow> Inr \<lparr>res_ExitCode = uint exitCode, res_Output = bo_buffer out, res_Usage = usage\<rparr>))"

definition run_task :: "'s containerd_client \<Rightarrow> string \<Rightarrow> ContainerRequest \<Rightarrow> bytes \<Rightarrow> duration \<Rightarrow> 's \<Rightarrow> Result result \<times> bool \<times> 's" where
  "run_task cl i request input d s =
     (case cl_NewTask cl i input s of (Inl e, s1) \<Rightarrow> (Inl e, False, s1) | (Inr _, s1) \<Rightarrow>
     (case cl_Wait cl i s1 of (Inl e, s2) \<Rightarrow> (Inl e, True, s2) | (Inr _, s2) \<Rightarrow>
     (case cl_Start cl i s2 of (Inl e, s3) \<Rightarrow> (Inl e, True, s3) | (Inr _, s3) \<Rightarrow>
     (case cl_End cl i s3 of
        (EndCancelled, _, s4) \<Rightarrow> (Inl ErrContext, True, s4)
      | (EndClosed, _, s4) \<Rightarrow> (Inl (ErrMsg ''containerd task wait closed''), True, s4)
      | (EndStatus (Inl e), _, s4) \<Rightarrow> (Inl e, True, s4)
      | (EndStatus (Inr exitCode), chunks, s4) \<Rightarrow> (collect_result cl i request d exitCode chunks s4, True, s4)))))"

definition container_spec :: "(oci_spec \<Rightarrow> seccomp_profile option) \<Rightarrow> sdkEngine \<Rightarrow> ContainerRequest \<Rightarrow> string list \<Rightarrow> string list \<Rightarrow> oci_spec \<Rightarrow> oci_spec result" where
  "container_spec prof e request workspaceSource devices spec =
     (case fixedIsolationSpec prof request workspaceSource spec of Inl err \<Rightarrow> Inl err | Inr s1 \<Rightarrow> specOpt (se_cdi e) devices s1)"

definition run_container :: "'s containerd_client \<Rightarrow> string \<Rightarrow> ContainerRequest \<Rightarrow> (oci_spec \<Rightarrow> oci_spec result) \<Rightarrow> bytes \<Rightarrow> duration \<Rightarrow> 's
    \<Rightarrow> Result result \<times> 's" where
  "run_container cl i request spec input d s =
     (case cl_NewContainer cl i spec s of
        (Inl e, s1) \<Rightarrow> (Inl e, snd (removeFailedSnapshot cl i s1))
      | (Inr _, s1) \<Rightarrow>
          (case run_task cl i request input d s1 of (r, task, s2) \<Rightarrow>
           (case cleanup cl i task s2 of (c, s3) \<Rightarrow>
              (case (r, c) of (Inl e, _) \<Rightarrow> Inl e | (Inr v, Inl e) \<Rightarrow> Inl e | (Inr v, Inr _) \<Rightarrow> Inr v, s3))))"

definition sdk_Run :: "'s containerd_client \<Rightarrow> (oci_spec \<Rightarrow> seccomp_profile option) \<Rightarrow> (bytes \<Rightarrow> (tar_header \<times> bytes) list \<times> bool) \<Rightarrow> workspace_world
    \<Rightarrow> sdkEngine \<Rightarrow> duration \<Rightarrow> string \<Rightarrow> ContainerRequest \<Rightarrow> bytes \<Rightarrow> string list \<Rightarrow> 's \<times> host_fs \<Rightarrow> Result result \<times> 's \<times> host_fs" where
  "sdk_Run cl prof reader w e d i request input devices sf =
     (let (s, fs) = sf in
      case resolveImage cl e (req_ImageDigest request) s of Inl err \<Rightarrow> (Inl err, s, fs) | Inr _ \<Rightarrow>
      if cl_IsUnpacked cl (se_snapshotter e) s \<noteq> Inr True then (Inl (ErrMsg ''container image is not unpacked''), s, fs)
      else case ensureIdentityAbsent cl i s of Inl err \<Rightarrow> (Inl err, s, fs) | Inr _ \<Rightarrow>
      if req_WorkspaceArchive request then
        (case prepareWorkspace reader w (se_fifoDir e) i input (lim_DiskBytes (req_Limits request)) fs of
           (Inl err, fs1) \<Rightarrow> (Inl err, s, fs1)
         | (Inr directory, fs1) \<Rightarrow>
             (case run_container cl i request (container_spec prof e request [directory] devices) [] d s of (r, s1) \<Rightarrow>
              (case removeWorkspace (ww_stuck w) (path_elements directory) fs1 of (c, fs2) \<Rightarrow>
                 (case (r, c) of (Inl err, _) \<Rightarrow> Inl err | (Inr v, Inl err) \<Rightarrow> Inl err | (Inr v, Inr _) \<Rightarrow> Inr v, s1, fs2))))
      else (case run_container cl i request (container_spec prof e request [] devices) input d s of (r, s1) \<Rightarrow> (r, s1, fs)))"

section \<open>The output buffer\<close>

text \<open>The length of a slice fits an \<open>int\<close>.\<close>

definition slice_ok :: "bytes \<Rightarrow> bool" where
  "slice_ok v \<longleftrightarrow> length v < 2 ^ 63"

lemma output_Write_exact:
  assumes "slice_ok v" and "bo_buffer w = take (unat (bo_maximum w)) written" and "bo_exceeded w \<longleftrightarrow> length written > unat (bo_maximum w)"
  shows "bo_buffer (output_Write w v) = take (unat (bo_maximum w)) (written @ v)"
    and "bo_exceeded (output_Write w v) \<longleftrightarrow> length (written @ v) > unat (bo_maximum w)"
    and "bo_maximum (output_Write w v) = bo_maximum w"
proof -
  let ?M = "unat (bo_maximum w)" and ?b = "length (bo_buffer w)"
  have M: "?M < 2 ^ 64" using unsigned_less[of "bo_maximum w", where ?'a = nat] by simp
  have b: "?b = min (length written) ?M" by (simp add: assms(2))
  have ub: "unat (word_of_nat ?b :: u64) = ?b" using M b by (simp add: unat_of_nat)
  hence av: "unat (bo_maximum w - word_of_nat ?b) = ?M - ?b" using b by (subst unat_sub) (simp_all add: word_le_nat_alt)
  have uv: "unat (word_of_nat (length v) :: u64) = length v" using assms(1) by (simp add: unat_of_nat slice_ok_def)
  let ?n = "min (length v) (?M - ?b)"
  have w': "bo_buffer (output_Write w v) = bo_buffer w @ take ?n v"
    "bo_exceeded (output_Write w v) \<longleftrightarrow> bo_exceeded w \<or> length v > ?M - ?b"
    using av uv by (auto simp: output_Write_def Let_def word_less_nat_alt split: if_splits)
  show "bo_maximum (output_Write w v) = bo_maximum w" by (simp add: output_Write_def Let_def split: prod.splits if_splits)
  show "bo_exceeded (output_Write w v) \<longleftrightarrow> length (written @ v) > ?M" using w'(2) assms(3) b by (auto simp: min_def)
  show "bo_buffer (output_Write w v) = take ?M (written @ v)"
  proof (cases "length written \<le> ?M")
    case True
    thus ?thesis using w'(1) b assms(2) by (simp add: min_def)
  next
    case False
    thus ?thesis using w'(1) b assms(2) by simp
  qed
qed

lemma output_writes:
  assumes "list_all slice_ok chunks"
  shows "bo_buffer (foldl output_Write (newBoundedOutput m) chunks) = take (unat m) (concat chunks)
     \<and> (bo_exceeded (foldl output_Write (newBoundedOutput m) chunks) \<longleftrightarrow> length (concat chunks) > unat m)
     \<and> bo_maximum (foldl output_Write (newBoundedOutput m) chunks) = m"
  using assms
proof (induction chunks rule: rev_induct)
  case Nil
  show ?case by (simp add: newBoundedOutput_def)
next
  case (snoc v vs)
  let ?w = "foldl output_Write (newBoundedOutput m) vs"
  have IH: "bo_maximum ?w = m" "bo_buffer ?w = take (unat m) (concat vs)" "bo_exceeded ?w \<longleftrightarrow> length (concat vs) > unat m" and v: "slice_ok v"
    using snoc by auto
  show ?case using output_Write_exact[OF v, of ?w "concat vs"] by (simp add: IH del: length_concat)
qed

section \<open>What the daemon promises\<close>

text \<open>
  \<open>cs\<close> and \<open>sn\<close> are the containers and the snapshots that exist.  The assumptions are the documented effects of the
  calls: looking up, creating (the options that create the snapshot run before the container is stored), and removing.  Deleting a container with
  the snapshot clean-up option removes both; a call on a container or a snapshot that does not exist changes nothing.
\<close>

definition lookups_ok :: "'s containerd_client \<Rightarrow> ('s \<Rightarrow> string set) \<Rightarrow> ('s \<Rightarrow> string set) \<Rightarrow> bool" where
  "lookups_ok cl cs sn \<longleftrightarrow> (\<forall>i s. (cl_LoadContainer cl i s = Inl ErrNotExist \<longrightarrow> i \<notin> cs s) \<and> (cl_StatSnapshot cl i s = Inl ErrNotExist \<longrightarrow> i \<notin> sn s))"

definition creation_ok :: "'s containerd_client \<Rightarrow> ('s \<Rightarrow> string set) \<Rightarrow> ('s \<Rightarrow> string set) \<Rightarrow> bool" where
  "creation_ok cl cs sn \<longleftrightarrow> (\<forall>i f s. case cl_NewContainer cl i f s of
       (Inr _, s1) \<Rightarrow> cs s1 = insert i (cs s) \<and> sn s1 = insert i (sn s)
     | (Inl _, s1) \<Rightarrow> cs s1 = cs s \<and> sn s1 \<in> {sn s, insert i (sn s)})"

definition keeps :: "('s \<Rightarrow> string set) \<Rightarrow> ('s \<Rightarrow> string set) \<Rightarrow> 's \<Rightarrow> 's \<Rightarrow> bool" where
  "keeps cs sn s s1 \<longleftrightarrow> cs s1 = cs s \<and> sn s1 = sn s"

definition tasks_ok :: "'s containerd_client \<Rightarrow> ('s \<Rightarrow> string set) \<Rightarrow> ('s \<Rightarrow> string set) \<Rightarrow> bool" where
  "tasks_ok cl cs sn \<longleftrightarrow> (\<forall>i s. (\<forall>input. keeps cs sn s (snd (cl_NewTask cl i input s))) \<and> keeps cs sn s (snd (cl_Wait cl i s))
     \<and> keeps cs sn s (snd (cl_Start cl i s)) \<and> keeps cs sn s (snd (snd (cl_End cl i s))) \<and> keeps cs sn s (snd (cl_DeleteTask cl i s)))"

definition removal_ok :: "'s containerd_client \<Rightarrow> ('s \<Rightarrow> string set) \<Rightarrow> ('s \<Rightarrow> string set) \<Rightarrow> bool" where
  "removal_ok cl cs sn \<longleftrightarrow> (\<forall>i s. (case cl_DeleteContainer cl i s of
       (Inr _, s1) \<Rightarrow> cs s1 = cs s - {i} \<and> sn s1 = sn s - {i}
     | (Inl err, s1) \<Rightarrow> if err = ErrNotExist then i \<notin> cs s \<and> keeps cs sn s s1 else cs s1 \<in> {cs s, cs s - {i}} \<and> sn s1 \<in> {sn s, sn s - {i}})
     \<and> (case cl_RemoveSnapshot cl i s of
       (Inr _, s1) \<Rightarrow> cs s1 = cs s \<and> sn s1 = sn s - {i}
     | (Inl err, s1) \<Rightarrow> keeps cs sn s s1 \<and> (err = ErrNotExist \<longrightarrow> i \<notin> sn s)))"

definition daemon_ok :: "'s containerd_client \<Rightarrow> ('s \<Rightarrow> string set) \<Rightarrow> ('s \<Rightarrow> string set) \<Rightarrow> bool" where
  "daemon_ok cl cs sn \<longleftrightarrow> lookups_ok cl cs sn \<and> creation_ok cl cs sn \<and> tasks_ok cl cs sn \<and> removal_ok cl cs sn"

text \<open>A daemon that carries out every removal, or finds nothing to remove.\<close>

definition removals_succeed :: "'s containerd_client \<Rightarrow> bool" where
  "removals_succeed cl \<longleftrightarrow> (\<forall>i s. \<not> isl (not_found_ok (fst (cl_DeleteContainer cl i s))) \<and> \<not> isl (not_found_ok (fst (cl_RemoveSnapshot cl i s))))"

lemma keeps_refl [simp]: "keeps cs sn s s"
  by (simp add: keeps_def)

lemma keeps_trans: "keeps cs sn s s1 \<Longrightarrow> keeps cs sn s1 s2 \<Longrightarrow> keeps cs sn s s2"
  by (simp add: keeps_def)

lemma run_task_keeps:
  assumes "tasks_ok cl cs sn" and "run_task cl i request input d s = (r, task, s2)"
  shows "keeps cs sn s s2"
proof -
  obtain r1 s1 where 1: "cl_NewTask cl i input s = (r1, s1)" by fastforce
  obtain r2 t2 where 2: "cl_Wait cl i s1 = (r2, t2)" by fastforce
  obtain r3 t3 where 3: "cl_Start cl i t2 = (r3, t3)" by fastforce
  obtain r4 ch t4 where 4: "cl_End cl i t3 = (r4, ch, t4)" by (metis prod_cases3)
  have k: "keeps cs sn s s1" "keeps cs sn s1 t2" "keeps cs sn t2 t3" "keeps cs sn t3 t4"
    using assms(1) 1 2 3 4 unfolding tasks_ok_def by (metis snd_conv)+
  have "s2 \<in> {s1, t2, t3, t4}"
    using assms(2) by (cases r1; cases r2; cases r3; cases r4) (auto simp: run_task_def 1 2 3 4 split: sum.splits)
  thus ?thesis using k keeps_trans by (metis empty_iff insert_iff)
qed

lemma cleanup_removes:
  assumes "tasks_ok cl cs sn" and "removal_ok cl cs sn" and "i \<in> cs s" and "cleanup cl i task s = (c, s3)"
    and "\<not> isl c \<or> removals_succeed cl"
  shows "cs s3 = cs s - {i} \<and> sn s3 = sn s - {i}"
proof -
  obtain te s1 where t: "(if task then (case cl_DeleteTask cl i s of (r, s1) \<Rightarrow> (not_found_ok r, s1)) else (Inr (), s)) = (te, s1)" by fastforce
  have "keeps cs sn s (snd (cl_DeleteTask cl i s))" using assms(1) unfolding tasks_ok_def by blast
  hence k: "keeps cs sn s s1" using t by (cases task) (auto split: prod.splits)
  obtain r s2 where r: "cl_DeleteContainer cl i s1 = (r, s2)" by fastforce
  obtain r' t3 where r': "cl_RemoveSnapshot cl i s2 = (r', t3)" by fastforce
  have c: "(if isl (not_found_ok r) then (join_errors [te, not_found_ok r, not_found_ok r'], t3) else (te, s2)) = (c, s3)"
    using assms(4) by (simp only: cleanup_def Let_def t r r' prod.case)
  have "isl (join_errors [te, not_found_ok r, x])" if "isl (not_found_ok r)" for x
    using that by (auto simp: join_errors_def)
  hence ok: "\<not> isl (not_found_ok r)" using assms(5) c r unfolding removals_succeed_def by (metis fst_conv prod.inject)
  have "s3 = s2" using c ok by simp
  moreover have "r \<noteq> Inl ErrNotExist"
    using assms(2,3) r k unfolding removal_ok_def keeps_def by (metis (mono_tags, lifting) old.prod.case old.sum.simps(5))
  ultimately show ?thesis using assms(2)[unfolded removal_ok_def, THEN spec, THEN spec, of i s1] ok r k
    by (cases r) (auto simp: keeps_def not_found_ok_def)
qed

lemma run_container_no_residue:
  assumes "daemon_ok cl cs sn" and "i \<notin> cs s" and "i \<notin> sn s" and "run_container cl i request f input d s = (r, s')"
    and "\<not> isl r \<or> removals_succeed cl"
  shows "keeps cs sn s s'"
proof -
  have ok: "creation_ok cl cs sn" "tasks_ok cl cs sn" "removal_ok cl cs sn" using assms(1) by (auto simp: daemon_ok_def)
  obtain r0 s1 where n: "cl_NewContainer cl i f s = (r0, s1)" by fastforce
  note new = ok(1)[unfolded creation_ok_def, THEN spec, THEN spec, THEN spec, of s i f, unfolded n prod.case]
  show ?thesis
  proof (cases r0)
    case (Inl e)
    obtain r1 s2 where rm: "cl_RemoveSnapshot cl i s1 = (r1, s2)" by fastforce
    have res: "r = Inl e" "s' = s2" using assms(4) Inl n rm by (simp_all add: run_container_def removeFailedSnapshot_def)
    hence "\<not> isl (not_found_ok r1)" using assms(5) rm unfolding removals_succeed_def by (metis fst_conv sum.disc(1))
    thus ?thesis using new Inl assms(3) res(2) ok(3)[unfolded removal_ok_def, THEN spec, THEN spec, of i s1] rm
      by (cases r1) (auto simp: keeps_def not_found_ok_def split: if_splits)
  next
    case (Inr u)
    obtain rt task s2 where t: "run_task cl i request input d s1 = (rt, task, s2)" by (metis prod_cases3)
    obtain c s3 where c: "cleanup cl i task s2 = (c, s3)" by fastforce
    have s': "s' = s3" and rc: "isl c \<longrightarrow> isl r" using assms(4) Inr n t c by (auto simp: run_container_def split: sum.splits)
    note k = run_task_keeps[OF ok(2) t]
    have "i \<in> cs s2" using new Inr k by (simp add: keeps_def)
    from cleanup_removes[OF ok(2,3) this c] rc assms(5) have "cs s3 = cs s2 - {i}" "sn s3 = sn s2 - {i}" by blast+
    thus ?thesis using new Inr k s' assms(2,3) by (simp add: keeps_def)
  qed
qed

lemma identity_absent:
  assumes "daemon_ok cl cs sn" and "ensureIdentityAbsent cl i s = Inr u"
  shows "i \<notin> cs s" and "i \<notin> sn s"
  using assms by (auto simp: daemon_ok_def lookups_ok_def ensureIdentityAbsent_def split: sum.splits if_splits)

text \<open>How a run can end: before anything was made, without a workspace, with a workspace that could not be prepared, with one.\<close>

lemma sdk_Run_cases:
  assumes "sdk_Run cl prof reader w e d i request input devices (s, fs) = (r, s', fs')"
  obtains (refused) err where "r = Inl err" "s' = s" "fs' = fs"
  | (plain) u where "resolveImage cl e (req_ImageDigest request) s = Inr ()" "ensureIdentityAbsent cl i s = Inr u"
      "run_container cl i request (container_spec prof e request [] devices) input d s = (r, s')" "fs' = fs"
  | (unprepared) err where "r = Inl err" "s' = s"
      "prepareWorkspace reader w (se_fifoDir e) i input (lim_DiskBytes (req_Limits request)) fs = (Inl err, fs')"
  | (workspace) u dir fs1 r0 where "resolveImage cl e (req_ImageDigest request) s = Inr ()" "ensureIdentityAbsent cl i s = Inr u"
      "prepareWorkspace reader w (se_fifoDir e) i input (lim_DiskBytes (req_Limits request)) fs = (Inr dir, fs1)"
      "run_container cl i request (container_spec prof e request [dir] devices) [] d s = (r0, s')"
      "fs' = snd (removeWorkspace (ww_stuck w) (path_elements dir) fs1)" "\<not> isl r \<longrightarrow> \<not> isl (fst (removeWorkspace (ww_stuck w) (path_elements dir) fs1)) \<and> r = r0"
      "isl r0 \<longrightarrow> isl r"
proof -
  show thesis
  proof (cases "resolveImage cl e (req_ImageDigest request) s = Inr () \<and> cl_IsUnpacked cl (se_snapshotter e) s = Inr True
      \<and> \<not> isl (ensureIdentityAbsent cl i s)")
    case False
    hence "\<exists>err. r = Inl err" "s' = s" "fs' = fs"
      using assms by (cases "resolveImage cl e (req_ImageDigest request) s"; cases "ensureIdentityAbsent cl i s"; auto simp: sdk_Run_def split: if_splits)+
    thus thesis using refused by blast
  next
    case True
    then obtain u where u: "ensureIdentityAbsent cl i s = Inr u" by (cases "ensureIdentityAbsent cl i s") auto
    show thesis
    proof (cases "req_WorkspaceArchive request")
      case False
      thus thesis using assms True u plain by (auto simp: sdk_Run_def split: prod.splits)
    next
      case ws: True
      obtain pr fs1 where p: "prepareWorkspace reader w (se_fifoDir e) i input (lim_DiskBytes (req_Limits request)) fs = (pr, fs1)" by fastforce
      show thesis
      proof (cases pr)
        case (Inl err)
        thus thesis using assms True u ws p unprepared by (auto simp: sdk_Run_def)
      next
        case (Inr dir)
        obtain r0 s1 where c: "run_container cl i request (container_spec prof e request [dir] devices) [] d s = (r0, s1)" by fastforce
        obtain c2 fs2 where m: "removeWorkspace (ww_stuck w) (path_elements dir) fs1 = (c2, fs2)" by fastforce
        have run: "(case (r0, c2) of (Inl err, _) \<Rightarrow> Inl err | (Inr v, Inl err) \<Rightarrow> Inl err | (Inr v, Inr _) \<Rightarrow> Inr v, s1, fs2) = (r, s', fs')"
          using assms by (simp only: sdk_Run_def Let_def prod.case True u sum.case ws p Inr c m if_True not_True_eq_False if_False HOL.simp_thms)
        have "\<not> isl r \<longrightarrow> \<not> isl c2 \<and> r = r0" "isl r0 \<longrightarrow> isl r" using run by (cases r0; cases c2; auto)+
        moreover have "s' = s1" "fs' = fs2" using run by simp_all
        ultimately show thesis using workspace[of u dir fs1 r0] True u p Inr c m by simp
      qed
    qed
  qed
qed

lemma prepared_elements:
  assumes "prepareWorkspace reader w root i archive maximum fs = (Inr dir, fs1)" and "is_abs root"
  shows "path_elements dir = workspace_of root i"
  using assms by (cases rule: prepare_cases) (auto simp: workspace_elements(3)[OF assms(2)])

lemma collect_result_exact:
  assumes "collect_result cl i request d code chunks s = Inr v" and "list_all slice_ok chunks"
  shows "res_ExitCode v = uint code \<and> res_Output v = concat chunks \<and> length (res_Output v) \<le> unat (lim_OutputBytes (req_Limits request))"
  using assms(1) output_writes[OF assms(2), of "lim_OutputBytes (req_Limits request)"]
  by (auto simp: collect_result_def Let_def simp del: length_concat split: if_splits sum.splits)

lemma run_container_result:
  assumes "run_container cl i request f input d s = (Inr v, s')" and "\<And>s0. list_all slice_ok (fst (snd (cl_End cl i s0)))"
  shows "\<exists>s0 s4 code chunks. cl_End cl i s0 = (EndStatus (Inr code), chunks, s4) \<and> res_ExitCode v = uint code
     \<and> res_Output v = concat chunks \<and> length (res_Output v) \<le> unat (lim_OutputBytes (req_Limits request))"
proof -
  obtain s1 task s2 where t: "run_task cl i request input d s1 = (Inr v, task, s2)"
    using assms(1) by (auto simp: run_container_def split: prod.splits sum.splits)
  then obtain s0 code chunks s4 where e: "cl_End cl i s0 = (EndStatus (Inr code), chunks, s4)" "collect_result cl i request d code chunks s4 = Inr v"
    by (auto simp: run_task_def split: prod.splits sum.splits task_end.splits)
  have "list_all slice_ok chunks" using assms(2)[of s0] e(1) by simp
  thus ?thesis using collect_result_exact[OF e(2)] e(1) by blast
qed

section \<open>Properties\<close>



subsection \<open>A daemon\<close>

text \<open>A small daemon: the containers and the snapshots that exist; every task prints a line and ends.\<close>

definition demo_client :: "(string list \<times> string list) containerd_client" where
  "demo_client = \<lparr>cl_Version = (\<lambda>s. Inr ()), cl_Containers = (\<lambda>s. Inr (fst s)), cl_Snapshots = (\<lambda>s. Inr (snd s)),
     cl_GetImage = (\<lambda>r s. Inr demo_image), cl_IsUnpacked = (\<lambda>n s. Inr True),
     cl_LoadContainer = (\<lambda>i s. if i \<in> set (fst s) then Inr () else Inl ErrNotExist),
     cl_StatSnapshot = (\<lambda>i s. if i \<in> set (snd s) then Inr () else Inl ErrNotExist),
     cl_NewContainer = (\<lambda>i f s. case f demo_oci of Inl e \<Rightarrow> (Inl e, (fst s, i # snd s)) | Inr _ \<Rightarrow> (Inr (), (i # fst s, i # snd s))),
     cl_NewTask = (\<lambda>i inp s. (Inr (), s)), cl_Wait = (\<lambda>i s. (Inr (), s)), cl_Start = (\<lambda>i s. (Inr (), s)),
     cl_End = (\<lambda>i s. (EndStatus (Inr 0), [''o'', ''k''], s)),
     cl_Metrics = (\<lambda>i s. Inr (i, Some \<lparr>tm_CPU_UsageUsec = Some 1, tm_Memory = Some (1, 1), tm_Io_Wbytes = []\<rparr>)),
     cl_DeleteTask = (\<lambda>i s. (Inr (), s)),
     cl_DeleteContainer = (\<lambda>i s. if i \<in> set (fst s) then (Inr (), (removeAll i (fst s), removeAll i (snd s))) else (Inl ErrNotExist, s)),
     cl_RemoveSnapshot = (\<lambda>i s. if i \<in> set (snd s) then (Inr (), (fst s, removeAll i (snd s))) else (Inl ErrNotExist, s))\<rparr>"

definition demo_engine :: sdkEngine where
  "demo_engine = \<lparr>se_namespace = ''tos'', se_snapshotter = ''overlayfs'', se_fifoDir = ''/r'', se_cleanupTimeout = 1, se_imageReference = ''img'',
     se_imageDigest = demo_image, se_cdi = None\<rparr>"

lemma demo_daemon_ok: "daemon_ok demo_client (\<lambda>s. set (fst s)) (\<lambda>s. set (snd s))"
  by (auto simp: daemon_ok_def lookups_ok_def creation_ok_def tasks_ok_def removal_ok_def keeps_def demo_client_def split: sum.splits)

lemma demo_collect: "\<exists>v. collect_result demo_client ''i'' demo_creq 5 0 [''o'', ''k''] s = Inr v"
proof -
  let ?out = "foldl output_Write (newBoundedOutput (lim_OutputBytes (req_Limits demo_creq))) [''o'', ''k'']"
  have "unat (lim_OutputBytes (req_Limits demo_creq)) \<ge> 2" by (simp add: demo_creq_def demo_limits_def)
  moreover have "list_all slice_ok [''o'', ''k'']" by (simp add: slice_ok_def)
  ultimately have "\<not> bo_exceeded ?out" using output_writes[of "[''o'', ''k'']" "lim_OutputBytes (req_Limits demo_creq)"] by simp
  moreover have "cl_Metrics demo_client ''i'' s = Inr (''i'', Some \<lparr>tm_CPU_UsageUsec = Some 1, tm_Memory = Some (1, 1), tm_Io_Wbytes = []\<rparr>)"
    by (simp add: demo_client_def)
  ultimately show ?thesis by (simp add: collect_result_def Let_def usageFromMetric_def del: foldl_Cons)
qed

lemma demo_task: "\<exists>v. run_task demo_client ''i'' demo_creq inp 5 s = (Inr v, True, s)"
  using demo_collect[of s] by (auto simp: run_task_def demo_client_def)

lemma demo_sdk_run:
  "\<exists>v. sdk_Run demo_client demo_seccomp demo_archive demo_workspace demo_engine 5 ''i'' demo_creq [] [] (([], []), []) = (Inr v, ([], []), [])"
proof -
  obtain sp where "fixedIsolationSpec demo_seccomp demo_creq [] demo_oci = Inr sp" using demo_isolated by blast
  hence spec: "container_spec demo_seccomp demo_engine demo_creq [] [] demo_oci = Inr sp" by (simp add: container_spec_def specOpt_def)
  have new: "cl_NewContainer demo_client ''i'' (container_spec demo_seccomp demo_engine demo_creq [] []) ([], []) = (Inr (), ([''i''], [''i'']))"
    using spec by (simp add: demo_client_def)
  have clean: "cleanup demo_client ''i'' True ([''i''], [''i'']) = (Inr (), ([], []))"
    by (simp add: cleanup_def demo_client_def not_found_ok_def Let_def)
  obtain v where "run_task demo_client ''i'' demo_creq [] 5 ([''i''], [''i'']) = (Inr v, True, ([''i''], [''i'']))" using demo_task by blast
  hence "run_container demo_client ''i'' demo_creq (container_spec demo_seccomp demo_engine demo_creq [] []) [] 5 ([], []) = (Inr v, ([], []))"
    by (simp add: run_container_def new clean)
  moreover have "resolveImage demo_client demo_engine (req_ImageDigest demo_creq) ([], []) = Inr ()"
    "ensureIdentityAbsent demo_client ''i'' ([], []) = Inr ()" "cl_IsUnpacked demo_client (se_snapshotter demo_engine) ([], []) = Inr True"
    "\<not> req_WorkspaceArchive demo_creq"
    by (simp_all add: resolveImage_def ensureIdentityAbsent_def demo_client_def demo_engine_def demo_creq_def)
  ultimately show ?thesis by (simp add: sdk_Run_def)
qed



end
