(* ===== verification/Spec2Isabelle.thy ===== *)
theory Spec2Isabelle
  imports Software_Work Commerce_Machine Update_Life Ingress_Life Outbox_Publish Event_Server Artifact_Http Gpu_Isolation
    Probe_Cgroup Resource_Guard Containerd_Sdk
begin

text \<open>
  \<^bold>\<open>A verification library for the TOS AI worker.\<close>

  The repository holds the services of a worker that runs isolated jobs for other agents: a policy that decides what
  may run, a supervisor and a containerd backend that run it, a GPU lease table, a runner with a
  write-ahead journal that runs each paid job once, a gate that binds commercial executions and their
  external effects to authorised plans, stores for artifacts, private uploads and results, a bridge to the messenger, and a
  manager of software releases.  Their code shares a few habits: state lives in private files that are replaced atomically and
  synced; an exclusive lock protects each directory; foreign libraries (containerd, the protocol libraries,
  signature schemes, HTTP clients) are called through narrow interfaces.

  \<^bold>\<open>Conventions.\<close>  Strings and byte slices are char lists, fixed-width integers are words, \<open>int\<close>,
  \<open>time.Duration\<close> and \<open>time.Time\<close> are integers (nanoseconds).  An error is a value of \<open>go_error\<close>, a fallible
  result is of type \<open>'a result\<close>.  A struct is a record whose field names carry a prefix of the struct.  The outcome of every system
  call is an argument (a record \<open>io\<close> of flags, or what a stat returned), so that each error branch of the code is a
  branch of the model.  Code outside the repository is an argument too; where a theorem relies on it, the theorem says so
  as a hypothesis, and its witness instantiates the argument.  A file is kept decoded, together with its size, mode, owner and
  whether it was synced; the size is computed from the JSON encoding where the code bounds it.  Concurrent code is a step
  relation whose steps are the sections the code runs under its mutex.

  \<^bold>\<open>Theories.\<close>
  \<^item> \<open>Go_Prelude\<close>, \<open>Go_Json\<close>, \<open>Go_Net\<close>, \<open>Go_Text\<close>, \<open>Go_Path\<close>, \<open>Go_Utf8\<close>, \<open>Go_Base64\<close>, \<open>Go_Sha256\<close>, \<open>Go_Tar\<close>: the parts of Go's
    standard library the sources use (strings, paths, binary search, fields, relative and joined paths, UTF-8 decoding, JSON encoding and its size, IP addresses and numbers,
    base64 with its round trip, SHA-256, ustar archives with their round trip), and the locale \<open>invariant_system\<close> of
    reachable states.
  \<^item> \<open>Contracts\<close>: the locales \<open>at_most_once\<close> (something granted is never granted again) and \<open>content_store\<close>,
    interpreted on the journal, the gate, the ingress and the artifact store.
  \<^item> \<open>Os_Files\<close>: private directories with a live and a durable image, replacement through a temporary file, and crashes.
  \<^item> \<open>Dir_Lock\<close> (\<open>internal/dirlock\<close>, \<open>internal/osguard\<close>): the ownership lock; no two open locks hold one lock file.
  \<^item> \<open>Executor_Policy\<close> (\<open>pkg/executor/executor.go\<close>): every request that reaches the runtime is hardened and within the
    policy; every result returned is within the limits.  \<open>Executor_Supervisor\<close> (\<open>supervisor.go\<close>): bounded
    admission and draining under every interleaving.
  \<^item> \<open>Containerd_Spec\<close>, \<open>Containerd_Backend\<close> (\<open>pkg/executor/containerdbackend\<close>: \<open>spec.go\<close>, \<open>metrics.go\<close>,
    \<open>backend.go\<close>): the OCI specification is hardened whatever containerd generated, the CPU quota is exact on 64-bit words,
    the engine runs boundedly many distinct executions and closing it ends.
  \<^item> \<open>Containerd_Workspace\<close> (\<open>workspace.go\<close>): preparing a workspace touches nothing of the host outside the directory of the
    execution, leaves nothing when it fails, and otherwise holds exactly the files of the archive, read-only and within the disk limit.
  \<^item> \<open>Containerd_Sdk\<close> (\<open>sdk.go\<close>, \<open>cdi.go\<close>): a run leaves no container, snapshot or file behind, and its result is the
    complete output of the configured image.
  \<^item> \<open>Gpu_Isolation\<close> (\<open>executor/gpuisolation/client.go\<close>): leases are exclusive, and with the containerd backend behind them
    concurrent executions get disjoint device identifiers.
  \<^item> \<open>Probe_Cgroup\<close>, \<open>Probe_Report\<close> (\<open>pkg/probe\<close>: \<open>cgroup_linux.go\<close>, \<open>host.go\<close>, \<open>nvidia.go\<close>) and
    \<open>Resource_Guard\<close> (\<open>internal/resourceguard\<close>): observed resources respect every limit of the control groups, a collected
    report is accepted unless its driver version is unprintable, and readiness follows runs of bad and good samples.
  \<^item> \<open>Software_Journal\<close>, \<open>Software_Work\<close> (\<open>pkg/softwarework\<close>): an execution identity reaches the executor at
    most once over any life of the worker, crashes included; a completed one is replayed; the outcome carries the evidence.
  \<^item> \<open>Artifact_Store\<close> (\<open>pkg/artifactstore\<close>), \<open>Artifact_Http\<close> (\<open>pkg/artifacthttp\<close>): stored objects survive
    crashes, published ones stay published and are served unchanged.
  \<^item> \<open>Commerce_Plan\<close>, \<open>Commerce_Gate\<close>, \<open>Commerce_Effects\<close>, \<open>Commerce_Machine\<close> (\<open>pkg/commercegate/gate.go\<close>): plans
    are canonical, every execution is started and every effect submitted at most once, records only move forward.
  \<^item> \<open>Private_Ingress\<close>, \<open>Ingress_Life\<close> (\<open>pkg/privateingress\<close>): accepted content is final and deletion erases it.
  \<^item> \<open>Update_Manifest\<close> (\<open>pkg/update\<close>), \<open>Software_Update\<close>, \<open>Update_Recovery\<close>, \<open>Update_Life\<close>
    (\<open>pkg/softwareupdate\<close>): the signed message is injective, and the manager refines an abstract release cycle.
  \<^item> \<open>Result_Outbox\<close>, \<open>Outbox_Life\<close>, \<open>Outbox_Publish\<close>, \<open>Event_Server\<close> (\<open>pkg/messengereventbridge\<close>): an
    enqueued result is final, is completed only after the messenger queued it, and an accepted event has a stored result; handlers act
    only on authorised events.

  \<^bold>\<open>Bounds and fuel.\<close>  No definition uses fuel.  Loops over lists are structural recursions; the loops that
  are not (\<open>search_strings\<close>, \<open>tar_read\<close>, the text functions) have termination proofs by a measure; the walk to the mount point of
  a control group counts the code's own bound of 128 steps; the sampling loop of the resource guard may run for ever and is a partial
  function, proved to return exactly when it is cancelled; goroutines that may run for ever are
  step relations, and that closing ends is proved with a measure that every step decreases.

  \<^bold>\<open>Not modelled.\<close>  The capability gate, the A2A, MCP and agent-packet adapters and the outcome evidence and metering of the commerce gate,
  which translate between types of protocol packages that are not part of the repository; their own checks of addresses, digests
  and limits are not covered here.  The unix listeners, the metrics export, the service manager notification, the calls into NVML and
  the commands, which check their configuration and wire system calls, libraries and the modelled components together.  Variants of
  a file for other operating systems and the backend test harness.
\<close>

end
